(* ===== verification/Prelude.thy ===== *)
theory Prelude
  imports Main "HOL-Library.Word" "HOL-Library.Char_ord" "HOL-Library.List_Lexorder"
begin

text \<open>
  The prelude: the vocabulary every component theory shares.
  \<^item> results: Rust's \<open>Result<T, E>\<close> is the sum \<open>'e + 'a\<close>, \<open>Err\<close> its left and \<open>Ok\<close> its
    right injection; \<open>try_bind\<close> is the \<open>?\<close> operator and \<open>collect_results\<close> the
    \<open>collect::<Result<Vec<_>, _>>()\<close> of an iterator;
  \<^item> text: Rust strings are \<open>string\<close>s, with the functions of \<open>std::str\<close> the program calls
    (\<open>trim\<close>, \<open>lines\<close>, \<open>split\<close>, \<open>strip_prefix\<close>, \<open>find\<close>, \<open>to_lowercase\<close>, \<open>join\<close>), each
    with the behaviour of the standard library on ASCII text;
  \<^item> time: an instant is an \<open>int\<close> of nanoseconds, and \<open>timestamp\<close> the whole seconds that
    \<open>chrono\<close> stores;
  \<^item> identifiers: a \<open>Uuid\<close> is its canonical text, so that \<open>to_string\<close> and the parse of a
    stored id are the identity.
\<close>

section \<open>Shared automation\<close>

named_theorems text_simps \<open>evaluation of the text functions\<close>
named_theorems frame_simps \<open>what an operation leaves unchanged\<close>
named_theorems inv_intros \<open>an operation keeps its component's invariant\<close>

section \<open>Results\<close>

abbreviation Ok :: "'a \<Rightarrow> 'e + 'a" where "Ok \<equiv> Inr"
abbreviation Err :: "'e \<Rightarrow> 'e + 'a" where "Err \<equiv> Inl"

definition try_bind :: "'e + 'a \<Rightarrow> ('a \<Rightarrow> 'e + 'b) \<Rightarrow> 'e + 'b" where
  "try_bind r f = (case r of Err e \<Rightarrow> Err e | Ok x \<Rightarrow> f x)"

definition map_err :: "('e \<Rightarrow> 'f) \<Rightarrow> 'e + 'a \<Rightarrow> 'f + 'a" where
  "map_err g r = (case r of Err e \<Rightarrow> Err (g e) | Ok x \<Rightarrow> Ok x)"

definition map_ok :: "('a \<Rightarrow> 'b) \<Rightarrow> 'e + 'a \<Rightarrow> 'e + 'b" where
  "map_ok f r = (case r of Err e \<Rightarrow> Err e | Ok x \<Rightarrow> Ok (f x))"

definition is_ok :: "'e + 'a \<Rightarrow> bool" where
  "is_ok r = (case r of Err _ \<Rightarrow> False | Ok _ \<Rightarrow> True)"

fun collect_results :: "('e + 'a) list \<Rightarrow> 'e + 'a list" where
  "collect_results [] = Ok []"
| "collect_results (r # rs) =
     (case r of Err e \<Rightarrow> Err e
      | Ok x \<Rightarrow> (case collect_results rs of Err e \<Rightarrow> Err e | Ok xs \<Rightarrow> Ok (x # xs)))"

lemma try_bind_simps [simp]:
  "try_bind (Err e) f = Err e" "try_bind (Ok x) f = f x"
  by (simp_all add: try_bind_def)

lemma try_bind_Ok_iff: "try_bind r f = Ok y \<longleftrightarrow> (\<exists>x. r = Ok x \<and> f x = Ok y)"
  by (cases r) simp_all

lemma map_err_simps [simp]:
  "map_err g (Err e) = Err (g e)" "map_err g (Ok x) = Ok x"
  by (simp_all add: map_err_def)

lemma map_err_Ok: "map_err f r = Ok x \<longleftrightarrow> r = Ok x"
  by (cases r) simp_all

lemma map_ok_simps [simp]:
  "map_ok f (Err e) = Err e" "map_ok f (Ok x) = Ok (f x)"
  by (simp_all add: map_ok_def)

lemma map_ok_Ok: "map_ok f r = Ok y \<longleftrightarrow> (\<exists>x. r = Ok x \<and> y = f x)"
  by (cases r) auto

lemma is_ok_map_ok [simp]: "is_ok (map_ok f r) = is_ok r"
  by (cases r) (simp_all add: is_ok_def)

lemma is_ok_simps [simp]: "\<not> is_ok (Err e)" "is_ok (Ok x)"
  by (simp_all add: is_ok_def)

lemma collect_results_map_Ok [simp]: "collect_results (map (\<lambda>x. Ok (f x)) xs) = Ok (map f xs)"
  by (induction xs) simp_all

lemma collect_results_Ok_iff:
  "collect_results rs = Ok xs \<longleftrightarrow> rs = map Ok xs"
proof (induction rs arbitrary: xs)
  case (Cons r rs)
  then show ?case by (cases r; cases xs) (auto split: sum.splits)
qed auto

lemma collect_results_ErrD: "collect_results rs = Err e \<Longrightarrow> Err e \<in> set rs"
  by (induction rs) (auto split: sum.splits)

section \<open>Time and identifiers\<close>

type_synonym uuid = string
type_synonym instant = int  \<comment> \<open>nanoseconds since the epoch\<close>

abbreviation nanos_per_sec :: int where "nanos_per_sec \<equiv> 1000000000"

definition timestamp :: "instant \<Rightarrow> int" where
  "timestamp t = t div nanos_per_sec"

definition from_timestamp :: "int \<Rightarrow> instant" where
  "from_timestamp s = s * nanos_per_sec"

lemma timestamp_from_timestamp [simp]: "timestamp (from_timestamp s) = s"
  by (simp add: timestamp_def from_timestamp_def)

lemma timestamp_mono: "a \<le> b \<Longrightarrow> timestamp a \<le> timestamp b"
  unfolding timestamp_def by (rule zdiv_mono1) simp_all

lemma from_timestamp_le: "from_timestamp (timestamp t) \<le> t"
proof -
  have "t div nanos_per_sec * nanos_per_sec + t mod nanos_per_sec = t"
    by (rule div_mult_mod_eq)
  moreover have "0 \<le> t mod nanos_per_sec" by simp
  ultimately show ?thesis by (simp add: from_timestamp_def timestamp_def)
qed

section \<open>Text\<close>

definition is_ws :: "char \<Rightarrow> bool" where
  "is_ws c \<longleftrightarrow> c \<in> {CHR '' '', CHR 0x09, CHR 0x0A, CHR 0x0B, CHR 0x0C, CHR 0x0D}"

definition is_alnum :: "char \<Rightarrow> bool" where
  "is_alnum c \<longleftrightarrow>
     (CHR ''0'' \<le> c \<and> c \<le> CHR ''9'') \<or> (CHR ''A'' \<le> c \<and> c \<le> CHR ''Z'')
     \<or> (CHR ''a'' \<le> c \<and> c \<le> CHR ''z'')"

definition to_lower_char :: "char \<Rightarrow> char" where
  "to_lower_char c =
     (if CHR ''A'' \<le> c \<and> c \<le> CHR ''Z'' then char_of (of_char c + 32 :: nat) else c)"

definition to_lowercase :: "string \<Rightarrow> string" where
  "to_lowercase s = map to_lower_char s"

definition trim_start :: "string \<Rightarrow> string" where
  "trim_start s = dropWhile is_ws s"

definition trim_end :: "string \<Rightarrow> string" where
  "trim_end s = rev (dropWhile is_ws (rev s))"

definition trim :: "string \<Rightarrow> string" where
  "trim s = trim_end (trim_start s)"

definition trim_matches :: "(char \<Rightarrow> bool) \<Rightarrow> string \<Rightarrow> string" where
  "trim_matches p s = rev (dropWhile p (rev (dropWhile p s)))"

text \<open>\<open>str::split\<close> on a character predicate: every separator ends a piece, empty pieces kept.\<close>

fun split_on :: "(char \<Rightarrow> bool) \<Rightarrow> string \<Rightarrow> string list" where
  "split_on p [] = [[]]"
| "split_on p (c # cs) =
     (if p c then [] # split_on p cs
      else (case split_on p cs of [] \<Rightarrow> [[c]] | w # ws \<Rightarrow> (c # w) # ws))"

definition split_whitespace :: "string \<Rightarrow> string list" where
  "split_whitespace s = filter (\<lambda>w. w \<noteq> []) (split_on is_ws s)"

text \<open>
  \<open>str::lines\<close>: split at each newline, drop the empty piece a final newline leaves and
  a carriage return at the end of a line.
\<close>

definition strip_cr :: "string \<Rightarrow> string" where
  "strip_cr l = (if l \<noteq> [] \<and> last l = CHR 0x0D then butlast l else l)"

definition lines :: "string \<Rightarrow> string list" where
  "lines s = (let ps = split_on (\<lambda>c. c = CHR 0x0A) s in
     map strip_cr (if last ps = [] then butlast ps else ps))"

fun join :: "string \<Rightarrow> string list \<Rightarrow> string" where
  "join sep [] = []"
| "join sep [w] = w"
| "join sep (w # ws) = w @ sep @ join sep ws"

definition starts_with :: "string \<Rightarrow> string \<Rightarrow> bool" where
  "starts_with p s \<longleftrightarrow> take (length p) s = p"

definition strip_prefix :: "string \<Rightarrow> string \<Rightarrow> string option" where
  "strip_prefix p s = (if starts_with p s then Some (drop (length p) s) else None)"

definition strip_suffix :: "string \<Rightarrow> string \<Rightarrow> string option" where
  "strip_suffix q s = map_option rev (strip_prefix (rev q) (rev s))"

text \<open>\<open>str::find\<close>: the least offset at which the pattern occurs.\<close>

fun find_str :: "string \<Rightarrow> string \<Rightarrow> nat option" where
  "find_str p [] = (if p = [] then Some 0 else None)"
| "find_str p (c # cs) =
     (if starts_with p (c # cs) then Some 0 else map_option Suc (find_str p cs))"

abbreviation newline :: string where "newline \<equiv> [CHR 0x0A]"

abbreviation paragraph_break :: string where "paragraph_break \<equiv> [CHR 0x0A, CHR 0x0A]"

lemma starts_with_append [simp]: "starts_with p (p @ s)"
  by (simp add: starts_with_def)

lemma starts_withE: "starts_with p s \<Longrightarrow> (\<And>t. s = p @ t \<Longrightarrow> thesis) \<Longrightarrow> thesis"
  by (metis append_take_drop_id starts_with_def)

lemma starts_with_iff: "starts_with p s \<longleftrightarrow> (\<exists>t. s = p @ t)"
  by (auto elim: starts_withE)

lemma strip_prefix_append [simp]: "strip_prefix p (p @ s) = Some s"
  by (simp add: strip_prefix_def)

lemma strip_prefix_Some_iff: "strip_prefix p s = Some t \<longleftrightarrow> s = p @ t"
  by (auto simp: strip_prefix_def starts_with_iff)

lemma find_str_SomeD: "find_str p s = Some i \<Longrightarrow> i \<le> length s \<and> starts_with p (drop i s)"
  by (induction s arbitrary: i) (auto simp: starts_with_def split: if_splits)

lemma trim_end_append_ws: "is_ws c \<Longrightarrow> trim_end (s @ [c]) = trim_end s"
  by (simp add: trim_end_def)

lemma dropWhile_head: "dropWhile P xs = y # ys \<Longrightarrow> \<not> P y"
  by (metis hd_dropWhile list.distinct(1) list.sel(1))

lemma split_on_nonempty [simp]: "split_on p s \<noteq> []"
  by (induction s) (auto split: list.splits)

lemma split_on_pieces: "w \<in> set (split_on p s) \<Longrightarrow> c \<in> set w \<Longrightarrow> \<not> p c"
  by (induction s arbitrary: w) (fastforce split: if_splits list.splits)+

section \<open>Lists and association lists\<close>

text \<open>\<open>HashMap::insert\<close> on an association list: replace in place or append.\<close>

fun assoc_put :: "'k \<Rightarrow> 'v \<Rightarrow> ('k \<times> 'v) list \<Rightarrow> ('k \<times> 'v) list" where
  "assoc_put k v [] = [(k, v)]"
| "assoc_put k v ((k', v') # xs) =
     (if k' = k then (k, v) # xs else (k', v') # assoc_put k v xs)"

definition assoc_remove :: "'k \<Rightarrow> ('k \<times> 'v) list \<Rightarrow> ('k \<times> 'v) list" where
  "assoc_remove k xs = filter (\<lambda>(k', _). k' \<noteq> k) xs"

lemma map_of_assoc_put [simp]: "map_of (assoc_put k v xs) = (map_of xs)(k \<mapsto> v)"
  by (induction k v xs rule: assoc_put.induct) (auto simp: fun_eq_iff)

lemma keys_assoc_put: "fst ` set (assoc_put k v xs) = insert k (fst ` set xs)"
  by (induction k v xs rule: assoc_put.induct) auto

lemma distinct_assoc_put:
  "distinct (map fst xs) \<Longrightarrow> distinct (map fst (assoc_put k v xs))"
proof (induction k v xs rule: assoc_put.induct)
  case (2 k v k' v' xs)
  then show ?case using keys_assoc_put [of k v xs] by (auto simp: image_iff)
qed simp

lemma map_of_assoc_remove [simp]: "map_of (assoc_remove k xs) = (map_of xs)(k := None)"
  by (induction xs) (auto simp: assoc_remove_def fun_eq_iff)

lemma distinct_assoc_remove:
  "distinct (map fst xs) \<Longrightarrow> distinct (map fst (assoc_remove k xs))"
  by (induction xs) (auto simp: assoc_remove_def)

lemma map_of_filter_keys:
  "map_of (filter (\<lambda>(k, v). P k) xs) = (\<lambda>k. if P k then map_of xs k else None)"
  by (induction xs) (auto simp: fun_eq_iff)

lemma filter_empty_conv_all: "filter P xs = [] \<longleftrightarrow> (\<forall>x \<in> set xs. \<not> P x)"
  by (simp add: filter_empty_conv)

lemma takeWhile_all_id: "(\<And>x. x \<in> set xs \<Longrightarrow> P x) \<Longrightarrow> takeWhile P xs = xs"
  by simp

lemma find_append:
  "find P (xs @ ys) = (case find P xs of Some x \<Rightarrow> Some x | None \<Rightarrow> find P ys)"
  by (induction xs) auto

text \<open>A natural number in decimal, as \<open>format!\<close> prints it.\<close>

fun show_nat :: "nat \<Rightarrow> string" where
  "show_nat n =
     (if n < 10 then [char_of (n + 48)] else show_nat (n div 10) @ [char_of (n mod 10 + 48)])"

declare show_nat.simps [simp del]

definition show_int :: "int \<Rightarrow> string" where
  "show_int i = (if i < 0 then ''-'' @ show_nat (nat (- i)) else show_nat (nat i))"

text \<open>The UTF-8 bytes of an em dash, and text in single quotes.\<close>

definition em_dash :: string where
  "em_dash = [CHR 0xE2, CHR 0x80, CHR 0x94]"

definition quoted :: "string \<Rightarrow> string" where
  "quoted s = [CHR 0x27] @ s @ [CHR 0x27]"

end
