(* ===== verification/Effects.thy ===== *)
theory Effects
  imports Prelude
begin

text \<open>
  Operations that may fail and change a state: a function from the state to a result and
  the next state, as an async method returning a \<open>Result\<close> is one. \<open>eff_bind\<close> is \<open>await\<close>
  followed by \<open>?\<close>: it keeps the changes made before an error. The rules reason about what
  a composed operation preserves (\<open>preserves\<close>) and how it may change the state
  (\<open>within\<close> a reflexive, transitive relation).
\<close>

type_synonym ('s, 'e, 'a) eff = "'s \<Rightarrow> ('e + 'a) \<times> 's"

definition eff_ok :: "'a \<Rightarrow> ('s, 'e, 'a) eff" where "eff_ok x = (\<lambda>s. (Ok x, s))"

definition eff_err :: "'e \<Rightarrow> ('s, 'e, 'a) eff" where "eff_err e = (\<lambda>s. (Err e, s))"

definition eff_bind :: "('s, 'e, 'a) eff \<Rightarrow> ('a \<Rightarrow> ('s, 'e, 'b) eff) \<Rightarrow> ('s, 'e, 'b) eff" where
  "eff_bind m f = (\<lambda>s. case m s of (Err e, s') \<Rightarrow> (Err e, s') | (Ok x, s') \<Rightarrow> f x s')"

definition eff_read :: "('s \<Rightarrow> 'e + 'a) \<Rightarrow> ('s, 'e, 'a) eff" where "eff_read f = (\<lambda>s. (f s, s))"

definition eff_get :: "('s \<Rightarrow> 'a) \<Rightarrow> ('s, 'e, 'a) eff" where "eff_get f = (\<lambda>s. (Ok (f s), s))"

definition eff_mod :: "('s \<Rightarrow> 's) \<Rightarrow> ('s, 'e, unit) eff" where "eff_mod g = (\<lambda>s. (Ok (), g s))"

abbreviation eff_lift :: "'e + 'a \<Rightarrow> ('s, 'e, 'a) eff" where "eff_lift r \<equiv> eff_read (\<lambda>_. r)"

abbreviation eff_seq :: "('s, 'e, 'a) eff \<Rightarrow> ('s, 'e, 'b) eff \<Rightarrow> ('s, 'e, 'b) eff" where
  "eff_seq m k \<equiv> eff_bind m (\<lambda>_. k)"

named_theorems eff_simps \<open>running an operation\<close>

lemma eff_run [eff_simps]:
  "eff_ok x s = (Ok x, s)" "eff_err e s = (Err e, s)" "eff_read f s = (f s, s)"
  "eff_get g s = (Ok (g s), s)" "eff_mod h s = (Ok (), h s)"
  by (simp_all add: eff_ok_def eff_err_def eff_read_def eff_get_def eff_mod_def)

lemma eff_bind_run [eff_simps]:
  "m s = (Ok x, s') \<Longrightarrow> eff_bind m f s = f x s'"
  "m s = (Err e, s') \<Longrightarrow> eff_bind m f s = (Err e, s')"
  by (simp_all add: eff_bind_def)

lemma eff_bind_simps [eff_simps]:
  "eff_bind (eff_ok x) f s = f x s"
  "eff_bind (eff_err e) f s = (Err e, s)"
  "eff_bind (eff_get g) f s = f (g s) s"
  "eff_bind (eff_mod h) f' s = f' () (h s)"
  "eff_bind (eff_read r) f s = (case r s of Err e \<Rightarrow> (Err e, s) | Ok x \<Rightarrow> f x s)"
  by (simp_all add: eff_bind_def eff_run split: sum.split)

lemma eff_bind_Ok_iff:
  "eff_bind m f s = (Ok y, s'') \<longleftrightarrow> (\<exists>x s'. m s = (Ok x, s') \<and> f x s' = (Ok y, s''))"
  by (auto simp: eff_bind_def split: prod.splits sum.splits)

lemma eff_bind_cases:
  assumes "eff_bind m f s = (r, s'')"
  obtains (failed) e where "m s = (Err e, s'')" "r = Err e"
  | (went_on) x s' where "m s = (Ok x, s')" "f x s' = (r, s'')"
  using assms by (auto simp: eff_bind_def split: prod.splits sum.splits)

section \<open>What an operation preserves\<close>

definition preserves :: "('s \<Rightarrow> bool) \<Rightarrow> ('s, 'e, 'a) eff \<Rightarrow> bool" where
  "preserves I m \<longleftrightarrow> (\<forall>s. I s \<longrightarrow> I (snd (m s)))"

definition within :: "('s \<Rightarrow> 's \<Rightarrow> bool) \<Rightarrow> ('s, 'e, 'a) eff \<Rightarrow> bool" where
  "within R m \<longleftrightarrow> (\<forall>s. R s (snd (m s)))"

lemma preservesD: "preserves I m \<Longrightarrow> I s \<Longrightarrow> m s = (r, s') \<Longrightarrow> I s'"
  by (metis preserves_def snd_conv)

lemma withinD: "within R m \<Longrightarrow> m s = (r, s') \<Longrightarrow> R s s'"
  by (metis within_def snd_conv)

lemma preserves_pure [inv_intros]:
  "preserves I (eff_ok x)" "preserves I (eff_err e)" "preserves I (eff_read f)" "preserves I (eff_get g)"
  by (simp_all add: preserves_def eff_simps)

lemma preserves_mod [inv_intros]: "(\<And>s. I s \<Longrightarrow> I (h s)) \<Longrightarrow> preserves I (eff_mod h)"
  by (simp add: preserves_def eff_simps)

lemma preserves_bind [inv_intros]:
  "preserves I m \<Longrightarrow> (\<And>x. preserves I (f x)) \<Longrightarrow> preserves I (eff_bind m f)"
  unfolding preserves_def eff_bind_def by (auto split: prod.split sum.split)

lemma within_pure:
  "reflp R \<Longrightarrow> within R (eff_ok x)" "reflp R \<Longrightarrow> within R (eff_err e)" "reflp R \<Longrightarrow> within R (eff_read f)"
  "reflp R \<Longrightarrow> within R (eff_get g)"
  by (simp_all add: within_def eff_simps reflpD)

lemma within_mod: "(\<And>s. R s (h s)) \<Longrightarrow> within R (eff_mod h)"
  by (simp add: within_def eff_simps)

lemma within_bind:
  assumes "transp R" "within R m" "\<And>x. within R (f x)"
  shows "within R (eff_bind m f)"
  unfolding within_def
proof
  fix s
  show "R s (snd (eff_bind m f s))"
  proof (cases "m s")
    case (Pair r s')
    have ss': "R s s'" by (rule withinD [OF assms(2) Pair])
    show ?thesis
    proof (cases r)
      case (Inl e)
      then show ?thesis using Pair ss' by (simp add: eff_bind_def)
    next
      case (Inr x)
      have "R s' (snd (f x s'))" using assms(3) [of x] by (simp add: within_def)
      with assms(1) ss' have "R s (snd (f x s'))" by (rule transpD)
      then show ?thesis using Pair Inr by (simp add: eff_bind_def)
    qed
  qed
qed

text \<open>Operations that leave a component \<open>f\<close> of the state alone.\<close>

definition keeps :: "('s \<Rightarrow> 'c) \<Rightarrow> ('s, 'e, 'a) eff \<Rightarrow> bool" where
  "keeps f m \<longleftrightarrow> (\<forall>s. f (snd (m s)) = f s)"

lemma keepsD: "keeps f m \<Longrightarrow> m s = (r, s') \<Longrightarrow> f s' = f s"
  by (metis keeps_def snd_conv)

lemma keeps_within: "keeps f m \<longleftrightarrow> within (\<lambda>s s'. f s' = f s) m"
  by (simp add: keeps_def within_def)

lemma keeps_pure [inv_intros]:
  "keeps f (eff_ok x)" "keeps f (eff_err e)" "keeps f (eff_read r)" "keeps f (eff_get g)"
  by (simp_all add: keeps_def eff_simps)

lemma keeps_mod [inv_intros]: "(\<And>s. f (h s) = f s) \<Longrightarrow> keeps f (eff_mod h)"
  by (simp add: keeps_def eff_simps)

lemma keeps_bind [inv_intros]: "keeps f m \<Longrightarrow> (\<And>x. keeps f (k x)) \<Longrightarrow> keeps f (eff_bind m k)"
  unfolding keeps_within by (rule within_bind) (auto simp: transp_def)

end
