(* ===== verification/Json.thy ===== *)
theory Json
  imports Prelude
begin

text \<open>
  JSON values as \<open>serde_json::Value\<close> has them. An object is the ordered map of
  \<open>serde_json\<close> built without \<open>preserve_order\<close>: a list of entries in strictly increasing
  order of their keys (\<open>wf_json\<close>). A number is a non-negative integer, a negative integer
  or the bit pattern of a double. Printing and parsing JSON text belong to \<open>serde_json\<close>
  and are parameters of the definitions that use them.
\<close>

datatype json_number = PosInt nat | NegInt int | Float "64 word"

datatype json =
    JNull
  | JBool bool
  | JNumber json_number
  | JString string
  | JArray "json list"
  | JObject "(string \<times> json) list"

type_synonym json_object = "(string \<times> json) list"

section \<open>Access\<close>

definition obj_get :: "string \<Rightarrow> json_object \<Rightarrow> json option" where
  "obj_get k kvs = map_of kvs k"

fun as_object :: "json \<Rightarrow> json_object option" where
  "as_object (JObject kvs) = Some kvs"
| "as_object _ = None"

fun as_array :: "json \<Rightarrow> json list option" where
  "as_array (JArray vs) = Some vs"
| "as_array _ = None"

fun as_str :: "json \<Rightarrow> string option" where
  "as_str (JString s) = Some s"
| "as_str _ = None"

fun as_u64 :: "json \<Rightarrow> nat option" where
  "as_u64 (JNumber (PosInt n)) = Some n"
| "as_u64 _ = None"

text \<open>\<open>v.get(k)\<close>, and the index \<open>v[k]\<close> that yields \<open>Null\<close> for an absent key.\<close>

definition json_get :: "string \<Rightarrow> json \<Rightarrow> json option" where
  "json_get k v = Option.bind (as_object v) (obj_get k)"

definition json_index :: "json \<Rightarrow> string \<Rightarrow> json" where
  "json_index v k = (case json_get k v of Some x \<Rightarrow> x | None \<Rightarrow> JNull)"

definition str_or :: "string \<Rightarrow> json \<Rightarrow> string" where
  "str_or d v = (case as_str v of Some s \<Rightarrow> s | None \<Rightarrow> d)"

section \<open>Ordered objects\<close>

fun obj_insert :: "string \<Rightarrow> json \<Rightarrow> json_object \<Rightarrow> json_object" where
  "obj_insert k v [] = [(k, v)]"
| "obj_insert k v ((k', v') # kvs) =
     (if k = k' then (k, v) # kvs
      else if k < k' then (k, v) # (k', v') # kvs
      else (k', v') # obj_insert k v kvs)"

definition sorted_obj :: "json_object \<Rightarrow> bool" where
  "sorted_obj kvs \<longleftrightarrow> sorted_wrt (<) (map fst kvs)"

fun obj_from :: "(string \<times> json) list \<Rightarrow> json_object" where
  "obj_from [] = []"
| "obj_from ((k, v) # kvs) = obj_insert k v (obj_from kvs)"

lemma obj_get_simps [simp]:
  "obj_get k [] = None"
  "obj_get k ((k', v) # kvs) = (if k' = k then Some v else obj_get k kvs)"
  by (simp_all add: obj_get_def)

lemma keys_obj_insert: "fst ` set (obj_insert k v kvs) = insert k (fst ` set kvs)"
  by (induction k v kvs rule: obj_insert.induct) auto

lemma obj_get_insert_same [simp]: "obj_get k (obj_insert k v kvs) = Some v"
  by (induction k v kvs rule: obj_insert.induct) auto

lemma obj_get_insert_other [simp]:
  "j \<noteq> k \<Longrightarrow> obj_get j (obj_insert k v kvs) = obj_get j kvs"
  by (induction k v kvs rule: obj_insert.induct) auto

lemma obj_get_None_iff: "obj_get k kvs = None \<longleftrightarrow> k \<notin> fst ` set kvs"
  by (simp add: obj_get_def map_of_eq_None_iff)

lemma obj_get_SomeD: "obj_get k kvs = Some v \<Longrightarrow> (k, v) \<in> set kvs"
  by (auto simp: obj_get_def dest: map_of_SomeD)

lemma sorted_obj_insert: "sorted_obj kvs \<Longrightarrow> sorted_obj (obj_insert k v kvs)"
proof (induction k v kvs rule: obj_insert.induct)
  case (2 k v k' v' kvs)
  then have tail: "sorted_obj kvs" "\<forall>x \<in> set (map fst kvs). k' < x"
    by (auto simp: sorted_obj_def)
  have keys: "set (map fst (obj_insert k v kvs)) = insert k (set (map fst kvs))"
    using keys_obj_insert [of k v kvs] by simp
  consider (eq) "k = k'" | (less) "k < k'" | (gr) "k' < k" by force
  then show ?case
  proof cases
    case gr
    with 2 tail have "sorted_obj (obj_insert k v kvs)" by auto
    with gr tail keys show ?thesis by (auto simp: sorted_obj_def)
  qed (use "2.prems" tail in \<open>auto simp: sorted_obj_def intro: less_trans\<close>)
qed (simp add: sorted_obj_def)

lemma sorted_obj_from: "sorted_obj (obj_from kvs)"
  by (induction kvs rule: obj_from.induct)
    (auto simp: sorted_obj_insert, simp add: sorted_obj_def)

lemma sorted_obj_tl: "sorted_obj (kv # kvs) \<Longrightarrow> sorted_obj kvs"
  by (cases kv) (simp add: sorted_obj_def)

lemma sorted_obj_distinct: "sorted_obj kvs \<Longrightarrow> distinct (map fst kvs)"
  unfolding sorted_obj_def by (simp add: strict_sorted_iff)

lemma json_index_JObject [simp]:
  "json_index (JObject kvs) k = (case obj_get k kvs of Some v \<Rightarrow> v | None \<Rightarrow> JNull)"
  by (simp add: json_index_def json_get_def)

lemma json_get_JObject [simp]: "json_get k (JObject kvs) = obj_get k kvs"
  by (simp add: json_get_def)

text \<open>The entries of an object are smaller than the object: for recursion over schemas.\<close>

lemma size_obj_get [termination_simp]:
  "obj_get k kvs = Some v \<Longrightarrow> size v < size (JObject kvs)"
proof (induction kvs)
  case (Cons kv kvs)
  then show ?case by (cases kv) (auto split: if_splits)
qed simp

end
