(* ===== verification/Core_Types.thy ===== *)
theory Core_Types
  imports Json
begin

text \<open>
  The data model of the core crate: message content and roles
  (\<open>avs-core/src/memory/mod.rs\<close>), the errors with their displayed text
  (\<open>avs-core/src/error.rs\<close>), requests, responses and token counts
  (\<open>avs-core/src/model.rs\<close>), tool calls (\<open>avs-core/src/tool.rs\<close>), and the outcome and the
  human-approval hook of a strategy (\<open>avs-core/src/strategy.rs\<close>, \<open>avs-core/src/hitl.rs\<close>).
\<close>

section \<open>Messages\<close>

datatype content_block =
    Text (block_text: string)
  | ToolUse (use_id: string) (use_name: string) (use_input: json)
  | ToolResult (tool_use_id: string) (result_content: string) (is_error: bool)

datatype message_role = RoleSystem | RoleUser | RoleAssistant | RoleTool

record message =
  msg_role :: message_role
  msg_content :: "content_block list"

fun block_as_text :: "content_block \<Rightarrow> string" where
  "block_as_text (Text t) = t"
| "block_as_text (ToolUse i n v) = ''[tool_use: '' @ n @ '']''"
| "block_as_text (ToolResult i c e) = ''[tool_result '' @ i @ '': '' @ c @ '']''"

definition content_as_text :: "content_block list \<Rightarrow> string" where
  "content_as_text bs = join newline (map block_as_text bs)"

definition text_message :: "message_role \<Rightarrow> string \<Rightarrow> message" where
  "text_message r t = \<lparr>msg_role = r, msg_content = [Text t]\<rparr>"

definition message_as_text :: "message \<Rightarrow> string" where
  "message_as_text m = content_as_text (msg_content m)"

lemma text_message_simps [simp]:
  "msg_role (text_message r t) = r" "msg_content (text_message r t) = [Text t]"
  by (simp_all add: text_message_def)

lemma message_as_text_text_message [simp]: "message_as_text (text_message r t) = t"
  by (simp add: message_as_text_def content_as_text_def)

section \<open>Errors\<close>

datatype model_error =
    ApiError string
  | ModelTimeout string
  | InvalidResponse string
  | RateLimited string
  | CircuitOpen string
  | UnknownProvider string
  | InvalidApiKey string
  | MissingSetting string string

datatype tool_error = Execution string | ToolNotFound string | InvalidArgs string

datatype config_error = ConfigInvalid string | ConfigMissing string | ConfigFile string

datatype guardrail_error = PromptInjection string | OutputFiltered string

datatype agent_error =
    ModelErr model_error
  | ToolErr tool_error
  | ConfigErr config_error
  | GuardrailErr guardrail_error
  | MemoryErr string
  | InterruptedErr uuid

fun tool_error_text :: "tool_error \<Rightarrow> string" where
  "tool_error_text (Execution m) = ''Execution failed: '' @ m"
| "tool_error_text (ToolNotFound m) = ''Not found: '' @ m"
| "tool_error_text (InvalidArgs m) = ''Invalid arguments: '' @ m"

fun guardrail_error_text :: "guardrail_error \<Rightarrow> string" where
  "guardrail_error_text (PromptInjection m) = ''Prompt injection: '' @ m"
| "guardrail_error_text (OutputFiltered m) = ''Output filtered: '' @ m"

fun config_error_text :: "config_error \<Rightarrow> string" where
  "config_error_text (ConfigInvalid m) = ''Invalid config: '' @ m"
| "config_error_text (ConfigMissing m) = ''Missing field: '' @ m"
| "config_error_text (ConfigFile m) = ''File error: '' @ m"

section \<open>Requests, responses and token counts\<close>

text \<open>Token counts are 32-bit; their addition wraps, as it does in a release build.\<close>

record usage_stats =
  input_tokens :: "32 word"
  output_tokens :: "32 word"
  cache_write_tokens :: "32 word"
  cache_read_tokens :: "32 word"

definition usage_default :: usage_stats where
  "usage_default = \<lparr>input_tokens = 0, output_tokens = 0, cache_write_tokens = 0,
     cache_read_tokens = 0\<rparr>"

definition usage_add_assign :: "usage_stats \<Rightarrow> usage_stats \<Rightarrow> usage_stats" where
  "usage_add_assign u v =
     \<lparr>input_tokens = input_tokens u + input_tokens v,
      output_tokens = output_tokens u + output_tokens v,
      cache_write_tokens = cache_write_tokens u + cache_write_tokens v,
      cache_read_tokens = cache_read_tokens u + cache_read_tokens v\<rparr>"

record tool_definition =
  def_name :: string
  def_description :: string
  def_parameters :: json

record generate_request =
  req_system :: "string option"
  req_messages :: "message list"
  req_tools :: "tool_definition list option"
  req_response_format :: "json option"

record generate_response =
  resp_content :: "content_block list"
  resp_usage :: usage_stats

definition response_as_text :: "generate_response \<Rightarrow> string" where
  "response_as_text r = content_as_text (resp_content r)"

section \<open>Tool calls\<close>

record tool_call =
  call_id :: string
  call_name :: string
  call_args :: json

record tool_call_result =
  res_id :: string
  res_name :: string
  res_result :: "tool_error + json"

section \<open>Strategies and the approval hook\<close>

record hitl_interrupt =
  int_approval_id :: uuid
  int_kind_json :: string
  int_history :: "message list"
  int_pending_calls :: "tool_call list"
  int_active_tool_names :: "string list"

datatype strategy_outcome = Done string | Interrupted hitl_interrupt

text \<open>
  A hook intercepts a call or lets it proceed. Checking a tool may submit a request to
  an approval queue, so it takes and returns the queue's state \<open>'q\<close>.
\<close>

record 'q hitl_hook =
  check_tool :: "string \<Rightarrow> json \<Rightarrow> 'q \<Rightarrow> (uuid \<times> string) option \<times> 'q"
  required_tool_names :: "string list"

end
