(* ===== verification/Session_Store.thy ===== *)
theory Session_Store
  imports Core_Types "HOL-Library.Multiset"
begin

text \<open>
  Layer 2, the durable session store: \<open>SqliteSessionMemory\<close>
  (\<open>avs-memory/src/session/sqlite.rs\<close>, \<open>sqlite_maintenance.rs\<close>, \<open>types.rs\<close>,
  \<open>store.rs\<close> and the schema in \<open>avs-memory/migrations\<close>).

  The state is the two tables of the schema. A query of the source is the comprehension
  its SQL denotes; an \<open>UPDATE\<close> that matches no row is \<open>NotFound\<close>; the primary key and the
  \<open>UNIQUE\<close> constraint reject a duplicate; deleting a session cascades to its messages
  (\<open>ON DELETE CASCADE\<close>, foreign keys are on). \<open>db_fault\<close> is a pool whose every call fails.
  The clock and the generated identifier are arguments. The JSON text of message content
  belongs to \<open>serde_json\<close> and is the \<open>content_codec\<close>.

  The locale \<open>session_memory\<close> states what the trait promises its clients; it is
  interpreted on the SQLite model.
\<close>

section \<open>Types\<close>

datatype session_status = Active | Suspended | Completed

fun status_to_str :: "session_status \<Rightarrow> string" where
  "status_to_str Active = ''active''"
| "status_to_str Suspended = ''interrupted''"
| "status_to_str Completed = ''completed''"

definition status_from_str :: "string \<Rightarrow> string + session_status" where
  "status_from_str s =
     (if s = ''active'' then Ok Active
      else if s = ''interrupted'' then Ok Suspended
      else if s = ''completed'' then Ok Completed
      else Err (''unknown status: '' @ s))"

record session =
  ses_id :: uuid
  ses_user_id :: string
  ses_status :: session_status
  ses_created_at :: instant
  ses_updated_at :: instant

definition new_session :: "instant \<Rightarrow> uuid \<Rightarrow> string \<Rightarrow> session" where
  "new_session now i user_id =
     \<lparr>ses_id = i, ses_user_id = user_id, ses_status = Active,
      ses_created_at = now, ses_updated_at = now\<rparr>"

datatype session_memory_error = Database string | NotFound uuid

fun role_to_str :: "message_role \<Rightarrow> string" where
  "role_to_str RoleUser = ''user''"
| "role_to_str RoleAssistant = ''assistant''"
| "role_to_str RoleSystem = ''system''"
| "role_to_str RoleTool = ''tool''"

definition str_to_role :: "string \<Rightarrow> session_memory_error + message_role" where
  "str_to_role r =
     (if r = ''user'' then Ok RoleUser
      else if r = ''assistant'' then Ok RoleAssistant
      else if r = ''system'' then Ok RoleSystem
      else if r = ''tool'' then Ok RoleTool
      else Err (Database (''corrupt message row: unknown role '' @ [CHR 0x27] @ r @ [CHR 0x27])))"

record content_codec =
  content_to_text :: "content_block list \<Rightarrow> string"
  content_from_text :: "string \<Rightarrow> content_block list option"

definition encode_content :: "content_codec \<Rightarrow> content_block list \<Rightarrow> string" where
  "encode_content cd bs = content_to_text cd bs"

text \<open>A row that is not JSON is a legacy plain string: one text block.\<close>

definition decode_content :: "content_codec \<Rightarrow> string \<Rightarrow> content_block list" where
  "decode_content cd raw = (case content_from_text cd raw of Some bs \<Rightarrow> bs | None \<Rightarrow> [Text raw])"

section \<open>Tables\<close>

record session_row =
  row_id :: uuid
  row_user_id :: string
  row_status :: string
  row_created_at :: int
  row_updated_at :: int
  row_watermark :: int
  row_skill_context :: "string option"
  row_phase_context :: "string option"
  row_interrupted :: "string option"

record message_row =
  mrow_session :: uuid
  mrow_role :: string
  mrow_content :: string
  mrow_seq :: int
  mrow_created_at :: int

record db =
  db_sessions :: "session_row list"
  db_messages :: "message_row list"
  db_fault :: "string option"

definition empty_db :: db where
  "empty_db = \<lparr>db_sessions = [], db_messages = [], db_fault = None\<rparr>"

definition find_row :: "db \<Rightarrow> uuid \<Rightarrow> session_row option" where
  "find_row db i = find (\<lambda>r. row_id r = i) (db_sessions db)"

definition rows_of :: "db \<Rightarrow> uuid \<Rightarrow> message_row list" where
  "rows_of db i = sort_key mrow_seq (filter (\<lambda>m. mrow_session m = i) (db_messages db))"

definition row_to_session :: "session_row \<Rightarrow> session" where
  "row_to_session r =
     \<lparr>ses_id = row_id r, ses_user_id = row_user_id r,
      ses_status = (case status_from_str (row_status r) of Ok st \<Rightarrow> st | Err _ \<Rightarrow> Active),
      ses_created_at = from_timestamp (row_created_at r),
      ses_updated_at = from_timestamp (row_updated_at r)\<rparr>"

definition row_to_message :: "content_codec \<Rightarrow> message_row \<Rightarrow> session_memory_error + message" where
  "row_to_message cd m =
     map_ok (\<lambda>r. \<lparr>msg_role = r, msg_content = decode_content cd (mrow_content m)\<rparr>)
       (str_to_role (mrow_role m))"

text \<open>A query and an update fail alike when the pool does.\<close>

definition query :: "db \<Rightarrow> session_memory_error + 'a \<Rightarrow> session_memory_error + 'a" where
  "query db r = (case db_fault db of Some e \<Rightarrow> Err (Database e) | None \<Rightarrow> r)"

definition update_row ::
  "uuid \<Rightarrow> (session_row \<Rightarrow> session_row) \<Rightarrow> db \<Rightarrow> (session_memory_error + unit) \<times> db" where
  "update_row i f db =
     (case db_fault db of
        Some e \<Rightarrow> (Err (Database e), db)
      | None \<Rightarrow>
          if \<exists>r \<in> set (db_sessions db). row_id r = i
          then (Ok (), db\<lparr>db_sessions := map (\<lambda>r. if row_id r = i then f r else r) (db_sessions db)\<rparr>)
          else (Err (NotFound i), db))"

definition insert_session_row :: "session_row \<Rightarrow> db \<Rightarrow> (session_memory_error + unit) \<times> db" where
  "insert_session_row r db =
     (case db_fault db of
        Some e \<Rightarrow> (Err (Database e), db)
      | None \<Rightarrow>
          if \<exists>r' \<in> set (db_sessions db). row_id r' = row_id r
          then (Err (Database ''UNIQUE constraint failed: sessions.id''), db)
          else (Ok (), db\<lparr>db_sessions := db_sessions db @ [r]\<rparr>))"

definition insert_message_row :: "message_row \<Rightarrow> db \<Rightarrow> session_memory_error + db" where
  "insert_message_row m db =
     (if \<exists>m' \<in> set (db_messages db). mrow_session m' = mrow_session m \<and> mrow_seq m' = mrow_seq m
      then Err (Database ''UNIQUE constraint failed: messages.session_id, messages.sequence_num'')
      else Ok (db\<lparr>db_messages := db_messages db @ [m]\<rparr>))"

section \<open>Sessions\<close>

definition create_session_row ::
  "instant \<Rightarrow> uuid \<Rightarrow> string \<Rightarrow> string option \<Rightarrow> session_row" where
  "create_session_row now i user_id ctx =
     \<lparr>row_id = i, row_user_id = user_id, row_status = status_to_str Active,
      row_created_at = timestamp now, row_updated_at = timestamp now, row_watermark = 0,
      row_skill_context = ctx, row_phase_context = None, row_interrupted = None\<rparr>"

definition create :: "instant \<Rightarrow> uuid \<Rightarrow> string \<Rightarrow> db \<Rightarrow> (session_memory_error + session) \<times> db" where
  "create now i user_id db =
     (case insert_session_row (create_session_row now i user_id None) db of
        (Err e, db') \<Rightarrow> (Err e, db')
      | (Ok _, db') \<Rightarrow> (Ok (new_session now i user_id), db'))"

definition create_with_skill_context ::
  "instant \<Rightarrow> uuid \<Rightarrow> string \<Rightarrow> string \<Rightarrow> db \<Rightarrow> (session_memory_error + session) \<times> db" where
  "create_with_skill_context now i user_id ctx db =
     (case insert_session_row (create_session_row now i user_id (Some ctx)) db of
        (Err e, db') \<Rightarrow> (Err e, db')
      | (Ok _, db') \<Rightarrow> (Ok (new_session now i user_id), db'))"

definition get :: "db \<Rightarrow> uuid \<Rightarrow> session_memory_error + session option" where
  "get db i = query db (Ok (map_option row_to_session (find_row db i)))"

definition update_status ::
  "instant \<Rightarrow> uuid \<Rightarrow> session_status \<Rightarrow> db \<Rightarrow> (session_memory_error + unit) \<times> db" where
  "update_status now i st db =
     update_row i (\<lambda>r. r\<lparr>row_status := status_to_str st, row_updated_at := timestamp now\<rparr>) db"

definition list_by_user :: "db \<Rightarrow> string \<Rightarrow> session_memory_error + session list" where
  "list_by_user db user_id =
     query db (Ok (map row_to_session
       (sort_key (\<lambda>r. - row_created_at r)
         (filter (\<lambda>r. row_user_id r = user_id) (db_sessions db)))))"

section \<open>Transcript\<close>

definition max_sequence :: "db \<Rightarrow> uuid \<Rightarrow> int" where
  "max_sequence db i =
     (case map mrow_seq (filter (\<lambda>m. mrow_session m = i) (db_messages db)) of
        [] \<Rightarrow> 0 | s # ss \<Rightarrow> fold max ss s)"

definition next_sequence :: "db \<Rightarrow> uuid \<Rightarrow> int" where
  "next_sequence db i = max_sequence db i + 1"

definition message_to_row ::
  "content_codec \<Rightarrow> instant \<Rightarrow> uuid \<Rightarrow> int \<Rightarrow> message \<Rightarrow> message_row" where
  "message_to_row cd now i n m =
     \<lparr>mrow_session = i, mrow_role = role_to_str (msg_role m),
      mrow_content = encode_content cd (msg_content m), mrow_seq = n,
      mrow_created_at = timestamp now\<rparr>"

text \<open>One transaction: either every message is inserted or the database is unchanged.\<close>

fun insert_all ::
  "content_codec \<Rightarrow> instant \<Rightarrow> uuid \<Rightarrow> int \<Rightarrow> message list \<Rightarrow> db \<Rightarrow> session_memory_error + db" where
  "insert_all cd now i n [] db = Ok db"
| "insert_all cd now i n (m # ms) db =
     try_bind (insert_message_row (message_to_row cd now i n m) db) (insert_all cd now i (n + 1) ms)"

definition append_messages ::
  "content_codec \<Rightarrow> instant \<Rightarrow> uuid \<Rightarrow> message list \<Rightarrow> db \<Rightarrow> (session_memory_error + unit) \<times> db" where
  "append_messages cd now i ms db =
     (case get db i of
        Err e \<Rightarrow> (Err e, db)
      | Ok None \<Rightarrow> (Err (NotFound i), db)
      | Ok (Some _) \<Rightarrow>
          (case insert_all cd now i (next_sequence db i) ms db of
             Err e \<Rightarrow> (Err e, db)
           | Ok db' \<Rightarrow> (Ok (), db')))"

definition append_message ::
  "content_codec \<Rightarrow> instant \<Rightarrow> uuid \<Rightarrow> message \<Rightarrow> db \<Rightarrow> (session_memory_error + unit) \<times> db" where
  "append_message cd now i m db = append_messages cd now i [m] db"

definition append_turn ::
  "content_codec \<Rightarrow> instant \<Rightarrow> uuid \<Rightarrow> message \<Rightarrow> message \<Rightarrow> db \<Rightarrow> (session_memory_error + unit) \<times> db" where
  "append_turn cd now i user_message assistant_message db =
     append_messages cd now i [user_message, assistant_message] db"

definition load_messages :: "content_codec \<Rightarrow> db \<Rightarrow> uuid \<Rightarrow> session_memory_error + message list" where
  "load_messages cd db i = query db (collect_results (map (row_to_message cd) (rows_of db i)))"

section \<open>Watermark and retention\<close>

definition get_watermark :: "db \<Rightarrow> uuid \<Rightarrow> session_memory_error + int" where
  "get_watermark db i =
     query db (case find_row db i of
        Some r \<Rightarrow> Ok (row_watermark r)
      | None \<Rightarrow> Err (Database
          ''no rows returned by a query that expected to return at least one row''))"

definition advance_watermark :: "uuid \<Rightarrow> int \<Rightarrow> db \<Rightarrow> (session_memory_error + unit) \<times> db" where
  "advance_watermark i w db =
     update_row i (\<lambda>r. r\<lparr>row_watermark := max (row_watermark r) w\<rparr>) db"

definition load_messages_above_watermark ::
  "content_codec \<Rightarrow> db \<Rightarrow> uuid \<Rightarrow> session_memory_error + (int \<times> message) list" where
  "load_messages_above_watermark cd db i =
     try_bind (get_watermark db i) (\<lambda>wm.
       collect_results (map (\<lambda>m. map_ok (Pair (mrow_seq m)) (row_to_message cd m))
         (filter (\<lambda>m. wm < mrow_seq m) (rows_of db i))))"

definition needs_maintenance :: "instant \<Rightarrow> db \<Rightarrow> session_row \<Rightarrow> bool" where
  "needs_maintenance now db r \<longleftrightarrow>
     (\<exists>m \<in> set (db_messages db). mrow_session m = row_id r \<and>
        (row_watermark r < mrow_seq m
         \<or> (mrow_seq m \<le> row_watermark r \<and> mrow_created_at m < timestamp now)))"

definition list_sessions_needing_maintenance ::
  "instant \<Rightarrow> db \<Rightarrow> session_memory_error + session list" where
  "list_sessions_needing_maintenance now db =
     query db (Ok (map row_to_session
       (sort_key row_updated_at (filter (needs_maintenance now db) (db_sessions db)))))"

definition expired_row :: "uuid \<Rightarrow> int \<Rightarrow> int \<Rightarrow> message_row \<Rightarrow> bool" where
  "expired_row i cutoff wm m \<longleftrightarrow>
     mrow_session m = i \<and> mrow_created_at m < cutoff \<and> mrow_seq m \<le> wm"

definition cleanup_expired_messages ::
  "uuid \<Rightarrow> int \<Rightarrow> int \<Rightarrow> db \<Rightarrow> (session_memory_error + nat) \<times> db" where
  "cleanup_expired_messages i cutoff wm db =
     (if wm = 0 then (Ok 0, db)
      else (case get_watermark db i of
          Err e \<Rightarrow> (Err e, db)
        | Ok stored \<Rightarrow>
            let eff = min wm stored in
            if eff = 0 then (Ok 0, db)
            else (Ok (length (filter (expired_row i cutoff eff) (db_messages db))),
                  db\<lparr>db_messages := filter (\<lambda>m. \<not> expired_row i cutoff eff m) (db_messages db)\<rparr>)))"

definition delete_rows :: "(session_row \<Rightarrow> bool) \<Rightarrow> db \<Rightarrow> db" where
  "delete_rows P db =
     (let gone = row_id ` set (filter P (db_sessions db)) in
      db\<lparr>db_sessions := filter (\<lambda>r. \<not> P r) (db_sessions db),
         db_messages := filter (\<lambda>m. mrow_session m \<notin> gone) (db_messages db)\<rparr>)"

definition delete_ended_sessions_before :: "int \<Rightarrow> db \<Rightarrow> (session_memory_error + nat) \<times> db" where
  "delete_ended_sessions_before cutoff db =
     (case db_fault db of
        Some e \<Rightarrow> (Err (Database e), db)
      | None \<Rightarrow>
          let P = (\<lambda>r. row_status r \<noteq> ''active'' \<and> row_updated_at r < cutoff) in
          (Ok (length (filter P (db_sessions db))), delete_rows P db))"

definition delete_session :: "uuid \<Rightarrow> db \<Rightarrow> (session_memory_error + unit) \<times> db" where
  "delete_session i db =
     (case db_fault db of
        Some e \<Rightarrow> (Err (Database e), db)
      | None \<Rightarrow> (Ok (), delete_rows (\<lambda>r. row_id r = i) db))"

section \<open>Skill, phase and interrupt columns\<close>

definition column :: "(session_row \<Rightarrow> string option) \<Rightarrow> db \<Rightarrow> uuid \<Rightarrow> session_memory_error + string option" where
  "column f db i =
     query db (case find_row db i of None \<Rightarrow> Err (NotFound i) | Some r \<Rightarrow> Ok (f r))"

definition set_skill_context :: "uuid \<Rightarrow> string option \<Rightarrow> db \<Rightarrow> (session_memory_error + unit) \<times> db" where
  "set_skill_context i ctx db = update_row i (\<lambda>r. r\<lparr>row_skill_context := ctx\<rparr>) db"

definition get_skill_context :: "db \<Rightarrow> uuid \<Rightarrow> session_memory_error + string option" where
  "get_skill_context db i = column row_skill_context db i"

definition set_phase_opening_context ::
  "uuid \<Rightarrow> string option \<Rightarrow> db \<Rightarrow> (session_memory_error + unit) \<times> db" where
  "set_phase_opening_context i ctx db = update_row i (\<lambda>r. r\<lparr>row_phase_context := ctx\<rparr>) db"

definition get_phase_opening_context :: "db \<Rightarrow> uuid \<Rightarrow> session_memory_error + string option" where
  "get_phase_opening_context db i = column row_phase_context db i"

definition apply_phase_transition ::
  "uuid \<Rightarrow> string \<Rightarrow> string \<Rightarrow> db \<Rightarrow> (session_memory_error + unit) \<times> db" where
  "apply_phase_transition i skill_ctx phase_ctx db =
     update_row i (\<lambda>r. r\<lparr>row_skill_context := Some skill_ctx, row_phase_context := Some phase_ctx\<rparr>) db"

definition set_interrupted_state ::
  "uuid \<Rightarrow> string option \<Rightarrow> db \<Rightarrow> (session_memory_error + unit) \<times> db" where
  "set_interrupted_state i st db = update_row i (\<lambda>r. r\<lparr>row_interrupted := st\<rparr>) db"

definition get_interrupted_state :: "db \<Rightarrow> uuid \<Rightarrow> session_memory_error + string option" where
  "get_interrupted_state db i = column row_interrupted db i"

text \<open>Serialised state of a session suspended awaiting approval (\<open>store.rs\<close>).\<close>

datatype interrupted_state =
    PendingToolCall (pt_approval_id: string) (pt_kind_json: string) (pt_history_json: string)
      (pt_pending_calls_json: string) (pt_active_tool_names: "string list")
      (pt_skill_context_json: "string option")
  | PendingPhaseGate (pp_approval_id: string) (pp_transition_json: string)
  | PendingCheckpoint (pc_approval_id: string) (pc_kind_json: string) (pc_history_json: string)
      (pc_active_tool_names: "string list") (pc_skill_context_json: "string option")

fun approval_id_str :: "interrupted_state \<Rightarrow> string" where
  "approval_id_str (PendingToolCall a _ _ _ _ _) = a"
| "approval_id_str (PendingPhaseGate a _) = a"
| "approval_id_str (PendingCheckpoint a _ _ _ _) = a"

section \<open>The invariant of the tables\<close>

definition store_inv :: "db \<Rightarrow> bool" where
  "store_inv db \<longleftrightarrow>
     distinct (map row_id (db_sessions db))
     \<and> distinct (map (\<lambda>m. (mrow_session m, mrow_seq m)) (db_messages db))
     \<and> (\<forall>m \<in> set (db_messages db). 1 \<le> mrow_seq m
          \<and> mrow_session m \<in> row_id ` set (db_sessions db) \<and> is_ok (str_to_role (mrow_role m)))
     \<and> (\<forall>r \<in> set (db_sessions db). 0 \<le> row_watermark r \<and> is_ok (status_from_str (row_status r)))"

definition has_session :: "db \<Rightarrow> uuid \<Rightarrow> bool" where
  "has_session db i \<longleftrightarrow> i \<in> row_id ` set (db_sessions db)"

text \<open>The rows an append adds: consecutive sequence numbers from \<open>n\<close>.\<close>

fun numbered_rows :: "content_codec \<Rightarrow> instant \<Rightarrow> uuid \<Rightarrow> int \<Rightarrow> message list \<Rightarrow> message_row list" where
  "numbered_rows cd now i n [] = []"
| "numbered_rows cd now i n (m # ms) = message_to_row cd now i n m # numbered_rows cd now i (n + 1) ms"

lemma status_round_trip [simp]: "status_from_str (status_to_str st) = Ok st"
  by (cases st) (simp_all add: status_from_str_def)

lemma role_round_trip [simp]: "str_to_role (role_to_str r) = Ok r"
  by (cases r) (simp_all add: str_to_role_def)

lemma query_simps [simp]:
  "db_fault db = None \<Longrightarrow> query db r = r"
  "db_fault db = Some e \<Longrightarrow> query db r = Err (Database e)"
  by (simp_all add: query_def)

lemma find_row_SomeD:
  "find_row db i = Some r \<Longrightarrow> r \<in> set (db_sessions db) \<and> row_id r = i"
  by (auto simp: find_row_def find_Some_iff)

lemma find_row_None_iff: "find_row db i = None \<longleftrightarrow> \<not> has_session db i"
  by (auto simp: find_row_def find_None_iff has_session_def)

lemma find_row_eqI:
  assumes "store_inv db" "r \<in> set (db_sessions db)" "row_id r = i"
  shows "find_row db i = Some r"
proof -
  obtain r' where "find_row db i = Some r'"
    using assms find_row_None_iff [of db i] by (force simp: has_session_def)
  moreover from this have "r' = r"
    using assms find_row_SomeD by (fastforce simp: store_inv_def distinct_map inj_on_def)
  ultimately show ?thesis by simp
qed

lemma max_fold_upper: "(x :: int) \<in> set (s # ss) \<Longrightarrow> x \<le> fold max ss s"
proof (induction ss arbitrary: s x)
  case (Cons t ss)
  have "max t s \<le> fold max ss (max t s)" by (rule Cons.IH) simp
  then show ?case using Cons by (auto simp: max.commute)
qed simp

lemma max_sequence_upper:
  assumes "m \<in> set (db_messages db)" "mrow_session m = i"
  shows "mrow_seq m \<le> max_sequence db i"
proof -
  let ?qs = "map mrow_seq (filter (\<lambda>m. mrow_session m = i) (db_messages db))"
  have "mrow_seq m \<in> set ?qs" using assms by auto
  then show ?thesis
    unfolding max_sequence_def by (cases ?qs) (auto intro: max_fold_upper)
qed

lemma max_fold_in: "fold max ss (s :: int) \<in> set (s # ss)"
proof (induction ss arbitrary: s)
  case (Cons t ss)
  then show ?case using Cons.IH [of "max t s"] by (auto simp: max_def split: if_splits)
qed simp

lemma max_sequence_nonneg:
  assumes "store_inv db"
  shows "0 \<le> max_sequence db i"
proof -
  let ?qs = "map mrow_seq (filter (\<lambda>m. mrow_session m = i) (db_messages db))"
  have pos: "\<And>q. q \<in> set ?qs \<Longrightarrow> 1 \<le> q" using assms by (auto simp: store_inv_def)
  show ?thesis
  proof (cases ?qs)
    case (Cons s ss)
    then have "1 \<le> fold max ss s" using pos max_fold_in [of ss s] by simp
    then show ?thesis using Cons by (simp add: max_sequence_def)
  qed (simp add: max_sequence_def)
qed

lemma numbered_rows_mem:
  "m \<in> set (numbered_rows cd now i n ms) \<Longrightarrow>
     mrow_session m = i \<and> n \<le> mrow_seq m \<and> mrow_seq m < n + int (length ms)
     \<and> is_ok (str_to_role (mrow_role m)) \<and> mrow_created_at m = timestamp now"
  by (induction ms arbitrary: n) (force simp: message_to_row_def)+

lemma numbered_rows_distinct:
  "distinct (map (\<lambda>m. (mrow_session m, mrow_seq m)) (numbered_rows cd now i n ms))"
proof (induction ms arbitrary: n)
  case (Cons m ms)
  then show ?case
    using numbered_rows_mem [of _ cd now i "n + 1" ms] by (fastforce simp: message_to_row_def)
qed simp

lemma insert_all_fresh:
  assumes "\<And>m. m \<in> set (db_messages db) \<Longrightarrow> mrow_session m = i \<Longrightarrow> mrow_seq m < n"
  shows "insert_all cd now i n ms db
         = Ok (db\<lparr>db_messages := db_messages db @ numbered_rows cd now i n ms\<rparr>)"
  using assms
proof (induction ms arbitrary: n db)
  case (Cons m ms)
  let ?r = "message_to_row cd now i n m"
  have r: "mrow_session ?r = i" "mrow_seq ?r = n" by (simp_all add: message_to_row_def)
  then have ins: "insert_message_row ?r db = Ok (db\<lparr>db_messages := db_messages db @ [?r]\<rparr>)"
    using Cons.prems by (fastforce simp: insert_message_row_def)
  show ?case
    using Cons.IH [of "db\<lparr>db_messages := db_messages db @ [?r]\<rparr>" "n + 1"] Cons.prems r
    by (fastforce simp: ins)
qed simp

section \<open>Every operation keeps the invariant\<close>

definition keeps_row :: "(session_row \<Rightarrow> session_row) \<Rightarrow> bool" where
  "keeps_row f \<longleftrightarrow> (\<forall>r. row_id (f r) = row_id r \<and> row_watermark r \<le> row_watermark (f r)
     \<and> (is_ok (status_from_str (row_status r)) \<longrightarrow> is_ok (status_from_str (row_status (f r)))))"

lemma map_row_id_update:
  "keeps_row f \<Longrightarrow> map row_id (map (\<lambda>r. if row_id r = i then f r else r) rs) = map row_id rs"
  by (induction rs) (auto simp: keeps_row_def)

lemma row_id_image_update:
  assumes "keeps_row f"
  shows "row_id ` set (map (\<lambda>r. if row_id r = i then f r else r) rs) = row_id ` set rs"
  using map_row_id_update [OF assms, of i rs] by (metis list.set_map)

lemma store_inv_update:
  assumes inv: "store_inv db" and f: "keeps_row f"
  shows "store_inv (snd (update_row i f db))"
proof -
  let ?rs = "map (\<lambda>r. if row_id r = i then f r else r) (db_sessions db)"
  have "0 \<le> row_watermark r \<and> is_ok (status_from_str (row_status r))" if "r \<in> set ?rs" for r
    using that inv f unfolding store_inv_def keeps_row_def
    by (auto split: if_splits intro: order_trans)
  then have "store_inv (db\<lparr>db_sessions := ?rs\<rparr>)"
    using inv map_row_id_update [OF f, of i "db_sessions db"]
      row_id_image_update [OF f, of i "db_sessions db"]
    unfolding store_inv_def by (simp del: map_map list.set_map set_map)
  then show ?thesis using inv by (auto simp: update_row_def split: option.split)
qed

lemma store_inv_empty [inv_intros]: "store_inv empty_db"
  by (simp add: store_inv_def empty_db_def)

lemma store_inv_insert_row:
  assumes "store_inv db"
    and "0 \<le> row_watermark r" "is_ok (status_from_str (row_status r))"
  shows "store_inv (snd (insert_session_row r db))"
  using assms by (auto simp: insert_session_row_def store_inv_def split: option.split)

lemma store_inv_create [inv_intros]:
  "store_inv db \<Longrightarrow> store_inv (snd (create now i u db))"
  "store_inv db \<Longrightarrow> store_inv (snd (create_with_skill_context now i u ctx db))"
  using store_inv_insert_row [of db "create_session_row now i u None"]
    store_inv_insert_row [of db "create_session_row now i u (Some ctx)"]
  by (auto simp: create_def create_with_skill_context_def create_session_row_def status_from_str_def
      split: prod.split sum.split)

lemma store_inv_updates [inv_intros]:
  "store_inv db \<Longrightarrow> store_inv (snd (update_status now i st db))"
  "store_inv db \<Longrightarrow> store_inv (snd (advance_watermark i w db))"
  "store_inv db \<Longrightarrow> store_inv (snd (set_skill_context i ctx db))"
  "store_inv db \<Longrightarrow> store_inv (snd (set_phase_opening_context i ctx db))"
  "store_inv db \<Longrightarrow> store_inv (snd (apply_phase_transition i sc pc db))"
  "store_inv db \<Longrightarrow> store_inv (snd (set_interrupted_state i ist db))"
  by (auto simp: update_status_def advance_watermark_def set_skill_context_def
      set_phase_opening_context_def apply_phase_transition_def set_interrupted_state_def keeps_row_def
      intro!: store_inv_update)

lemma store_inv_numbered:
  assumes inv: "store_inv db" and has: "has_session db i"
  shows "store_inv (db\<lparr>db_messages :=
           db_messages db @ numbered_rows cd now i (next_sequence db i) ms\<rparr>)"
proof -
  let ?new = "numbered_rows cd now i (next_sequence db i) ms"
  have new: "\<And>m. m \<in> set ?new \<Longrightarrow> mrow_session m = i \<and> next_sequence db i \<le> mrow_seq m
      \<and> is_ok (str_to_role (mrow_role m))"
    using numbered_rows_mem by fast
  have "\<And>m m'. m \<in> set (db_messages db) \<Longrightarrow> m' \<in> set ?new \<Longrightarrow>
      (mrow_session m, mrow_seq m) \<noteq> (mrow_session m', mrow_seq m')"
    using new max_sequence_upper unfolding next_sequence_def
    by (metis add_le_same_cancel1 dual_order.trans not_one_le_zero prod.inject)
  moreover have "1 \<le> next_sequence db i"
    using max_sequence_nonneg [OF inv, of i] by (simp add: next_sequence_def)
  ultimately show ?thesis
    using inv has new numbered_rows_distinct [of cd now i "next_sequence db i" ms]
    unfolding store_inv_def has_session_def by (auto; fastforce)
qed

lemma append_messages_ok:
  assumes "db_fault db = None" "has_session db i"
  shows "append_messages cd now i ms db = (Ok (), db\<lparr>db_messages :=
           db_messages db @ numbered_rows cd now i (next_sequence db i) ms\<rparr>)"
proof -
  have "find_row db i \<noteq> None" using assms(2) by (simp add: find_row_None_iff)
  moreover have "insert_all cd now i (next_sequence db i) ms db
      = Ok (db\<lparr>db_messages := db_messages db @ numbered_rows cd now i (next_sequence db i) ms\<rparr>)"
    by (rule insert_all_fresh) (use max_sequence_upper in \<open>fastforce simp: next_sequence_def\<close>)
  ultimately show ?thesis using assms(1) by (auto simp: append_messages_def get_def)
qed

lemma append_messages_err:
  "db_fault db \<noteq> None \<or> \<not> has_session db i \<Longrightarrow> snd (append_messages cd now i ms db) = db"
  by (cases "db_fault db")
     (auto simp: append_messages_def get_def find_row_None_iff [symmetric])

lemma append_messages_result:
  "fst (append_messages cd now i ms db) =
     (case db_fault db of Some e \<Rightarrow> Err (Database e)
      | None \<Rightarrow> if has_session db i then Ok () else Err (NotFound i))"
proof (cases "db_fault db = None \<and> has_session db i")
  case False
  then show ?thesis using find_row_None_iff [of db i]
    by (cases "db_fault db") (auto simp: append_messages_def get_def)
qed (simp add: append_messages_ok)

lemma store_inv_append [inv_intros]:
  assumes "store_inv db"
  shows "store_inv (snd (append_messages cd now i ms db))"
proof (cases "db_fault db = None \<and> has_session db i")
  case True
  then show ?thesis using assms by (simp add: append_messages_ok store_inv_numbered)
next
  case False
  then show ?thesis using assms append_messages_err [of db i cd now ms] by auto
qed

lemma store_inv_cleanup [inv_intros]:
  "store_inv db \<Longrightarrow> store_inv (snd (cleanup_expired_messages i cutoff wm db))"
  by (auto simp: cleanup_expired_messages_def store_inv_def distinct_map_filter Let_def
      split: sum.split)

lemma store_inv_delete_rows:
  assumes inv: "store_inv db"
  shows "store_inv (delete_rows P db)"
proof -
  have "\<And>m. m \<in> set (db_messages db) \<Longrightarrow> mrow_session m \<notin> row_id ` set (filter P (db_sessions db)) \<Longrightarrow>
      mrow_session m \<in> row_id ` set (filter (\<lambda>r. \<not> P r) (db_sessions db))"
    using inv unfolding store_inv_def by (auto simp: image_iff) blast+
  then show ?thesis
    using inv unfolding store_inv_def delete_rows_def Let_def by (auto simp: distinct_map_filter)
qed

lemma store_inv_deletes [inv_intros]:
  "store_inv db \<Longrightarrow> store_inv (snd (delete_session i db))"
  "store_inv db \<Longrightarrow> store_inv (snd (delete_ended_sessions_before cutoff db))"
  by (auto simp: delete_session_def delete_ended_sessions_before_def Let_def store_inv_delete_rows
      split: option.split)

section \<open>Reachable databases\<close>

text \<open>One rule per operation of \<open>SqliteSessionMemory\<close> that writes.\<close>

inductive store_step :: "content_codec \<Rightarrow> db \<Rightarrow> db \<Rightarrow> bool" for cd where
  step_create: "store_step cd db (snd (create now i u db))"
| step_create_skill: "store_step cd db (snd (create_with_skill_context now i u ctx db))"
| step_status: "store_step cd db (snd (update_status now i st db))"
| step_append: "store_step cd db (snd (append_message cd now i m db))"
| step_append_turn: "store_step cd db (snd (append_turn cd now i um am db))"
| step_watermark: "store_step cd db (snd (advance_watermark i w db))"
| step_cleanup: "store_step cd db (snd (cleanup_expired_messages i cutoff wm db))"
| step_delete_ended: "store_step cd db (snd (delete_ended_sessions_before cutoff db))"
| step_delete: "store_step cd db (snd (delete_session i db))"
| step_skill: "store_step cd db (snd (set_skill_context i ctx db))"
| step_phase: "store_step cd db (snd (set_phase_opening_context i ctx db))"
| step_transition: "store_step cd db (snd (apply_phase_transition i sc pc db))"
| step_interrupted: "store_step cd db (snd (set_interrupted_state i ist db))"

inductive reachable_db :: "content_codec \<Rightarrow> db \<Rightarrow> bool" for cd where
  reach_empty: "reachable_db cd empty_db"
| reach_step: "reachable_db cd db \<Longrightarrow> store_step cd db db' \<Longrightarrow> reachable_db cd db'"

inductive_cases store_stepE: "store_step cd db db'"

lemma store_inv_step [inv_intros]: "store_step cd db db' \<Longrightarrow> store_inv db \<Longrightarrow> store_inv db'"
  by (erule store_stepE) (auto simp: append_message_def append_turn_def intro: inv_intros)

lemma store_inv_reachable: "reachable_db cd db \<Longrightarrow> store_inv db"
  by (induction rule: reachable_db.induct) (auto intro: inv_intros)

section \<open>What the transcript operations do\<close>

definition storable :: "content_codec \<Rightarrow> message \<Rightarrow> bool" where
  "storable cd m \<longleftrightarrow>
     content_from_text cd (content_to_text cd (msg_content m)) = Some (msg_content m)"

lemma row_message_round_trip:
  "storable cd m \<Longrightarrow> row_to_message cd (message_to_row cd now i n m) = Ok m"
  by (simp add: row_to_message_def message_to_row_def storable_def decode_content_def encode_content_def)

lemma sort_key_append_sorted:
  assumes "\<And>x y. x \<in> set xs \<Longrightarrow> y \<in> set ys \<Longrightarrow> f x \<le> f y" "sorted (map f ys)"
  shows "sort_key f (xs @ ys) = sort_key f xs @ ys"
proof (rule properties_for_sort_key)
  fix k assume "k \<in> set (sort_key f xs @ ys)"
  show "filter (\<lambda>x. f k = f x) (sort_key f xs @ ys) = filter (\<lambda>x. f k = f x) (xs @ ys)"
    using sort_key_stable [of f "f k" xs] by (simp add: eq_commute)
qed (auto simp: sorted_append assms)

lemma numbered_rows_sorted: "sorted (map mrow_seq (numbered_rows cd now i n ms))"
proof (induction ms arbitrary: n)
  case (Cons m ms)
  then show ?case using numbered_rows_mem [of _ cd now i "n + 1" ms]
    by (fastforce simp: message_to_row_def)
qed simp

lemma filter_numbered_rows:
  "filter (\<lambda>m. mrow_session m = j) (numbered_rows cd now i n ms)
   = (if j = i then numbered_rows cd now i n ms else [])"
  using numbered_rows_mem [of _ cd now i n ms] by (auto simp: filter_id_conv filter_empty_conv)

lemma rows_of_append:
  "rows_of (db\<lparr>db_messages := db_messages db @ numbered_rows cd now i (next_sequence db i) ms\<rparr>) j
   = (if j = i then rows_of db i @ numbered_rows cd now i (next_sequence db i) ms else rows_of db j)"
proof (cases "j = i")
  case True
  let ?xs = "filter (\<lambda>m. mrow_session m = i) (db_messages db)"
  let ?ys = "numbered_rows cd now i (next_sequence db i) ms"
  have "sort_key mrow_seq (?xs @ ?ys) = sort_key mrow_seq ?xs @ ?ys"
  proof (rule sort_key_append_sorted)
    fix x y assume "x \<in> set ?xs" "y \<in> set ?ys"
    then show "mrow_seq x \<le> mrow_seq y"
      using max_sequence_upper [of x db i] numbered_rows_mem [of y cd now i "next_sequence db i" ms]
      by (simp add: next_sequence_def)
  qed (rule numbered_rows_sorted)
  then show ?thesis using True by (simp add: rows_of_def filter_numbered_rows)
qed (simp add: rows_of_def filter_numbered_rows)

lemma numbered_rows_messages:
  "(\<And>m. m \<in> set ms \<Longrightarrow> storable cd m) \<Longrightarrow>
     map (row_to_message cd) (numbered_rows cd now i n ms) = map Ok ms"
  by (induction ms arbitrary: n) (simp_all add: row_message_round_trip)

lemma load_after_append:
  assumes "db_fault db = None" "has_session db i" "\<And>m. m \<in> set ms \<Longrightarrow> storable cd m"
    and "load_messages cd db i = Ok old"
  shows "load_messages cd (snd (append_messages cd now i ms db)) i = Ok (old @ ms)"
  using assms
  by (simp add: load_messages_def append_messages_ok rows_of_append collect_results_Ok_iff
      numbered_rows_messages)

lemma load_other_after_append:
  "j \<noteq> i \<Longrightarrow> load_messages cd (snd (append_messages cd now i ms db)) j = load_messages cd db j"
proof (cases "db_fault db = None \<and> has_session db i")
  case True
  moreover assume "j \<noteq> i"
  ultimately show ?thesis
    by (simp add: append_messages_ok load_messages_def rows_of_append query_def)
next
  case False
  then show ?thesis using append_messages_err [of db i cd now ms] by auto
qed

lemma sessions_after_append [frame_simps]:
  "db_sessions (snd (append_messages cd now i ms db)) = db_sessions db"
  "db_fault (snd (append_messages cd now i ms db)) = db_fault db"
  using append_messages_err [of db i cd now ms]
  by (cases "db_fault db = None \<and> has_session db i"; auto simp: append_messages_ok)+

lemma no_fault_step: "store_step cd db db' \<Longrightarrow> db_fault db' = db_fault db"
  by (erule store_stepE)
     (auto simp: create_def create_with_skill_context_def insert_session_row_def update_status_def
       append_message_def append_turn_def sessions_after_append advance_watermark_def update_row_def
       cleanup_expired_messages_def delete_ended_sessions_before_def delete_session_def
       delete_rows_def Let_def set_skill_context_def set_phase_opening_context_def
       apply_phase_transition_def set_interrupted_state_def
       split: option.splits sum.splits prod.splits)

section \<open>The contract of a session memory\<close>

text \<open>
  What a client of the trait \<open>SessionMemory\<close> relies on. The client of interest is a
  conversation server that interleaves turns of several sessions.
\<close>

locale session_memory =
  fixes mk :: "instant \<Rightarrow> uuid \<Rightarrow> string \<Rightarrow> 's \<Rightarrow> ('e + session) \<times> 's"
    and look :: "'s \<Rightarrow> uuid \<Rightarrow> 'e + session option"
    and turn :: "instant \<Rightarrow> uuid \<Rightarrow> message \<Rightarrow> message \<Rightarrow> 's \<Rightarrow> ('e + unit) \<times> 's"
    and load :: "'s \<Rightarrow> uuid \<Rightarrow> 'e + message list"
    and remove :: "uuid \<Rightarrow> 's \<Rightarrow> ('e + unit) \<times> 's"
    and inv :: "'s \<Rightarrow> bool"
    and durable :: "message \<Rightarrow> bool"
  assumes mk_ok: "inv s \<Longrightarrow> look s i = Ok None \<Longrightarrow>
        \<exists>s'. mk now i u s = (Ok (new_session now i u), s') \<and> inv s' \<and> load s' i = Ok []
          \<and> (\<exists>ses. look s' i = Ok (Some ses) \<and> ses_user_id ses = u)
          \<and> (\<forall>j. j \<noteq> i \<longrightarrow> look s' j = look s j \<and> load s' j = load s j)"
    and turn_ok: "inv s \<Longrightarrow> look s i = Ok (Some ses) \<Longrightarrow> durable um \<Longrightarrow> durable am \<Longrightarrow>
        load s i = Ok ms \<Longrightarrow>
        \<exists>s'. turn now i um am s = (Ok (), s') \<and> inv s' \<and> load s' i = Ok (ms @ [um, am])
          \<and> (\<forall>j. look s' j = look s j) \<and> (\<forall>j. j \<noteq> i \<longrightarrow> load s' j = load s j)"
    and remove_ok: "inv s \<Longrightarrow>
        \<exists>s'. remove i s = (Ok (), s') \<and> inv s' \<and> look s' i = Ok None \<and> load s' i = Ok []
          \<and> (\<forall>j. j \<noteq> i \<longrightarrow> look s' j = look s j \<and> load s' j = load s j)"

text \<open>A run of completed turns, each for the session it names.\<close>

record turn_event =
  te_time :: instant
  te_session :: uuid
  te_user :: message
  te_assistant :: message

fun run_turns ::
  "(instant \<Rightarrow> uuid \<Rightarrow> message \<Rightarrow> message \<Rightarrow> 's \<Rightarrow> ('e + unit) \<times> 's) \<Rightarrow> turn_event list \<Rightarrow> 's \<Rightarrow> 's" where
  "run_turns f [] s = s"
| "run_turns f (t # ts) s =
     run_turns f ts (snd (f (te_time t) (te_session t) (te_user t) (te_assistant t) s))"

definition turns_for :: "uuid \<Rightarrow> turn_event list \<Rightarrow> message list" where
  "turns_for i ts =
     concat (map (\<lambda>t. [te_user t, te_assistant t]) (filter (\<lambda>t. te_session t = i) ts))"

lemma turns_for_simps [simp]:
  "turns_for i [] = []"
  "turns_for i (t # ts) =
     (if te_session t = i then [te_user t, te_assistant t] else []) @ turns_for i ts"
  by (simp_all add: turns_for_def)

context session_memory begin

lemma interleaved_transcript:
  assumes "inv s" "load s i = Ok ms"
    and "\<And>t. t \<in> set ts \<Longrightarrow> (\<exists>ses. look s (te_session t) = Ok (Some ses))
           \<and> (\<exists>old. load s (te_session t) = Ok old) \<and> durable (te_user t) \<and> durable (te_assistant t)"
  shows "inv (run_turns turn ts s) \<and> load (run_turns turn ts s) i = Ok (ms @ turns_for i ts)
    \<and> (\<forall>j. look (run_turns turn ts s) j = look s j)"
  using assms
proof (induction ts arbitrary: s ms)
  case (Cons t ts)
  obtain ses old where t: "look s (te_session t) = Ok (Some ses)" "load s (te_session t) = Ok old"
      "durable (te_user t)" "durable (te_assistant t)"
    using Cons.prems(3) [of t] by auto
  obtain s' where s': "turn (te_time t) (te_session t) (te_user t) (te_assistant t) s = (Ok (), s')"
      "inv s'" "load s' (te_session t) = Ok (old @ [te_user t, te_assistant t])"
      "\<forall>j. look s' j = look s j" "\<forall>j. j \<noteq> te_session t \<longrightarrow> load s' j = load s j"
    using turn_ok [OF Cons.prems(1) t(1,3,4,2)] by blast
  let ?ms = "if te_session t = i then ms @ [te_user t, te_assistant t] else ms"
  have "load s' i = Ok ?ms" using s' t(2) Cons.prems(2) by auto
  moreover have "\<And>u. u \<in> set ts \<Longrightarrow> (\<exists>ses. look s' (te_session u) = Ok (Some ses))
           \<and> (\<exists>old. load s' (te_session u) = Ok old) \<and> durable (te_user u) \<and> durable (te_assistant u)"
    using Cons.prems(3) s' by (metis list.set_intros(2))
  ultimately show ?case using Cons.IH [OF s'(2)] s'(1,4) by auto
qed simp

lemma fresh_conversation:
  assumes "inv s" "look s i = Ok None" "\<And>t. t \<in> set ts \<Longrightarrow> te_session t = i"
    "\<And>t. t \<in> set ts \<Longrightarrow> durable (te_user t) \<and> durable (te_assistant t)"
  shows "load (run_turns turn ts (snd (mk now i u s))) i = Ok (turns_for i ts)"
proof -
  obtain s' ses where s': "mk now i u s = (Ok (new_session now i u), s')" "inv s'" "load s' i = Ok []"
      "look s' i = Ok (Some ses)"
    using mk_ok [OF assms(1,2)] by blast
  show ?thesis
    using interleaved_transcript [OF s'(2,3), of ts] assms(3,4) s' by auto
qed

end

section \<open>SQLite meets the contract\<close>

lemma rows_of_empty_iff:
  "rows_of db i = [] \<longleftrightarrow> (\<forall>m \<in> set (db_messages db). mrow_session m \<noteq> i)"
  unfolding rows_of_def by (metis (mono_tags, lifting) filter_empty_conv set_empty set_sort)

lemma set_rows_of: "set (rows_of db i) = {m \<in> set (db_messages db). mrow_session m = i}"
  by (auto simp: rows_of_def)

lemma find_row_create:
  "find_row (db\<lparr>db_sessions := db_sessions db @ [r]\<rparr>) j
   = (case find_row db j of Some r' \<Rightarrow> Some r' | None \<Rightarrow> if row_id r = j then Some r else None)"
  by (simp add: find_row_def find_append split: option.split)

lemma find_filter_id:
  assumes "\<And>x. x \<in> set xs \<Longrightarrow> P x \<Longrightarrow> Q x"
  shows "find P (filter Q xs) = find P xs"
  using assms by (induction xs) auto

lemma find_row_delete:
  "find_row (delete_rows (\<lambda>r. row_id r = i) db) j = (if j = i then None else find_row db j)"
  by (auto simp: find_row_def delete_rows_def Let_def find_None_iff intro!: find_filter_id)

lemma rows_of_delete:
  assumes "store_inv db"
  shows "rows_of (delete_rows (\<lambda>r. row_id r = i) db) j = (if j = i then [] else rows_of db j)"
proof (cases "j = i")
  case True
  have "\<forall>m \<in> set (db_messages (delete_rows (\<lambda>r. row_id r = i) db)). mrow_session m \<noteq> i"
    using assms by (fastforce simp: delete_rows_def Let_def store_inv_def)
  then show ?thesis using True by (simp add: rows_of_empty_iff)
next
  case False
  then show ?thesis
    by (auto simp: rows_of_def delete_rows_def Let_def
        intro!: arg_cong [where f = "sort_key mrow_seq"] filter_cong)
qed

lemma load_messages_total:
  assumes "store_inv db" "db_fault db = None"
  shows "\<exists>ms. load_messages cd db i = Ok ms"
proof -
  have "\<And>m. m \<in> set (rows_of db i) \<Longrightarrow> \<exists>x. row_to_message cd m = Ok x"
    using assms(1) unfolding set_rows_of store_inv_def row_to_message_def is_ok_def map_ok_def
    by (fastforce split: sum.splits)
  then obtain g where "\<And>m. m \<in> set (rows_of db i) \<Longrightarrow> row_to_message cd m = Ok (g m)" by metis
  then have rows: "map (row_to_message cd) (rows_of db i) = map (\<lambda>m. Ok (g m)) (rows_of db i)"
    by simp
  show ?thesis using assms(2) by (simp only: load_messages_def rows query_simps collect_results_map_Ok) simp
qed

lemma create_contract:
  assumes inv: "store_inv db" "db_fault db = None" and fresh: "get db i = Ok None"
  shows "\<exists>db'. create now i u db = (Ok (new_session now i u), db')
    \<and> (store_inv db' \<and> db_fault db' = None) \<and> load_messages cd db' i = Ok []
    \<and> (\<exists>ses. get db' i = Ok (Some ses) \<and> ses_user_id ses = u)
    \<and> (\<forall>j. j \<noteq> i \<longrightarrow> get db' j = get db j \<and> load_messages cd db' j = load_messages cd db j)"
proof -
  let ?r = "create_session_row now i u None"
  let ?db = "db\<lparr>db_sessions := db_sessions db @ [?r]\<rparr>"
  have r: "row_id ?r = i" "row_user_id ?r = u" by (simp_all add: create_session_row_def)
  have none: "find_row db i = None" "\<not> has_session db i"
    using fresh inv(2) by (auto simp: get_def find_row_None_iff [symmetric])
  then have cr: "create now i u db = (Ok (new_session now i u), ?db)"
    using inv(2) r by (auto simp: create_def insert_session_row_def has_session_def image_iff)
  have "store_inv ?db" using store_inv_create(1) [OF inv(1), of now i u] cr by simp
  moreover have "rows_of db i = []"
    using inv(1) none(2) by (auto simp: rows_of_empty_iff store_inv_def has_session_def)
  ultimately show ?thesis
    using cr inv(2) none(1) r
    by (auto simp: get_def find_row_create load_messages_def rows_of_def row_to_session_def
        split: option.split)
qed

lemma has_session_get: "db_fault db = None \<Longrightarrow> has_session db i \<longleftrightarrow> (\<exists>ses. get db i = Ok (Some ses))"
  using find_row_None_iff [of db i] by (cases "find_row db i") (auto simp: get_def)

lemma append_turn_contract:
  assumes "store_inv db \<and> db_fault db = None" "get db i = Ok (Some ses)"
    "storable cd um" "storable cd am" "load_messages cd db i = Ok ms"
  shows "\<exists>db'. append_turn cd now i um am db = (Ok (), db')
    \<and> (store_inv db' \<and> db_fault db' = None) \<and> load_messages cd db' i = Ok (ms @ [um, am])
    \<and> (\<forall>j. get db' j = get db j)
    \<and> (\<forall>j. j \<noteq> i \<longrightarrow> load_messages cd db' j = load_messages cd db j)"
proof -
  have has: "has_session db i" using assms(1,2) has_session_get by blast
  let ?r = "append_messages cd now i [um, am] db"
  have "fst ?r = Ok ()" using assms(1) has by (simp add: append_messages_ok)
  moreover have "store_inv (snd ?r)" "db_fault (snd ?r) = None"
    using assms(1) by (auto simp: frame_simps intro: inv_intros)
  moreover have "load_messages cd (snd ?r) i = Ok (ms @ [um, am])"
    using assms has by (intro load_after_append) auto
  moreover have "\<forall>j. get (snd ?r) j = get db j"
    by (simp add: get_def find_row_def frame_simps query_def)
  ultimately show ?thesis
    unfolding append_turn_def using load_other_after_append by (metis prod.collapse)
qed

lemma delete_session_contract:
  assumes "store_inv db \<and> db_fault db = None"
  shows "\<exists>db'. delete_session i db = (Ok (), db') \<and> (store_inv db' \<and> db_fault db' = None)
    \<and> get db' i = Ok None \<and> load_messages cd db' i = Ok []
    \<and> (\<forall>j. j \<noteq> i \<longrightarrow> get db' j = get db j \<and> load_messages cd db' j = load_messages cd db j)"
proof -
  have "db_fault (delete_rows (\<lambda>r. row_id r = i) db) = None"
    using assms by (simp add: delete_rows_def Let_def)
  then show ?thesis
    using assms
    by (simp add: delete_session_def store_inv_delete_rows get_def find_row_delete load_messages_def
        rows_of_delete)
qed

interpretation sqlite: session_memory create get "append_turn cd" "load_messages cd" delete_session
  "\<lambda>db. store_inv db \<and> db_fault db = None" "storable cd" for cd :: content_codec
  by unfold_locales
     (use create_contract append_turn_contract delete_session_contract in \<open>simp_all\<close>)

section \<open>Watermark and retention\<close>

lemma find_map_id:
  assumes "\<And>r. row_id (g r) = row_id r"
  shows "find (\<lambda>r. row_id r = j) (map g rs) = map_option g (find (\<lambda>r. row_id r = j) rs)"
  using assms by (induction rs) auto

lemma find_row_update:
  assumes "keeps_row f"
  shows "find_row (snd (update_row i f db)) j
         = (if db_fault db = None \<and> j = i then map_option f (find_row db j) else find_row db j)"
proof (cases "db_fault db = None \<and> has_session db i")
  case True
  let ?g = "\<lambda>r. if row_id r = i then f r else r"
  have "find_row (snd (update_row i f db)) j = map_option ?g (find_row db j)"
    using True assms find_map_id [of ?g j "db_sessions db"]
    by (auto simp: find_row_def update_row_def has_session_def keeps_row_def)
  then show ?thesis
    using True find_row_SomeD [of db j] by (cases "find_row db j") auto
next
  case False
  then show ?thesis
    using find_row_None_iff [of db i] by (auto simp: update_row_def has_session_def split: option.splits)
qed

lemma update_row_watermark:
  assumes "keeps_row f" "find_row db i = Some r" "find_row (snd (update_row j f db)) i = Some r'"
  shows "row_watermark r \<le> row_watermark r'"
  using assms(2,3) find_row_update [OF assms(1), of j db i] assms(1)
  by (auto simp: keeps_row_def split: if_splits)

lemma insert_row_watermark:
  assumes "find_row db i = Some r" "find_row (snd (insert_session_row x db)) i = Some r'"
  shows "r' = r"
  using assms by (auto simp: insert_session_row_def find_row_create split: option.splits if_splits)

lemma find_row_same_sessions: "db_sessions db' = db_sessions db \<Longrightarrow> find_row db' i = find_row db i"
  by (simp add: find_row_def)

lemma find_row_delete_rows:
  assumes "store_inv db" "find_row (delete_rows P db) i = Some r'"
  shows "find_row db i = Some r'"
  using find_row_SomeD [OF assms(2)] find_row_eqI [OF assms(1)]
  by (auto simp: delete_rows_def Let_def)

lemma cleanup_sessions [frame_simps]:
  "db_sessions (snd (cleanup_expired_messages i cutoff wm db)) = db_sessions db"
  "db_fault (snd (cleanup_expired_messages i cutoff wm db)) = db_fault db"
  by (simp_all add: cleanup_expired_messages_def Let_def split: sum.split)

lemma rows_of_cleanup:
  assumes "get_watermark db j = Ok w"
  shows "filter (\<lambda>m. w < mrow_seq m) (rows_of (snd (cleanup_expired_messages i cutoff wm db)) j)
         = filter (\<lambda>m. w < mrow_seq m) (rows_of db j)"
proof -
  have "filter (\<lambda>m. w < mrow_seq m) (filter (\<lambda>m. mrow_session m = j)
          (filter (\<lambda>m. \<not> expired_row i cutoff (min wm stored) m) (db_messages db)))
        = filter (\<lambda>m. w < mrow_seq m) (filter (\<lambda>m. mrow_session m = j) (db_messages db))"
    if "get_watermark db i = Ok stored" for stored
    using that assms unfolding filter_filter by (auto simp: expired_row_def intro!: filter_cong)
  then show ?thesis
    unfolding cleanup_expired_messages_def
    by (simp add: rows_of_def filter_sort [symmetric] Let_def split: sum.split)
       (auto simp: filter_sort simp del: filter_filter)
qed

text \<open>
  In any database the store can reach, appending a turn never hits the \<open>UNIQUE\<close>
  constraint on (session, sequence number): it fails only when the pool fails or the
  session does not exist, with that error, and keeps the table invariant.
\<close>

theorem append_turn_never_collides:
  assumes "reachable_db cd db"
  shows "fst (append_turn cd now i um am db) =
           (case db_fault db of Some e \<Rightarrow> Err (Database e)
            | None \<Rightarrow> if has_session db i then Ok () else Err (NotFound i))
         \<and> store_inv (snd (append_turn cd now i um am db))"
  using store_inv_reachable [OF assms]
  by (auto simp: append_turn_def append_messages_result intro: inv_intros)

definition sample_codec :: content_codec where
  "sample_codec = \<lparr>content_to_text = (\<lambda>bs. case bs of [Text t] \<Rightarrow> t | _ \<Rightarrow> []),
     content_from_text = (\<lambda>s. Some [Text s])\<rparr>"

lemmas sample_eval = create_def insert_session_row_def empty_db_def create_session_row_def
  has_session_def

definition sample_db :: db where
  "sample_db = snd (create 5000000000 ''s2'' ''ada'' (snd (create 3000000000 ''s1'' ''bob'' empty_db)))"

lemma sample_db_reachable: "reachable_db cd sample_db"
  unfolding sample_db_def by (intro reach_step [OF _ step_create] reach_empty)

lemma append_turn_never_collides_witness:
  "fst (append_turn sample_codec 0 ''s1'' (text_message RoleUser ''hi'')
     (text_message RoleAssistant ''yo'') sample_db) = Ok ()"
  using append_turn_never_collides [OF sample_db_reachable, of sample_codec 0 "''s1''"
      "text_message RoleUser ''hi''" "text_message RoleAssistant ''yo''"]
  by (simp add: sample_db_def sample_eval)

text \<open>
  C3. Turns of several sessions interleaved in any order, on any reachable database:
  each session reads back what it held followed by exactly its own turns, in order, and
  no session record changes. Stated for contents the codec can store and read back.
\<close>

theorem interleaved_turns_read_back:
  assumes "reachable_db cd db" "db_fault db = None" "load_messages cd db i = Ok ms"
    and "\<And>t. t \<in> set ts \<Longrightarrow> has_session db (te_session t)"
    and "\<And>t. t \<in> set ts \<Longrightarrow> storable cd (te_user t) \<and> storable cd (te_assistant t)"
  shows "load_messages cd (run_turns (append_turn cd) ts db) i = Ok (ms @ turns_for i ts)
         \<and> (\<forall>j. get (run_turns (append_turn cd) ts db) j = get db j)"
  using sqlite.interleaved_transcript [of db cd i ms ts] assms has_session_get [of db]
    store_inv_reachable [OF assms(1)] load_messages_total [of db cd]
  by blast

lemma interleaved_turns_read_back_witness:
  "load_messages sample_codec (run_turns (append_turn sample_codec)
     [\<lparr>te_time = 0, te_session = ''s1'', te_user = text_message RoleUser ''a'',
       te_assistant = text_message RoleAssistant ''b''\<rparr>,
      \<lparr>te_time = 0, te_session = ''s2'', te_user = text_message RoleUser ''c'',
       te_assistant = text_message RoleAssistant ''d''\<rparr>,
      \<lparr>te_time = 0, te_session = ''s1'', te_user = text_message RoleUser ''e'',
       te_assistant = text_message RoleAssistant ''f''\<rparr>] sample_db) ''s1''
   = Ok [text_message RoleUser ''a'', text_message RoleAssistant ''b'',
         text_message RoleUser ''e'', text_message RoleAssistant ''f'']"
  (is "load_messages _ (run_turns _ ?ts _) _ = _")
proof -
  have fault: "db_fault sample_db = None"
    by (simp add: sample_db_def sample_eval)
  have empty: "load_messages sample_codec sample_db ''s1'' = Ok []"
    by (simp add: sample_db_def sample_eval
        load_messages_def rows_of_def)
  have "\<And>t. t \<in> set ?ts \<Longrightarrow> has_session sample_db (te_session t)"
    by (auto simp: sample_db_def sample_eval)
  moreover have "\<And>t. t \<in> set ?ts \<Longrightarrow>
      storable sample_codec (te_user t) \<and> storable sample_codec (te_assistant t)"
    by (auto simp: storable_def sample_codec_def)
  ultimately have "load_messages sample_codec (run_turns (append_turn sample_codec) ?ts sample_db) ''s1''
      = Ok ([] @ turns_for ''s1'' ?ts)"
    using interleaved_turns_read_back [OF sample_db_reachable fault empty, of ?ts] by blast
  then show ?thesis by (simp only: turns_for_simps) simp
qed

text \<open>
  The stored watermark of a session never decreases, whatever operation runs: a
  worker that advances with an older value cannot make consolidated messages pending again.
\<close>

theorem watermark_never_decreases:
  assumes "store_inv db" "store_step cd db db'"
    and "find_row db i = Some r" "find_row db' i = Some r'"
  shows "row_watermark r \<le> row_watermark r'"
  using assms(2) assms(1,3,4)
proof (cases rule: store_step.cases)
  case (step_create now j u)
  then show ?thesis using insert_row_watermark [of db i r "create_session_row now j u None" r'] assms(3,4)
    by (auto simp: create_def split: prod.splits sum.splits)
next
  case (step_create_skill now j u ctx)
  then show ?thesis
    using insert_row_watermark [of db i r "create_session_row now j u (Some ctx)" r'] assms(3,4)
    by (auto simp: create_with_skill_context_def split: prod.splits sum.splits)
next
  case (step_delete_ended cutoff)
  then show ?thesis using find_row_delete_rows [OF assms(1)] assms(3,4)
    by (fastforce simp: delete_ended_sessions_before_def Let_def split: option.splits)
next
  case (step_delete j)
  then show ?thesis using find_row_delete_rows [OF assms(1)] assms(3,4)
    by (fastforce simp: delete_session_def split: option.splits)
next
  case (step_status now j st)
  then show ?thesis using assms(3,4) unfolding update_status_def
    by (auto intro!: update_row_watermark [rotated 1] simp: keeps_row_def)
next
  case (step_watermark j w)
  then show ?thesis using assms(3,4) unfolding advance_watermark_def
    by (auto intro!: update_row_watermark [rotated 1] simp: keeps_row_def)
next
  case (step_skill j ctx)
  then show ?thesis using assms(3,4) unfolding set_skill_context_def
    by (auto intro!: update_row_watermark [rotated 1] simp: keeps_row_def)
next
  case (step_phase j ctx)
  then show ?thesis using assms(3,4) unfolding set_phase_opening_context_def
    by (auto intro!: update_row_watermark [rotated 1] simp: keeps_row_def)
next
  case (step_transition j sc pc)
  then show ?thesis using assms(3,4) unfolding apply_phase_transition_def
    by (auto intro!: update_row_watermark [rotated 1] simp: keeps_row_def)
next
  case (step_interrupted j ist)
  then show ?thesis using assms(3,4) unfolding set_interrupted_state_def
    by (auto intro!: update_row_watermark [rotated 1] simp: keeps_row_def)
qed (use assms(3,4) in \<open>auto simp: append_message_def append_turn_def frame_simps find_row_def\<close>)

lemma watermark_never_decreases_witness:
  "row_watermark (the (find_row sample_db ''s1''))
   \<le> row_watermark (the (find_row (snd (advance_watermark ''s1'' 4 sample_db)) ''s1''))"
proof -
  have "\<exists>r. find_row sample_db ''s1'' = Some r"
    "\<exists>r. find_row (snd (advance_watermark ''s1'' 4 sample_db)) ''s1'' = Some r"
    by (simp_all add: sample_db_def sample_eval find_row_def advance_watermark_def update_row_def)
  then show ?thesis
    using watermark_never_decreases [OF store_inv_reachable [OF sample_db_reachable]
        step_watermark [of sample_codec sample_db "''s1''" 4], of "''s1''"] by auto
qed

text \<open>Retention leaves what is still to be consolidated of every session, whatever cutoff
  and watermark the worker passes, even a watermark ahead of the stored one.\<close>

lemma pending_after_cleanup:
  "load_messages_above_watermark cd (snd (cleanup_expired_messages i cutoff wm db)) j
   = load_messages_above_watermark cd db j"
proof -
  have "get_watermark (snd (cleanup_expired_messages i cutoff wm db)) j = get_watermark db j"
    by (simp add: get_watermark_def find_row_def query_def frame_simps)
  then show ?thesis
    using rows_of_cleanup [of db j _ i cutoff wm]
    by (cases "get_watermark db j") (simp_all add: load_messages_above_watermark_def)
qed

lemma rows_of_pruned: "rows_of db i = [] \<Longrightarrow> next_sequence db i = 1"
  unfolding rows_of_empty_iff next_sequence_def max_sequence_def by (simp add: filter_empty_conv)


definition pruned_db :: db where
  "pruned_db = snd (cleanup_expired_messages ''s1'' 10 2
     (snd (advance_watermark ''s1'' 2
       (snd (append_turn sample_codec 6000000000 ''s1'' (text_message RoleUser ''a'')
          (text_message RoleAssistant ''b'') sample_db)))))"


end
