(* ===== verification/Session_Manager.thy ===== *)
theory Session_Manager
  imports Effects Session_Store
begin

text \<open>
  The session manager (\<open>avs-session/src/manager.rs\<close>): the session store behind the interface
  the agent uses, and the one check it adds, ownership. Its operations are effects on the
  store (\<open>db_eff\<close>); a session of another user is reported as not found.
\<close>

type_synonym 'a db_eff = "(db, session_memory_error, 'a) eff"

definition create_session :: "instant \<Rightarrow> uuid \<Rightarrow> string \<Rightarrow> uuid db_eff" where
  "create_session now i user_id = eff_bind (create now i user_id) (\<lambda>ses. eff_ok (ses_id ses))"

definition get_session :: "uuid \<Rightarrow> session option db_eff" where
  "get_session i = eff_read (\<lambda>db. get db i)"

definition assert_owner :: "string \<Rightarrow> uuid \<Rightarrow> unit db_eff" where
  "assert_owner user_id i =
     eff_bind (get_session i) (\<lambda>found. case found of
        Some ses \<Rightarrow> if ses_user_id ses = user_id then eff_ok () else eff_err (NotFound i)
      | None \<Rightarrow> eff_err (NotFound i))"

definition end_session :: "instant \<Rightarrow> uuid \<Rightarrow> unit db_eff" where
  "end_session now i = update_status now i Completed"

definition manager_delete_session :: "uuid \<Rightarrow> unit db_eff" where
  "manager_delete_session i = delete_session i"

definition list_sessions :: "string \<Rightarrow> session list db_eff" where
  "list_sessions user_id = eff_read (\<lambda>db. list_by_user db user_id)"

definition manager_load_messages :: "content_codec \<Rightarrow> uuid \<Rightarrow> message list db_eff" where
  "manager_load_messages cd i = eff_read (\<lambda>db. load_messages cd db i)"

definition manager_append_message :: "content_codec \<Rightarrow> instant \<Rightarrow> uuid \<Rightarrow> message \<Rightarrow> unit db_eff" where
  "manager_append_message cd now i m = append_message cd now i m"

definition manager_append_turn :: "content_codec \<Rightarrow> instant \<Rightarrow> uuid \<Rightarrow> message \<Rightarrow> message \<Rightarrow> unit db_eff" where
  "manager_append_turn cd now i um am = append_turn cd now i um am"

definition manager_set_skill_context :: "uuid \<Rightarrow> string option \<Rightarrow> unit db_eff" where
  "manager_set_skill_context i ctx = set_skill_context i ctx"

definition manager_get_skill_context :: "uuid \<Rightarrow> string option db_eff" where
  "manager_get_skill_context i = eff_read (\<lambda>db. get_skill_context db i)"

definition manager_set_phase_context :: "uuid \<Rightarrow> string option \<Rightarrow> unit db_eff" where
  "manager_set_phase_context i ctx = set_phase_opening_context i ctx"

definition manager_get_phase_context :: "uuid \<Rightarrow> string option db_eff" where
  "manager_get_phase_context i = eff_read (\<lambda>db. get_phase_opening_context db i)"

definition manager_apply_phase_transition :: "uuid \<Rightarrow> string \<Rightarrow> string \<Rightarrow> unit db_eff" where
  "manager_apply_phase_transition i skill_ctx phase_ctx = apply_phase_transition i skill_ctx phase_ctx"

definition create_session_with_skill_context :: "instant \<Rightarrow> uuid \<Rightarrow> string \<Rightarrow> string \<Rightarrow> uuid db_eff" where
  "create_session_with_skill_context now i user_id ctx =
     eff_bind (create_with_skill_context now i user_id ctx) (\<lambda>ses. eff_ok (ses_id ses))"

definition manager_set_interrupted :: "uuid \<Rightarrow> string option \<Rightarrow> unit db_eff" where
  "manager_set_interrupted i st = set_interrupted_state i st"

definition manager_get_interrupted :: "uuid \<Rightarrow> string option db_eff" where
  "manager_get_interrupted i = eff_read (\<lambda>db. get_interrupted_state db i)"

definition manager_update_status :: "instant \<Rightarrow> uuid \<Rightarrow> session_status \<Rightarrow> unit db_eff" where
  "manager_update_status now i st = update_status now i st"

section \<open>What the operations change\<close>

lemmas manager_defs = create_session_def end_session_def manager_delete_session_def
  manager_append_message_def manager_append_turn_def manager_set_skill_context_def
  manager_set_phase_context_def manager_apply_phase_transition_def create_session_with_skill_context_def
  manager_set_interrupted_def manager_update_status_def

lemmas manager_read_defs = get_session_def list_sessions_def manager_load_messages_def
  manager_get_skill_context_def manager_get_phase_context_def manager_get_interrupted_def

lemma assert_owner_keeps: "snd (assert_owner u i db) = db"
  by (auto simp: assert_owner_def get_session_def eff_simps split: sum.split option.split)

lemma assert_owner_Ok:
  "assert_owner u i db = (Ok (), db') \<longleftrightarrow> db' = db \<and> (\<exists>ses. get db i = Ok (Some ses) \<and> ses_user_id ses = u)"
  by (auto simp: assert_owner_def get_session_def eff_simps split: sum.split option.split)

text \<open>The owner of a session, as the store has it.\<close>

definition owned_by :: "db \<Rightarrow> uuid \<Rightarrow> string \<Rightarrow> bool" where
  "owned_by db i u \<longleftrightarrow> (\<exists>ses. get db i = Ok (Some ses) \<and> ses_user_id ses = u)"

lemma assert_owner_run:
  "assert_owner u i db =
     (if owned_by db i u then Ok () else case db_fault db of Some e \<Rightarrow> Err (Database e) | None \<Rightarrow> Err (NotFound i), db)"
  by (auto simp: assert_owner_def get_session_def owned_by_def get_def query_def eff_simps split: option.split)

lemma update_row_messages: "db_messages (snd (update_row i f db)) = db_messages db"
  by (simp add: update_row_def split: option.split)

lemma insert_session_messages: "db_messages (snd (insert_session_row r db)) = db_messages db"
  by (simp add: insert_session_row_def split: option.split)

text \<open>Every operation but the appends and the deletions leaves all transcripts alone.\<close>

lemma manager_keeps_messages [inv_intros]:
  "keeps db_messages (end_session now i)" "keeps db_messages (manager_set_skill_context i c)"
  "keeps db_messages (manager_set_phase_context i c)" "keeps db_messages (manager_apply_phase_transition i a b)"
  "keeps db_messages (manager_set_interrupted i c)" "keeps db_messages (manager_update_status now i st)"
  "keeps db_messages (assert_owner u i)"
  by (simp_all add: keeps_def manager_defs update_row_messages update_status_def set_skill_context_def
      set_phase_opening_context_def apply_phase_transition_def set_interrupted_state_def assert_owner_keeps)

lemma update_row_fault: "db_fault (snd (update_row i f db)) = db_fault db"
  by (simp add: update_row_def split: option.split)

lemma manager_keeps_fault [inv_intros]:
  "keeps db_fault (end_session now i)" "keeps db_fault (manager_set_skill_context i c)"
  "keeps db_fault (manager_set_phase_context i c)" "keeps db_fault (manager_apply_phase_transition i a b)"
  "keeps db_fault (manager_set_interrupted i c)" "keeps db_fault (manager_update_status now i st)"
  "keeps db_fault (assert_owner u i)"
  by (simp_all add: keeps_def manager_defs update_row_fault update_status_def set_skill_context_def
      set_phase_opening_context_def apply_phase_transition_def set_interrupted_state_def assert_owner_keeps)

lemma load_messages_cong:
  "db_messages db' = db_messages db \<Longrightarrow> db_fault db' = db_fault db \<Longrightarrow> load_messages cd db' = load_messages cd db"
  by (simp add: fun_eq_iff load_messages_def query_def rows_of_def)

lemma preserves_store_step:
  "(\<And>db. store_step cd db (snd (m db))) \<Longrightarrow> preserves store_inv m"
  unfolding preserves_def using store_inv_step by blast

lemma manager_store_inv [inv_intros]:
  "preserves store_inv (create_session now i u)" "preserves store_inv (end_session now i)"
  "preserves store_inv (manager_delete_session i)" "preserves store_inv (manager_append_turn cd now i um am)"
  "preserves store_inv (manager_set_skill_context i c)" "preserves store_inv (manager_set_phase_context i c)"
  "preserves store_inv (manager_apply_phase_transition i a b)"
  "preserves store_inv (create_session_with_skill_context now i u a)"
  "preserves store_inv (manager_set_interrupted i c)" "preserves store_inv (manager_update_status now i st)"
  unfolding manager_defs
  by (rule preserves_pure | rule preserves_bind | (rule preserves_store_step, rule store_step.intros))+

end
