(* ===== verification/Working_Memory.thy ===== *)
theory Working_Memory
  imports Session_Store
begin

text \<open>
  The short-lived cache in front of the session store (\<open>avs-memory/src/working.rs\<close>). An entry
  counts while it is at most \<open>ttl\<close> old; a load that finds it older misses but leaves it, a
  store sweeps every expired entry away, and an append revives the one it finds.

  The locale \<open>working_memory\<close> is what the agent relies on; its facts relate the cache to the
  transcript in the store.
\<close>

section \<open>The cache\<close>

type_synonym cache_key = "string \<times> uuid"

record entry =
  en_messages :: "message list"
  en_last_used :: instant

record cache =
  wm_entries :: "(cache_key \<times> entry) list"
  wm_ttl :: int

definition cache_new :: "int \<Rightarrow> cache" where
  "cache_new ttl = \<lparr>wm_entries = [], wm_ttl = ttl\<rparr>"

text \<open>The age of an entry; a clock that went back gives zero.\<close>

definition elapsed :: "instant \<Rightarrow> entry \<Rightarrow> int" where
  "elapsed now e = max 0 (now - en_last_used e)"

definition fresh :: "cache \<Rightarrow> instant \<Rightarrow> entry \<Rightarrow> bool" where
  "fresh c now e \<longleftrightarrow> elapsed now e \<le> wm_ttl c"

definition cache_load :: "instant \<Rightarrow> string \<Rightarrow> uuid \<Rightarrow> cache \<Rightarrow> message list option" where
  "cache_load now u i c =
     (case map_of (wm_entries c) (u, i) of
        None \<Rightarrow> None
      | Some e \<Rightarrow> if fresh c now e then Some (en_messages e) else None)"

definition cache_store :: "instant \<Rightarrow> string \<Rightarrow> uuid \<Rightarrow> message list \<Rightarrow> cache \<Rightarrow> cache" where
  "cache_store now u i ms c =
     c\<lparr>wm_entries := assoc_put (u, i) \<lparr>en_messages = ms, en_last_used = now\<rparr>
        (filter (\<lambda>(k, e). fresh c now e) (wm_entries c))\<rparr>"

definition cache_append_turn ::
  "instant \<Rightarrow> string \<Rightarrow> uuid \<Rightarrow> message \<Rightarrow> message \<Rightarrow> cache \<Rightarrow> cache" where
  "cache_append_turn now u i um am c =
     (let ms = (case map_of (wm_entries c) (u, i) of Some e \<Rightarrow> en_messages e | None \<Rightarrow> []) in
      c\<lparr>wm_entries := assoc_put (u, i) \<lparr>en_messages = ms @ [um, am], en_last_used = now\<rparr> (wm_entries c)\<rparr>)"

definition cache_evict :: "string \<Rightarrow> uuid \<Rightarrow> cache \<Rightarrow> cache" where
  "cache_evict u i c = c\<lparr>wm_entries := assoc_remove (u, i) (wm_entries c)\<rparr>"

section \<open>Lookups after updates\<close>

definition cache_inv :: "cache \<Rightarrow> bool" where
  "cache_inv c \<longleftrightarrow> distinct (map fst (wm_entries c)) \<and> 0 \<le> wm_ttl c"

lemma map_of_filter_val:
  "distinct (map fst xs) \<Longrightarrow> map_of (filter (\<lambda>(k, e). P e) xs) k
     = (case map_of xs k of Some e \<Rightarrow> if P e then Some e else None | None \<Rightarrow> None)"
proof (induction xs)
  case (Cons x xs)
  obtain k' e where x: "x = (k', e)" by force
  have "map_of (filter (\<lambda>(k, e). P e) xs) k' = None" if "map_of xs k' = None"
    using that by (auto simp: map_of_eq_None_iff)
  then show ?case using Cons x by (auto simp: map_of_eq_None_iff image_iff split: option.splits)
qed simp

lemma cache_entries_filter: "distinct (map fst xs) \<Longrightarrow> distinct (map fst (filter P xs))"
  by (induction xs) auto

lemma cache_ops_inv [inv_intros]:
  assumes "cache_inv c"
  shows "cache_inv (cache_store now u i ms c)" "cache_inv (cache_append_turn now u i um am c)"
    "cache_inv (cache_evict u i c)"
  using assms
  by (simp_all add: cache_inv_def cache_store_def cache_append_turn_def cache_evict_def Let_def
      distinct_assoc_put distinct_assoc_remove cache_entries_filter)

lemma cache_new_inv: "0 \<le> ttl \<Longrightarrow> cache_inv (cache_new ttl)"
  by (simp add: cache_inv_def cache_new_def)

lemma cache_load_store:
  assumes "cache_inv c"
  shows "cache_load t u i (cache_store now u i ms c) = (if t - now \<le> wm_ttl c then Some ms else None)"
  using assms by (auto simp: cache_load_def cache_store_def fresh_def elapsed_def cache_inv_def)

lemma cache_load_store_other:
  assumes "cache_inv c" "now \<le> t" "(v, j) \<noteq> (u, i)"
  shows "cache_load t v j (cache_store now u i ms c) = cache_load t v j c"
proof -
  have "fresh c now e" if "fresh c t e" for e
    using that assms(2) by (simp add: fresh_def elapsed_def)
  then show ?thesis using assms
    by (auto simp: cache_load_def cache_store_def fresh_def cache_inv_def map_of_filter_val
        simp del: map_of_eq_Some_iff Some_eq_map_of_iff split: option.split)
qed

lemma cache_load_append:
  "cache_load t u i (cache_append_turn now u i um am c) =
     (if t - now \<le> wm_ttl c \<and> 0 \<le> wm_ttl c
      then Some ((case map_of (wm_entries c) (u, i) of Some e \<Rightarrow> en_messages e | None \<Rightarrow> []) @ [um, am]) else None)"
  by (auto simp: cache_load_def cache_append_turn_def fresh_def elapsed_def Let_def)

lemma cache_load_append_other:
  "(v, j) \<noteq> (u, i) \<Longrightarrow> cache_load t v j (cache_append_turn now u i um am c) = cache_load t v j c"
  by (auto simp: cache_load_def cache_append_turn_def fresh_def Let_def split: option.split)

lemma cache_load_evict:
  "cache_load t v j (cache_evict u i c) = (if (v, j) = (u, i) then None else cache_load t v j c)"
  by (auto simp: cache_load_def cache_evict_def fresh_def split: option.split)

section \<open>What a client relies on\<close>

locale working_memory =
  fixes load :: "instant \<Rightarrow> string \<Rightarrow> uuid \<Rightarrow> 'w \<Rightarrow> message list option"
    and store :: "instant \<Rightarrow> string \<Rightarrow> uuid \<Rightarrow> message list \<Rightarrow> 'w \<Rightarrow> 'w"
    and append :: "instant \<Rightarrow> string \<Rightarrow> uuid \<Rightarrow> message \<Rightarrow> message \<Rightarrow> 'w \<Rightarrow> 'w"
    and evict :: "string \<Rightarrow> uuid \<Rightarrow> 'w \<Rightarrow> 'w"
    and inv :: "'w \<Rightarrow> bool"
  assumes keeps: "inv c \<Longrightarrow> inv (store now u i ms c)" "inv c \<Longrightarrow> inv (append now u i um am c)"
      "inv c \<Longrightarrow> inv (evict u i c)"
    and load_later: "inv c \<Longrightarrow> t \<le> t' \<Longrightarrow> load t' u i c = Some ms \<Longrightarrow> load t u i c = Some ms"
    and load_store: "inv c \<Longrightarrow> load t u i (store now u i ms c) = Some ms' \<Longrightarrow> ms' = ms"
    and load_store_now: "inv c \<Longrightarrow> load now u i (store now u i ms c) = Some ms"
    and store_other: "inv c \<Longrightarrow> now \<le> t \<Longrightarrow> (v, j) \<noteq> (u, i) \<Longrightarrow>
        load t v j (store now u i ms c) = load t v j c"
    and load_append: "inv c \<Longrightarrow> load now' u i c = Some ms \<Longrightarrow>
        load t u i (append now u i um am c) = Some ms' \<Longrightarrow> ms' = ms @ [um, am]"
    and append_other: "inv c \<Longrightarrow> (v, j) \<noteq> (u, i) \<Longrightarrow> load t v j (append now u i um am c) = load t v j c"
    and load_evict: "inv c \<Longrightarrow> load t v j (evict u i c) = (if (v, j) = (u, i) then None else load t v j c)"
begin

text \<open>The cache never contradicts the transcripts \<open>l2\<close> from the instant \<open>now\<close> on.\<close>

definition coherent :: "(uuid \<Rightarrow> message list) \<Rightarrow> instant \<Rightarrow> 'w \<Rightarrow> bool" where
  "coherent l2 now c \<longleftrightarrow> (\<forall>t \<ge> now. \<forall>u i ms. load t u i c = Some ms \<longrightarrow> ms = l2 i)"

lemma coherent_later: "coherent l2 now c \<Longrightarrow> now \<le> now' \<Longrightarrow> coherent l2 now' c"
  unfolding coherent_def by (meson order_trans)

lemma coherent_rehydrate:
  assumes "inv c" "coherent l2 now c"
  shows "coherent l2 now (store now u i (l2 i) c)"
  unfolding coherent_def
proof (intro allI impI)
  fix t v j ms
  assume t: "now \<le> t" and ms: "load t v j (store now u i (l2 i) c) = Some ms"
  show "ms = l2 j"
  proof (cases "(v, j) = (u, i)")
    case True
    then show ?thesis using load_store [OF assms(1)] ms by blast
  next
    case False
    then show ?thesis using store_other [OF assms(1) t] ms assms(2) t by (simp add: coherent_def)
  qed
qed

lemma coherent_evict:
  assumes "inv c" "coherent l2 now c"
  shows "coherent l2 now (evict u i c)"
  using assms by (auto simp: coherent_def load_evict)

text \<open>A turn is appended to both tiers while the entry of its key is live, and no other
  user has an entry for the session.\<close>

lemma coherent_turn:
  assumes "inv c" "coherent l2 now c" "load now u i c = Some ms"
    and alone: "\<And>v t. v \<noteq> u \<Longrightarrow> now \<le> t \<Longrightarrow> load t v i c = None"
  shows "coherent (l2(i := l2 i @ [um, am])) now (append later u i um am c)"
  unfolding coherent_def
proof (intro allI impI)
  fix t v j ms'
  assume t: "now \<le> t" and ms': "load t v j (append later u i um am c) = Some ms'"
  have ms: "ms = l2 i" using assms(2,3) by (auto simp: coherent_def)
  show "ms' = (l2(i := l2 i @ [um, am])) j"
  proof (cases "(v, j) = (u, i)")
    case True
    then show ?thesis using load_append [OF assms(1,3)] ms' ms by auto
  next
    case False
    then have "load t v j c = Some ms'" using append_other [OF assms(1)] ms' by simp
    then show ?thesis using False alone assms(2) t by (cases "j = i") (auto simp: coherent_def)
  qed
qed

end

lemma cache_load_append_live:
  "cache_load now' u i c = Some ms \<Longrightarrow> cache_load t u i (cache_append_turn now u i um am c) = Some ms' \<Longrightarrow>
     ms' = ms @ [um, am]"
  by (simp add: cache_load_append split: if_splits) (auto simp: cache_load_def split: option.splits if_splits)

lemma cache_load_now: "cache_inv c \<Longrightarrow> cache_load now u i (cache_store now u i ms c) = Some ms"
  by (simp add: cache_load_store) (simp add: cache_inv_def)

lemma cache_load_later:
  "t \<le> t' \<Longrightarrow> cache_load t' u i c = Some ms \<Longrightarrow> cache_load t u i c = Some ms"
  by (auto simp: cache_load_def fresh_def elapsed_def split: option.splits if_splits)

interpretation cache: working_memory cache_load cache_store cache_append_turn cache_evict cache_inv
  by unfold_locales
     (auto simp: cache_load_now cache_load_store cache_load_store_other cache_load_append_other cache_load_evict
       intro: inv_intros cache_load_later dest: cache_load_append_live split: if_splits)

end
