(* ===== verification/Hitl_Queue.thy ===== *)
theory Hitl_Queue
  imports Core_Types
begin

text \<open>
  The approval queue of human-in-the-loop requests: the types of
  \<open>avs-hitl/src/types.rs\<close>, the two implementations of the trait \<open>ApprovalQueue\<close>
  (\<open>avs-hitl/src/memory.rs\<close>, \<open>avs-hitl/src/sqlite.rs\<close>), and the contract both meet, the
  locale \<open>approval_queue\<close>, interpreted on each of them. Identifiers and the clock are
  arguments; the JSON text of kinds and decisions is the \<open>hitl_codec\<close>. The metrics of the
  source appear as the contribution of the queue to the gauge of pending approvals.
\<close>

section \<open>Types\<close>

datatype interrupt_kind =
    ToolApproval (ta_tool_name: string) (ta_args: json)
  | PhaseGate (pg_from_skill: string) (pg_to_skill: string) (pg_deliverable: string)
  | SkillCheckpoint (sc_checkpoint_name: string) (sc_payload: json)

record approval_request =
  apr_id :: uuid
  apr_session_id :: uuid
  apr_kind :: interrupt_kind
  apr_expires_at :: "instant option"

definition new_request :: "uuid \<Rightarrow> uuid \<Rightarrow> interrupt_kind \<Rightarrow> approval_request" where
  "new_request i sid kind =
     \<lparr>apr_id = i, apr_session_id = sid, apr_kind = kind, apr_expires_at = None\<rparr>"

definition with_expiry :: "approval_request \<Rightarrow> instant \<Rightarrow> approval_request" where
  "with_expiry r t = r\<lparr>apr_expires_at := Some t\<rparr>"

datatype approval_decision = Approved | Rejected string | Modified json

datatype approval_status = Pending | Resolved approval_decision | Expired

datatype hitl_error = ApprovalNotFound uuid | HitlDatabase string | AlreadyResolved uuid

record hitl_codec =
  kind_to_text :: "interrupt_kind \<Rightarrow> string"
  decision_to_text :: "approval_decision \<Rightarrow> string"
  decision_from_text :: "string \<Rightarrow> approval_decision option"

section \<open>The queue in memory\<close>

record queue_entry =
  qe_request :: approval_request
  qe_status :: approval_status

record mem_queue =
  mq_entries :: "(uuid \<times> queue_entry) list"
  mq_pending_gauge :: int

definition mem_new :: mem_queue where
  "mem_new = \<lparr>mq_entries = [], mq_pending_gauge = 0\<rparr>"

definition mem_submit ::
  "instant \<Rightarrow> approval_request \<Rightarrow> mem_queue \<Rightarrow> (hitl_error + uuid) \<times> mem_queue" where
  "mem_submit now req q =
     (Ok (apr_id req),
      q\<lparr>mq_entries := assoc_put (apr_id req) \<lparr>qe_request = req, qe_status = Pending\<rparr> (mq_entries q),
        mq_pending_gauge := mq_pending_gauge q + 1\<rparr>)"

definition mem_resolve ::
  "instant \<Rightarrow> uuid \<Rightarrow> approval_decision \<Rightarrow> mem_queue \<Rightarrow> (hitl_error + unit) \<times> mem_queue" where
  "mem_resolve now i d q =
     (case map_of (mq_entries q) i of
        None \<Rightarrow> (Err (ApprovalNotFound i), q)
      | Some e \<Rightarrow>
          if qe_status e \<noteq> Pending then (Err (AlreadyResolved i), q)
          else (Ok (), q\<lparr>mq_entries := assoc_put i (e\<lparr>qe_status := Resolved d\<rparr>) (mq_entries q),
                         mq_pending_gauge := mq_pending_gauge q - 1\<rparr>))"

definition mem_poll :: "mem_queue \<Rightarrow> uuid \<Rightarrow> hitl_error + approval_status" where
  "mem_poll q i =
     (case map_of (mq_entries q) i of
        None \<Rightarrow> Err (ApprovalNotFound i) | Some e \<Rightarrow> Ok (qe_status e))"

definition entry_expires :: "instant \<Rightarrow> queue_entry \<Rightarrow> bool" where
  "entry_expires now e \<longleftrightarrow> qe_status e = Pending \<and>
     (case apr_expires_at (qe_request e) of None \<Rightarrow> False | Some t \<Rightarrow> t < now)"

definition expire_entry :: "instant \<Rightarrow> queue_entry \<Rightarrow> queue_entry" where
  "expire_entry now e = (if entry_expires now e then e\<lparr>qe_status := Expired\<rparr> else e)"

definition mem_sweep_expired :: "instant \<Rightarrow> mem_queue \<Rightarrow> (hitl_error + nat) \<times> mem_queue" where
  "mem_sweep_expired now q =
     (let n = length (filter (\<lambda>(_, e). entry_expires now e) (mq_entries q)) in
      (Ok n, q\<lparr>mq_entries := map (\<lambda>(k, e). (k, expire_entry now e)) (mq_entries q),
               mq_pending_gauge := mq_pending_gauge q - int n\<rparr>))"

section \<open>The queue in SQLite\<close>

record approval_row =
  ar_id :: uuid
  ar_session_id :: uuid
  ar_kind_json :: string
  ar_status :: string
  ar_decision :: "string option"
  ar_created_at :: int
  ar_resolved_at :: "int option"
  ar_expires_at :: "int option"

record sql_queue =
  sq_rows :: "approval_row list"
  sq_fault :: "string option"
  sq_pending_gauge :: int

definition sql_new :: sql_queue where
  "sql_new = \<lparr>sq_rows = [], sq_fault = None, sq_pending_gauge = 0\<rparr>"

definition row_to_status ::
  "hitl_codec \<Rightarrow> string \<Rightarrow> string option \<Rightarrow> hitl_error + approval_status" where
  "row_to_status cd st dec =
     (if st = ''pending'' then Ok Pending
      else if st = ''resolved'' then
        Ok (Resolved (case Option.bind dec (decision_from_text cd) of
              Some d \<Rightarrow> d
            | None \<Rightarrow> Rejected ''data integrity error: decision missing or unparseable''))
      else if st = ''expired'' then Ok Expired
      else Err (HitlDatabase (''corrupt approval row: unknown status '' @ [CHR 0x27] @ st @ [CHR 0x27])))"

definition sql_submit ::
  "hitl_codec \<Rightarrow> instant \<Rightarrow> approval_request \<Rightarrow> sql_queue \<Rightarrow> (hitl_error + uuid) \<times> sql_queue" where
  "sql_submit cd now req q =
     (case sq_fault q of
        Some e \<Rightarrow> (Err (HitlDatabase e), q)
      | None \<Rightarrow>
          if \<exists>r \<in> set (sq_rows q). ar_id r = apr_id req
          then (Err (HitlDatabase ''UNIQUE constraint failed: hitl_approvals.id''), q)
          else (Ok (apr_id req),
            q\<lparr>sq_rows := sq_rows q @
                [\<lparr>ar_id = apr_id req, ar_session_id = apr_session_id req,
                  ar_kind_json = kind_to_text cd (apr_kind req), ar_status = ''pending'',
                  ar_decision = None, ar_created_at = timestamp now, ar_resolved_at = None,
                  ar_expires_at = map_option timestamp (apr_expires_at req)\<rparr>],
              sq_pending_gauge := sq_pending_gauge q + 1\<rparr>))"

definition resolve_row :: "hitl_codec \<Rightarrow> instant \<Rightarrow> uuid \<Rightarrow> approval_decision \<Rightarrow> approval_row \<Rightarrow> approval_row" where
  "resolve_row cd now i d r =
     (if ar_id r = i \<and> ar_status r = ''pending''
      then r\<lparr>ar_status := ''resolved'', ar_decision := Some (decision_to_text cd d),
             ar_resolved_at := Some (timestamp now)\<rparr>
      else r)"

definition sql_resolve ::
  "hitl_codec \<Rightarrow> instant \<Rightarrow> uuid \<Rightarrow> approval_decision \<Rightarrow> sql_queue \<Rightarrow> (hitl_error + unit) \<times> sql_queue" where
  "sql_resolve cd now i d q =
     (case sq_fault q of
        Some e \<Rightarrow> (Err (HitlDatabase e), q)
      | None \<Rightarrow>
          if filter (\<lambda>r. ar_id r = i \<and> ar_status r = ''pending'') (sq_rows q) = []
          then (if filter (\<lambda>r. ar_id r = i) (sq_rows q) = []
                then (Err (ApprovalNotFound i), q) else (Err (AlreadyResolved i), q))
          else (Ok (), q\<lparr>sq_rows := map (resolve_row cd now i d) (sq_rows q),
                         sq_pending_gauge := sq_pending_gauge q - 1\<rparr>))"

definition sql_poll :: "hitl_codec \<Rightarrow> sql_queue \<Rightarrow> uuid \<Rightarrow> hitl_error + approval_status" where
  "sql_poll cd q i =
     (case sq_fault q of
        Some e \<Rightarrow> Err (HitlDatabase e)
      | None \<Rightarrow>
          (case find (\<lambda>r. ar_id r = i) (sq_rows q) of
             None \<Rightarrow> Err (ApprovalNotFound i)
           | Some r \<Rightarrow> row_to_status cd (ar_status r) (ar_decision r)))"

definition row_expires :: "instant \<Rightarrow> approval_row \<Rightarrow> bool" where
  "row_expires now r \<longleftrightarrow> ar_status r = ''pending'' \<and>
     (case ar_expires_at r of None \<Rightarrow> False | Some t \<Rightarrow> t < timestamp now)"

definition expire_row :: "instant \<Rightarrow> approval_row \<Rightarrow> approval_row" where
  "expire_row now r = (if row_expires now r then r\<lparr>ar_status := ''expired''\<rparr> else r)"

definition sql_sweep_expired :: "instant \<Rightarrow> sql_queue \<Rightarrow> (hitl_error + nat) \<times> sql_queue" where
  "sql_sweep_expired now q =
     (case sq_fault q of
        Some e \<Rightarrow> (Err (HitlDatabase e), q)
      | None \<Rightarrow>
          let n = length (filter (row_expires now) (sq_rows q)) in
          (Ok n, q\<lparr>sq_rows := map (expire_row now) (sq_rows q),
                   sq_pending_gauge := sq_pending_gauge q - int n\<rparr>))"

section \<open>The contract\<close>

datatype queue_op =
    OpSubmit instant approval_request
  | OpResolve instant uuid approval_decision
  | OpSweep instant

fun submits :: "uuid \<Rightarrow> queue_op \<Rightarrow> bool" where
  "submits i (OpSubmit now r) = (apr_id r = i)"
| "submits i (OpResolve now j d) = False"
| "submits i (OpSweep now) = False"

locale approval_queue =
  fixes submit :: "instant \<Rightarrow> approval_request \<Rightarrow> 'q \<Rightarrow> (hitl_error + uuid) \<times> 'q"
    and resolve :: "instant \<Rightarrow> uuid \<Rightarrow> approval_decision \<Rightarrow> 'q \<Rightarrow> (hitl_error + unit) \<times> 'q"
    and poll :: "'q \<Rightarrow> uuid \<Rightarrow> hitl_error + approval_status"
    and sweep :: "instant \<Rightarrow> 'q \<Rightarrow> (hitl_error + nat) \<times> 'q"
    and inv :: "'q \<Rightarrow> bool"
    and faithful :: "approval_decision \<Rightarrow> bool"
  assumes submit_fresh: "inv q \<Longrightarrow> poll q (apr_id r) = Err (ApprovalNotFound (apr_id r)) \<Longrightarrow>
        fst (submit now r q) = Ok (apr_id r) \<and> poll (snd (submit now r q)) (apr_id r) = Ok Pending"
    and submit_frame: "inv q \<Longrightarrow> inv (snd (submit now r q))
        \<and> (\<forall>j. j \<noteq> apr_id r \<longrightarrow> poll (snd (submit now r q)) j = poll q j)"
    and resolve_pending: "inv q \<Longrightarrow> poll q i = Ok Pending \<Longrightarrow> faithful d \<Longrightarrow>
        fst (resolve now i d q) = Ok () \<and> poll (snd (resolve now i d q)) i = Ok (Resolved d)"
    and resolve_pending_settles: "inv q \<Longrightarrow> poll (snd (resolve now i d q)) i \<noteq> Ok Pending"
    and resolve_settled: "inv q \<Longrightarrow> poll q i = Ok st \<Longrightarrow> st \<noteq> Pending \<Longrightarrow>
        resolve now i d q = (Err (AlreadyResolved i), q)"
    and resolve_missing: "inv q \<Longrightarrow> poll q i = Err (ApprovalNotFound i) \<Longrightarrow>
        resolve now i d q = (Err (ApprovalNotFound i), q)"
    and resolve_frame: "inv q \<Longrightarrow> inv (snd (resolve now i d q))
        \<and> (\<forall>j. j \<noteq> i \<longrightarrow> poll (snd (resolve now i d q)) j = poll q j)"
    and sweep_frame: "inv q \<Longrightarrow> inv (snd (sweep now q)) \<and> is_ok (fst (sweep now q))
        \<and> (\<forall>j. poll (snd (sweep now q)) j = poll q j
             \<or> (poll q j = Ok Pending \<and> poll (snd (sweep now q)) j = Ok Expired))"

fun apply_queue_op ::
  "(instant \<Rightarrow> approval_request \<Rightarrow> 'q \<Rightarrow> (hitl_error + uuid) \<times> 'q) \<Rightarrow>
   (instant \<Rightarrow> uuid \<Rightarrow> approval_decision \<Rightarrow> 'q \<Rightarrow> (hitl_error + unit) \<times> 'q) \<Rightarrow>
   (instant \<Rightarrow> 'q \<Rightarrow> (hitl_error + nat) \<times> 'q) \<Rightarrow> queue_op \<Rightarrow> 'q \<Rightarrow> 'q" where
  "apply_queue_op sub res sw (OpSubmit now r) q = snd (sub now r q)"
| "apply_queue_op sub res sw (OpResolve now i d) q = snd (res now i d q)"
| "apply_queue_op sub res sw (OpSweep now) q = snd (sw now q)"

text \<open>The answers to a list of reviewers deciding the same request, in order.\<close>

fun race ::
  "(instant \<Rightarrow> uuid \<Rightarrow> approval_decision \<Rightarrow> 'q \<Rightarrow> (hitl_error + unit) \<times> 'q) \<Rightarrow> uuid \<Rightarrow>
   (instant \<times> approval_decision) list \<Rightarrow> 'q \<Rightarrow> (hitl_error + unit) list \<times> 'q" where
  "race res i [] q = ([], q)"
| "race res i ((now, d) # ds) q =
     (case res now i d q of (r, q') \<Rightarrow> (case race res i ds q' of (rs, q'') \<Rightarrow> (r # rs, q'')))"

context approval_queue begin

lemma op_keeps_settled:
  assumes "inv q" "poll q i = Ok st" "st \<noteq> Pending" "\<not> submits i opn"
  shows "inv (apply_queue_op submit resolve sweep opn q)
    \<and> poll (apply_queue_op submit resolve sweep opn q) i = Ok st"
proof (cases opn)
  case (OpSubmit now r)
  then show ?thesis using assms submit_frame [of q now r] by auto
next
  case (OpResolve now j d)
  then show ?thesis
    using assms resolve_frame [of q now j d] resolve_settled [of q i st now d] by (cases "j = i") auto
next
  case (OpSweep now)
  then show ?thesis using assms sweep_frame [of q now] by (metis apply_queue_op.simps(3) sum.inject(2))
qed

lemma settled_for_good:
  assumes "inv q" "poll q i = Ok st" "st \<noteq> Pending" "\<And>opn. opn \<in> set ops \<Longrightarrow> \<not> submits i opn"
  shows "inv (fold (apply_queue_op submit resolve sweep) ops q)
    \<and> poll (fold (apply_queue_op submit resolve sweep) ops q) i = Ok st"
  using assms
proof (induction ops arbitrary: q)
  case (Cons opn ops)
  then have "inv (apply_queue_op submit resolve sweep opn q)
      \<and> poll (apply_queue_op submit resolve sweep opn q) i = Ok st"
    by (intro op_keeps_settled) auto
  then show ?case using Cons.IH Cons.prems(3,4) by auto
qed simp

lemma race_settled:
  assumes "inv q" "poll q i = Ok st" "st \<noteq> Pending"
  shows "race resolve i ds q = (replicate (length ds) (Err (AlreadyResolved i)), q)"
  using assms by (induction ds) (auto simp: resolve_settled)

lemma race_keeps_inv: "inv q \<Longrightarrow> inv (snd (race resolve i ds q))"
proof (induction ds arbitrary: q)
  case (Cons nd ds)
  then show ?case using resolve_frame [of q "fst nd" i "snd nd"]
    by (cases nd) (auto split: prod.splits, metis snd_conv)
qed simp

lemma first_decision_wins:
  assumes "inv q" "poll q i = Ok Pending" "faithful d"
  shows "fst (race resolve i ((now, d) # ds) q)
           = Ok () # replicate (length ds) (Err (AlreadyResolved i))
    \<and> poll (snd (race resolve i ((now, d) # ds) q)) i = Ok (Resolved d)"
proof -
  obtain r q' where r: "resolve now i d q = (r, q')" by (cases "resolve now i d q")
  then have "r = Ok ()" "poll q' i = Ok (Resolved d)" "inv q'"
    using resolve_pending [OF assms, of now] resolve_frame [OF assms(1), of now i d] by auto
  then show ?thesis using r race_settled [of q' i "Resolved d" ds] by simp
qed

end

section \<open>Both queues meet it\<close>

definition mem_inv :: "mem_queue \<Rightarrow> bool" where
  "mem_inv q \<longleftrightarrow> distinct (map fst (mq_entries q))"

lemma map_of_map_entries: "map_of (map (\<lambda>(k, e). (k, f e)) xs) i = map_option f (map_of xs i)"
  by (induction xs) auto

lemma mem_poll_sweep:
  "mem_poll (snd (mem_sweep_expired now q)) j =
     (case map_of (mq_entries q) j of
        None \<Rightarrow> Err (ApprovalNotFound j) | Some e \<Rightarrow> Ok (qe_status (expire_entry now e)))"
  by (simp add: mem_poll_def mem_sweep_expired_def Let_def map_of_map_entries split: option.split)

interpretation memory_queue: approval_queue mem_submit mem_resolve mem_poll mem_sweep_expired mem_inv "\<lambda>_. True"
proof (unfold_locales, goal_cases)
  case (8 q now)
  have "map fst (map (\<lambda>(k, e). (k, expire_entry now e)) (mq_entries q)) = map fst (mq_entries q)"
    by (induction "mq_entries q") auto
  then have "mem_inv (snd (mem_sweep_expired now q)) \<and> is_ok (fst (mem_sweep_expired now q))"
    using 8 by (simp add: mem_inv_def mem_sweep_expired_def Let_def del: map_map)
  moreover have "mem_poll (snd (mem_sweep_expired now q)) j = mem_poll q j
      \<or> (mem_poll q j = Ok Pending \<and> mem_poll (snd (mem_sweep_expired now q)) j = Ok Expired)" for j
    unfolding mem_poll_sweep unfolding mem_poll_def
    by (auto simp: expire_entry_def entry_expires_def split: option.split)
  ultimately show ?case by blast
qed (auto simp: mem_inv_def mem_submit_def mem_resolve_def mem_poll_def distinct_assoc_put
      simp del: map_of_eq_Some_iff Some_eq_map_of_iff split: option.splits if_splits)

definition pending_count :: "sql_queue \<Rightarrow> nat" where
  "pending_count q = length (filter (\<lambda>r. ar_status r = ''pending'') (sq_rows q))"

definition sql_inv :: "sql_queue \<Rightarrow> bool" where
  "sql_inv q \<longleftrightarrow> sq_fault q = None \<and> distinct (map ar_id (sq_rows q))
     \<and> sq_pending_gauge q = int (pending_count q)"

lemma find_by_id:
  "distinct (map ar_id rs) \<Longrightarrow> find (\<lambda>r. ar_id r = i) rs = Some r \<longleftrightarrow> r \<in> set rs \<and> ar_id r = i"
  by (induction rs) auto

lemma find_map_row:
  assumes "\<And>r. ar_id (g r) = ar_id r"
  shows "find (\<lambda>r. ar_id r = j) (map g rs) = map_option g (find (\<lambda>r. ar_id r = j) rs)"
  using assms by (induction rs) auto

lemma ar_id_updates [simp]:
  "ar_id (resolve_row cd now i d r) = ar_id r" "ar_id (expire_row now r) = ar_id r"
  by (simp_all add: resolve_row_def expire_row_def)

lemma ar_id_comp [simp]: "ar_id \<circ> resolve_row cd now i d = ar_id" "ar_id \<circ> expire_row now = ar_id"
  by (simp_all add: fun_eq_iff)

lemma find_SomeD: "find P xs = Some x \<Longrightarrow> x \<in> set xs \<and> P x"
  by (auto simp: find_Some_iff)

lemma resolve_row_count:
  assumes "distinct (map ar_id rs)" "r \<in> set rs" "ar_id r = i" "ar_status r = ''pending''"
  shows "Suc (length (filter (\<lambda>r. ar_status r = ''pending'') (map (resolve_row cd now i d) rs)))
         = length (filter (\<lambda>r. ar_status r = ''pending'') rs)"
  using assms
proof (induction rs)
  case (Cons x rs)
  have same: "map (resolve_row cd now i d) rs = rs" if "ar_id x = i"
    using Cons.prems(1) that by (intro map_idI) (auto simp: resolve_row_def, metis imageI)
  show ?case
  proof (cases "r = x")
    case True
    then have "map (resolve_row cd now i d) (x # rs) = resolve_row cd now i d x # rs"
      using same Cons.prems by simp
    moreover have "ar_status (resolve_row cd now i d x) = ''resolved''"
      using True Cons.prems by (simp add: resolve_row_def)
    ultimately show ?thesis using True Cons.prems by (simp del: list.map)
  next
    case False
    then have "resolve_row cd now i d x = x" "r \<in> set rs"
      using Cons.prems by (auto simp: resolve_row_def)
    then show ?thesis using Cons by auto
  qed
qed simp

lemma expire_row_count:
  "length (filter (\<lambda>r. ar_status r = ''pending'') (map (expire_row now) rs))
   + length (filter (row_expires now) rs) = length (filter (\<lambda>r. ar_status r = ''pending'') rs)"
  by (induction rs) (auto simp: expire_row_def row_expires_def)

lemma poll_cases:
  "row_to_status cd st dec = Ok Pending \<longleftrightarrow> st = ''pending''"
  "row_to_status cd ''resolved'' dec \<noteq> Err (ApprovalNotFound i)"
  "row_to_status cd st dec \<noteq> Err (ApprovalNotFound i)"
  by (auto simp: row_to_status_def)

lemma sql_inv_submit: "sql_inv q \<Longrightarrow> sql_inv (snd (sql_submit cd now r q))"
  by (auto simp: sql_inv_def sql_submit_def pending_count_def)

lemma sql_inv_resolve:
  assumes "sql_inv q"
  shows "sql_inv (snd (sql_resolve cd now i d q))"
proof (cases "filter (\<lambda>r. ar_id r = i \<and> ar_status r = ''pending'') (sq_rows q) = []")
  case False
  then obtain r where "r \<in> set (sq_rows q)" "ar_id r = i" "ar_status r = ''pending''"
    by (auto simp: filter_empty_conv)
  then have "Suc (pending_count (q\<lparr>sq_rows := map (resolve_row cd now i d) (sq_rows q)\<rparr>)) = pending_count q"
    using assms resolve_row_count [of "sq_rows q" r i cd now d]
    by (simp add: sql_inv_def pending_count_def)
  moreover have "map ar_id (map (resolve_row cd now i d) (sq_rows q)) = map ar_id (sq_rows q)" by simp
  ultimately show ?thesis
    using assms False by (simp add: sql_inv_def sql_resolve_def pending_count_def)
qed (use assms in \<open>simp add: sql_inv_def sql_resolve_def\<close>)

lemma sql_inv_sweep: "sql_inv q \<Longrightarrow> sql_inv (snd (sql_sweep_expired now q))"
  using expire_row_count [of now "sq_rows q"]
  by (simp add: sql_inv_def sql_sweep_expired_def pending_count_def Let_def o_def)

lemma sql_poll_resolve:
  assumes "sql_inv q"
  shows "sql_poll cd (snd (sql_resolve cd now i d q)) j =
    (case find (\<lambda>r. ar_id r = j) (sq_rows q) of
       None \<Rightarrow> Err (ApprovalNotFound j)
     | Some r \<Rightarrow> row_to_status cd (ar_status (resolve_row cd now i d r))
                   (ar_decision (resolve_row cd now i d r)))"
proof (cases "filter (\<lambda>r. ar_id r = i \<and> ar_status r = ''pending'') (sq_rows q) = []")
  case True
  then have "\<And>r. r \<in> set (sq_rows q) \<Longrightarrow> resolve_row cd now i d r = r"
    by (auto simp: resolve_row_def filter_empty_conv)
  then show ?thesis using assms True
    by (auto simp: sql_poll_def sql_resolve_def sql_inv_def split: option.split dest!: find_SomeD)
qed (use assms in \<open>simp add: sql_poll_def sql_resolve_def sql_inv_def find_map_row split: option.split\<close>)

lemma sql_poll_sweep:
  "sql_inv q \<Longrightarrow> sql_poll cd (snd (sql_sweep_expired now q)) j =
    (case find (\<lambda>r. ar_id r = j) (sq_rows q) of
       None \<Rightarrow> Err (ApprovalNotFound j)
     | Some r \<Rightarrow> row_to_status cd (ar_status (expire_row now r)) (ar_decision r))"
  by (auto simp: sql_poll_def sql_sweep_expired_def sql_inv_def Let_def find_map_row expire_row_def
      split: option.split)

lemma sql_poll_eq:
  "sql_inv q \<Longrightarrow> sql_poll cd q j =
     (case find (\<lambda>r. ar_id r = j) (sq_rows q) of
        None \<Rightarrow> Err (ApprovalNotFound j)
      | Some r \<Rightarrow> row_to_status cd (ar_status r) (ar_decision r))"
  by (simp add: sql_poll_def sql_inv_def)

lemma sql_poll_missing:
  "sql_inv q \<Longrightarrow> sql_poll cd q i = Err (ApprovalNotFound i) \<longleftrightarrow> find (\<lambda>r. ar_id r = i) (sq_rows q) = None"
  by (auto simp: sql_poll_eq poll_cases split: option.split)

lemma sql_poll_pending:
  "sql_inv q \<Longrightarrow> sql_poll cd q i = Ok Pending \<longleftrightarrow>
     (\<exists>r. find (\<lambda>r. ar_id r = i) (sq_rows q) = Some r \<and> ar_status r = ''pending'')"
  by (auto simp: sql_poll_eq poll_cases split: option.split)

lemma sql_resolve_result:
  assumes "sql_inv q"
  shows "sql_resolve cd now i d q =
    (case find (\<lambda>r. ar_id r = i) (sq_rows q) of
       None \<Rightarrow> (Err (ApprovalNotFound i), q)
     | Some r \<Rightarrow>
         if ar_status r \<noteq> ''pending'' then (Err (AlreadyResolved i), q)
         else (Ok (), q\<lparr>sq_rows := map (resolve_row cd now i d) (sq_rows q),
                        sq_pending_gauge := sq_pending_gauge q - 1\<rparr>))"
proof (cases "find (\<lambda>r. ar_id r = i) (sq_rows q)")
  case None
  then have "\<forall>r \<in> set (sq_rows q). ar_id r \<noteq> i" by (auto simp: find_None_iff)
  then show ?thesis using assms None
    by (simp add: sql_resolve_def sql_inv_def filter_empty_conv)
next
  case (Some r)
  then have r: "r \<in> set (sq_rows q)" "ar_id r = i" by (auto dest: find_SomeD)
  moreover have "\<And>r'. r' \<in> set (sq_rows q) \<Longrightarrow> ar_id r' = i \<Longrightarrow> r' = r"
    using assms find_by_id [of "sq_rows q" i] Some by (metis option.inject sql_inv_def)
  ultimately have "filter (\<lambda>r. ar_id r = i \<and> ar_status r = ''pending'') (sq_rows q) = []
      \<longleftrightarrow> ar_status r \<noteq> ''pending''"
    unfolding filter_empty_conv by blast
  moreover have "filter (\<lambda>r. ar_id r = i) (sq_rows q) \<noteq> []"
    using r unfolding filter_empty_conv by blast
  ultimately show ?thesis using assms Some by (simp add: sql_resolve_def sql_inv_def)
qed

interpretation sqlite_queue: approval_queue "sql_submit cd" "sql_resolve cd" "sql_poll cd"
  sql_sweep_expired sql_inv "\<lambda>d. decision_from_text cd (decision_to_text cd d) = Some d"
  for cd :: hitl_codec
proof (unfold_locales, goal_cases)
  case (1 q r now)
  then have "find (\<lambda>x. ar_id x = apr_id r) (sq_rows q) = None" by (simp add: sql_poll_missing)
  moreover from this have "\<not> (\<exists>x \<in> set (sq_rows q). ar_id x = apr_id r)" by (auto simp: find_None_iff)
  ultimately show ?case using 1(1)
    by (simp add: sql_inv_def sql_submit_def sql_poll_def find_append row_to_status_def)
next
  case (2 q now r)
  then show ?case using sql_inv_submit [of q cd now r]
    by (auto simp: sql_inv_def sql_submit_def sql_poll_def find_append split: option.splits)
next
  case (3 q i d now)
  then obtain r where "find (\<lambda>r. ar_id r = i) (sq_rows q) = Some r" "ar_status r = ''pending''"
    using sql_poll_pending by blast
  then show ?case
    using 3 sql_poll_resolve [of q cd now i d i] find_SomeD [of _ "sq_rows q" r]
    by (simp add: sql_resolve_result) (auto simp: resolve_row_def row_to_status_def dest: find_SomeD)
next
  case (4 q now i d)
  then show ?case
    using sql_poll_resolve [OF 4, of cd now i d i]
    by (auto simp: poll_cases resolve_row_def split: option.split dest: find_SomeD)
next
  case (5 q i st now d)
  then show ?case
    using sql_poll_pending [OF 5(1), of cd i] sql_poll_missing [OF 5(1), of cd i]
    by (auto simp: sql_resolve_result split: option.split)
next
  case (6 q i now d)
  then show ?case by (simp add: sql_poll_missing sql_resolve_result)
next
  case (7 q now i d)
  have "\<And>j. j \<noteq> i \<Longrightarrow> sql_poll cd (snd (sql_resolve cd now i d q)) j = sql_poll cd q j"
    using sql_poll_resolve [OF 7, of cd now i d] sql_poll_eq [OF 7, of cd]
    by (auto simp: resolve_row_def split: option.split dest: find_SomeD)
  then show ?case using sql_inv_resolve [OF 7] by blast
next
  case (8 q now)
  have "\<And>j. sql_poll cd (snd (sql_sweep_expired now q)) j = sql_poll cd q j
      \<or> (sql_poll cd q j = Ok Pending \<and> sql_poll cd (snd (sql_sweep_expired now q)) j = Ok Expired)"
    using sql_poll_sweep [OF 8, of cd now] sql_poll_eq [OF 8, of cd]
    by (auto simp: expire_row_def row_expires_def row_to_status_def split: option.split)
  moreover have "is_ok (fst (sql_sweep_expired now q))"
    using 8 by (simp add: sql_sweep_expired_def sql_inv_def Let_def)
  ultimately show ?case using sql_inv_sweep [OF 8] by blast
qed

section \<open>Properties\<close>

inductive reachable_sql_queue :: "hitl_codec \<Rightarrow> sql_queue \<Rightarrow> bool" for cd where
  rq_new: "reachable_sql_queue cd sql_new"
| rq_op: "reachable_sql_queue cd q \<Longrightarrow>
    reachable_sql_queue cd (apply_queue_op (sql_submit cd) (sql_resolve cd) sql_sweep_expired opn q)"

lemma sql_inv_op:
  "sql_inv q \<Longrightarrow> sql_inv (apply_queue_op (sql_submit cd) (sql_resolve cd) sql_sweep_expired opn q)"
  by (cases opn) (simp_all add: sql_inv_submit sql_inv_resolve sql_inv_sweep)

lemma sql_inv_reachable: "reachable_sql_queue cd q \<Longrightarrow> sql_inv q"
proof (induction rule: reachable_sql_queue.induct)
  case rq_new
  show ?case by (simp add: sql_inv_def sql_new_def pending_count_def)
qed (rule sql_inv_op)

text \<open>
  C5. However many reviewers decide one pending request, the first decision is recorded
  and every later one is told \<open>AlreadyResolved\<close> and changes nothing; and no later sequence
  of sweeps, decisions and submissions of other requests alters the recorded decision.
  On the SQLite queue, for a decision its JSON codec can read back.
\<close>

theorem sqlite_first_decision_is_final:
  assumes "reachable_sql_queue cd q" "sql_poll cd q i = Ok Pending"
    and "decision_from_text cd (decision_to_text cd d) = Some d"
    and "race (sql_resolve cd) i ((now, d) # ds) q = (rs, q')"
    and "\<And>opn. opn \<in> set ops \<Longrightarrow> \<not> submits i opn"
  shows "rs = Ok () # replicate (length ds) (Err (AlreadyResolved i))
    \<and> sql_poll cd (fold (apply_queue_op (sql_submit cd) (sql_resolve cd) sql_sweep_expired) ops q') i
        = Ok (Resolved d)"
proof -
  have inv: "sql_inv q" using assms(1) by (rule sql_inv_reachable)
  have "rs = Ok () # replicate (length ds) (Err (AlreadyResolved i))"
      "sql_poll cd q' i = Ok (Resolved d)"
    using sqlite_queue.first_decision_wins [OF inv assms(2,3), of now ds] assms(4) by simp_all
  moreover have "sql_inv q'"
    using sqlite_queue.race_keeps_inv [OF inv, of cd i "(now, d) # ds"] assms(4) by simp
  ultimately show ?thesis using sqlite_queue.settled_for_good [of q' cd i "Resolved d" ops] assms(5)
    by blast
qed

definition sample_hitl_codec :: hitl_codec where
  "sample_hitl_codec = \<lparr>kind_to_text = (\<lambda>_. ''kind''),
     decision_to_text = (\<lambda>d. case d of Approved \<Rightarrow> ''a'' | Rejected r \<Rightarrow> CHR ''r'' # r | Modified _ \<Rightarrow> ''m''),
     decision_from_text = (\<lambda>s. if s = ''a'' then Some Approved else
        (case s of c # r \<Rightarrow> if c = CHR ''r'' then Some (Rejected r) else None | [] \<Rightarrow> None))\<rparr>"

definition sample_request :: approval_request where
  "sample_request = new_request ''a1'' ''s1'' (ToolApproval ''exec_command'' JNull)"

definition sample_queue :: sql_queue where
  "sample_queue = snd (sql_submit sample_hitl_codec 0 sample_request sql_new)"

lemma sample_queue_reachable: "reachable_sql_queue sample_hitl_codec sample_queue"
  using rq_op [OF rq_new, of sample_hitl_codec "OpSubmit 0 sample_request"]
  by (simp add: sample_queue_def)

lemma sample_queue_pending: "sql_poll sample_hitl_codec sample_queue ''a1'' = Ok Pending"
  by (simp add: sample_queue_def sql_submit_def sql_new_def sample_request_def new_request_def
      sql_poll_def row_to_status_def)

lemma sqlite_first_decision_is_final_witness:
  "fst (race (sql_resolve sample_hitl_codec) ''a1'' [(1, Rejected ''no''), (2, Approved)] sample_queue)
   = [Ok (), Err (AlreadyResolved ''a1'')]"
proof -
  obtain rs q' where r: "race (sql_resolve sample_hitl_codec) ''a1'' [(1, Rejected ''no''), (2, Approved)]
      sample_queue = (rs, q')" by fastforce
  have "decision_from_text sample_hitl_codec (decision_to_text sample_hitl_codec (Rejected ''no''))
      = Some (Rejected ''no'')" by (simp add: sample_hitl_codec_def)
  then show ?thesis
    using sqlite_first_decision_is_final [OF sample_queue_reachable sample_queue_pending _ r, of "[]"] r
    by simp
qed

section \<open>The two queues agree\<close>

abbreviation whole_second :: "instant \<Rightarrow> bool" where
  "whole_second t \<equiv> from_timestamp (timestamp t) = t"

fun portable :: "hitl_codec \<Rightarrow> queue_op \<Rightarrow> bool" where
  "portable cd (OpSubmit now r) = pred_option whole_second (apr_expires_at r)"
| "portable cd (OpResolve now i d) = (decision_from_text cd (decision_to_text cd d) = Some d)"
| "portable cd (OpSweep now) = whole_second now"

fun submitted :: "queue_op \<Rightarrow> uuid list" where
  "submitted (OpSubmit now r) = [apr_id r]"
| "submitted _ = []"

fun entry_match :: "hitl_codec \<Rightarrow> queue_entry option \<Rightarrow> approval_row option \<Rightarrow> bool" where
  "entry_match cd (Some e) (Some r) =
     (row_to_status cd (ar_status r) (ar_decision r) = Ok (qe_status e)
      \<and> ar_expires_at r = map_option timestamp (apr_expires_at (qe_request e))
      \<and> pred_option whole_second (apr_expires_at (qe_request e)))"
| "entry_match cd None None = True"
| "entry_match cd _ _ = False"

lemma entry_match_None [simp]:
  "entry_match cd None r \<longleftrightarrow> r = None" "entry_match cd e None \<longleftrightarrow> e = None"
  by (cases r; simp) (cases e; simp)

lemma entry_match_Some:
  "entry_match cd (Some e) r \<longleftrightarrow>
     (\<exists>x. r = Some x \<and> row_to_status cd (ar_status x) (ar_decision x) = Ok (qe_status e)
        \<and> ar_expires_at x = map_option timestamp (apr_expires_at (qe_request e))
        \<and> pred_option whole_second (apr_expires_at (qe_request e)))"
  by (cases r) simp_all

definition queues_match :: "hitl_codec \<Rightarrow> mem_queue \<Rightarrow> sql_queue \<Rightarrow> bool" where
  "queues_match cd m s \<longleftrightarrow> sql_inv s \<and>
     (\<forall>j. entry_match cd (map_of (mq_entries m) j) (find (\<lambda>r. ar_id r = j) (sq_rows s)))"

lemma whole_second_less:
  assumes "whole_second t" "whole_second now"
  shows "timestamp t < timestamp now \<longleftrightarrow> t < now"
  using assms by (auto simp: from_timestamp_def)

lemma queues_matchD:
  "queues_match cd m s \<Longrightarrow> sql_inv s"
  "queues_match cd m s \<Longrightarrow> entry_match cd (map_of (mq_entries m) j) (find (\<lambda>r. ar_id r = j) (sq_rows s))"
  by (simp_all add: queues_match_def)

lemma queues_match_poll:
  assumes "queues_match cd m s"
  shows "mem_poll m j = sql_poll cd s j"
  using queues_matchD(2) [OF assms, of j] queues_matchD(1) [OF assms]
  by (cases "map_of (mq_entries m) j") (auto simp: mem_poll_def sql_poll_eq entry_match_Some)

lemma match_submit:
  assumes m: "queues_match cd m s" and fresh: "map_of (mq_entries m) (apr_id r) = None"
    and p: "portable cd (OpSubmit now r)"
  shows "queues_match cd (snd (mem_submit now r m)) (snd (sql_submit cd now r s))"
proof -
  have none: "find (\<lambda>x. ar_id x = apr_id r) (sq_rows s) = None"
    using queues_matchD(2) [OF m, of "apr_id r"] fresh by simp
  then have sub: "snd (sql_submit cd now r s) = s\<lparr>sq_rows := sq_rows s @
                [\<lparr>ar_id = apr_id r, ar_session_id = apr_session_id r,
                  ar_kind_json = kind_to_text cd (apr_kind r), ar_status = ''pending'',
                  ar_decision = None, ar_created_at = timestamp now, ar_resolved_at = None,
                  ar_expires_at = map_option timestamp (apr_expires_at r)\<rparr>],
              sq_pending_gauge := sq_pending_gauge s + 1\<rparr>"
    using queues_matchD(1) [OF m] by (auto simp: sql_submit_def sql_inv_def find_None_iff)
  have "entry_match cd (map_of (mq_entries (snd (mem_submit now r m))) j)
          (find (\<lambda>r. ar_id r = j) (sq_rows (snd (sql_submit cd now r s))))" for j
  proof (cases "j = apr_id r")
    case True
    then show ?thesis using none p by (simp add: sub mem_submit_def find_append row_to_status_def)
  next
    case False
    then show ?thesis using queues_matchD(2) [OF m, of j]
      by (cases "find (\<lambda>r. ar_id r = j) (sq_rows s)") (simp_all add: sub mem_submit_def find_append)
  qed
  then show ?thesis
    using sql_inv_submit [OF queues_matchD(1) [OF m], of cd now r] by (simp add: queues_match_def)
qed

lemma match_resolve:
  assumes m: "queues_match cd m s" and d: "decision_from_text cd (decision_to_text cd d) = Some d"
  shows "queues_match cd (snd (mem_resolve now i d m)) (snd (sql_resolve cd now i d s))"
proof -
  note inv = queues_matchD(1) [OF m] and e = queues_matchD(2) [OF m]
  show ?thesis
  proof (cases "\<exists>e. map_of (mq_entries m) i = Some e \<and> qe_status e = Pending")
    case False
    then have "snd (mem_resolve now i d m) = m" by (auto simp: mem_resolve_def split: option.split)
    moreover have "snd (sql_resolve cd now i d s) = s"
      using e [of i] False
      by (cases "map_of (mq_entries m) i")
         (auto simp: sql_resolve_result [OF inv] row_to_status_def entry_match_Some)
    ultimately show ?thesis using m by simp
  next
    case True
    then obtain x where x: "map_of (mq_entries m) i = Some x" "qe_status x = Pending" by blast
    then obtain r where r: "find (\<lambda>r. ar_id r = i) (sq_rows s) = Some r" "ar_status r = ''pending''"
        "entry_match cd (Some x) (Some r)"
      using e [of i] by (auto simp: entry_match_Some poll_cases)
    have id: "ar_id r = i" using find_SomeD [OF r(1)] by simp
    have "entry_match cd (map_of (mq_entries (snd (mem_resolve now i d m))) j)
            (find (\<lambda>r. ar_id r = j) (sq_rows (snd (sql_resolve cd now i d s))))" for j
    proof (cases "j = i")
      case True
      then show ?thesis using x r d id
        by (simp add: mem_resolve_def sql_resolve_result [OF inv] find_map_row resolve_row_def row_to_status_def)
    next
      case False
      have "map_option (resolve_row cd now i d) (find (\<lambda>r. ar_id r = j) (sq_rows s))
          = find (\<lambda>r. ar_id r = j) (sq_rows s)"
        using False by (cases "find (\<lambda>r. ar_id r = j) (sq_rows s)") (auto simp: resolve_row_def dest: find_SomeD)
      then show ?thesis using False x r e [of j]
        by (simp add: mem_resolve_def sql_resolve_result [OF inv] find_map_row)
    qed
    then show ?thesis using sql_inv_resolve [OF inv, of cd now i d] by (simp add: queues_match_def)
  qed
qed

lemma match_expires_same:
  assumes "entry_match cd (Some x) (Some y)" "whole_second now"
  shows "entry_expires now x \<longleftrightarrow> row_expires now y"
proof -
  have "qe_status x = Pending \<longleftrightarrow> ar_status y = ''pending''"
    using assms(1) poll_cases(1) [of cd "ar_status y" "ar_decision y"] by auto
  moreover have "timestamp t < timestamp now \<longleftrightarrow> t < now" if "apr_expires_at (qe_request x) = Some t" for t
    using assms(1) that whole_second_less [OF _ assms(2), of t] by simp
  ultimately show ?thesis
    using assms(1) unfolding entry_expires_def row_expires_def
    by (cases "apr_expires_at (qe_request x)") simp_all
qed

lemma match_expire:
  assumes "entry_match cd e r" "whole_second now"
  shows "entry_match cd (map_option (expire_entry now) e) (map_option (expire_row now) r)"
proof (cases e)
  case (Some x)
  then obtain y where y: "r = Some y" using assms(1) by (cases r) simp_all
  show ?thesis
  proof (cases "row_expires now y")
    case True
    then show ?thesis using assms(1) Some y match_expires_same [of cd x y now] assms(2)
      by (simp add: expire_entry_def expire_row_def row_to_status_def)
  next
    case False
    then show ?thesis using assms(1) Some y match_expires_same [of cd x y now] assms(2)
      by (simp add: expire_entry_def expire_row_def)
  qed
qed (use assms in simp)

lemma match_sweep:
  assumes m: "queues_match cd m s" and now: "whole_second now"
  shows "queues_match cd (snd (mem_sweep_expired now m)) (snd (sql_sweep_expired now s))"
  using match_expire [OF queues_matchD(2) [OF m] now] queues_matchD(1) [OF m]
    sql_inv_sweep [OF queues_matchD(1) [OF m], of now]
  by (simp add: queues_match_def mem_sweep_expired_def sql_sweep_expired_def sql_inv_def Let_def
      map_of_map_entries find_map_row)

lemma match_run:
  assumes "queues_match cd m s" "distinct (concat (map submitted ops))"
    and "\<And>opn. opn \<in> set ops \<Longrightarrow> portable cd opn"
    and "\<And>i. i \<in> set (concat (map submitted ops)) \<Longrightarrow> map_of (mq_entries m) i = None"
  shows "queues_match cd (fold (apply_queue_op mem_submit mem_resolve mem_sweep_expired) ops m)
           (fold (apply_queue_op (sql_submit cd) (sql_resolve cd) sql_sweep_expired) ops s)"
  using assms
proof (induction ops arbitrary: m s)
  case (Cons opn ops)
  let ?m = "apply_queue_op mem_submit mem_resolve mem_sweep_expired opn m"
  have "queues_match cd ?m (apply_queue_op (sql_submit cd) (sql_resolve cd) sql_sweep_expired opn s)"
    using Cons.prems(1,4) Cons.prems(3) [of opn]
    by (cases opn) (auto intro: match_submit match_resolve match_sweep)
  moreover have "map_of (mq_entries ?m) i = None" if "i \<in> set (concat (map submitted ops))" for i
    using Cons.prems(2) Cons.prems(4) [of i] that
    by (cases opn) (auto simp: mem_submit_def mem_resolve_def mem_sweep_expired_def Let_def
        map_of_map_entries split: option.split)
  ultimately show ?case using Cons.IH Cons.prems(2,3) by simp
qed simp



text \<open>
  The gauge of pending approvals never drifts: after any operations on the SQLite
  queue its contribution equals the number of rows still pending.
\<close>

theorem pending_gauge_counts_pending_rows:
  assumes "reachable_sql_queue cd q"
  shows "sq_pending_gauge q = int (pending_count q)"
  using sql_inv_reachable [OF assms] by (simp add: sql_inv_def)

lemma pending_gauge_counts_pending_rows_witness:
  "sq_pending_gauge sample_queue = int (pending_count sample_queue)"
  by (rule pending_gauge_counts_pending_rows [OF sample_queue_reachable])

end
