(* ===== verification/Skills.thy ===== *)
theory Skills
  imports Prelude Complex_Main "HOL-Library.Multiset"
begin

text \<open>
  The skill crate: the \<open>SKILL.md\<close> parser (\<open>avs-skill/src/parser.rs\<close>), the registry with its
  snapshot of trusted system skills (\<open>registry.rs\<close>), the configuration and its caches
  (\<open>config.rs\<close>), and the keyword router (\<open>router.rs\<close>). The YAML reader is a parameter; a
  directory tree is data, each entry carrying the result of reading it; scores are the
  single-precision quotients the router computes, as rationals.
\<close>

section \<open>Skills\<close>

record skill =
  sk_id :: string
  sk_version :: string
  sk_description :: string
  sk_tags :: "string list"
  sk_tools :: "string list"
  sk_activation_domains :: "string list"
  sk_instructions :: string
  sk_documents :: "string list"
  sk_max_iterations :: "nat option"
  sk_hitl_tools :: "string list"
  sk_phase_gate :: bool
  sk_checkpoints :: "string list"

record skill_context =
  sc_skill_id :: string
  sc_instructions :: string
  sc_documents :: "string list"
  sc_tools :: "string list"
  sc_max_iterations :: "nat option"

datatype skill_mode = Open | Constrained "string list"

datatype skill_error = SkillParse string string | SkillIo string | SkillNotFound string
  | SkillNotConfigured string

section \<open>Parsing \<open>SKILL.md\<close>\<close>

record agentverse_ext =
  ext_tools :: "string list option"
  ext_max_iterations :: "nat option"
  ext_activation :: "string list option option"
  ext_hitl_tools :: "string list option"
  ext_phase_gate :: "bool option"
  ext_checkpoints :: "string list option"

record skill_frontmatter =
  fm_name :: string
  fm_description :: string
  fm_version :: "string option"
  fm_tags :: "string list option"
  fm_agentverse :: "agentverse_ext option"

definition ext_default :: agentverse_ext where
  "ext_default = \<lparr>ext_tools = None, ext_max_iterations = None, ext_activation = None,
     ext_hitl_tools = None, ext_phase_gate = None, ext_checkpoints = None\<rparr>"

definition unwrap_or :: "'a \<Rightarrow> 'a option \<Rightarrow> 'a" where
  "unwrap_or d v = (case v of Some x \<Rightarrow> x | None \<Rightarrow> d)"

lemma unwrap_or_simps [simp]: "unwrap_or d None = d" "unwrap_or d (Some x) = x"
  by (simp_all add: unwrap_or_def)

abbreviation delimiter :: string where "delimiter \<equiv> ''---''"
abbreviation newline_delimiter :: string where "newline_delimiter \<equiv> newline @ delimiter"

fun replace_crlf :: "string \<Rightarrow> string" where
  "replace_crlf [] = []"
| "replace_crlf [c] = [c]"
| "replace_crlf (c # d # s) =
     (if c = CHR 0x0D \<and> d = CHR 0x0A then CHR 0x0A # replace_crlf s else c # replace_crlf (d # s))"

definition line_end :: "string \<Rightarrow> nat" where
  "line_end rest = (case find_str newline rest of Some i \<Rightarrow> i | None \<Rightarrow> length rest)"

lemma find_str_newline_delimiter:
  assumes "find_str newline_delimiter s = Some rel"
  shows "rel + 4 \<le> length s"
proof -
  have "rel \<le> length s" "starts_with newline_delimiter (drop rel s)"
    using find_str_SomeD [OF assms] by auto
  then show ?thesis by (auto simp: starts_with_iff dest!: arg_cong [of _ _ length])
qed

text \<open>The scan for the closing delimiter, from offset \<open>pos\<close> on; \<open>None\<close> when there is none.\<close>

function scan_close :: "string \<Rightarrow> nat \<Rightarrow> (string \<times> string) option" where
  "scan_close after pos =
     (case find_str newline_delimiter (drop pos after) of
        None \<Rightarrow> None
      | Some rel \<Rightarrow>
          let abs = pos + rel; rest = drop (abs + 4) after; le = line_end rest in
          if trim (take le rest) = [] then
            Some (dropWhile (\<lambda>c. c = CHR 0x0A) (take abs after),
                  if le < length rest then drop (le + 1) rest else [])
          else scan_close after (abs + 1))"
  by pat_completeness auto

termination
proof (relation "measure (\<lambda>(after, pos). length after - pos)", goal_cases)
  case (2 after pos rel)
  then have "rel + 4 \<le> length (drop pos after)" by (intro find_str_newline_delimiter)
  then show ?case using 2 by auto
qed simp

declare scan_close.simps [simp del]

definition split_frontmatter :: "string \<Rightarrow> string \<times> string" where
  "split_frontmatter s =
     (let content = dropWhile (\<lambda>c. c = CHR 0x0A) s in
      if \<not> starts_with (delimiter @ newline) content then ([], content)
      else (case scan_close (drop 4 content) 0 of None \<Rightarrow> ([], content) | Some r \<Rightarrow> r))"

definition parse_skill_file ::
  "(string \<Rightarrow> string + skill_frontmatter) \<Rightarrow> string \<Rightarrow> string \<Rightarrow> skill_error + skill" where
  "parse_skill_file yaml path content =
     (let (src, body) = split_frontmatter (replace_crlf content) in
      if src = [] then
        Err (SkillParse path ''missing YAML frontmatter (expected --- delimiters)'')
      else try_bind (map_err (SkillParse path) (yaml src)) (\<lambda>fm.
        let avs = unwrap_or ext_default (fm_agentverse fm) in
        Ok \<lparr>sk_id = fm_name fm,
            sk_version = unwrap_or ''0.1.0'' (fm_version fm),
            sk_description = fm_description fm,
            sk_tags = unwrap_or [] (fm_tags fm),
            sk_tools = unwrap_or [] (ext_tools avs),
            sk_activation_domains = unwrap_or [] (Option.bind (ext_activation avs) id),
            sk_instructions = trim body,
            sk_documents = [],
            sk_max_iterations = ext_max_iterations avs,
            sk_hitl_tools = unwrap_or [] (ext_hitl_tools avs),
            sk_phase_gate = unwrap_or False (ext_phase_gate avs),
            sk_checkpoints = unwrap_or [] (ext_checkpoints avs)\<rparr>))"

section \<open>The registry\<close>

text \<open>
  A directory entry as \<open>read_dir\<close> yields it: a file with the result of reading its text, a
  directory with its entries, a directory that cannot be listed (with the \<open>SKILL.md\<close> that a
  lookup by path may still find), or an entry that cannot be read at all.
\<close>

datatype fs =
    FsFile string "string + string"
  | FsDir string "fs list"
  | FsUnlistable string "(string + string) option" string
  | FsBadEntry string

type_synonym skill_map = "(string \<times> skill \<times> string) list"

definition io :: "string + 'a \<Rightarrow> skill_error + 'a" where
  "io r = map_err SkillIo r"

fun visit_dir :: "fs list \<Rightarrow> skill_error + string list" where
  "visit_dir [] = Ok []"
| "visit_dir (FsBadEntry e # es) = Err (SkillIo e)"
| "visit_dir (FsUnlistable n md e # es) = Err (SkillIo e)"
| "visit_dir (FsDir n sub # es) =
     (case visit_dir sub of Err e \<Rightarrow> Err e
      | Ok ds \<Rightarrow> (case visit_dir es of Err e \<Rightarrow> Err e | Ok ds' \<Rightarrow> Ok (ds @ ds')))"
| "visit_dir (FsFile n t # es) =
     (if n = ''SKILL.md'' then visit_dir es
      else (case io t of Err e \<Rightarrow> Err e
            | Ok d \<Rightarrow> (case visit_dir es of Err e \<Rightarrow> Err e | Ok ds \<Rightarrow> Ok (d # ds))))"

text \<open>A package: a directory, with its \<open>SKILL.md\<close> when that path exists.\<close>

fun find_skill_md :: "fs list \<Rightarrow> (string + string) option" where
  "find_skill_md [] = None"
| "find_skill_md (FsFile n t # es) = (if n = ''SKILL.md'' then Some t else find_skill_md es)"
| "find_skill_md (FsDir n sub # es) =
     (if n = ''SKILL.md'' then Some (Inl ''Is a directory'') else find_skill_md es)"
| "find_skill_md (FsUnlistable n md e # es) =
     (if n = ''SKILL.md'' then Some (Inl ''Is a directory'') else find_skill_md es)"
| "find_skill_md (FsBadEntry e # es) = find_skill_md es"

fun collect_supporting_files :: "fs \<Rightarrow> skill_error + string list" where
  "collect_supporting_files (FsDir n sub) = visit_dir sub"
| "collect_supporting_files (FsUnlistable n md e) = Err (SkillIo e)"
| "collect_supporting_files _ = Ok []"

definition load_package ::
  "(string \<Rightarrow> string + skill_frontmatter) \<Rightarrow> string \<Rightarrow> (string + string) option \<Rightarrow> fs \<Rightarrow> skill_map \<Rightarrow>
   skill_error + skill_map" where
  "load_package yaml n md pkg skills =
     (case md of
        None \<Rightarrow> Ok skills
      | Some t \<Rightarrow>
          try_bind (io t) (\<lambda>content.
            try_bind (parse_skill_file yaml (n @ ''/SKILL.md'') content) (\<lambda>sk.
              try_bind (collect_supporting_files pkg) (\<lambda>ds.
                Ok (assoc_put (sk_id sk) (sk\<lparr>sk_documents := ds\<rparr>, n) skills)))))"

fun load_entry ::
  "(string \<Rightarrow> string + skill_frontmatter) \<Rightarrow> fs \<Rightarrow> skill_map \<Rightarrow> skill_error + skill_map" where
  "load_entry yaml (FsBadEntry e) skills = Err (SkillIo e)"
| "load_entry yaml (FsFile n t) skills = Ok skills"
| "load_entry yaml (FsDir n sub) skills =
     load_package yaml n (find_skill_md sub) (FsDir n sub) skills"
| "load_entry yaml (FsUnlistable n md e) skills =
     load_package yaml n md (FsUnlistable n md e) skills"

fun load_dir ::
  "(string \<Rightarrow> string + skill_frontmatter) \<Rightarrow> fs list \<Rightarrow> skill_map \<Rightarrow> skill_error + skill_map" where
  "load_dir yaml [] skills = Ok skills"
| "load_dir yaml (e # es) skills = try_bind (load_entry yaml e skills) (load_dir yaml es)"

definition load_if_exists ::
  "(string \<Rightarrow> string + skill_frontmatter) \<Rightarrow> (string + fs list) option \<Rightarrow> skill_map \<Rightarrow>
   skill_error + skill_map" where
  "load_if_exists yaml dir skills =
     (case dir of None \<Rightarrow> Ok skills
      | Some ls \<Rightarrow> try_bind (io ls) (\<lambda>es. load_dir yaml es skills))"

definition load_with_trusted_system_skills ::
  "(string \<Rightarrow> string + skill_frontmatter) \<Rightarrow> (string + fs list) option \<Rightarrow>
   (string + fs list) option \<Rightarrow> skill_error + skill_map \<times> skill list" where
  "load_with_trusted_system_skills yaml system user =
     try_bind (load_if_exists yaml system []) (\<lambda>sys.
       let trusted = sort_key sk_id (map (\<lambda>(_, sk, _). sk) sys) in
       try_bind (load_if_exists yaml user sys) (\<lambda>all. Ok (all, trusted)))"

definition registry_get :: "skill_map \<Rightarrow> string \<Rightarrow> skill option" where
  "registry_get reg i = map_option fst (map_of reg i)"

fun eligible :: "skill_map \<Rightarrow> skill_mode \<Rightarrow> skill list" where
  "eligible reg Open = map (\<lambda>(_, sk, _). sk) reg"
| "eligible reg (Constrained ids) = List.map_filter (registry_get reg) ids"

definition skill_dir :: "skill_map \<Rightarrow> string \<Rightarrow> string option" where
  "skill_dir reg i = map_option snd (map_of reg i)"

definition compile_context :: "skill_map \<Rightarrow> string \<Rightarrow> skill_error + skill_context" where
  "compile_context reg i =
     (case registry_get reg i of
        None \<Rightarrow> Err (SkillNotFound i)
      | Some sk \<Rightarrow> Ok \<lparr>sc_skill_id = sk_id sk, sc_instructions = sk_instructions sk,
          sc_documents = sk_documents sk, sc_tools = sk_tools sk,
          sc_max_iterations = sk_max_iterations sk\<rparr>)"

section \<open>The configuration\<close>

definition format_skill_summaries :: "skill list \<Rightarrow> string" where
  "format_skill_summaries sks =
     (if sks = [] then []
      else ''## Available Skills'' @ paragraph_break
        @ join newline (map (\<lambda>s. ''- '' @ sk_id s @ '': '' @ sk_description s) (sort_key sk_id sks))
        @ paragraph_break
        @ ''You may use a skill when the user'' @ [CHR 0x27] @ ''s request matches one of the above.'')"

record skill_config =
  cfg_registry :: skill_map
  cfg_trusted :: "skill list"
  cfg_mode :: skill_mode
  cfg_threshold :: "rat option"
  cfg_summaries :: string
  cfg_ids :: "string list"

definition config_load ::
  "(string \<Rightarrow> string + skill_frontmatter) \<Rightarrow> (string + fs list) option \<Rightarrow>
   (string + fs list) option \<Rightarrow> skill_mode \<Rightarrow> skill_error + skill_config" where
  "config_load yaml system user mode =
     try_bind (load_with_trusted_system_skills yaml system user) (\<lambda>(reg, trusted).
       let candidates = eligible reg mode in
       Ok \<lparr>cfg_registry = reg, cfg_trusted = trusted, cfg_mode = mode, cfg_threshold = None,
           cfg_summaries = format_skill_summaries candidates,
           cfg_ids = sort (map sk_id candidates)\<rparr>)"

definition with_threshold :: "skill_config \<Rightarrow> rat \<Rightarrow> skill_config" where
  "with_threshold cfg t = cfg\<lparr>cfg_threshold := Some t\<rparr>"

definition rebuild_caches :: "skill_map \<Rightarrow> skill_config \<Rightarrow> skill_config" where
  "rebuild_caches reg cfg =
     (let candidates = eligible reg (cfg_mode cfg) in
      cfg\<lparr>cfg_summaries := format_skill_summaries candidates,
          cfg_ids := sort (map sk_id candidates)\<rparr>)"

section \<open>The router\<close>

text \<open>
  Single-precision rounding of a positive rational \<open>a / b\<close>: 24 significant bits, ties to
  even. The counts of words stay far from the exponent range's ends.
\<close>

fun bit_length :: "nat \<Rightarrow> nat" where
  "bit_length n = (if n = 0 then 0 else Suc (bit_length (n div 2)))"

declare bit_length.simps [simp del]

definition round_half_even :: "nat \<Rightarrow> nat \<Rightarrow> nat" where
  "round_half_even a b =
     (let q = a div b; r = a mod b in
      if 2 * r < b \<or> (2 * r = b \<and> even q) then q else Suc q)"

definition f32_quotient :: "nat \<Rightarrow> nat \<Rightarrow> rat" where
  "f32_quotient a b =
     (if a = 0 then 0
      else (let e = 24 + bit_length b;
                m = a * 2 ^ e;
                k = bit_length (m div b) - 24
            in of_nat (round_half_even m (b * 2 ^ k) * 2 ^ k) / of_nat (2 ^ e)))"

definition f32_of_nat :: "nat \<Rightarrow> nat" where
  "f32_of_nat n = (let k = bit_length n - 24 in round_half_even n (2 ^ k) * 2 ^ k)"

definition words_of :: "string \<Rightarrow> string list" where
  "words_of s = filter (\<lambda>w. w \<noteq> []) (split_on (\<lambda>c. \<not> is_alnum c) s)"

definition keyword_overlap :: "string \<Rightarrow> string \<Rightarrow> rat" where
  "keyword_overlap message target =
     (let msg_words = remdups (words_of message) in
      if msg_words = [] then 0
      else let target_words = set (words_of target);
               matches = length (filter (\<lambda>w. w \<in> target_words) msg_words)
           in f32_quotient (f32_of_nat matches) (f32_of_nat (length msg_words)))"

text \<open>The single-precision constants 0.15 and 0.08.\<close>

fun for_mode :: "skill_mode \<Rightarrow> rat" where
  "for_mode Open = f32_quotient 15 100"
| "for_mode (Constrained ids) = f32_quotient 8 100"

text \<open>\<open>Iterator::max_by\<close>: of several maxima the last.\<close>

fun max_by_score :: "(rat \<times> string) list \<Rightarrow> (rat \<times> string) option" where
  "max_by_score [] = None"
| "max_by_score (x # xs) =
     (case max_by_score xs of None \<Rightarrow> Some x
      | Some y \<Rightarrow> if fst x > fst y then Some x else Some y)"

definition names_skill :: "string \<Rightarrow> skill \<Rightarrow> bool" where
  "names_skill msg_lower sk \<longleftrightarrow>
     (\<exists>w \<in> set (split_whitespace msg_lower).
        trim_matches (\<lambda>c. \<not> is_alnum c \<and> c \<noteq> CHR ''-'') w = to_lowercase (sk_id sk))"

definition score_of :: "string \<Rightarrow> skill \<Rightarrow> rat" where
  "score_of msg_lower sk =
     keyword_overlap msg_lower (to_lowercase (sk_id sk @ '' '' @ sk_description sk))"

definition route :: "rat \<Rightarrow> string \<Rightarrow> skill list \<Rightarrow> string option" where
  "route threshold message candidates =
     (let msg_lower = to_lowercase message in
      case find (names_skill msg_lower) candidates of
        Some sk \<Rightarrow> Some (sk_id sk)
      | None \<Rightarrow>
          map_option snd (max_by_score (filter (\<lambda>(score, _). threshold \<le> score)
            (map (\<lambda>sk. (score_of msg_lower sk, sk_id sk)) candidates))))"

lemma max_by_score_None [simp]: "max_by_score xs = None \<longleftrightarrow> xs = []"
  by (cases xs) (auto split: option.splits)

lemma max_by_score_Some:
  "max_by_score xs = Some m \<Longrightarrow> m \<in> set xs \<and> (\<forall>x \<in> set xs. fst x \<le> fst m)"
proof (induction xs arbitrary: m)
  case (Cons x xs)
  then show ?case by (cases "max_by_score xs") (fastforce split: if_splits)+
qed simp

text \<open>
  Routing picks a candidate that the message names as a whole word, the first such in
  the list, whatever its score; with none named it picks a candidate whose score reaches
  the threshold and is the best, and it answers nothing only if no candidate qualifies.
\<close>

theorem route_picks_best:
  "case route threshold message candidates of
     None \<Rightarrow> \<forall>sk \<in> set candidates. \<not> names_skill (to_lowercase message) sk
               \<and> score_of (to_lowercase message) sk < threshold
   | Some i \<Rightarrow> \<exists>sk \<in> set candidates. sk_id sk = i \<and>
       (names_skill (to_lowercase message) sk
        \<or> (threshold \<le> score_of (to_lowercase message) sk
            \<and> (\<forall>sk' \<in> set candidates. \<not> names_skill (to_lowercase message) sk'
                 \<and> score_of (to_lowercase message) sk' \<le> score_of (to_lowercase message) sk)))"
proof (cases "find (names_skill (to_lowercase message)) candidates")
  case (Some sk)
  moreover from this have "sk \<in> set candidates" "names_skill (to_lowercase message) sk"
    by (auto simp: find_Some_iff)
  ultimately show ?thesis by (auto simp: route_def)
next
  case None
  let ?ml = "to_lowercase message"
  let ?xs = "filter (\<lambda>(score, _). threshold \<le> score) (map (\<lambda>sk. (score_of ?ml sk, sk_id sk)) candidates)"
  have unnamed: "\<forall>sk \<in> set candidates. \<not> names_skill ?ml sk" using None by (auto simp: find_None_iff)
  have r: "route threshold message candidates = map_option snd (max_by_score ?xs)"
    using None by (simp add: route_def)
  show ?thesis
  proof (cases "max_by_score ?xs")
    case None
    then have "\<forall>sk \<in> set candidates. score_of ?ml sk < threshold"
      by (auto simp: filter_empty_conv not_le)
    then show ?thesis using r None unnamed by simp
  next
    case (Some m)
    note best = max_by_score_Some [OF Some]
    then obtain sk where sk: "sk \<in> set candidates" "m = (score_of ?ml sk, sk_id sk)"
        "threshold \<le> score_of ?ml sk" by auto
    have "score_of ?ml sk' \<le> score_of ?ml sk" if "sk' \<in> set candidates" for sk'
      using best that sk by (cases "threshold \<le> score_of ?ml sk'") force+
    then show ?thesis using r Some sk unnamed by auto
  qed
qed

section \<open>Round trip of a skill file\<close>

lemma starts_with_prefix: "starts_with p s \<Longrightarrow> starts_with p (s @ t)"
  by (auto simp: starts_with_iff)

lemma starts_with_long: "length p \<le> length s \<Longrightarrow> starts_with p (s @ t) \<longleftrightarrow> starts_with p s"
  by (simp add: starts_with_def)

lemma find_str_length: "find_str p s = Some i \<Longrightarrow> i + length p \<le> length s"
  by (induction s arbitrary: i)
     (auto simp: starts_with_iff split: if_splits dest!: arg_cong [of _ _ length])

lemma find_str_append: "find_str p s = Some i \<Longrightarrow> find_str p (s @ t) = Some i"
proof (induction s arbitrary: i)
  case Nil
  then show ?case by (cases t) (auto simp: starts_with_def split: if_splits)
next
  case (Cons c cs)
  have "length p \<le> length (c # cs)" using find_str_length [OF Cons.prems] by simp
  then have "starts_with p ((c # cs) @ t) \<longleftrightarrow> starts_with p (c # cs)" by (rule starts_with_long)
  then show ?case using Cons by (auto split: if_splits)
qed

lemma scan_close_hit:
  assumes "find_str newline_delimiter (fm @ newline_delimiter) = Some (length fm)"
    and "fm \<noteq> []" "hd fm \<noteq> CHR 0x0A"
  shows "scan_close (fm @ newline_delimiter @ newline @ body) 0 = Some (fm, body)"
proof -
  have "find_str newline_delimiter (fm @ newline_delimiter @ newline @ body) = Some (length fm)"
    using find_str_append [OF assms(1), of "newline @ body"] by simp
  moreover have "line_end (newline @ body) = 0" by (simp add: line_end_def starts_with_def)
  moreover have "dropWhile (\<lambda>c. c = CHR 0x0A) fm = fm" using assms(2,3) by (cases fm) auto
  ultimately show ?thesis
    by (subst scan_close.simps) (simp add: Let_def trim_def trim_end_def trim_start_def)
qed

text \<open>
  A skill file written as front matter between delimiter lines, followed by a body,
  is split back into exactly that front matter and that body, whatever the body holds
  (a later horizontal rule included), when the front matter is nonempty, does not start
  with a blank line and has no line starting with the delimiter.
\<close>

theorem frontmatter_round_trip:
  assumes "find_str newline_delimiter (fm @ newline_delimiter) = Some (length fm)"
    and "fm \<noteq> []" "hd fm \<noteq> CHR 0x0A"
  shows "split_frontmatter (delimiter @ newline @ fm @ newline_delimiter @ newline @ body) = (fm, body)"
  using scan_close_hit [OF assms, of body]
  by (simp add: split_frontmatter_def starts_with_def)

lemma frontmatter_round_trip_witness:
  "split_frontmatter (''---'' @ newline @ ''name: a'' @ newline @ ''---'' @ newline @ ''x'' @ newline @ ''---'')
   = (''name: a'', ''x'' @ newline @ ''---'')"
  using frontmatter_round_trip [of "''name: a''" "''x'' @ newline @ ''---''"]
  by (simp add: starts_with_def)

section \<open>The registry is keyed by skill id\<close>

definition registry_inv :: "skill_map \<Rightarrow> bool" where
  "registry_inv reg \<longleftrightarrow> distinct (map fst reg) \<and> (\<forall>(k, sk, d) \<in> set reg. sk_id sk = k)"

lemma set_assoc_put: "set (assoc_put k v xs) \<subseteq> insert (k, v) (set xs)"
  by (induction k v xs rule: assoc_put.induct) auto

lemma registry_inv_put:
  assumes "registry_inv reg" "sk_id sk = k"
  shows "registry_inv (assoc_put k (sk, d) reg)"
  using assms distinct_assoc_put [of reg k "(sk, d)"] set_assoc_put [of k "(sk, d)" reg]
  by (fastforce simp: registry_inv_def)

lemma registry_inv_entry:
  assumes "registry_inv reg" "load_entry yaml e reg = Ok reg'"
  shows "registry_inv reg'"
  using assms
  by (cases e) (auto simp: load_package_def try_bind_Ok_iff intro: registry_inv_put split: option.splits)

lemma registry_inv_dir:
  "registry_inv reg \<Longrightarrow> load_dir yaml es reg = Ok reg' \<Longrightarrow> registry_inv reg'"
  by (induction yaml es reg rule: load_dir.induct) (auto simp: try_bind_Ok_iff intro: registry_inv_entry)

lemma registry_inv_load:
  assumes "load_with_trusted_system_skills yaml system user = Ok (reg, trusted)"
  shows "registry_inv reg"
proof -
  have "registry_inv []" by (simp add: registry_inv_def)
  then have step: "registry_inv r'" if "load_if_exists yaml d r = Ok r'" "registry_inv r" for d r r'
    using that by (auto simp: load_if_exists_def try_bind_Ok_iff intro: registry_inv_dir split: option.splits)
  then show ?thesis using assms \<open>registry_inv []\<close>
    by (auto simp: load_with_trusted_system_skills_def try_bind_Ok_iff Let_def)
qed

lemma registry_get_member:
  "registry_inv reg \<Longrightarrow> (k, sk, d) \<in> set reg \<Longrightarrow> registry_get reg (sk_id sk) = Some sk"
  by (auto simp: registry_inv_def registry_get_def)

text \<open>
  Every skill that is eligible for routing compiles: whatever the mode, looking an
  eligible skill's id up again finds that skill, and its compiled context carries its own
  instructions, documents and tool list.
\<close>

theorem eligible_skill_compiles:
  assumes "load_with_trusted_system_skills yaml system user = Ok (reg, trusted)"
    and "sk \<in> set (eligible reg mode)"
  shows "compile_context reg (sk_id sk) = Ok \<lparr>sc_skill_id = sk_id sk,
    sc_instructions = sk_instructions sk, sc_documents = sk_documents sk, sc_tools = sk_tools sk,
    sc_max_iterations = sk_max_iterations sk\<rparr>"
proof -
  have inv: "registry_inv reg" by (rule registry_inv_load [OF assms(1)])
  have "registry_get reg (sk_id sk) = Some sk"
  proof (cases mode)
    case Open
    then show ?thesis using assms(2) registry_get_member [OF inv] by fastforce
  next
    case (Constrained ids)
    then obtain i where "registry_get reg i = Some sk"
      using assms(2) by (auto simp: List.map_filter_def)
    then obtain d where "(i, sk, d) \<in> set reg"
      by (auto simp: registry_get_def dest: map_of_SomeD)
    then show ?thesis by (rule registry_get_member [OF inv])
  qed
  then show ?thesis by (simp add: compile_context_def)
qed

definition sample_yaml :: "string \<Rightarrow> string + skill_frontmatter" where
  "sample_yaml s = (if s = [] then Inl ''empty'' else
     Inr \<lparr>fm_name = s, fm_description = ''d'', fm_version = None, fm_tags = None,
          fm_agentverse = Some \<lparr>ext_tools = Some [''grep''], ext_max_iterations = None,
            ext_activation = None, ext_hitl_tools = Some [''post''], ext_phase_gate = Some True,
            ext_checkpoints = Some [''cp'']\<rparr>\<rparr>)"

definition sample_package :: "string \<Rightarrow> fs" where
  "sample_package body = FsDir ''p''
     [FsFile ''SKILL.md'' (Inr (''---'' @ newline @ ''bill'' @ newline @ ''---'' @ newline @ body))]"

definition sample_skill :: "string \<Rightarrow> skill" where
  "sample_skill body = \<lparr>sk_id = ''bill'', sk_version = ''0.1.0'', sk_description = ''d'', sk_tags = [],
     sk_tools = [''grep''], sk_activation_domains = [], sk_instructions = body, sk_documents = [],
     sk_max_iterations = None, sk_hitl_tools = [''post''], sk_phase_gate = True, sk_checkpoints = [''cp'']\<rparr>"

lemma sample_frontmatter:
  "split_frontmatter (''---'' @ newline @ ''bill'' @ newline @ ''---'' @ newline @ body) = (''bill'', body)"
proof -
  have "scan_close (''bill'' @ newline_delimiter @ newline @ body) 0 = Some (''bill'', body)"
    by (rule scan_close_hit) (simp_all add: starts_with_def)
  then show ?thesis by (simp add: split_frontmatter_def starts_with_def)
qed

lemma sample_load:
  "load_with_trusted_system_skills sample_yaml (Some (Inr [sample_package ''x''])) None
   = Ok ([(''bill'', sample_skill ''x'', ''p'')], [sample_skill ''x''])"
  using sample_frontmatter [of "''x''"]
  by (simp add: load_with_trusted_system_skills_def load_if_exists_def sample_package_def io_def
      load_package_def parse_skill_file_def sample_yaml_def sample_skill_def trim_def trim_start_def
      trim_end_def is_ws_def Let_def)

lemma eligible_skill_compiles_witness:
  "is_ok (compile_context [(''bill'', sample_skill ''x'', ''p'')] ''bill'')"
  using eligible_skill_compiles [OF sample_load, of "sample_skill ''x''" Open]
  by (simp add: sample_skill_def)

lemma route_picks_best_witness:
  "names_skill (to_lowercase ''ask bill'') (sample_skill ''x'')
   \<or> 1 / 2 \<le> score_of (to_lowercase ''ask bill'') (sample_skill ''x'')"
proof -
  have "names_skill (to_lowercase ''ask bill'') (sample_skill ''x'')"
    by (simp add: names_skill_def to_lowercase_def to_lower_char_def split_whitespace_def is_ws_def
        sample_skill_def trim_matches_def is_alnum_def)
  then have "route (1 / 2) ''ask bill'' [sample_skill ''x''] = Some ''bill''"
    by (simp add: route_def Let_def sample_skill_def)
  then show ?thesis using route_picks_best [where threshold = "1 / 2" and message = "''ask bill''" and candidates = "[sample_skill ''x'']"] by auto
qed

end
