(* ===== verification/Hitl_Policy.thy ===== *)
theory Hitl_Policy
  imports Hitl_Queue Skills
begin

text \<open>
  The human-approval policy (\<open>avs-hitl/src/policy.rs\<close>) and the hook that applies it to a tool
  call (\<open>avs-hitl/src/context.rs\<close>). The hook's queue is any implementation of the submit
  operation; the identifiers the source draws at random are a supply \<open>ids\<close> read in order,
  so the hook's state is the queue and the number of identifiers drawn.
\<close>

section \<open>The policy\<close>

record hitl_policy =
  global_tool_blocklist :: "string list"
  skill_tool_gates :: "(string \<times> string list) list"
  skill_phase_gates :: "string list"
  skill_checkpoints :: "(string \<times> string list) list"

definition new_policy :: hitl_policy where
  "new_policy = \<lparr>global_tool_blocklist =
       [''file_delete'', ''exec_command'', ''system_shutdown'', ''database_delete''],
     skill_tool_gates = [], skill_phase_gates = [], skill_checkpoints = []\<rparr>"

definition add_system_skill :: "skill \<Rightarrow> hitl_policy \<Rightarrow> hitl_policy" where
  "add_system_skill sk p =
     (let p1 = (if sk_hitl_tools sk \<noteq> []
                then p\<lparr>skill_tool_gates := assoc_put (sk_id sk) (remdups (sk_hitl_tools sk)) (skill_tool_gates p)\<rparr>
                else p);
          p2 = (if sk_phase_gate sk
                then p1\<lparr>skill_phase_gates := List.insert (sk_id sk) (skill_phase_gates p1)\<rparr> else p1)
      in if sk_checkpoints sk \<noteq> []
         then p2\<lparr>skill_checkpoints := assoc_put (sk_id sk) (sk_checkpoints sk) (skill_checkpoints p2)\<rparr>
         else p2)"

definition from_system_skills :: "skill list \<Rightarrow> hitl_policy" where
  "from_system_skills sks = fold add_system_skill sks new_policy"

definition requires_tool_approval :: "hitl_policy \<Rightarrow> string option \<Rightarrow> string \<Rightarrow> bool" where
  "requires_tool_approval p skill_id tool_name =
     (if tool_name \<in> set (global_tool_blocklist p) then True
      else (case Option.bind skill_id (map_of (skill_tool_gates p)) of
              None \<Rightarrow> False | Some gates \<Rightarrow> tool_name \<in> set gates))"

definition requires_phase_gate :: "hitl_policy \<Rightarrow> string \<Rightarrow> bool" where
  "requires_phase_gate p skill_id \<longleftrightarrow> skill_id \<in> set (skill_phase_gates p)"

definition is_checkpoint_tool :: "string \<Rightarrow> bool" where
  "is_checkpoint_tool tool_name \<longleftrightarrow> tool_name = ''request_checkpoint''"

definition policy_required_tools :: "hitl_policy \<Rightarrow> string option \<Rightarrow> string list" where
  "policy_required_tools p skill_id =
     (case skill_id of
        None \<Rightarrow> []
      | Some i \<Rightarrow>
          (case map_of (skill_tool_gates p) i of None \<Rightarrow> [] | Some gates \<Rightarrow> gates)
          @ (case map_of (skill_checkpoints p) i of
               Some cps \<Rightarrow> if cps \<noteq> [] then [''request_checkpoint''] else []
             | None \<Rightarrow> []))"

section \<open>The hook\<close>

record hitl_context =
  ctx_session_id :: uuid
  ctx_skill_id :: "string option"
  ctx_policy :: hitl_policy
  ctx_already_satisfied :: bool

definition new_context :: "uuid \<Rightarrow> string option \<Rightarrow> hitl_policy \<Rightarrow> hitl_context" where
  "new_context sid skill p = \<lparr>ctx_session_id = sid, ctx_skill_id = skill, ctx_policy = p,
     ctx_already_satisfied = False\<rparr>"

definition new_for_resume :: "uuid \<Rightarrow> string option \<Rightarrow> hitl_policy \<Rightarrow> hitl_context" where
  "new_for_resume sid skill p = \<lparr>ctx_session_id = sid, ctx_skill_id = skill, ctx_policy = p,
     ctx_already_satisfied = True\<rparr>"

definition interrupt_kind_for :: "hitl_context \<Rightarrow> string \<Rightarrow> json \<Rightarrow> interrupt_kind option" where
  "interrupt_kind_for ctx tool_name args =
     (if is_checkpoint_tool tool_name then
        Some (SkillCheckpoint (str_or ''unknown'' (json_index args ''name'')) (json_index args ''payload''))
      else if requires_tool_approval (ctx_policy ctx) (ctx_skill_id ctx) tool_name then
        Some (ToolApproval tool_name args)
      else None)"

definition context_check_tool ::
  "hitl_codec \<Rightarrow> (approval_request \<Rightarrow> 'q \<Rightarrow> (hitl_error + uuid) \<times> 'q) \<Rightarrow> (nat \<Rightarrow> uuid) \<Rightarrow> hitl_context \<Rightarrow>
   string \<Rightarrow> json \<Rightarrow> 'q \<times> nat \<Rightarrow> (uuid \<times> string) option \<times> 'q \<times> nat" where
  "context_check_tool cd submit ids ctx tool_name args st =
     (case interrupt_kind_for ctx tool_name args of
        None \<Rightarrow> (None, st)
      | Some kind \<Rightarrow>
          let (q, n) = st;
              req = new_request (ids n) (ctx_session_id ctx) kind
          in (case submit req q of
                (Ok i, q') \<Rightarrow> (Some (i, kind_to_text cd kind), q', n + 1)
              | (Err _, q') \<Rightarrow> (Some (ids (n + 1), kind_to_text cd kind), q', n + 2)))"

definition context_required_tools :: "hitl_context \<Rightarrow> string list" where
  "context_required_tools ctx =
     (if ctx_already_satisfied ctx then [] else policy_required_tools (ctx_policy ctx) (ctx_skill_id ctx))"

definition context_hook ::
  "hitl_codec \<Rightarrow> (approval_request \<Rightarrow> 'q \<Rightarrow> (hitl_error + uuid) \<times> 'q) \<Rightarrow> (nat \<Rightarrow> uuid) \<Rightarrow> hitl_context \<Rightarrow>
   ('q \<times> nat) hitl_hook" where
  "context_hook cd submit ids ctx =
     \<lparr>check_tool = context_check_tool cd submit ids ctx,
      required_tool_names = context_required_tools ctx\<rparr>"

section \<open>What the policy gates\<close>

lemma add_system_skill_frame:
  "global_tool_blocklist (add_system_skill sk p) = global_tool_blocklist p"
  "i \<noteq> sk_id sk \<Longrightarrow> map_of (skill_tool_gates (add_system_skill sk p)) i = map_of (skill_tool_gates p) i"
  "i \<noteq> sk_id sk \<Longrightarrow> map_of (skill_checkpoints (add_system_skill sk p)) i = map_of (skill_checkpoints p) i"
  "set (skill_phase_gates p) \<subseteq> set (skill_phase_gates (add_system_skill sk p))"
  by (auto simp: add_system_skill_def Let_def)

lemma fold_frame:
  "global_tool_blocklist (fold add_system_skill sks p) = global_tool_blocklist p"
  "i \<notin> sk_id ` set sks \<Longrightarrow>
     map_of (skill_tool_gates (fold add_system_skill sks p)) i = map_of (skill_tool_gates p) i"
  "i \<notin> sk_id ` set sks \<Longrightarrow>
     map_of (skill_checkpoints (fold add_system_skill sks p)) i = map_of (skill_checkpoints p) i"
  "set (skill_phase_gates p) \<subseteq> set (skill_phase_gates (fold add_system_skill sks p))"
     apply (induction sks arbitrary: p)
         apply (simp_all add: add_system_skill_frame)
  using add_system_skill_frame(4) by blast

lemma policy_of_system_skill:
  assumes "sk \<in> set sks" "distinct (map sk_id sks)"
  shows "sk_hitl_tools sk \<noteq> [] \<longrightarrow>
           map_of (skill_tool_gates (from_system_skills sks)) (sk_id sk) = Some (remdups (sk_hitl_tools sk))"
    and "sk_checkpoints sk \<noteq> [] \<longrightarrow>
           map_of (skill_checkpoints (from_system_skills sks)) (sk_id sk) = Some (sk_checkpoints sk)"
    and "sk_phase_gate sk \<longrightarrow> requires_phase_gate (from_system_skills sks) (sk_id sk)"
proof -
  obtain xs ys where sks: "sks = xs @ sk # ys" using assms(1) by (auto simp: in_set_conv_decomp)
  let ?p = "add_system_skill sk (fold add_system_skill xs new_policy)"
  have eq: "from_system_skills sks = fold add_system_skill ys ?p"
    by (simp add: sks from_system_skills_def)
  have later: "sk_id sk \<notin> sk_id ` set ys" using assms(2) by (simp add: sks)
  have "sk_hitl_tools sk \<noteq> [] \<longrightarrow> map_of (skill_tool_gates ?p) (sk_id sk) = Some (remdups (sk_hitl_tools sk))"
    "sk_checkpoints sk \<noteq> [] \<longrightarrow> map_of (skill_checkpoints ?p) (sk_id sk) = Some (sk_checkpoints sk)"
    "sk_phase_gate sk \<longrightarrow> sk_id sk \<in> set (skill_phase_gates ?p)"
    by (auto simp: add_system_skill_def Let_def)
  then show "sk_hitl_tools sk \<noteq> [] \<longrightarrow>
           map_of (skill_tool_gates (from_system_skills sks)) (sk_id sk) = Some (remdups (sk_hitl_tools sk))"
    "sk_checkpoints sk \<noteq> [] \<longrightarrow>
           map_of (skill_checkpoints (from_system_skills sks)) (sk_id sk) = Some (sk_checkpoints sk)"
    "sk_phase_gate sk \<longrightarrow> requires_phase_gate (from_system_skills sks) (sk_id sk)"
    using fold_frame(2,3) [OF later, of ?p] fold_frame(4) [of ?p ys]
    by (auto simp: eq requires_phase_gate_def)
qed

lemma trusted_of_load:
  assumes "load_if_exists yaml system [] = Ok sys"
    and "load_with_trusted_system_skills yaml system user = Ok (reg, trusted)"
  shows "trusted = sort_key sk_id (map (\<lambda>(_, sk, _). sk) sys)"
  using assms by (auto simp: load_with_trusted_system_skills_def try_bind_Ok_iff Let_def)

lemma registry_ids: "registry_inv reg \<Longrightarrow> map sk_id (map (\<lambda>(_, sk, _). sk) reg) = map fst reg"
  by (auto simp: registry_inv_def)

text \<open>
  C24. User-uploaded skills cannot weaken the policy: every tool a system skill gates, its
  phase gate and its checkpoints stay required under that skill's id for every content of
  the user directory, including a user skill that shadows the system skill's id, and the
  global blocklist holds under every skill.
\<close>

theorem user_skills_cannot_weaken_policy:
  assumes "load_with_trusted_system_skills yaml system None = Ok (sys, trusted0)"
    and "load_with_trusted_system_skills yaml system user = Ok (reg, trusted)"
    and "registry_get sys i = Some sk"
  shows "(\<forall>t \<in> set (sk_hitl_tools sk). requires_tool_approval (from_system_skills trusted) (Some i) t
            \<and> t \<in> set (policy_required_tools (from_system_skills trusted) (Some i)))
    \<and> (sk_phase_gate sk \<longrightarrow> requires_phase_gate (from_system_skills trusted) i)
    \<and> (sk_checkpoints sk \<noteq> [] \<longrightarrow>
         ''request_checkpoint'' \<in> set (policy_required_tools (from_system_skills trusted) (Some i)))
    \<and> (\<forall>t \<in> set (global_tool_blocklist new_policy). \<forall>s.
         requires_tool_approval (from_system_skills trusted) s t)"
proof -
  have sys: "load_if_exists yaml system [] = Ok sys"
    using assms(1) by (auto simp: load_with_trusted_system_skills_def try_bind_Ok_iff Let_def load_if_exists_def)
  have inv: "registry_inv sys" by (rule registry_inv_load [OF assms(1)])
  have tr: "trusted = sort_key sk_id (map (\<lambda>(_, sk, _). sk) sys)" by (rule trusted_of_load [OF sys assms(2)])
  have "mset (map sk_id trusted) = mset (map fst sys)"
    unfolding tr using registry_ids [OF inv] by (metis mset_map mset_sort)
  then have dist: "distinct (map sk_id trusted)"
    using inv by (metis mset_eq_imp_distinct_iff registry_inv_def)
  obtain d where "(i, sk, d) \<in> set sys"
    using assms(3) by (auto simp: registry_get_def dest: map_of_SomeD)
  then have sk: "sk \<in> set trusted" "sk_id sk = i" using inv by (force simp: tr registry_inv_def)+
  have "global_tool_blocklist (from_system_skills trusted) = global_tool_blocklist new_policy"
    by (simp add: from_system_skills_def fold_frame)
  then show ?thesis
    using policy_of_system_skill [OF sk(1) dist] sk(2)
    by (auto simp: requires_tool_approval_def policy_required_tools_def)
qed

lemma user_skills_cannot_weaken_policy_witness:
  "requires_tool_approval (from_system_skills [sample_skill ''x'']) (Some ''bill'') ''post''
   \<and> requires_phase_gate (from_system_skills [sample_skill ''x'']) ''bill''"
proof -
  have get: "registry_get [(''bill'', sample_skill ''x'', ''p'')] ''bill'' = Some (sample_skill ''x'')"
    by (simp add: registry_get_def)
  show ?thesis
    using user_skills_cannot_weaken_policy [OF sample_load sample_load get] by (simp add: sample_skill_def)
qed

lemma context_check_None:
  "fst (context_check_tool cd submit ids ctx t args st) = None \<longleftrightarrow> interrupt_kind_for ctx t args = None"
  by (auto simp: context_check_tool_def Let_def split: option.splits prod.splits sum.splits)

text \<open>
  A gated tool call never proceeds, whatever the queue answers: the hook lets a call
  through exactly when it is neither a checkpoint nor gated by the policy. On the SQLite
  queue with an unused identifier, the approval id of a blocked call polls as pending,
  so a reviewer can decide it.
\<close>

theorem gated_call_is_blocked_and_filed:
  fixes submit :: "approval_request \<Rightarrow> 'q \<Rightarrow> (hitl_error + uuid) \<times> 'q"
  shows "(fst (context_check_tool cd submit ids ctx t args st) = None \<longleftrightarrow>
           t \<noteq> ''request_checkpoint'' \<and> \<not> requires_tool_approval (ctx_policy ctx) (ctx_skill_id ctx) t)
    \<and> (sql_inv q \<longrightarrow> sql_poll cd q (ids n) = Err (ApprovalNotFound (ids n)) \<longrightarrow>
        fst (context_check_tool cd (sql_submit cd now) ids ctx t args (q, n)) = Some (i, k) \<longrightarrow>
        sql_poll cd (fst (snd (context_check_tool cd (sql_submit cd now) ids ctx t args (q, n)))) i
          = Ok Pending)"
proof -
  note context_check_None [of cd submit ids ctx t args st]
  moreover have "interrupt_kind_for ctx t args = None \<longleftrightarrow>
      t \<noteq> ''request_checkpoint'' \<and> \<not> requires_tool_approval (ctx_policy ctx) (ctx_skill_id ctx) t"
    by (simp add: interrupt_kind_for_def is_checkpoint_tool_def)
  moreover have "sql_poll cd (fst (snd (context_check_tool cd (sql_submit cd now) ids ctx t args (q, n)))) i = Ok Pending"
    if q: "sql_inv q" "sql_poll cd q (ids n) = Err (ApprovalNotFound (ids n))"
      "fst (context_check_tool cd (sql_submit cd now) ids ctx t args (q, n)) = Some (i, k)"
  proof -
    obtain kind where kind: "interrupt_kind_for ctx t args = Some kind"
      using q(3) by (auto simp: context_check_tool_def split: option.splits)
    let ?r = "new_request (ids n) (ctx_session_id ctx) kind"
    have "apr_id ?r = ids n" by (simp add: new_request_def)
    then have "fst (sql_submit cd now ?r q) = Ok (ids n) \<and> sql_poll cd (snd (sql_submit cd now ?r q)) (ids n) = Ok Pending"
      using sqlite_queue.submit_fresh [OF q(1), of cd ?r now] q(2) by simp
    then show ?thesis using q(3) kind
      by (auto simp: context_check_tool_def Let_def split: prod.splits)
  qed
  ultimately show ?thesis by (intro conjI impI) simp_all
qed

lemma gated_call_is_blocked_and_filed_witness:
  "sql_poll sample_hitl_codec (fst (snd (context_check_tool sample_hitl_codec
     (sql_submit sample_hitl_codec 0) (\<lambda>n. [char_of n]) (new_context ''s1'' None new_policy)
     ''exec_command'' JNull (sql_new, 7)))) [char_of (7 :: nat)] = Ok Pending"
proof -
  have "fst (context_check_tool sample_hitl_codec (sql_submit sample_hitl_codec 0) (\<lambda>n. [char_of n])
      (new_context ''s1'' None new_policy) ''exec_command'' JNull (sql_new, 7))
      = Some ([char_of (7 :: nat)], ''kind'')"
    by (simp add: context_check_tool_def interrupt_kind_for_def is_checkpoint_tool_def
        requires_tool_approval_def new_context_def new_policy_def new_request_def sql_submit_def
        sql_new_def sample_hitl_codec_def)
  moreover have "sql_inv sql_new" by (simp add: sql_inv_def sql_new_def pending_count_def)
  moreover have "sql_poll sample_hitl_codec sql_new [char_of (7 :: nat)]
      = Err (ApprovalNotFound [char_of (7 :: nat)])" by (simp add: sql_poll_def sql_new_def)
  ultimately show ?thesis
    using gated_call_is_blocked_and_filed [where q = sql_new and n = 7 and ids = "\<lambda>n. [char_of n]"]
    by blast
qed

end
