(* ===== verification/Strict_Schema.thy ===== *)
theory Strict_Schema
  imports Json
begin

text \<open>
  The strict-mode adapter of tool schemas (\<open>avs-tools/src/strict_schema.rs\<close>): a JSON schema
  in, the schema in which every object node lists all its properties as required and
  forbids others, or an error that names the node that cannot be made so.
\<close>

section \<open>The adapter\<close>

datatype strict_schema_error = OpenDictionary string | AmbiguousOptionalRef string

fun strict_schema_error_text :: "strict_schema_error \<Rightarrow> string" where
  "strict_schema_error_text (OpenDictionary p) =
     ''tool schema at '' @ quoted p
     @ '' is an open dictionary (arbitrary-key object), which is incompatible with strict mode ''
     @ em_dash @ '' use an array of {key, value} pairs instead''"
| "strict_schema_error_text (AmbiguousOptionalRef p) =
     ''tool schema at '' @ quoted p
     @ '' is an optional $ref-typed field with no null signal '' @ em_dash
     @ '' schemars produces this identical shape for both a genuine nullable Option<T> and a ''
     @ ''non-nullable #[serde(default)] field, so it can'' @ [CHR 0x27] @ ''t be made strict without ''
     @ ''guessing. Use Option<T> without a #[serde(default)] override for genuine nullability.''"

definition is_open_dictionary :: "json_object \<Rightarrow> bool" where
  "is_open_dictionary obj \<longleftrightarrow>
     (case obj_get ''additionalProperties'' obj of
        Some (JObject _) \<Rightarrow> True | Some (JBool b) \<Rightarrow> b | _ \<Rightarrow> False)"

definition nullable_types :: json where
  "nullable_types = JArray (map JString
     [''string'', ''number'', ''object'', ''array'', ''boolean'', ''null''])"

definition has_null_branch :: "json_object \<Rightarrow> bool" where
  "has_null_branch obj \<longleftrightarrow>
     (case obj_get ''anyOf'' obj of
        Some (JArray variants) \<Rightarrow>
          list_ex (\<lambda>v. json_get ''type'' v = Some (JString ''null'')) variants
      | _ \<Rightarrow> False)"

fun ensure_nullable_or_reject :: "json \<Rightarrow> string \<Rightarrow> strict_schema_error + json" where
  "ensure_nullable_or_reject (JObject obj) path =
     (if obj_get ''type'' obj \<noteq> None then Ok (JObject obj)
      else if has_null_branch obj then Ok (JObject obj)
      else if obj_get ''$ref'' obj \<noteq> None \<or> obj_get ''allOf'' obj \<noteq> None then
        Err (AmbiguousOptionalRef path)
      else Ok (JObject (obj_insert ''type'' nullable_types obj)))"
| "ensure_nullable_or_reject v path = Ok v"

definition required_names :: "json_object \<Rightarrow> string list" where
  "required_names obj =
     (case Option.bind (obj_get ''required'' obj) as_array of
        None \<Rightarrow> [] | Some vs \<Rightarrow> List.map_filter as_str vs)"

text \<open>The strict envelope of an object node with the given properties.\<close>

definition envelope :: "json_object \<Rightarrow> json_object \<Rightarrow> json_object" where
  "envelope props obj =
     obj_insert ''additionalProperties'' (JBool False)
       (obj_insert ''required'' (JArray (map (\<lambda>(k, _). JString k) props))
         (obj_insert ''properties'' (JObject props) obj))"

definition put_result :: "string \<Rightarrow> 'e + json \<Rightarrow> json_object \<Rightarrow> 'e + json_object" where
  "put_result k r obj = map_ok (\<lambda>v. obj_insert k v obj) r"

text \<open>
  \<open>strictify_node\<close> rewrites a node, \<open>strictify_variants\<close> the branches of a combinator in
  order, \<open>strictify_props\<close> the properties. The first error stops the rewrite.
\<close>

function (sequential) strictify_node :: "json \<Rightarrow> string \<Rightarrow> strict_schema_error + json"
  and strictify_variants :: "json list \<Rightarrow> string \<Rightarrow> nat \<Rightarrow> strict_schema_error + json list"
  and strictify_props :: "json_object \<Rightarrow> string list \<Rightarrow> string \<Rightarrow> strict_schema_error + json_object" where
  "strictify_node (JObject obj) path =
     (if is_open_dictionary obj then Err (OpenDictionary path)
      else
        try_bind (case obj_get ''oneOf'' obj of
            Some (JArray vs) \<Rightarrow> put_result ''oneOf'' (map_ok JArray (strictify_variants vs (path @ ''.oneOf'') 0)) obj
          | _ \<Rightarrow> Ok obj) (\<lambda>obj1.
        try_bind (case obj_get ''anyOf'' obj of
            Some (JArray vs) \<Rightarrow> put_result ''anyOf'' (map_ok JArray (strictify_variants vs (path @ ''.anyOf'') 0)) obj1
          | _ \<Rightarrow> Ok obj1) (\<lambda>obj2.
        try_bind (case obj_get ''allOf'' obj of
            Some (JArray vs) \<Rightarrow> put_result ''allOf'' (map_ok JArray (strictify_variants vs (path @ ''.allOf'') 0)) obj2
          | _ \<Rightarrow> Ok obj2) (\<lambda>obj3.
        try_bind (case obj_get ''items'' obj of
            Some v \<Rightarrow> put_result ''items'' (strictify_node v (path @ ''.items'')) obj3
          | None \<Rightarrow> Ok obj3) (\<lambda>obj4.
        (case obj_get ''properties'' obj of
           Some (JObject props) \<Rightarrow>
             map_ok (\<lambda>new_properties. JObject (envelope new_properties obj4))
               (strictify_props props (required_names obj) path)
         | _ \<Rightarrow>
             Ok (JObject (if Option.bind (obj_get ''type'' obj) as_str = Some ''object''
                          then envelope [] obj4 else obj4)))))))) "
| "strictify_node v path = Ok v"
| "strictify_variants [] path i = Ok []"
| "strictify_variants (v # vs) path i =
     try_bind (strictify_node v (path @ ''['' @ show_nat i @ '']'')) (\<lambda>v'.
       map_ok (\<lambda>vs'. v' # vs') (strictify_variants vs path (Suc i)))"
| "strictify_props [] required path = Ok []"
| "strictify_props ((k, v) # kvs) required path =
     try_bind (strictify_node v (path @ ''.'' @ k)) (\<lambda>v'.
       try_bind (if k \<in> set required then Ok v'
                 else ensure_nullable_or_reject v' (path @ ''.'' @ k)) (\<lambda>v''.
         map_ok (\<lambda>kvs'. (k, v'') # kvs') (strictify_props kvs required path)))"
  by pat_completeness auto

termination
proof (relation "measure (\<lambda>x. case x of
     Inl (v, _) \<Rightarrow> 2 * size v
   | Inr (Inl (vs, _)) \<Rightarrow> 2 * size (JArray vs) - 1
   | Inr (Inr (kvs, _)) \<Rightarrow> 2 * size (JObject kvs) - 1)", goal_cases)
qed (auto dest: size_obj_get)

declare strictify_node.simps(1) [simp del]

fun strictify_definitions :: "json_object \<Rightarrow> strict_schema_error + json_object" where
  "strictify_definitions [] = Ok []"
| "strictify_definitions ((k, v) # kvs) =
     try_bind (strictify_node v (''definitions.'' @ k)) (\<lambda>v'.
       map_ok (\<lambda>kvs'. (k, v') # kvs') (strictify_definitions kvs))"

definition to_strict_schema :: "json \<Rightarrow> strict_schema_error + json" where
  "to_strict_schema schema =
     try_bind (case Option.bind (json_get ''definitions'' schema) as_object of
         None \<Rightarrow> Ok schema
       | Some defs \<Rightarrow>
           (case as_object schema of
              None \<Rightarrow> Ok schema
            | Some obj \<Rightarrow>
                map_ok (\<lambda>defs'. JObject (obj_insert ''definitions'' (JObject defs') obj))
                  (strictify_definitions defs)))
       (\<lambda>schema'. strictify_node schema' ''$'')"

section \<open>What strict means\<close>

text \<open>
  A node is strict when every object node reachable from it through the combinators, a
  single \<open>items\<close> schema and the properties forbids additional properties and requires
  exactly its properties, and no object-typed node lacks the envelope.
\<close>

definition enveloped :: "json_object \<Rightarrow> bool" where
  "enveloped obj \<longleftrightarrow>
     (case obj_get ''properties'' obj of
        Some (JObject props) \<Rightarrow>
          obj_get ''additionalProperties'' obj = Some (JBool False)
          \<and> obj_get ''required'' obj = Some (JArray (map (\<lambda>(k, _). JString k) props))
      | _ \<Rightarrow> obj_get ''type'' obj \<noteq> Some (JString ''object''))"

inductive strict_node :: "json \<Rightarrow> bool" where
  strict_object: "enveloped obj \<Longrightarrow>
    (\<And>c vs v. c \<in> {''oneOf'', ''anyOf'', ''allOf''} \<Longrightarrow> obj_get c obj = Some (JArray vs) \<Longrightarrow>
       v \<in> set vs \<Longrightarrow> strict_node v) \<Longrightarrow>
    (\<And>v. obj_get ''items'' obj = Some v \<Longrightarrow> strict_node v) \<Longrightarrow>
    (\<And>props k v. obj_get ''properties'' obj = Some (JObject props) \<Longrightarrow> (k, v) \<in> set props \<Longrightarrow>
       strict_node v) \<Longrightarrow>
    strict_node (JObject obj)"
| strict_other: "as_object v = None \<Longrightarrow> strict_node v"

inductive_simps strict_object_iff: "strict_node (JObject obj)"

lemma strict_put:
  assumes "strict_node (JObject obj)" "as_object w = None \<and> w \<noteq> JString ''object''"
    "obj_get ''type'' obj = None"
  shows "strict_node (JObject (obj_insert ''type'' w obj))"
proof -
  have "enveloped (obj_insert ''type'' w obj)"
    using assms by (auto simp: strict_object_iff enveloped_def split: option.splits json.splits)
  then show ?thesis using assms(1) unfolding strict_object_iff by simp
qed

lemma strict_ensure:
  "strict_node v \<Longrightarrow> ensure_nullable_or_reject v path = Ok v' \<Longrightarrow> strict_node v'"
  by (cases v) (auto simp: nullable_types_def intro!: strict_put split: if_splits)

lemma strict_envelope:
  assumes "\<And>k v. (k, v) \<in> set props \<Longrightarrow> strict_node v"
    and "\<And>c vs v. c \<in> {''oneOf'', ''anyOf'', ''allOf''} \<Longrightarrow> obj_get c obj = Some (JArray vs) \<Longrightarrow>
       v \<in> set vs \<Longrightarrow> strict_node v"
    and "\<And>v. obj_get ''items'' obj = Some v \<Longrightarrow> strict_node v"
  shows "strict_node (JObject (envelope props obj))"
proof (rule strict_object)
  show "enveloped (envelope props obj)" by (simp add: enveloped_def envelope_def)
qed (use assms(1,3) assms(2) [of "''oneOf''"] assms(2) [of "''anyOf''"] assms(2) [of "''allOf''"]
    in \<open>auto simp: envelope_def\<close>)

text \<open>One rewriting of a field: the field holds the rewritten value, the others are kept.\<close>

lemma put_result_Ok:
  "put_result k r obj = Ok obj' \<longleftrightarrow> (\<exists>v. r = Ok v \<and> obj' = obj_insert k v obj)"
  by (cases r) (auto simp: put_result_def)

lemma as_str_Some: "as_str v = Some t \<longleftrightarrow> v = JString t"
  by (cases v) auto

lemma combinator_step:
  assumes "(case obj_get c obj of Some (JArray vs) \<Rightarrow> put_result c (map_ok JArray (f vs)) o1 | _ \<Rightarrow> Ok o1) = Ok o2"
  shows "k \<noteq> c \<Longrightarrow> obj_get k o2 = obj_get k o1"
    and "obj_get c o1 = obj_get c obj \<Longrightarrow> obj_get c o2 = Some (JArray vs') \<Longrightarrow>
      \<exists>vs. obj_get c obj = Some (JArray vs) \<and> f vs = Ok vs'"
  using assms by (auto simp: put_result_Ok map_ok_Ok split: option.splits json.splits)

lemma items_step:
  assumes "(case obj_get ''items'' obj of Some v \<Rightarrow> put_result ''items'' (f v) o1 | None \<Rightarrow> Ok o1) = Ok o2"
  shows "k \<noteq> ''items'' \<Longrightarrow> obj_get k o2 = obj_get k o1"
    and "obj_get ''items'' o1 = obj_get ''items'' obj \<Longrightarrow> obj_get ''items'' o2 = Some v' \<Longrightarrow>
      \<exists>v. obj_get ''items'' obj = Some v \<and> f v = Ok v'"
  using assms by (auto simp: put_result_Ok split: option.splits)

lemma strictify_object_parts:
  assumes "strictify_node (JObject obj) path = Ok w"
  obtains o4 where
    "\<And>c vs'. c \<in> {''oneOf'', ''anyOf'', ''allOf''} \<Longrightarrow> obj_get c o4 = Some (JArray vs') \<Longrightarrow>
       \<exists>vs p. obj_get c obj = Some (JArray vs) \<and> strictify_variants vs p 0 = Ok vs'"
    "\<And>v'. obj_get ''items'' o4 = Some v' \<Longrightarrow>
       \<exists>v p. obj_get ''items'' obj = Some v \<and> strictify_node v p = Ok v'"
    "\<And>k. k \<in> {''properties'', ''type'', ''definitions''} \<Longrightarrow> obj_get k o4 = obj_get k obj"
    "(\<exists>props props'. obj_get ''properties'' obj = Some (JObject props)
        \<and> strictify_props props (required_names obj) path = Ok props' \<and> w = JObject (envelope props' o4))
     \<or> ((\<nexists>props. obj_get ''properties'' obj = Some (JObject props))
        \<and> w = JObject (if obj_get ''type'' obj = Some (JString ''object'') then envelope [] o4 else o4))"
proof -
  have closed: "\<not> is_open_dictionary obj" using assms by (cases "is_open_dictionary obj") (simp_all add: strictify_node.simps(1))
  obtain o1 o2 o3 o4 where
    s1: "(case obj_get ''oneOf'' obj of Some (JArray vs) \<Rightarrow> put_result ''oneOf''
          (map_ok JArray (strictify_variants vs (path @ ''.oneOf'') 0)) obj | _ \<Rightarrow> Ok obj) = Ok o1" and
    s2: "(case obj_get ''anyOf'' obj of Some (JArray vs) \<Rightarrow> put_result ''anyOf''
          (map_ok JArray (strictify_variants vs (path @ ''.anyOf'') 0)) o1 | _ \<Rightarrow> Ok o1) = Ok o2" and
    s3: "(case obj_get ''allOf'' obj of Some (JArray vs) \<Rightarrow> put_result ''allOf''
          (map_ok JArray (strictify_variants vs (path @ ''.allOf'') 0)) o2 | _ \<Rightarrow> Ok o2) = Ok o3" and
    s4: "(case obj_get ''items'' obj of Some v \<Rightarrow> put_result ''items'' (strictify_node v (path @ ''.items'')) o3
          | None \<Rightarrow> Ok o3) = Ok o4" and
    s5: "(case obj_get ''properties'' obj of
           Some (JObject props) \<Rightarrow>
             map_ok (\<lambda>new_properties. JObject (envelope new_properties o4))
               (strictify_props props (required_names obj) path)
         | _ \<Rightarrow> Ok (JObject (if Option.bind (obj_get ''type'' obj) as_str = Some ''object''
                          then envelope [] o4 else o4))) = Ok w"
    using assms unfolding strictify_node.simps if_not_P [OF closed] try_bind_Ok_iff by blast
  note frame = combinator_step(1) [OF s1] combinator_step(1) [OF s2] combinator_step(1) [OF s3] items_step(1) [OF s4]
  have type: "Option.bind (obj_get ''type'' obj) as_str = Some ''object'' \<longleftrightarrow> obj_get ''type'' obj = Some (JString ''object'')"
    by (cases "obj_get ''type'' obj") (simp_all add: as_str_Some)
  have one: "\<exists>vs p. obj_get ''oneOf'' obj = Some (JArray vs) \<and> strictify_variants vs p 0 = Ok vs'"
    if "obj_get ''oneOf'' o4 = Some (JArray vs')" for vs'
    using that combinator_step(2) [OF s1, of vs'] by (auto simp: frame)
  have any: "\<exists>vs p. obj_get ''anyOf'' obj = Some (JArray vs) \<and> strictify_variants vs p 0 = Ok vs'"
    if "obj_get ''anyOf'' o4 = Some (JArray vs')" for vs'
    using that combinator_step(2) [OF s2, of vs'] by (auto simp: frame)
  have all: "\<exists>vs p. obj_get ''allOf'' obj = Some (JArray vs) \<and> strictify_variants vs p 0 = Ok vs'"
    if "obj_get ''allOf'' o4 = Some (JArray vs')" for vs'
    using that combinator_step(2) [OF s3, of vs'] by (auto simp: frame)
  show thesis
  proof (rule that [of o4])
    fix c vs' assume "c \<in> {''oneOf'', ''anyOf'', ''allOf''}" "obj_get c o4 = Some (JArray vs')"
    then show "\<exists>vs p. obj_get c obj = Some (JArray vs) \<and> strictify_variants vs p 0 = Ok vs'"
      using one any all by blast
  next
    fix v' assume "obj_get ''items'' o4 = Some v'"
    then show "\<exists>v p. obj_get ''items'' obj = Some v \<and> strictify_node v p = Ok v'"
      using items_step(2) [OF s4, of v'] by (auto simp: frame)
  next
    fix k assume "k \<in> {''properties'', ''type'', ''definitions''}"
    then show "obj_get k o4 = obj_get k obj" by (auto simp: frame)
  next
    show "(\<exists>props props'. obj_get ''properties'' obj = Some (JObject props)
        \<and> strictify_props props (required_names obj) path = Ok props' \<and> w = JObject (envelope props' o4))
     \<or> ((\<nexists>props. obj_get ''properties'' obj = Some (JObject props))
        \<and> w = JObject (if obj_get ''type'' obj = Some (JString ''object'') then envelope [] o4 else o4))"
      using s5 unfolding type by (simp split: option.splits json.splits) (auto simp: map_ok_Ok)
  qed
qed

lemma strictify_node_strict:
  assumes "strictify_node (JObject obj) path = Ok w"
    and variants: "\<And>c vs vs' p x. c \<in> {''oneOf'', ''anyOf'', ''allOf''} \<Longrightarrow>
      obj_get c obj = Some (JArray vs) \<Longrightarrow> strictify_variants vs p 0 = Ok vs' \<Longrightarrow> x \<in> set vs' \<Longrightarrow> strict_node x"
    and items: "\<And>v v' p. obj_get ''items'' obj = Some v \<Longrightarrow> strictify_node v p = Ok v' \<Longrightarrow> strict_node v'"
    and props: "\<And>ps ps' r k x. obj_get ''properties'' obj = Some (JObject ps) \<Longrightarrow>
      strictify_props ps r path = Ok ps' \<Longrightarrow> (k, x) \<in> set ps' \<Longrightarrow> strict_node x"
  shows "strict_node w"
proof -
  obtain o4 where
    c: "\<And>c vs'. c \<in> {''oneOf'', ''anyOf'', ''allOf''} \<Longrightarrow> obj_get c o4 = Some (JArray vs') \<Longrightarrow>
       \<exists>vs p. obj_get c obj = Some (JArray vs) \<and> strictify_variants vs p 0 = Ok vs'" and
    it: "\<And>v'. obj_get ''items'' o4 = Some v' \<Longrightarrow>
       \<exists>v p. obj_get ''items'' obj = Some v \<and> strictify_node v p = Ok v'" and
    fr: "\<And>k. k \<in> {''properties'', ''type'', ''definitions''} \<Longrightarrow> obj_get k o4 = obj_get k obj" and
    w: "(\<exists>props props'. obj_get ''properties'' obj = Some (JObject props)
        \<and> strictify_props props (required_names obj) path = Ok props' \<and> w = JObject (envelope props' o4))
     \<or> ((\<nexists>props. obj_get ''properties'' obj = Some (JObject props))
        \<and> w = JObject (if obj_get ''type'' obj = Some (JString ''object'') then envelope [] o4 else o4))"
    using strictify_object_parts [OF assms(1)] by blast
  have cs: "strict_node x" if "c \<in> {''oneOf'', ''anyOf'', ''allOf''}" "obj_get c o4 = Some (JArray vs')" "x \<in> set vs'" for c vs' x
    using c [OF that(1,2)] variants [OF that(1)] that(3) by blast
  have its: "strict_node v'" if "obj_get ''items'' o4 = Some v'" for v'
    using it [OF that] items by blast
  from w show ?thesis
  proof (elim disjE exE conjE)
    fix ps ps' assume p: "obj_get ''properties'' obj = Some (JObject ps)"
      "strictify_props ps (required_names obj) path = Ok ps'" "w = JObject (envelope ps' o4)"
    show ?thesis unfolding p(3) by (rule strict_envelope) (use p props cs its in blast)+
  next
    assume np: "\<nexists>props. obj_get ''properties'' obj = Some (JObject props)"
      and w: "w = JObject (if obj_get ''type'' obj = Some (JString ''object'') then envelope [] o4 else o4)"
    show ?thesis
    proof (cases "obj_get ''type'' obj = Some (JString ''object'')")
      case True
      have "strict_node (JObject (envelope [] o4))" by (rule strict_envelope) (use cs its in \<open>simp, blast+\<close>)
      then show ?thesis using True w by simp
    next
      case False
      have "enveloped o4" using np False fr by (simp add: enveloped_def split: option.split json.split)
      then have "strict_node (JObject o4)"
        by (rule strict_object) (use cs its np fr in \<open>blast, blast, simp\<close>)
      then show ?thesis using False w by simp
    qed
  qed
qed

lemma variants_strict:
  assumes "\<And>v p v'. v \<in> set vs \<Longrightarrow> strictify_node v p = Ok v' \<Longrightarrow> strict_node v'"
  shows "strictify_variants vs p i = Ok vs' \<Longrightarrow> x \<in> set vs' \<Longrightarrow> strict_node x"
  using assms
proof (induction vs arbitrary: i vs')
  case (Cons v vs)
  obtain v1 rest where step: "strictify_node v (p @ ''['' @ show_nat i @ '']'') = Ok v1"
      "strictify_variants vs p (Suc i) = Ok rest" "vs' = v1 # rest"
    using Cons.prems(1) unfolding strictify_variants.simps try_bind_Ok_iff map_ok_Ok by blast
  have "strict_node v1" using Cons.prems(3) step(1) by (meson list.set_intros(1))
  moreover have "strict_node x" if "x \<in> set rest"
    using Cons.IH [OF step(2) that] Cons.prems(3) by (meson list.set_intros(2))
  ultimately show ?case using Cons.prems(2) step(3) by auto
qed simp

lemma props_strict:
  assumes "\<And>k v p v'. (k, v) \<in> set kvs \<Longrightarrow> strictify_node v p = Ok v' \<Longrightarrow> strict_node v'"
  shows "strictify_props kvs r p = Ok kvs' \<Longrightarrow> (k, x) \<in> set kvs' \<Longrightarrow> strict_node x"
  using assms
proof (induction kvs arbitrary: kvs')
  case (Cons kv kvs)
  obtain j v where kv: "kv = (j, v)" by force
  obtain v1 v2 rest where step: "strictify_node v (p @ ''.'' @ j) = Ok v1"
      "(if j \<in> set r then Ok v1 else ensure_nullable_or_reject v1 (p @ ''.'' @ j)) = Ok v2"
      "strictify_props kvs r p = Ok rest" "kvs' = (j, v2) # rest"
    using Cons.prems(1) unfolding kv strictify_props.simps try_bind_Ok_iff map_ok_Ok by blast
  have "strict_node v1" using Cons.prems(3) step(1) kv by (meson list.set_intros(1))
  then have "strict_node v2" using step(2) strict_ensure by (auto split: if_splits)
  moreover have "strict_node x" if "(k, x) \<in> set rest"
    using Cons.IH [OF step(3) that] Cons.prems(3) by (meson list.set_intros(2))
  ultimately show ?case using Cons.prems(2) step(4) by auto
qed simp

lemma size_array_member: "x \<in> set vs \<Longrightarrow> size x < size (JArray vs)"
  by (induction vs) auto

lemma size_object_member: "(k, x) \<in> set kvs \<Longrightarrow> size x < size (JObject kvs)"
  by (induction kvs) auto

lemma strictify_sound: "strictify_node v path = Ok v' \<Longrightarrow> strict_node v'"
proof (induction v arbitrary: path v' rule: measure_induct_rule [of size])
  case (less v)
  show ?case
  proof (cases v)
    case (JObject obj)
    show ?thesis
    proof (rule strictify_node_strict)
      show "strictify_node (JObject obj) path = Ok v'" using less.prems JObject by simp
    next
      fix c vs vs' p x
      assume a: "obj_get c obj = Some (JArray vs)" "strictify_variants vs p 0 = Ok vs'" "x \<in> set vs'"
      have "size y < size v" if "y \<in> set vs" for y
        using size_array_member [OF that] size_obj_get [OF a(1)] JObject by simp
      then show "strict_node x" using variants_strict [OF _ a(2,3)] less.IH by blast
    next
      fix w w' p assume a: "obj_get ''items'' obj = Some w" "strictify_node w p = Ok w'"
      then show "strict_node w'" using less.IH size_obj_get [OF a(1)] JObject by blast
    next
      fix ps ps' r k x
      assume a: "obj_get ''properties'' obj = Some (JObject ps)" "strictify_props ps r path = Ok ps'"
        "(k, x) \<in> set ps'"
      have "size y < size v" if "(j, y) \<in> set ps" for j y
        using size_object_member [OF that] size_obj_get [OF a(1)] JObject by simp
      then show "strict_node x" using props_strict [OF _ a(2,3)] less.IH by blast
    qed
  qed (use less.prems in \<open>auto intro: strict_other\<close>)
qed

section \<open>Properties\<close>

lemma definitions_strict:
  "strictify_definitions defs = Ok defs' \<Longrightarrow> (k, x) \<in> set defs' \<Longrightarrow> strict_node x"
proof (induction defs arbitrary: defs')
  case (Cons kv defs)
  then show ?case
    by (cases kv) (auto simp: try_bind_Ok_iff map_ok_Ok intro: strictify_sound)
qed simp

lemma strictify_props_keys: "strictify_props kvs r p = Ok kvs' \<Longrightarrow> map fst kvs' = map fst kvs"
proof (induction kvs arbitrary: kvs')
  case (Cons kv kvs)
  then show ?case by (cases kv) (auto simp: try_bind_Ok_iff map_ok_Ok)
qed simp

lemma strictify_node_frame:
  assumes "strictify_node (JObject obj) path = Ok w"
  shows strictify_keeps_definitions: "json_get ''definitions'' w = obj_get ''definitions'' obj"
    and strictify_keeps_properties: "obj_get ''properties'' obj = Some (JObject props) \<Longrightarrow>
      \<exists>props'. json_get ''properties'' w = Some (JObject props') \<and> map fst props' = map fst props"
proof -
  obtain o4 where
    fr: "\<And>k. k \<in> {''properties'', ''type'', ''definitions''} \<Longrightarrow> obj_get k o4 = obj_get k obj" and
    w: "(\<exists>props props'. obj_get ''properties'' obj = Some (JObject props)
        \<and> strictify_props props (required_names obj) path = Ok props' \<and> w = JObject (envelope props' o4))
     \<or> ((\<nexists>props. obj_get ''properties'' obj = Some (JObject props))
        \<and> w = JObject (if obj_get ''type'' obj = Some (JString ''object'') then envelope [] o4 else o4))"
    by (rule strictify_object_parts [OF assms(1)], rule that)
  have env: "obj_get ''definitions'' (envelope ps o4) = obj_get ''definitions'' obj" for ps
    using fr [of "''definitions''"] by (simp add: envelope_def)
  show "json_get ''definitions'' w = obj_get ''definitions'' obj"
    using w env fr [of "''definitions''"] by (elim disjE exE conjE) simp_all
  show "\<exists>props'. json_get ''properties'' w = Some (JObject props') \<and> map fst props' = map fst props"
    if p: "obj_get ''properties'' obj = Some (JObject props)"
  proof -
    obtain props' where "strictify_props props (required_names obj) path = Ok props'"
        "w = JObject (envelope props' o4)" using w p by auto
    then show ?thesis using strictify_props_keys [of props "required_names obj" path props']
      by (simp add: envelope_def)
  qed
qed

lemma to_strict_schema_object:
  assumes "to_strict_schema (JObject obj) = Ok w"
  obtains obj' where "strictify_node (JObject obj') ''$'' = Ok w"
    "\<And>k. k \<noteq> ''definitions'' \<Longrightarrow> obj_get k obj' = obj_get k obj"
    "\<And>defs. obj_get ''definitions'' obj' = Some (JObject defs) \<Longrightarrow>
       \<exists>defs0. strictify_definitions defs0 = Ok defs"
proof (cases "Option.bind (obj_get ''definitions'' obj) as_object")
  case None
  then have "obj_get ''definitions'' obj \<noteq> Some (JObject defs)" for defs by auto
  then show ?thesis using that [of obj] assms None by (auto simp: to_strict_schema_def)
next
  case (Some defs)
  then obtain defs' where "strictify_definitions defs = Ok defs'"
      "strictify_node (JObject (obj_insert ''definitions'' (JObject defs') obj)) ''$'' = Ok w"
    using assms by (auto simp: to_strict_schema_def try_bind_Ok_iff map_ok_Ok)
  then show ?thesis using that [of "obj_insert ''definitions'' (JObject defs') obj"] by auto
qed


definition sample_schema :: json_object where
  "sample_schema = [(''properties'', JObject [(''q'', JObject [(''type'', JString ''string'')])]),
     (''type'', JString ''object'')]"

lemma sample_strict: "to_strict_schema (JObject sample_schema) = Ok (JObject
   [(''additionalProperties'', JBool False),
    (''properties'', JObject [(''q'', JObject [(''type'', JString ''string'')])]),
    (''required'', JArray [JString ''q'']), (''type'', JString ''object'')])"
  by (simp add: sample_schema_def to_strict_schema_def strictify_node.simps(1) is_open_dictionary_def
      envelope_def)


definition tuple_schema :: json_object where
  "tuple_schema = [(''items'', JArray [JObject [(''properties'', JObject [(''q'', JObject [])]),
     (''type'', JString ''object'')]]), (''type'', JString ''array'')]"

text \<open>
  A schema whose \<open>items\<close> is an array of schemas (a tuple) is accepted without rewriting
  its members: an object inside it is left open and without its optional property listed
  as required, although the adapter's documentation promises the envelope on every object
  node.
\<close>

theorem tuple_items_stay_open:
  "to_strict_schema (JObject tuple_schema) = Ok (JObject tuple_schema)
   \<and> \<not> strict_node (JObject [(''properties'', JObject [(''q'', JObject [])]), (''type'', JString ''object'')])"
proof -
  have "\<not> enveloped [(''properties'', JObject [(''q'', JObject [])]), (''type'', JString ''object'')]"
    by (simp add: enveloped_def)
  then show ?thesis
    by (simp add: tuple_schema_def to_strict_schema_def strictify_node.simps(1) is_open_dictionary_def
        put_result_def strict_object_iff)
qed

end
