(* ===== verification/Tool_Registry.thy ===== *)
theory Tool_Registry
  imports Core_Types Strict_Schema Complex_Main "HOL-Library.Multiset"
begin

text \<open>
  The tool registry (\<open>avs-tools/src/registry.rs\<close>), its keyword index
  (\<open>avs-tools/src/search.rs\<close>) and the erasure of typed tools (\<open>avs-core/src/tool.rs\<close>).

  A tool's body is outside the program: a function from the tick of the world and the
  arguments to a result or a panic. Tasks of one batch complete in an order the runtime
  chooses, the parameter \<open>order\<close>. The single-precision arithmetic of a score is the
  parameter \<open>bm25_arith\<close>; the index around it is the code's.
\<close>

section \<open>Tools\<close>

datatype tool_run = Returns "tool_error + json" | Panics

record tool =
  tl_name :: string
  tl_description :: string
  tl_schema :: json
  tl_exec :: "nat \<Rightarrow> json \<Rightarrow> tool_run"

definition erased_schema :: "string \<Rightarrow> string \<Rightarrow> json \<Rightarrow> json" where
  "erased_schema name desc input_schema = JObject (obj_from
     [(''name'', JString name), (''description'', JString desc), (''input_schema'', input_schema)])"

text \<open>A typed tool, erased: its arguments are read from JSON, a mismatch is \<open>InvalidArgs\<close>.\<close>

definition execute_raw ::
  "(json \<Rightarrow> string + 'a) \<Rightarrow> (nat \<Rightarrow> 'a \<Rightarrow> tool_run) \<Rightarrow> nat \<Rightarrow> json \<Rightarrow> tool_run" where
  "execute_raw from_value execute tick args =
     (case from_value args of
        Err e \<Rightarrow> Returns (Err (InvalidArgs e)) | Ok typed \<Rightarrow> execute tick typed)"

definition erase_tool ::
  "string \<Rightarrow> string \<Rightarrow> json \<Rightarrow> (json \<Rightarrow> string + 'a) \<Rightarrow> (nat \<Rightarrow> 'a \<Rightarrow> tool_run) \<Rightarrow> tool" where
  "erase_tool name desc input_schema from_value execute =
     \<lparr>tl_name = name, tl_description = desc, tl_schema = erased_schema name desc input_schema,
      tl_exec = execute_raw from_value execute\<rparr>"

datatype execution_mode = Inline | Background

record tool_options =
  opt_category :: "string option"
  opt_mode :: execution_mode

definition default_options :: tool_options where
  "default_options = \<lparr>opt_category = None, opt_mode = Inline\<rparr>"

section \<open>The keyword index\<close>

record bm25_index =
  ix_docs :: "(string \<times> string list) list"
  ix_df :: "(string \<times> nat) list"

definition empty_index :: bm25_index where
  "empty_index = \<lparr>ix_docs = [], ix_df = []\<rparr>"

definition tokenize :: "string \<Rightarrow> string list" where
  "tokenize text = filter (\<lambda>w. w \<noteq> []) (split_on (\<lambda>c. \<not> is_alnum c) (to_lowercase text))"

definition count_of :: "(string \<times> nat) list \<Rightarrow> string \<Rightarrow> nat" where
  "count_of m t = (case map_of m t of None \<Rightarrow> 0 | Some n \<Rightarrow> n)"

definition bump :: "string \<Rightarrow> (string \<times> nat) list \<Rightarrow> (string \<times> nat) list" where
  "bump t m = assoc_put t (count_of m t + 1) m"

text \<open>Each distinct token of the document counts once, at its first occurrence.\<close>

fun bump_new :: "string list \<Rightarrow> string list \<Rightarrow> (string \<times> nat) list \<Rightarrow> (string \<times> nat) list" where
  "bump_new [] seen df = df"
| "bump_new (t # ts) seen df =
     (if t \<in> set seen then bump_new ts seen df else bump_new ts (t # seen) (bump t df))"

definition index_insert :: "string \<Rightarrow> string \<Rightarrow> bm25_index \<Rightarrow> bm25_index" where
  "index_insert i text ix =
     (let tokens = tokenize text in
      \<lparr>ix_docs = ix_docs ix @ [(i, tokens)], ix_df = bump_new tokens [] (ix_df ix)\<rparr>)"

definition term_freq :: "string list \<Rightarrow> (string \<times> nat) list" where
  "term_freq tokens = fold bump tokens []"

text \<open>The contribution of one term, from the number of documents, the document frequency,
  the term frequency, the document's length and the total length; and the sum.\<close>

record bm25_arith =
  term_score :: "nat \<Rightarrow> nat \<Rightarrow> nat \<Rightarrow> nat \<Rightarrow> nat \<Rightarrow> rat"
  add_score :: "rat \<Rightarrow> rat \<Rightarrow> rat"

definition doc_score :: "bm25_arith \<Rightarrow> bm25_index \<Rightarrow> string list \<Rightarrow> string list \<Rightarrow> rat" where
  "doc_score ar ix q_tokens tokens =
     (let n = length (ix_docs ix);
          total = sum_list (map (\<lambda>(_, ts). length ts) (ix_docs ix));
          tf_map = term_freq tokens
      in fold (\<lambda>term acc.
           if count_of tf_map term = 0 then acc
           else add_score ar acc
             (term_score ar n (count_of (ix_df ix) term) (count_of tf_map term) (length tokens) total))
         q_tokens 0)"

definition index_search :: "bm25_arith \<Rightarrow> bm25_index \<Rightarrow> string \<Rightarrow> nat \<Rightarrow> (string \<times> rat) list" where
  "index_search ar ix query limit =
     (if ix_docs ix = [] \<or> query = [] then []
      else let q_tokens = tokenize query;
               scores = filter (\<lambda>(_, s). 0 < s)
                 (map (\<lambda>(i, tokens). (i, doc_score ar ix q_tokens tokens)) (ix_docs ix))
           in take limit (sort_key (\<lambda>(_, s). - s) scores))"

section \<open>The registry\<close>

record tool_registry =
  reg_tools :: "(string \<times> tool \<times> tool_options) list"
  reg_index :: bm25_index

definition empty_registry :: tool_registry where
  "empty_registry = \<lparr>reg_tools = [], reg_index = empty_index\<rparr>"

definition index_text :: "tool \<Rightarrow> string" where
  "index_text t = tl_name t @ '' '' @ tl_description t"

definition register_erased :: "tool \<Rightarrow> tool_options \<Rightarrow> tool_registry \<Rightarrow> tool_registry" where
  "register_erased t opts reg =
     reg\<lparr>reg_tools := assoc_put (tl_name t) (t, opts) (reg_tools reg),
         reg_index := index_insert (tl_name t) (index_text t) (reg_index reg)\<rparr>"

definition register_with_options :: "tool \<Rightarrow> tool_options \<Rightarrow> tool_registry \<Rightarrow> tool_registry" where
  "register_with_options t opts reg =
     reg\<lparr>reg_tools := assoc_put (tl_name t) (t, opts) (reg_tools reg),
         reg_index := index_insert (tl_name t) (index_text t) (reg_index reg)\<rparr>"

definition register :: "tool \<Rightarrow> tool_registry \<Rightarrow> tool_registry" where
  "register t reg = register_with_options t default_options reg"

definition register_if_absent :: "tool \<Rightarrow> tool_registry \<Rightarrow> bool \<times> tool_registry" where
  "register_if_absent t reg =
     (case map_of (reg_tools reg) (tl_name t) of
        Some _ \<Rightarrow> (False, reg)
      | None \<Rightarrow>
          (True, reg\<lparr>reg_tools := assoc_put (tl_name t) (t, default_options) (reg_tools reg),
                     reg_index := index_insert (tl_name t) (index_text t) (reg_index reg)\<rparr>))"

definition new_registry :: "tool \<Rightarrow> tool_registry" where
  "new_registry find_tools = register find_tools empty_registry"

definition find_tool :: "tool_registry \<Rightarrow> string \<Rightarrow> tool option" where
  "find_tool reg name = map_option fst (map_of (reg_tools reg) name)"

definition execute :: "tool_registry \<Rightarrow> nat \<Rightarrow> string \<Rightarrow> json \<Rightarrow> tool_run" where
  "execute reg tick name args =
     (case find_tool reg name of
        None \<Rightarrow> Returns (Err (ToolNotFound name))
      | Some t \<Rightarrow> tl_exec t tick args)"

definition run_call :: "tool_registry \<Rightarrow> nat \<Rightarrow> tool_call \<Rightarrow> tool_call_result option" where
  "run_call reg tick c =
     (case execute reg tick (call_name c) (call_args c) of
        Panics \<Rightarrow> None
      | Returns r \<Rightarrow> Some \<lparr>res_id = call_id c, res_name = call_name c, res_result = r\<rparr>)"

text \<open>
  A batch: results are collected in completion order until a task has panicked
  (\<open>while let Some(Ok(r)) = set.join_next().await\<close>).
\<close>

definition execute_many ::
  "(tool_call list \<Rightarrow> tool_call list) \<Rightarrow> tool_registry \<Rightarrow> nat \<Rightarrow> tool_call list \<Rightarrow> tool_call_result list" where
  "execute_many order reg tick calls =
     map the (takeWhile (\<lambda>r. r \<noteq> None) (map (run_call reg tick) (order calls)))"

text \<open>The calls of a batch whose tool is started, for what a batch may do to the world.\<close>

definition started :: "tool_registry \<Rightarrow> tool_call list \<Rightarrow> (string \<times> json) list" where
  "started reg calls = map (\<lambda>c. (call_name c, call_args c)) (filter (\<lambda>c. find_tool reg (call_name c) \<noteq> None) calls)"

fun check_all :: "'q hitl_hook \<Rightarrow> tool_call list \<Rightarrow> 'q \<Rightarrow> (uuid \<times> string) option \<times> 'q" where
  "check_all hook [] q = (None, q)"
| "check_all hook (c # cs) q =
     (case check_tool hook (call_name c) (call_args c) q of
        (Some i, q') \<Rightarrow> (Some i, q')
      | (None, q') \<Rightarrow> check_all hook cs q')"

definition execute_many_hitl ::
  "(tool_call list \<Rightarrow> tool_call list) \<Rightarrow> tool_registry \<Rightarrow> 'q hitl_hook \<Rightarrow> nat \<Rightarrow> tool_call list \<Rightarrow> 'q \<Rightarrow>
   ((uuid \<times> string) + tool_call_result list) \<times> 'q" where
  "execute_many_hitl order reg hook tick calls q =
     (case check_all hook calls q of
        (Some i, q') \<Rightarrow> (Err i, q')
      | (None, q') \<Rightarrow> (Ok (execute_many order reg tick calls), q'))"

definition all_schemas :: "tool_registry \<Rightarrow> json list" where
  "all_schemas reg = map (\<lambda>(_, t, _). tl_schema t) (reg_tools reg)"

definition tool_definition_of :: "tool \<Rightarrow> strict_schema_error + tool_definition" where
  "tool_definition_of t =
     (let schema = tl_schema t in
      map_ok (\<lambda>parameters. \<lparr>def_name = str_or [] (json_index schema ''name''),
          def_description = str_or [] (json_index schema ''description''),
          def_parameters = parameters\<rparr>)
        (to_strict_schema (json_index schema ''input_schema'')))"

definition tool_definitions_for ::
  "tool_registry \<Rightarrow> string list \<Rightarrow> strict_schema_error + tool_definition list" where
  "tool_definitions_for reg names =
     collect_results (map tool_definition_of (List.map_filter (find_tool reg) names))"

record tool_info =
  ti_name :: string
  ti_description :: string
  ti_schema :: json
  ti_score :: rat

definition search :: "bm25_arith \<Rightarrow> tool_registry \<Rightarrow> string \<Rightarrow> nat \<Rightarrow> tool_info list" where
  "search ar reg query limit =
     List.map_filter (\<lambda>(name, score). map_option (\<lambda>t. \<lparr>ti_name = name,
         ti_description = tl_description t, ti_schema = tl_schema t, ti_score = score\<rparr>)
       (find_tool reg name)) (index_search ar (reg_index reg) query limit)"

definition find_tools_execute ::
  "bm25_arith \<Rightarrow> (rat \<Rightarrow> json) \<Rightarrow> tool_registry \<Rightarrow> string \<Rightarrow> 8 word \<Rightarrow> tool_error + json" where
  "find_tools_execute ar score_json reg query limit =
     Ok (JObject (obj_from [(''query'', JString query),
       (''tools'', JArray (map (\<lambda>info. JObject (obj_from
          [(''name'', JString (ti_name info)), (''description'', JString (ti_description info)),
           (''score'', score_json (ti_score info))]))
         (search ar reg query (unat limit))))]))"

text \<open>Copies of a registry: each kept tool is inserted and indexed anew.\<close>

definition copy_tool :: "string \<Rightarrow> tool \<times> tool_options \<Rightarrow> tool_registry \<Rightarrow> tool_registry" where
  "copy_tool name e reg =
     reg\<lparr>reg_tools := assoc_put name e (reg_tools reg),
         reg_index := index_insert name (index_text (fst e)) (reg_index reg)\<rparr>"

definition filter_category :: "tool_registry \<Rightarrow> string \<Rightarrow> tool_registry" where
  "filter_category reg category =
     fold (\<lambda>(name, e) new_reg. if opt_category (snd e) = Some category
                               then copy_tool name e new_reg else new_reg)
       (reg_tools reg) empty_registry"

definition spawn_subagent_tool_name :: string where
  "spawn_subagent_tool_name = ''spawn_subagent''"

definition copy_named_tools :: "tool_registry \<Rightarrow> string list \<Rightarrow> bool \<Rightarrow> tool_registry" where
  "copy_named_tools reg names exclude_subagent_spawner =
     fold (\<lambda>name new_reg.
         if exclude_subagent_spawner \<and> name = spawn_subagent_tool_name then new_reg
         else (case map_of (reg_tools reg) name of
                 None \<Rightarrow> new_reg | Some e \<Rightarrow> copy_tool name e new_reg))
       names empty_registry"

definition restricted_to_names :: "tool_registry \<Rightarrow> string list \<Rightarrow> tool_registry" where
  "restricted_to_names reg names = copy_named_tools reg names False"

definition filter_by_names :: "tool_registry \<Rightarrow> string list \<Rightarrow> tool_registry" where
  "filter_by_names reg names = copy_named_tools reg names True"

definition has_tool :: "tool_registry \<Rightarrow> string \<Rightarrow> bool" where
  "has_tool reg name \<longleftrightarrow> map_of (reg_tools reg) name \<noteq> None"

definition tool_count :: "tool_registry \<Rightarrow> nat" where
  "tool_count reg = length (reg_tools reg)"

definition registry_is_empty :: "tool_registry \<Rightarrow> bool" where
  "registry_is_empty reg \<longleftrightarrow> reg_tools reg = []"

definition tool_names :: "tool_registry \<Rightarrow> string list" where
  "tool_names reg = map fst (reg_tools reg)"

section \<open>Summaries for prompts\<close>

definition dquote :: string where "dquote = [CHR 0x22]"

definition required_of :: "json \<Rightarrow> string list" where
  "required_of schema =
     (case as_array (json_index (json_index schema ''input_schema'') ''required'') of
        None \<Rightarrow> [] | Some r \<Rightarrow> List.map_filter as_str r)"

definition args_hint :: "(string \<Rightarrow> string \<Rightarrow> string) \<Rightarrow> json \<Rightarrow> string" where
  "args_hint field schema =
     (case as_object (json_index (json_index schema ''input_schema'') ''properties'') of
        None \<Rightarrow> ''{}''
      | Some props \<Rightarrow>
          ''{'' @ join '', '' (List.map_filter (\<lambda>k. map_option (\<lambda>v.
              field k (case Option.bind (json_get ''description'' v) as_str of Some d \<Rightarrow> d | None \<Rightarrow> []))
            (obj_get k props)) (required_of schema)) @ ''}'')"

definition field_hint :: "string \<Rightarrow> string \<Rightarrow> string" where
  "field_hint k desc = dquote @ k @ dquote @ '': '' @ dquote @ desc @ dquote"

definition field_hint_for :: "string \<Rightarrow> string \<Rightarrow> string" where
  "field_hint_for k desc = dquote @ k @ '': '' @ dquote @ desc @ dquote"

definition summary_entry :: "(string \<Rightarrow> string \<Rightarrow> string) \<Rightarrow> tool \<Rightarrow> string" where
  "summary_entry field t = ''- '' @ tl_name t @ '': '' @ tl_description t @ newline @ ''  args: ''
     @ args_hint field (tl_schema t)"

definition tool_summaries :: "tool_registry \<Rightarrow> string" where
  "tool_summaries reg =
     (if reg_tools reg = [] then ''none (reasoning only)''
      else join newline (sort (map (\<lambda>(_, t, _). summary_entry field_hint t) (reg_tools reg))))"

definition tool_summaries_for :: "tool_registry \<Rightarrow> string list \<Rightarrow> string" where
  "tool_summaries_for reg names =
     (if names = [] then ''none (reasoning only)''
      else let entries = map (\<lambda>(_, t, _). summary_entry field_hint_for t)
                 (filter (\<lambda>(name, _). name \<in> set names) (reg_tools reg))
           in if entries = [] then ''none (reasoning only)'' else join newline (sort entries))"

section \<open>What a restricted registry can run\<close>

lemma find_tool_copy:
  "map_of (reg_tools (copy_tool name e reg)) n = (if n = name then Some e else map_of (reg_tools reg) n)"
  by (simp add: copy_tool_def)

lemma map_of_copy_fold:
  "map_of (reg_tools (fold (\<lambda>name new_reg.
         if ex \<and> name = spawn_subagent_tool_name then new_reg
         else (case map_of (reg_tools reg) name of
                 None \<Rightarrow> new_reg | Some e \<Rightarrow> copy_tool name e new_reg)) names acc)) n
   = (if n \<in> set names \<and> \<not> (ex \<and> n = spawn_subagent_tool_name) \<and> map_of (reg_tools reg) n \<noteq> None
      then map_of (reg_tools reg) n else map_of (reg_tools acc) n)"
  by (induction names arbitrary: acc) (auto simp: find_tool_copy split: option.split)

lemma reg_tools_empty [simp]: "reg_tools empty_registry = []"
  by (simp add: empty_registry_def)

lemma find_tool_copy_named:
  "find_tool (copy_named_tools reg names ex) n =
     (if n \<in> set names \<and> \<not> (ex \<and> n = spawn_subagent_tool_name) then find_tool reg n else None)"
  using map_of_copy_fold [of ex reg names empty_registry n]
  unfolding find_tool_def copy_named_tools_def
  by (cases "map_of (reg_tools reg) n"; cases "n \<in> set names"; cases "ex \<and> n = spawn_subagent_tool_name")
     auto

lemma find_tool_restricted:
  "find_tool (restricted_to_names reg names) n = (if n \<in> set names then find_tool reg n else None)"
  "find_tool (filter_by_names reg names) n =
     (if n \<in> set names \<and> n \<noteq> spawn_subagent_tool_name then find_tool reg n else None)"
  by (simp_all add: restricted_to_names_def filter_by_names_def find_tool_copy_named)

text \<open>
  A restricted registry runs the named tools exactly as the full registry does and
  answers \<open>NotFound\<close> for every other name; the registry of a sub-agent answers \<open>NotFound\<close> for
  the spawning tool even when it is named.
\<close>

theorem restricted_registry_runs_only_named:
  "execute (restricted_to_names reg names) tick n args =
     (if n \<in> set names then execute reg tick n args else Returns (Err (ToolNotFound n)))
   \<and> execute (filter_by_names reg names) tick n args =
     (if n \<in> set names \<and> n \<noteq> ''spawn_subagent'' then execute reg tick n args
      else Returns (Err (ToolNotFound n)))"
  by (auto simp: execute_def find_tool_restricted spawn_subagent_tool_name_def)

section \<open>The index\<close>

definition df_exact :: "bm25_index \<Rightarrow> bool" where
  "df_exact ix \<longleftrightarrow> (\<forall>t. count_of (ix_df ix) t = length (filter (\<lambda>(_, ts). t \<in> set ts) (ix_docs ix)))"

lemma count_of_bump: "count_of (bump t m) u = (if u = t then count_of m t + 1 else count_of m u)"
  by (simp add: count_of_def bump_def)

lemma count_of_bump_new:
  "count_of (bump_new ts seen df) u = count_of df u + (if u \<in> set ts \<and> u \<notin> set seen then 1 else 0)"
  by (induction ts seen df rule: bump_new.induct) (auto simp: count_of_bump)

lemma df_exact_insert: "df_exact ix \<Longrightarrow> df_exact (index_insert i text ix)"
  by (simp add: df_exact_def index_insert_def Let_def count_of_bump_new)

lemma df_exact_empty: "df_exact empty_index"
  by (simp add: df_exact_def empty_index_def count_of_def)

lemma count_of_fold_bump: "count_of (fold bump ts m) u = count_of m u + count_list ts u"
  by (induction ts arbitrary: m) (auto simp: count_of_bump)

lemma count_of_term_freq: "count_of (term_freq ts) u = count_list ts u"
  using count_of_fold_bump [of ts "[]" u] by (simp add: term_freq_def count_of_def)

inductive reachable_registry :: "tool_registry \<Rightarrow> bool" where
  reg_new: "reachable_registry (new_registry t)"
| reg_options: "reachable_registry reg \<Longrightarrow> reachable_registry (register_with_options t opts reg)"
| reg_erased: "reachable_registry reg \<Longrightarrow> reachable_registry (register_erased t opts reg)"
| reg_absent: "reachable_registry reg \<Longrightarrow> reachable_registry (snd (register_if_absent t reg))"
| reg_category: "reachable_registry reg \<Longrightarrow> reachable_registry (filter_category reg c)"
| reg_restrict: "reachable_registry reg \<Longrightarrow> reachable_registry (restricted_to_names reg names)"
| reg_subagent: "reachable_registry reg \<Longrightarrow> reachable_registry (filter_by_names reg names)"

definition registry_ok :: "tool_registry \<Rightarrow> bool" where
  "registry_ok reg \<longleftrightarrow> distinct (map fst (reg_tools reg)) \<and> df_exact (reg_index reg)
     \<and> fst ` set (ix_docs (reg_index reg)) = fst ` set (reg_tools reg)"

lemma registry_ok_put:
  assumes "registry_ok reg"
  shows "registry_ok (reg\<lparr>reg_tools := assoc_put n e (reg_tools reg),
           reg_index := index_insert n text (reg_index reg)\<rparr>)"
  using assms keys_assoc_put [of n e "reg_tools reg"]
  by (simp add: registry_ok_def distinct_assoc_put df_exact_insert)
     (simp add: index_insert_def Let_def)

lemma registry_ok_empty: "registry_ok empty_registry"
  by (simp add: registry_ok_def empty_registry_def df_exact_empty) (simp add: empty_index_def)

lemma registry_ok_copy: "registry_ok reg \<Longrightarrow> registry_ok (copy_tool n e reg)"
  unfolding copy_tool_def by (rule registry_ok_put)

lemma registry_ok_fold:
  assumes "\<And>x r. registry_ok r \<Longrightarrow> registry_ok (f x r)"
  shows "registry_ok r \<Longrightarrow> registry_ok (fold f xs r)"
  by (induction xs arbitrary: r) (simp_all add: assms)

lemma registry_ok_reachable: "reachable_registry reg \<Longrightarrow> registry_ok reg"
proof (induction rule: reachable_registry.induct)
  case (reg_new t)
  show ?case unfolding new_registry_def register_def register_with_options_def
    by (rule registry_ok_put [OF registry_ok_empty])
next
  case (reg_category reg c)
  show ?case unfolding filter_category_def
    by (rule registry_ok_fold [OF _ registry_ok_empty]) (auto intro: registry_ok_copy)
next
  case (reg_restrict reg names)
  show ?case unfolding restricted_to_names_def copy_named_tools_def
    by (rule registry_ok_fold [OF _ registry_ok_empty]) (auto intro: registry_ok_copy split: option.split)
next
  case (reg_subagent reg names)
  show ?case unfolding filter_by_names_def copy_named_tools_def
    by (rule registry_ok_fold [OF _ registry_ok_empty]) (auto intro: registry_ok_copy split: option.split)
qed (auto simp: register_with_options_def register_erased_def register_if_absent_def
      intro: registry_ok_put split: option.split)

text \<open>
  In every registry the operations can build, the index counts exactly the documents
  that contain a term, and a search returns at most the requested number of hits, each a
  registered tool with its present description and schema and a positive score.
\<close>

theorem search_is_consistent:
  assumes "reachable_registry reg"
  shows "(\<forall>t. count_of (ix_df (reg_index reg)) t
            = length (filter (\<lambda>(_, ts). t \<in> set ts) (ix_docs (reg_index reg))))
    \<and> length (search ar reg query limit) \<le> limit
    \<and> (\<forall>info \<in> set (search ar reg query limit).
         0 < ti_score info
         \<and> (\<exists>t. find_tool reg (ti_name info) = Some t \<and> ti_description info = tl_description t
                \<and> ti_schema info = tl_schema t))"
proof -
  have "length (search ar reg query limit) \<le> length (index_search ar (reg_index reg) query limit)"
    unfolding search_def List.map_filter_def by (metis length_filter_le length_map)
  also have "\<dots> \<le> limit" by (simp add: index_search_def Let_def)
  finally have "length (search ar reg query limit) \<le> limit" .
  moreover have "0 < s" if "(n, s) \<in> set (index_search ar (reg_index reg) query limit)" for n s
    using that by (auto simp: index_search_def Let_def split: if_splits dest!: in_set_takeD)
  ultimately show ?thesis
    using registry_ok_reachable [OF assms]
    by (fastforce simp: registry_ok_def df_exact_def search_def List.map_filter_def)
qed

definition sample_tool :: "string \<Rightarrow> tool" where
  "sample_tool desc = erase_tool ''calc'' desc JNull (\<lambda>j. Ok j) (\<lambda>_ j. Returns (Ok j))"

lemma sample_registry_reachable: "reachable_registry (new_registry (sample_tool ''adds''))"
  by (rule reg_new)

lemma search_is_consistent_witness:
  "length (search \<lparr>term_score = (\<lambda>_ _ _ _ _. 1), add_score = (+)\<rparr> (new_registry (sample_tool ''adds''))
     ''adds'' 1) \<le> 1"
  using search_is_consistent [OF sample_registry_reachable] by blast

text \<open>
  Registering a tool under a name already taken replaces the tool but keeps its
  search document: the index then holds two documents of that name, the first with the
  words of the replaced description.
\<close>

theorem replaced_tool_keeps_stale_document:
  assumes "tl_name t' = tl_name t"
  shows "tool_names (register t' (register t empty_registry)) = [tl_name t]
    \<and> find_tool (register t' (register t empty_registry)) (tl_name t) = Some t'
    \<and> ix_docs (reg_index (register t' (register t empty_registry)))
        = [(tl_name t, tokenize (index_text t)), (tl_name t, tokenize (index_text t'))]"
  using assms
  by (simp add: register_def register_with_options_def empty_registry_def tool_names_def find_tool_def
      index_insert_def empty_index_def Let_def)

lemma replaced_tool_keeps_stale_document_witness:
  "tool_names (register (sample_tool ''new'') (register (sample_tool ''old'') empty_registry)) = [''calc'']"
  using replaced_tool_keeps_stale_document [of "sample_tool ''new''" "sample_tool ''old''"]
  by (simp add: sample_tool_def erase_tool_def)

end
