(* ===== verification/Guardrails.thy ===== *)
theory Guardrails
  imports Core_Types Hitl_Policy
begin

text \<open>
  The guardrails crate: the per-user rate limiter (\<open>avs-guardrails/src/rate_limiter.rs\<close>), the
  prompt and output filters (\<open>prompt_guard.rs\<close>, \<open>output_guard.rs\<close>), whose regular expressions
  belong to the regex crate and are the parameter \<open>is_match\<close>, and the legacy pre-execution
  check (\<open>action_guard.rs\<close>).
\<close>

datatype guard_error =
    GPromptInjection string
  | GOutputFiltered string
  | GActionBlocked string
  | GRateLimited string

fun guard_error_text :: "guard_error \<Rightarrow> string" where
  "guard_error_text (GPromptInjection m) = ''Prompt injection: '' @ m"
| "guard_error_text (GOutputFiltered m) = ''Output filtered: '' @ m"
| "guard_error_text (GActionBlocked m) = ''Action blocked: '' @ m"
| "guard_error_text (GRateLimited m) = ''Rate limited: '' @ m"

section \<open>Prompt and output filters\<close>

abbreviation backslash :: string where "backslash \<equiv> [CHR 0x5C]"

definition dan_pattern :: string where
  "dan_pattern = ''(?i)(DAN|DMIT|DO NOT INTERRUPT|do not interrupt me|DAN mode|developer mode)''"

definition prompt_injection_patterns :: "string list" where
  "prompt_injection_patterns =
     [''(?i)(ignore'' @ backslash
         @ ''s+previous|forget'' @ backslash
         @ ''s+previous|disregard'' @ backslash
         @ ''s+previous)'' @ backslash
         @ ''s+instructions'',
      ''(?i)(you'' @ backslash
         @ ''s+are'' @ backslash
         @ ''s+now|from'' @ backslash
         @ ''s+now'' @ backslash
         @ ''s+on).*?(jailbroken|unrestricted|uncensored)'',
      dan_pattern,
      ''(?i)(system'' @ backslash
         @ ''s*:'' @ backslash
         @ ''s*)?(roleplay|simulate|pretend)'' @ backslash
         @ ''s+(that'' @ backslash
         @ ''s+you)?'' @ backslash
         @ ''s+(are'' @ backslash
         @ ''s+)?(an'' @ backslash
         @ ''s+)?(AI|assistant)'' @ backslash
         @ ''s+without'' @ backslash
         @ ''s+(any|these)'' @ backslash
         @ ''s+(restrictions|guidelines|safety|rules)'']"

fun check_patterns :: "(string \<Rightarrow> string \<Rightarrow> bool) \<Rightarrow> string list \<Rightarrow> string \<Rightarrow> guard_error + unit" where
  "check_patterns is_match [] prompt = Ok ()"
| "check_patterns is_match (p # ps) prompt =
     (if is_match p prompt
      then Err (GPromptInjection (''Potential prompt injection detected: '' @ p))
      else check_patterns is_match ps prompt)"

definition check_prompt :: "(string \<Rightarrow> string \<Rightarrow> bool) \<Rightarrow> string \<Rightarrow> guard_error + unit" where
  "check_prompt is_match prompt = check_patterns is_match prompt_injection_patterns prompt"

definition pii_patterns :: "(string \<times> string) list" where
  "pii_patterns =
     [('''' @ backslash
         @ ''b'' @ backslash
         @ ''d{3}-'' @ backslash
         @ ''d{2}-'' @ backslash
         @ ''d{4}'' @ backslash
         @ ''b'', ''SSN''),
      ('''' @ backslash
         @ ''b'' @ backslash
         @ ''d{4}['' @ backslash
         @ ''s-]'' @ backslash
         @ ''d{4}['' @ backslash
         @ ''s-]'' @ backslash
         @ ''d{4}['' @ backslash
         @ ''s-]'' @ backslash
         @ ''d{4}'' @ backslash
         @ ''b'', ''Credit Card''),
      (''[a-zA-Z0-9._%+-]+@[a-zA-Z0-9.-]+'' @ backslash
         @ ''.[a-zA-Z]{2,}'', ''Email'')]"

definition check_output :: "(string \<Rightarrow> string \<Rightarrow> bool) \<Rightarrow> string \<Rightarrow> guard_error + unit" where
  "check_output is_match output =
     (case find (\<lambda>(p, _). is_match p output) pii_patterns of
        Some (_, kind) \<Rightarrow> Err (GOutputFiltered (''PII detected: '' @ kind @ '' '' @ em_dash @ '' output filtered''))
      | None \<Rightarrow> Ok ())"

section \<open>The rate limiter\<close>

record rate_limiter =
  rl_limits :: "(string \<times> instant list) list"
  rl_max_requests :: nat
  rl_window_seconds :: nat

definition new_limiter :: "nat \<Rightarrow> nat \<Rightarrow> rate_limiter" where
  "new_limiter m w = \<lparr>rl_limits = [], rl_max_requests = m, rl_window_seconds = w\<rparr>"

definition window_of :: "rate_limiter \<Rightarrow> int" where
  "window_of rl = int (rl_window_seconds rl) * nanos_per_sec"

definition requests_of :: "rate_limiter \<Rightarrow> string \<Rightarrow> instant list" where
  "requests_of rl u = (case map_of (rl_limits rl) u of None \<Rightarrow> [] | Some ts \<Rightarrow> ts)"

definition rate_check :: "instant \<Rightarrow> string \<Rightarrow> rate_limiter \<Rightarrow> (guard_error + unit) \<times> rate_limiter" where
  "rate_check now u rl =
     (let recent = filter (\<lambda>t. now - t < window_of rl) (requests_of rl u) in
      if rl_max_requests rl \<le> length recent
      then (Err (GRateLimited (''User '' @ u @ '' exceeded rate limit: '' @ show_nat (rl_max_requests rl)
              @ '' requests per '' @ show_nat (rl_window_seconds rl) @ ''s'')),
            rl\<lparr>rl_limits := assoc_put u recent (rl_limits rl)\<rparr>)
      else (Ok (), rl\<lparr>rl_limits := assoc_put u (recent @ [now]) (rl_limits rl)\<rparr>))"

text \<open>A run of checks, with what each was told.\<close>

fun rate_run :: "(instant \<times> string) list \<Rightarrow> rate_limiter \<Rightarrow> (instant \<times> string \<times> bool) list \<times> rate_limiter" where
  "rate_run [] rl = ([], rl)"
| "rate_run ((now, u) # es) rl =
     (let (r, rl') = rate_check now u rl; (hist, rl'') = rate_run es rl'
      in ((now, u, is_ok r) # hist, rl''))"

definition accepted_times :: "string \<Rightarrow> (instant \<times> string \<times> bool) list \<Rightarrow> instant list" where
  "accepted_times u hist = map fst (filter (\<lambda>(t, v, ok). v = u \<and> ok) hist)"

definition rate_inv :: "instant \<Rightarrow> (instant \<times> string \<times> bool) list \<Rightarrow> rate_limiter \<Rightarrow> bool" where
  "rate_inv now past rl \<longleftrightarrow> (\<forall>u. \<forall>t \<ge> now.
     filter (\<lambda>s. t - s < window_of rl) (requests_of rl u)
     = filter (\<lambda>s. t - s < window_of rl) (accepted_times u past))"

lemma accepted_times_snoc:
  "accepted_times u (past @ [(t, v, ok)]) = accepted_times u past @ (if v = u \<and> ok then [t] else [])"
  by (simp add: accepted_times_def)

lemma filter_window_twice:
  "now \<le> t \<Longrightarrow> filter (\<lambda>s. t - s < w) (filter (\<lambda>s. now - s < w) xs) = filter (\<lambda>s. t - s < (w :: int)) xs"
  by (induction xs) auto

lemma rate_check_params [simp]:
  "rl_max_requests (snd (rate_check now u rl)) = rl_max_requests rl"
  "rl_window_seconds (snd (rate_check now u rl)) = rl_window_seconds rl"
  "window_of (snd (rate_check now u rl)) = window_of rl"
  by (simp_all add: rate_check_def window_of_def Let_def)

lemma rate_check_decision:
  assumes "rate_inv prev past rl" "prev \<le> now"
  shows "is_ok (fst (rate_check now u rl)) \<longleftrightarrow>
      length (filter (\<lambda>s. now - s < window_of rl) (accepted_times u past)) < rl_max_requests rl"
proof -
  have "filter (\<lambda>s. now - s < window_of rl) (requests_of rl u)
      = filter (\<lambda>s. now - s < window_of rl) (accepted_times u past)"
    using assms by (simp add: rate_inv_def)
  then show ?thesis by (simp add: rate_check_def Let_def)
qed

lemma requests_of_check:
  "requests_of (snd (rate_check now u rl)) v =
     (if v = u then filter (\<lambda>s. now - s < window_of rl) (requests_of rl u)
        @ (if is_ok (fst (rate_check now u rl)) then [now] else [])
      else requests_of rl v)"
  by (simp add: rate_check_def requests_of_def Let_def)

lemma rate_inv_check:
  assumes inv: "rate_inv prev past rl" and "prev \<le> now"
  shows "rate_inv now (past @ [(now, u, is_ok (fst (rate_check now u rl)))]) (snd (rate_check now u rl))"
proof -
  have "filter (\<lambda>s. t - s < window_of rl) (requests_of (snd (rate_check now u rl)) v)
      = filter (\<lambda>s. t - s < window_of rl)
          (accepted_times v (past @ [(now, u, is_ok (fst (rate_check now u rl)))]))" if "now \<le> t" for v t
  proof -
    have "filter (\<lambda>s. t - s < window_of rl) (requests_of rl v)
        = filter (\<lambda>s. t - s < window_of rl) (accepted_times v past)"
      using inv assms(2) that by (simp add: rate_inv_def)
    then show ?thesis
      using filter_window_twice [OF that, of "window_of rl" "requests_of rl u"]
      by (auto simp: requests_of_check accepted_times_snoc)
  qed
  then show ?thesis by (simp add: rate_inv_def)
qed

lemma rate_run_exact:
  assumes "rate_inv prev past rl" "sorted (prev # map fst es)" "rate_run es rl = (hist, rl')"
  shows "\<forall>i < length hist. snd (snd (hist ! i)) \<longleftrightarrow>
      length (filter (\<lambda>s. fst (hist ! i) - s < window_of rl)
        (accepted_times (fst (snd (hist ! i))) (past @ take i hist))) < rl_max_requests rl"
  using assms
proof (induction es arbitrary: prev past rl hist)
  case (Cons e es)
  obtain now u where e: "e = (now, u)" by force
  let ?c = "rate_check now u rl"
  obtain hist' where hist: "rate_run es (snd ?c) = (hist', rl')" "hist = (now, u, is_ok (fst ?c)) # hist'"
    using Cons.prems(3) e by (auto simp: Let_def split: prod.splits)
  have le: "prev \<le> now" "sorted (now # map fst es)" using Cons.prems(2) e by auto
  note IH = Cons.IH [OF rate_inv_check [OF Cons.prems(1) le(1), of u] le(2) hist(1)]
  show ?case
  proof (intro allI impI)
    fix i assume "i < length hist"
    then show "snd (snd (hist ! i)) \<longleftrightarrow>
      length (filter (\<lambda>s. fst (hist ! i) - s < window_of rl)
        (accepted_times (fst (snd (hist ! i))) (past @ take i hist))) < rl_max_requests rl"
      using IH rate_check_decision [OF Cons.prems(1) le(1), of u] hist(2)
      by (cases i) auto
  qed
qed simp

text \<open>
  C37. The limiter is an exact sliding window: in any run of checks with a clock that does
  not go back, a request of a user is accepted exactly if fewer than the maximum of that
  user's requests were accepted within the window before it. Rejected requests and other
  users never count.
\<close>

theorem rate_limiter_is_sliding_window:
  assumes "sorted (map fst es)" "rate_run es (new_limiter m w) = (hist, rl')" "i < length hist"
    and "hist ! i = (now, u, ok)"
  shows "ok \<longleftrightarrow> length (filter (\<lambda>s. now - s < int w * nanos_per_sec) (accepted_times u (take i hist))) < m"
proof (cases es)
  case Nil
  then show ?thesis using assms by simp
next
  case (Cons e es')
  have "rate_inv (fst e) [] (new_limiter m w)"
    by (simp add: rate_inv_def requests_of_def new_limiter_def accepted_times_def)
  moreover have "sorted (fst e # map fst es)" using assms(1) Cons by simp
  ultimately have "\<forall>i < length hist. snd (snd (hist ! i)) \<longleftrightarrow>
      length (filter (\<lambda>s. fst (hist ! i) - s < window_of (new_limiter m w))
        (accepted_times (fst (snd (hist ! i))) ([] @ take i hist))) < rl_max_requests (new_limiter m w)"
    by (rule rate_run_exact [OF _ _ assms(2)])
  from this [rule_format, OF assms(3)] show ?thesis
    by (simp add: assms(4) window_of_def new_limiter_def)
qed

lemma rate_limiter_is_sliding_window_witness:
  "fst (rate_run [(0, ''a''), (1, ''a''), (2, ''b''), (3000000000, ''a'')] (new_limiter 1 2))
     = [(0, ''a'', True), (1, ''a'', False), (2, ''b'', True), (3000000000, ''a'', True)]
   \<and> \<not> length (filter (\<lambda>s. 1 - s < int 2 * nanos_per_sec) (accepted_times ''a'' [(0, ''a'', True)])) < 1"
proof -
  obtain rl where run: "rate_run [(0, ''a''), (1, ''a''), (2, ''b''), (3000000000, ''a'')] (new_limiter 1 2)
     = ([(0, ''a'', True), (1, ''a'', False), (2, ''b'', True), (3000000000, ''a'', True)], rl)"
    by (simp add: rate_check_def new_limiter_def requests_of_def window_of_def Let_def)
  show ?thesis
    using rate_limiter_is_sliding_window [OF _ run, of 1 1 "''a''" False] run by simp
qed

section \<open>The legacy action guard\<close>

record action_guard =
  ag_policy :: "hitl_policy option"
  ag_has_queue :: bool

definition guard_new :: action_guard where
  "guard_new = \<lparr>ag_policy = None, ag_has_queue = False\<rparr>"

definition with_policy :: "action_guard \<Rightarrow> hitl_policy \<Rightarrow> action_guard" where
  "with_policy g p = g\<lparr>ag_policy := Some p\<rparr>"

definition guard_check ::
  "(approval_request \<Rightarrow> 'q \<Rightarrow> (hitl_error + uuid) \<times> 'q) \<Rightarrow> (nat \<Rightarrow> uuid) \<Rightarrow> action_guard \<Rightarrow> uuid \<Rightarrow>
   string \<Rightarrow> json \<Rightarrow> 'q \<times> nat \<Rightarrow> uuid option \<times> 'q \<times> nat" where
  "guard_check submit ids g session_id tool_name args st =
     (case ag_policy g of
        None \<Rightarrow> (None, st)
      | Some p \<Rightarrow>
          if \<not> ag_has_queue g then (None, st)
          else if \<not> requires_tool_approval p None tool_name then (None, st)
          else (let (q, n) = st;
                    req = new_request (ids n) session_id (ToolApproval tool_name args)
                in (case submit req q of
                      (Ok i, q') \<Rightarrow> (Some i, q', n + 1)
                    | (Err _, q') \<Rightarrow> (Some (ids (n + 1)), q', n + 2))))"

section \<open>A pattern that fires inside words\<close>

definition dan_literals :: "string list" where
  "dan_literals = [''DAN'', ''DMIT'', ''DO NOT INTERRUPT'', ''do not interrupt me'', ''DAN mode'',
     ''developer mode'']"

text \<open>
  The third injection pattern is an unanchored, case-insensitive alternation of
  literals, one of them \<open>DAN\<close>: under that reading by the regex crate every prompt that
  contains those three letters anywhere, inside an ordinary word too, is rejected.
\<close>

theorem dan_pattern_rejects_ordinary_words:
  assumes "\<And>s. is_match dan_pattern s \<longleftrightarrow>
      (\<exists>l \<in> set dan_literals. find_str (to_lowercase l) (to_lowercase s) \<noteq> None)"
    and "find_str ''dan'' (to_lowercase prompt) \<noteq> None"
  shows "check_prompt is_match prompt \<noteq> Ok ()"
proof -
  have "to_lowercase ''DAN'' = ''dan''" by code_simp
  then have "is_match dan_pattern prompt" using assms by (force simp: dan_literals_def)
  then show ?thesis by (simp add: check_prompt_def prompt_injection_patterns_def)
qed

lemma dan_pattern_rejects_ordinary_words_witness:
  "check_prompt (\<lambda>p s. p = dan_pattern
     \<and> (\<exists>l \<in> set dan_literals. find_str (to_lowercase l) (to_lowercase s) \<noteq> None)) ''Ask Jordan'' \<noteq> Ok ()"
proof (rule dan_pattern_rejects_ordinary_words)
  show "find_str ''dan'' (to_lowercase ''Ask Jordan'') \<noteq> None" by code_simp
qed simp

end
