(* ===== verification/React_Cycle.thy ===== *)
theory React_Cycle
  imports Tool_Registry Guardrails
begin

text \<open>
  The ReAct strategy: the cycle shared by the strategies (\<open>avs-react/src/cycle.rs\<close>) and its
  loops (\<open>avs-react/src/react.rs\<close>). The language model is the parameter \<open>rc_llm\<close>, a function
  of the tick, the messages and the offered tools; the rendered preamble is a parameter,
  as the template engine is. Each loop returns, beside its result, the calls whose tool
  it started, in order: what the run did to the world.
\<close>

section \<open>The next action\<close>

datatype cycle_action =
    ToolCalls "tool_call list"
  | DoneAnswer string
  | ProtocolError string

fun calls_of :: "content_block list \<Rightarrow> tool_call list" where
  "calls_of [] = []"
| "calls_of (ToolUse i n v # bs) = \<lparr>call_id = i, call_name = n, call_args = v\<rparr> # calls_of bs"
| "calls_of (Text t # bs) = calls_of bs"
| "calls_of (ToolResult i c e # bs) = calls_of bs"

fun text_parts :: "content_block list \<Rightarrow> string list" where
  "text_parts [] = []"
| "text_parts (Text t # bs) = (if trim t = [] then text_parts bs else t # text_parts bs)"
| "text_parts (ToolUse i n v # bs) = text_parts bs"
| "text_parts (ToolResult i c e # bs) = text_parts bs"

definition action_from_response :: "generate_response \<Rightarrow> cycle_action" where
  "action_from_response response =
     (let calls = calls_of (resp_content response); parts = text_parts (resp_content response) in
      if calls \<noteq> [] then ToolCalls calls
      else if parts \<noteq> [] then DoneAnswer (join newline parts)
      else ProtocolError ''Empty response from model'')"

section \<open>Results of a batch\<close>

definition missing_result :: "string \<Rightarrow> string \<Rightarrow> tool_call_result" where
  "missing_result i n = \<lparr>res_id = i, res_name = n,
     res_result = Err (Execution ''tool execution failed (no result returned)'')\<rparr>"

text \<open>The last result of an id wins the map; a call takes its id's result out of it.\<close>

fun take_results :: "(string \<times> string) list \<Rightarrow> (string \<times> tool_call_result) list \<Rightarrow> tool_call_result list" where
  "take_results [] by_id = []"
| "take_results ((i, n) # calls) by_id =
     (case map_of by_id i of Some r \<Rightarrow> r | None \<Rightarrow> missing_result i n)
     # take_results calls (assoc_remove i by_id)"

definition reconcile_and_order_results ::
  "tool_call_result list \<Rightarrow> (string \<times> string) list \<Rightarrow> tool_call_result list" where
  "reconcile_and_order_results results calls =
     take_results calls (fold (\<lambda>r. assoc_put (res_id r) r) results [])"

fun result_block :: "(json \<Rightarrow> string) \<Rightarrow> tool_call_result \<Rightarrow> content_block" where
  "result_block value_text r =
     (case res_result r of
        Ok v \<Rightarrow> ToolResult (res_id r) (value_text v) False
      | Err e \<Rightarrow> ToolResult (res_id r) (tool_error_text e) True)"

definition results_to_tool_result_blocks ::
  "(json \<Rightarrow> string) \<Rightarrow> tool_call_result list \<Rightarrow> content_block list" where
  "results_to_tool_result_blocks value_text results = map (result_block value_text) results"

section \<open>The cycle\<close>

record cycle =
  rc_llm :: "nat \<Rightarrow> message list \<Rightarrow> tool_definition list option \<Rightarrow> agent_error + generate_response"
  rc_preamble :: "string option"
  rc_tools :: tool_registry
  rc_max_iterations :: nat
  rc_order :: "tool_call list \<Rightarrow> tool_call list"
  rc_is_match :: "string \<Rightarrow> string \<Rightarrow> bool"
  rc_value_text :: "json \<Rightarrow> string"

definition is_system :: "message \<Rightarrow> bool" where
  "is_system m \<longleftrightarrow> msg_role m = RoleSystem"

definition prepare_buffer :: "cycle \<Rightarrow> message list \<Rightarrow> message list" where
  "prepare_buffer cy messages =
     (case rc_preamble cy of
        None \<Rightarrow> messages
      | Some preamble \<Rightarrow>
          if trim preamble = [] then messages
          else (let pos = (if list_all is_system messages then 0 else length (takeWhile is_system messages))
                in take pos messages @ [text_message RoleUser preamble] @ drop pos messages))"

fun guard_to_agent_error :: "guard_error \<Rightarrow> agent_error" where
  "guard_to_agent_error (GOutputFiltered m) = GuardrailErr (OutputFiltered m)"
| "guard_to_agent_error (GPromptInjection m) = GuardrailErr (PromptInjection m)"
| "guard_to_agent_error e = GuardrailErr (OutputFiltered (guard_error_text e))"

definition check_output_guardrail :: "cycle \<Rightarrow> string \<Rightarrow> agent_error + unit" where
  "check_output_guardrail cy out = map_err guard_to_agent_error (check_output (rc_is_match cy) out)"

definition invoke_with_active_tools ::
  "cycle \<Rightarrow> nat \<Rightarrow> message list \<Rightarrow> string list \<Rightarrow> agent_error + generate_response" where
  "invoke_with_active_tools cy tick messages active =
     try_bind (map_err (\<lambda>e. ConfigErr (ConfigInvalid
          (''invalid tool schema for active tools: '' @ strict_schema_error_text e)))
        (tool_definitions_for (rc_tools cy) active))
       (\<lambda>definitions. rc_llm cy tick messages (if definitions = [] then None else Some definitions))"

definition max_iterations_error :: "cycle \<Rightarrow> agent_error" where
  "max_iterations_error cy =
     ModelErr (ModelTimeout (''Max iterations ('' @ show_nat (rc_max_iterations cy) @ '') reached''))"

definition assistant_turn :: "generate_response \<Rightarrow> message" where
  "assistant_turn response = \<lparr>msg_role = RoleAssistant, msg_content = resp_content response\<rparr>"

definition tool_turn :: "cycle \<Rightarrow> tool_call list \<Rightarrow> tool_call_result list \<Rightarrow> message" where
  "tool_turn cy calls results =
     \<lparr>msg_role = RoleTool, msg_content = results_to_tool_result_blocks (rc_value_text cy)
        (reconcile_and_order_results results (map (\<lambda>c. (call_id c, call_name c)) calls))\<rparr>"

text \<open>One call of the model: its response, past the output guardrail.\<close>

definition ask :: "cycle \<Rightarrow> nat \<Rightarrow> message list \<Rightarrow> string list \<Rightarrow> agent_error + generate_response" where
  "ask cy tick buf active =
     try_bind (invoke_with_active_tools cy tick buf active) (\<lambda>response.
       try_bind (check_output_guardrail cy (response_as_text response)) (\<lambda>_. Ok response))"

text \<open>The loop with the number of iterations left; the tick counts those done.\<close>

fun react_loop ::
  "cycle \<Rightarrow> string list \<Rightarrow> nat \<Rightarrow> nat \<Rightarrow> message list \<Rightarrow>
   (agent_error + strategy_outcome) \<times> (string \<times> json) list" where
  "react_loop cy active 0 tick buf = (Err (max_iterations_error cy), [])"
| "react_loop cy active (Suc left) tick buf =
     (case ask cy tick buf active of
        Err e \<Rightarrow> (Err e, [])
      | Ok response \<Rightarrow>
          (case action_from_response response of
             ToolCalls calls \<Rightarrow>
               let results = execute_many (rc_order cy) (rc_tools cy) tick calls;
                   (r, log_calls) = react_loop cy active left (Suc tick)
                     (buf @ [assistant_turn response, tool_turn cy calls results])
               in (r, started (rc_tools cy) calls @ log_calls)
           | DoneAnswer answer \<Rightarrow> (Ok (Done answer), [])
           | ProtocolError m \<Rightarrow> (Err (ModelErr (InvalidResponse m)), [])))"

definition run_with_active_tools ::
  "cycle \<Rightarrow> message list \<Rightarrow> string list \<Rightarrow> (agent_error + strategy_outcome) \<times> (string \<times> json) list" where
  "run_with_active_tools cy messages active =
     react_loop cy active (rc_max_iterations cy) 0 (prepare_buffer cy messages)"

definition run :: "cycle \<Rightarrow> message list \<Rightarrow> (agent_error + strategy_outcome) \<times> (string \<times> json) list" where
  "run cy messages = run_with_active_tools cy messages (tool_names (rc_tools cy))"

definition retry_text :: "string list \<Rightarrow> string" where
  "retry_text required_tools =
     ''You did not call the required tool ('' @ join '', '' required_tools
     @ '') before answering. This step requires human approval '' @ em_dash
     @ '' you must call it before you can finish. Call it now.''"

fun hitl_loop ::
  "cycle \<Rightarrow> string list \<Rightarrow> 'q hitl_hook \<Rightarrow> nat \<Rightarrow> nat \<Rightarrow> message list \<Rightarrow> bool \<Rightarrow> 'q \<Rightarrow>
   ((agent_error + strategy_outcome) \<times> (string \<times> json) list) \<times> 'q" where
  "hitl_loop cy active hook 0 tick buf called q = ((Err (max_iterations_error cy), []), q)"
| "hitl_loop cy active hook (Suc left) tick buf called q =
     (case ask cy tick buf active of
        Err e \<Rightarrow> ((Err e, []), q)
      | Ok response \<Rightarrow>
          (case action_from_response response of
             ToolCalls calls \<Rightarrow>
               let called' = (called \<or> (\<exists>c \<in> set calls. call_name c \<in> set (required_tool_names hook))) in
               (case execute_many_hitl (rc_order cy) (rc_tools cy) hook tick calls q of
                  (Ok results, q') \<Rightarrow>
                    let ((r, log_calls), q'') = hitl_loop cy active hook left (Suc tick)
                          (buf @ [assistant_turn response, tool_turn cy calls results]) called' q'
                    in ((r, started (rc_tools cy) calls @ log_calls), q'')
                | (Err (approval_id, kind_json), q') \<Rightarrow>
                    ((Ok (Interrupted \<lparr>int_approval_id = approval_id, int_kind_json = kind_json,
                        int_history = buf, int_pending_calls = calls,
                        int_active_tool_names = active\<rparr>), []), q'))
           | DoneAnswer answer \<Rightarrow>
               if \<not> called then
                 hitl_loop cy active hook left (Suc tick)
                   (buf @ [assistant_turn response,
                           text_message RoleUser (retry_text (required_tool_names hook))]) called q
               else ((Ok (Done answer), []), q)
           | ProtocolError m \<Rightarrow> ((Err (ModelErr (InvalidResponse m)), []), q)))"

definition run_hitl ::
  "cycle \<Rightarrow> message list \<Rightarrow> string list \<Rightarrow> 'q hitl_hook \<Rightarrow> 'q \<Rightarrow>
   ((agent_error + strategy_outcome) \<times> (string \<times> json) list) \<times> 'q" where
  "run_hitl cy messages active hook q =
     hitl_loop cy active hook (rc_max_iterations cy) 0 (prepare_buffer cy messages)
       (required_tool_names hook = []) q"

section \<open>Every tool call is answered, in order\<close>

definition id_map_ok :: "(string \<times> tool_call_result) list \<Rightarrow> bool" where
  "id_map_ok m \<longleftrightarrow> (\<forall>i r. map_of m i = Some r \<longrightarrow> res_id r = i)"

lemma id_map_ok_put: "id_map_ok m \<Longrightarrow> id_map_ok (assoc_put (res_id r) r m)"
  by (simp add: id_map_ok_def)

lemma id_map_ok_remove: "id_map_ok m \<Longrightarrow> id_map_ok (assoc_remove i m)"
  by (simp add: id_map_ok_def)

lemma id_map_ok_fold: "id_map_ok m \<Longrightarrow> id_map_ok (fold (\<lambda>r. assoc_put (res_id r) r) rs m)"
  by (induction rs arbitrary: m) (simp_all add: id_map_ok_put)

lemma take_results_ids: "id_map_ok m \<Longrightarrow> map res_id (take_results calls m) = map fst calls"
proof (induction calls arbitrary: m)
  case (Cons c calls)
  then show ?case
    by (cases c) (auto simp: id_map_ok_remove id_map_ok_def missing_result_def split: option.split)
qed simp

lemma reconcile_ids: "map res_id (reconcile_and_order_results rs calls) = map fst calls"
  unfolding reconcile_and_order_results_def
  by (rule take_results_ids, rule id_map_ok_fold) (simp add: id_map_ok_def)

lemma result_block_id: "tool_use_id (result_block vt r) = res_id r"
  by (simp split: sum.split)

lemma calls_of_ids: "map call_id (calls_of bs) = map use_id (filter is_ToolUse bs)"
  by (induction bs rule: calls_of.induct) simp_all

text \<open>
  C25. After a batch the next message answers the assistant turn exactly: one result block
  per tool-use block, with the same ids in the same order, whatever results came back, in
  whatever order, and however many tasks panicked.
\<close>

theorem every_call_is_answered:
  "map tool_use_id (msg_content (tool_turn cy (calls_of (resp_content response)) results))
   = map use_id (filter is_ToolUse (msg_content (assistant_turn response)))"
proof -
  let ?calls = "calls_of (resp_content response)"
  have "map tool_use_id (msg_content (tool_turn cy ?calls results))
      = map res_id (reconcile_and_order_results results (map (\<lambda>c. (call_id c, call_name c)) ?calls))"
    by (simp add: tool_turn_def results_to_tool_result_blocks_def result_block_id del: result_block.simps)
  also have "\<dots> = map call_id ?calls" by (simp add: reconcile_ids)
  finally show ?thesis by (simp add: calls_of_ids assistant_turn_def)
qed

lemma fold_put_other:
  "i \<notin> res_id ` set rs \<Longrightarrow> map_of (fold (\<lambda>r. assoc_put (res_id r) r) rs m) i = map_of m i"
  by (induction rs arbitrary: m) auto

lemma fold_put_member:
  "distinct (map res_id rs) \<Longrightarrow> r \<in> set rs \<Longrightarrow>
     map_of (fold (\<lambda>r. assoc_put (res_id r) r) rs m) (res_id r) = Some r"
  by (induction rs arbitrary: m) (auto simp: fold_put_other)

lemma take_results_distinct:
  "distinct (map fst calls) \<Longrightarrow> take_results calls m =
     map (\<lambda>(i, n). case map_of m i of Some r \<Rightarrow> r | None \<Rightarrow> missing_result i n) calls"
proof (induction calls arbitrary: m)
  case (Cons c calls)
  then show ?case by (cases c) (auto intro!: map_cong simp: image_iff split: option.split)
qed simp

text \<open>
  Scheduling does not show: if the calls of a batch have distinct ids and no tool
  panics, the reconciled results are, call by call, what each tool returned, for every
  order in which the runtime completes the tasks.
\<close>

theorem batch_results_independent_of_schedule:
  assumes "mset (order calls) = mset calls" "distinct (map call_id calls)"
    and "\<And>c. c \<in> set calls \<Longrightarrow> run_call reg tick c \<noteq> None"
  shows "reconcile_and_order_results (execute_many order reg tick calls)
           (map (\<lambda>c. (call_id c, call_name c)) calls)
         = map (\<lambda>c. the (run_call reg tick c)) calls"
proof -
  have set: "set (order calls) = set calls" by (rule mset_eq_setD [OF assms(1)])
  have "takeWhile (\<lambda>r. r \<noteq> None) (map (run_call reg tick) (order calls)) = map (run_call reg tick) (order calls)"
    by (rule takeWhile_all_id) (use set assms(3) in auto)
  then have rs: "execute_many order reg tick calls = map (\<lambda>c. the (run_call reg tick c)) (order calls)"
    unfolding execute_many_def by (simp only: list.map_comp comp_def)
  have id: "res_id (the (run_call reg tick c)) = call_id c" if "c \<in> set calls" for c
    using assms(3) [OF that] by (auto simp: run_call_def split: tool_run.splits)
  have "map res_id (execute_many order reg tick calls) = map call_id (order calls)"
    unfolding rs using id set by simp
  moreover have "distinct (map call_id (order calls))"
    using assms(1,2) by (metis mset_eq_imp_distinct_iff mset_map)
  ultimately have dist: "distinct (map res_id (execute_many order reg tick calls))" by simp
  have "map_of (fold (\<lambda>r. assoc_put (res_id r) r) (execute_many order reg tick calls) []) (call_id c)
      = Some (the (run_call reg tick c))" if "c \<in> set calls" for c
    using fold_put_member [OF dist, of "the (run_call reg tick c)" "[]"] id [OF that] that set rs by auto
  then show ?thesis
    unfolding reconcile_and_order_results_def
    using assms(2) by (subst take_results_distinct) (auto simp: comp_def)
qed

definition echo_call :: "string \<Rightarrow> tool_call" where
  "echo_call i = \<lparr>call_id = i, call_name = ''calc'', call_args = JString i\<rparr>"

lemma batch_results_independent_of_schedule_witness:
  "reconcile_and_order_results
     (execute_many rev (new_registry (sample_tool ''adds'')) 0 [echo_call ''a'', echo_call ''b''])
     [(''a'', ''calc''), (''b'', ''calc'')]
   = [\<lparr>res_id = ''a'', res_name = ''calc'', res_result = Ok (JString ''a'')\<rparr>,
      \<lparr>res_id = ''b'', res_name = ''calc'', res_result = Ok (JString ''b'')\<rparr>]"
proof -
  have run: "run_call (new_registry (sample_tool ''adds'')) 0 (echo_call i)
      = Some \<lparr>res_id = i, res_name = ''calc'', res_result = Ok (JString i)\<rparr>" for i
    by (simp add: run_call_def execute_def find_tool_def new_registry_def register_def
        register_with_options_def sample_tool_def erase_tool_def execute_raw_def echo_call_def)
  have "\<And>c. c \<in> set [echo_call ''a'', echo_call ''b''] \<Longrightarrow>
      run_call (new_registry (sample_tool ''adds'')) 0 c \<noteq> None" using run by auto
  from batch_results_independent_of_schedule [of rev "[echo_call ''a'', echo_call ''b'']", OF _ _ this]
  have "reconcile_and_order_results
     (execute_many rev (new_registry (sample_tool ''adds'')) 0 [echo_call ''a'', echo_call ''b''])
     (map (\<lambda>c. (call_id c, call_name c)) [echo_call ''a'', echo_call ''b''])
     = map (\<lambda>c. the (run_call (new_registry (sample_tool ''adds'')) 0 c)) [echo_call ''a'', echo_call ''b'']"
    by (simp add: echo_call_def)
  then show ?thesis using run by (simp add: echo_call_def)
qed

text \<open>
  One panic loses the whole batch: if the first task to complete panics, every call
  of the batch is reported as failed, though the tools of all the others were started and
  may have returned.
\<close>

theorem one_panic_fails_the_batch:
  assumes "order calls = c # rest" "run_call reg tick c = None" "distinct (map call_id calls)"
  shows "reconcile_and_order_results (execute_many order reg tick calls)
           (map (\<lambda>c. (call_id c, call_name c)) calls)
         = map (\<lambda>c. missing_result (call_id c) (call_name c)) calls
    \<and> (\<forall>d \<in> set rest. find_tool reg (call_name d) \<noteq> None \<longrightarrow> d \<in> set calls \<longrightarrow>
         (call_name d, call_args d) \<in> set (started reg calls))"
proof -
  have "execute_many order reg tick calls = []" using assms(1,2) by (simp add: execute_many_def)
  then show ?thesis
    using assms(3) by (simp add: reconcile_and_order_results_def take_results_distinct comp_def started_def image_iff)
       blast
qed

lemma one_panic_fails_the_batch_witness:
  "reconcile_and_order_results
     (execute_many rev (register ((sample_tool ''adds'')\<lparr>tl_name := ''boom'', tl_exec := \<lambda>_ _. Panics\<rparr>)
         (new_registry (sample_tool ''adds''))) 0
        [echo_call ''a'', \<lparr>call_id = ''b'', call_name = ''boom'', call_args = JNull\<rparr>])
     [(''a'', ''calc''), (''b'', ''boom'')]
   = [missing_result ''a'' ''calc'', missing_result ''b'' ''boom'']"
proof -
  let ?reg = "register ((sample_tool ''adds'')\<lparr>tl_name := ''boom'', tl_exec := \<lambda>_ _. Panics\<rparr>)
         (new_registry (sample_tool ''adds''))"
  let ?boom = "\<lparr>call_id = ''b'', call_name = ''boom'', call_args = JNull\<rparr>"
  have "run_call ?reg 0 ?boom = None"
    by (simp add: run_call_def execute_def find_tool_def new_registry_def register_def
        register_with_options_def sample_tool_def erase_tool_def)
  from one_panic_fails_the_batch [of rev "[echo_call ''a'', ?boom]" ?boom "[echo_call ''a'']", OF _ this]
  show ?thesis by (simp add: echo_call_def)
qed

section \<open>What a run under a hook may do\<close>

text \<open>The calls a hook lets through, and what the hook's state does not change.\<close>

definition lets_through :: "'q hitl_hook \<Rightarrow> string \<times> json \<Rightarrow> bool" where
  "lets_through hook c \<longleftrightarrow> (\<exists>q. fst (check_tool hook (fst c) (snd c) q) = None)"

lemma check_all_None:
  "check_all hook calls q = (None, q') \<Longrightarrow> c \<in> set calls \<Longrightarrow> lets_through hook (call_name c, call_args c)"
proof (induction calls arbitrary: q)
  case (Cons d calls)
  then show ?case by (auto simp: lets_through_def split: prod.splits option.splits) (metis fst_conv)+
qed simp

lemma execute_many_hitl_Ok:
  "execute_many_hitl order reg hook tick calls q = (Ok results, q') \<Longrightarrow>
     check_all hook calls q = (None, q') \<and> results = execute_many order reg tick calls"
  by (auto simp: execute_many_hitl_def split: prod.splits option.splits)

lemma execute_many_hitl_Err:
  "execute_many_hitl order reg hook tick calls q = (Err i, q') \<Longrightarrow> check_all hook calls q = (Some i, q')"
  by (auto simp: execute_many_hitl_def split: prod.splits option.splits)

lemma started_subset: "x \<in> set (started reg calls) \<Longrightarrow> \<exists>c \<in> set calls. x = (call_name c, call_args c)"
  by (auto simp: started_def)

text \<open>The ways one iteration under a hook can go.\<close>

lemma hitl_loop_cases:
  assumes "hitl_loop cy active hook (Suc left) tick buf called q = ((r, trace), q')"
  obtains
    (failed) e where "r = Err e" "trace = []"
  | (batch) response calls q1 trace1 results called1 where
      "ask cy tick buf active = Ok response" "action_from_response response = ToolCalls calls"
      "check_all hook calls q = (None, q1)"
      "called1 = (called \<or> (\<exists>c \<in> set calls. call_name c \<in> set (required_tool_names hook)))"
      "hitl_loop cy active hook left (Suc tick)
         (buf @ [assistant_turn response, tool_turn cy calls results]) called1 q1 = ((r, trace1), q')"
      "trace = started (rc_tools cy) calls @ trace1"
  | (stopped) calls i where "check_all hook calls q = (Some i, q')" "trace = []"
      "r = Ok (Interrupted \<lparr>int_approval_id = fst i, int_kind_json = snd i,
         int_history = buf, int_pending_calls = calls, int_active_tool_names = active\<rparr>)"
  | (retry) response where "\<not> called"
      "hitl_loop cy active hook left (Suc tick) (buf @ [assistant_turn response,
         text_message RoleUser (retry_text (required_tool_names hook))]) called q = ((r, trace), q')"
  | (answered) answer where "called" "r = Ok (Done answer)" "trace = []" "q' = q"
proof (cases "ask cy tick buf active")
  case (Inl e)
  then show ?thesis using assms by (intro failed [of e]) simp_all
next
  case (Inr response)
  show ?thesis
  proof (cases "action_from_response response")
    case (ToolCalls calls)
    show ?thesis
    proof (cases "execute_many_hitl (rc_order cy) (rc_tools cy) hook tick calls q")
      case (Pair x q1)
      show ?thesis
      proof (cases x)
        case (Inl i)
        have "check_all hook calls q = (Some i, q1)"
          using Pair Inl by (intro execute_many_hitl_Err) simp
        moreover have "r = Ok (Interrupted \<lparr>int_approval_id = fst i, int_kind_json = snd i,
           int_history = buf, int_pending_calls = calls, int_active_tool_names = active\<rparr>)
           \<and> trace = [] \<and> q' = q1"
          using assms Inr ToolCalls Pair Inl by (cases i) simp
        ultimately show ?thesis by (intro stopped [of calls i]) simp_all
      next
        case res: (Inr results)
        let ?called = "called \<or> (\<exists>c \<in> set calls. call_name c \<in> set (required_tool_names hook))"
        let ?buf = "buf @ [assistant_turn response, tool_turn cy calls results]"
        obtain r1 trace1 q2 where rec: "hitl_loop cy active hook left (Suc tick) ?buf ?called q1 = ((r1, trace1), q2)"
          by (cases "hitl_loop cy active hook left (Suc tick) ?buf ?called q1") (force simp: prod_eq_iff)
        have all: "check_all hook calls q = (None, q1)"
          using execute_many_hitl_Ok [of "rc_order cy" "rc_tools cy" hook tick calls q results q1] Pair res by simp
        have "r = r1 \<and> trace = started (rc_tools cy) calls @ trace1 \<and> q' = q2"
          using assms Inr ToolCalls Pair res rec by (simp add: Let_def)
        then show ?thesis
          using rec all Inr ToolCalls by (intro batch [of response calls q1 ?called results trace1]) simp_all
      qed
    qed
  next
    case (DoneAnswer answer)
    show ?thesis
    proof (cases called)
      case True
      then have "r = Ok (Done answer) \<and> trace = [] \<and> q' = q" using assms Inr DoneAnswer by simp
      then show ?thesis using True by (intro answered [of answer]) simp_all
    next
      case False
      then have "hitl_loop cy active hook left (Suc tick) (buf @ [assistant_turn response,
         text_message RoleUser (retry_text (required_tool_names hook))]) called q = ((r, trace), q')"
        using assms Inr DoneAnswer by simp
      then show ?thesis using False by (intro retry [of response])
    qed
  next
    case (ProtocolError m)
    then show ?thesis using assms Inr by (intro failed [of "ModelErr (InvalidResponse m)"]) simp_all
  qed
qed

lemma hitl_loop_started:
  "hitl_loop cy active hook left tick buf called q = ((r, trace), q') \<Longrightarrow> x \<in> set trace \<Longrightarrow> lets_through hook x"
proof (induction left arbitrary: tick buf called q r trace)
  case (Suc left)
  from Suc.prems(1) show ?case
  proof (cases rule: hitl_loop_cases)
    case (batch response calls q1 trace1 results called1)
    from Suc.prems(2) batch(6) consider "x \<in> set (started (rc_tools cy) calls)" | "x \<in> set trace1" by auto
    then show ?thesis
    proof cases
      case 1
      then show ?thesis using started_subset check_all_None [OF batch(3)] by blast
    next
      case 2
      then show ?thesis by (rule Suc.IH [OF batch(5)])
    qed
  next
    case (retry response)
    show ?thesis by (rule Suc.IH [OF retry(2) Suc.prems(2)])
  qed (use Suc.prems(2) in simp_all)
qed simp

lemma hitl_loop_registered:
  "hitl_loop cy active hook left tick buf called q = ((r, trace), q') \<Longrightarrow> x \<in> set trace \<Longrightarrow>
     find_tool (rc_tools cy) (fst x) \<noteq> None"
proof (induction left arbitrary: tick buf called q r trace)
  case (Suc left)
  from Suc.prems(1) show ?case
  proof (cases rule: hitl_loop_cases)
    case (batch response calls q1 trace1 results called1)
    then show ?thesis using Suc.prems(2) Suc.IH [OF batch(5)] by (auto simp: started_def)
  next
    case (retry response)
    show ?thesis by (rule Suc.IH [OF retry(2) Suc.prems(2)])
  qed (use Suc.prems(2) in simp_all)
qed simp

definition gated :: "hitl_context \<Rightarrow> string \<Rightarrow> bool" where
  "gated ctx t \<longleftrightarrow> is_checkpoint_tool t \<or> requires_tool_approval (ctx_policy ctx) (ctx_skill_id ctx) t"

lemma interrupt_kind_gated: "interrupt_kind_for ctx t args = None \<longleftrightarrow> \<not> gated ctx t"
  by (simp add: interrupt_kind_for_def gated_def)

lemma context_hook_lets_through:
  "lets_through (context_hook cd submit ids ctx) (t, args) \<Longrightarrow> \<not> gated ctx t"
  by (simp add: lets_through_def context_hook_def context_check_None interrupt_kind_gated)

lemma required_is_gated: "t \<in> set (context_required_tools ctx) \<Longrightarrow> gated ctx t"
  by (cases "ctx_skill_id ctx")
     (auto simp: context_required_tools_def policy_required_tools_def gated_def requires_tool_approval_def
      is_checkpoint_tool_def split: option.splits if_splits)

lemma check_all_gated:
  assumes "check_all (context_hook cd submit ids ctx) calls q = (None, q')" "c \<in> set calls"
  shows "\<not> gated ctx (call_name c)"
  using check_all_None [OF assms] by (rule context_hook_lets_through)

text \<open>
  C2. No tool runs unapproved: in a run under the approval hook, for every model, every
  registry, every queue and every order of completion, each tool call that was started is
  of a tool the policy does not gate; a batch with one gated call starts none of its
  calls.
\<close>

theorem hitl_run_starts_only_ungated_tools:
  assumes "run_hitl cy messages active (context_hook cd submit ids ctx) q = ((r, trace), q')"
    and "(t, args) \<in> set trace"
  shows "t \<noteq> ''request_checkpoint'' \<and> \<not> requires_tool_approval (ctx_policy ctx) (ctx_skill_id ctx) t"
  using context_hook_lets_through [OF hitl_loop_started [OF assms(1) [unfolded run_hitl_def] assms(2)]]
  by (simp add: gated_def is_checkpoint_tool_def)

lemma hitl_loop_not_done:
  "hitl_loop cy active (context_hook cd submit ids ctx) left tick buf called q = ((r, trace), q') \<Longrightarrow>
     \<not> called \<Longrightarrow> r \<noteq> Ok (Done answer)"
proof (induction left arbitrary: tick buf called q r trace)
  case (Suc left)
  from Suc.prems(1) show ?case
  proof (cases rule: hitl_loop_cases)
    case (batch response calls q1 trace1 results called1)
    have "\<not> called1"
      using batch(4) Suc.prems(2) check_all_gated [OF batch(3)] required_is_gated
      by (auto simp: context_hook_def)
    then show ?thesis by (rule Suc.IH [OF batch(5)])
  next
    case (retry response)
    show ?thesis by (rule Suc.IH [OF retry(2,1)])
  qed (use Suc.prems(2) in simp_all)
qed simp

text \<open>
  A skill with mandatory approvals cannot finish unattended: when the policy requires
  a gated tool or checkpoint of the skill and this is not a resumed call, no run returns
  an answer. It ends interrupted, in an error or at its iteration limit.
\<close>

theorem mandatory_approval_prevents_answer:
  assumes "context_required_tools ctx \<noteq> []"
    and "run_hitl cy messages active (context_hook cd submit ids ctx) q = ((r, trace), q')"
  shows "r \<noteq> Ok (Done answer)"
  using hitl_loop_not_done [OF assms(2) [unfolded run_hitl_def]] assms(1) by (simp add: context_hook_def)

definition sample_cycle :: cycle where
  "sample_cycle = \<lparr>rc_llm = (\<lambda>tick ms ts. Ok \<lparr>resp_content =
       (if tick = 0 then [ToolUse ''a'' ''calc'' (JString ''a'')] else [ToolUse ''b'' ''exec_command'' JNull]),
       resp_usage = usage_default\<rparr>),
     rc_preamble = None, rc_tools = new_registry (sample_tool ''adds''), rc_max_iterations = 3,
     rc_order = id, rc_is_match = (\<lambda>_ _. False), rc_value_text = (\<lambda>_. [])\<rparr>"

definition sample_submit :: "approval_request \<Rightarrow> unit \<Rightarrow> (hitl_error + uuid) \<times> unit" where
  "sample_submit req q = (Ok (apr_id req), q)"

definition sample_ctx :: hitl_context where
  "sample_ctx = new_context ''s1'' (Some ''bill'') (from_system_skills [sample_skill ''x''])"

lemma sample_run:
  "snd (fst (run_hitl sample_cycle [] [] (context_hook sample_hitl_codec sample_submit (\<lambda>n. [char_of n]) sample_ctx)
     ((), 0))) = [(''calc'', JString ''a'')]"
  by code_simp

lemma sample_required: "context_required_tools sample_ctx \<noteq> []"
  by code_simp

lemma hitl_run_starts_only_ungated_tools_witness:
  "''calc'' \<noteq> ''request_checkpoint''
   \<and> \<not> requires_tool_approval (ctx_policy sample_ctx) (ctx_skill_id sample_ctx) ''calc''"
proof -
  obtain r trace q' where run: "run_hitl sample_cycle [] []
      (context_hook sample_hitl_codec sample_submit (\<lambda>n. [char_of n]) sample_ctx) ((), 0) = ((r, trace), q')"
    by (metis prod.collapse)
  then have "(''calc'', JString ''a'') \<in> set trace" using sample_run by simp
  from hitl_run_starts_only_ungated_tools [OF run this] show ?thesis by simp
qed

lemma mandatory_approval_prevents_answer_witness:
  "fst (fst (run_hitl sample_cycle [] [] (context_hook sample_hitl_codec sample_submit (\<lambda>n. [char_of n])
     sample_ctx) ((), 0))) \<noteq> Ok (Done ''hello'')"
  by (rule mandatory_approval_prevents_answer [OF sample_required, where trace = "snd (fst (run_hitl sample_cycle
        [] [] (context_hook sample_hitl_codec sample_submit (\<lambda>n. [char_of n]) sample_ctx) ((), 0)))"
        and q' = "snd (run_hitl sample_cycle [] [] (context_hook sample_hitl_codec sample_submit
        (\<lambda>n. [char_of n]) sample_ctx) ((), 0))"]) simp

end
