(* ===== verification/Strategies.thy ===== *)
theory Strategies
  imports React_Cycle
begin

text \<open>
  The strategies and the router that picks one: the trait \<open>RunStrategy\<close>
  (\<open>avs-core/src/strategy.rs\<close>), its table of kinds (\<open>avs-strategy/src/lib.rs\<close>), plan-and-execute
  and hierarchical planning (\<open>avs-plan/src/planner.rs\<close>, \<open>plan.rs\<close>, \<open>hierarchical.rs\<close>) and the
  strategy router (\<open>avs-router/src/router.rs\<close>).

  The language model, the template engine, JSON parsing and the regular expressions are
  parameters. Each run returns, beside its result, the calls whose tool it started, in
  order; a result \<open>None\<close> is a panic of a tool, which unwinds the strategy's task (the ReAct
  cycle confines a panic to its batch, so there the result is never \<open>None\<close>). A tick counts
  the calls of the model and of tools.
\<close>

section \<open>Displayed errors\<close>

definition hex_digit :: "nat \<Rightarrow> char" where
  "hex_digit n = (if n < 10 then char_of (n + 48) else char_of (n + 87))"

definition debug_char :: "char \<Rightarrow> string" where
  "debug_char c =
     (let n = (of_char c :: nat) in
      if n = 0 then backslash @ ''0''
      else if n = 9 then backslash @ ''t''
      else if n = 10 then backslash @ ''n''
      else if n = 13 then backslash @ ''r''
      else if n = 34 \<or> n = 92 then backslash @ [c]
      else if n < 16 then backslash @ ''u{'' @ [hex_digit n] @ ''}''
      else if n < 32 \<or> n = 127 then backslash @ ''u{'' @ [hex_digit (n div 16), hex_digit (n mod 16)] @ ''}''
      else [c])"

definition debug_str :: "string \<Rightarrow> string" where
  "debug_str s = dquote @ concat (map debug_char s) @ dquote"

fun model_error_text :: "model_error \<Rightarrow> string" where
  "model_error_text (ApiError m) = ''API error: '' @ m"
| "model_error_text (ModelTimeout m) = ''Timeout: '' @ m"
| "model_error_text (InvalidResponse m) = ''Invalid response: '' @ m"
| "model_error_text (RateLimited m) = ''Rate limited: '' @ m"
| "model_error_text (CircuitOpen m) = ''Circuit breaker open: '' @ m"
| "model_error_text (UnknownProvider m) = ''Unknown provider: '' @ m"
| "model_error_text (InvalidApiKey m) = ''Invalid API key: '' @ m"
| "model_error_text (MissingSetting k p) =
     ''Missing required setting '' @ debug_str k @ '' for provider '' @ debug_str p"

fun agent_error_text :: "agent_error \<Rightarrow> string" where
  "agent_error_text (ModelErr e) = ''Model error: '' @ model_error_text e"
| "agent_error_text (ToolErr e) = ''Tool error: '' @ tool_error_text e"
| "agent_error_text (ConfigErr e) = ''Config error: '' @ config_error_text e"
| "agent_error_text (GuardrailErr e) = ''Guardrail error: '' @ guardrail_error_text e"
| "agent_error_text (MemoryErr m) = ''Memory error: '' @ m"
| "agent_error_text (InterruptedErr i) = ''Interrupted: approval '' @ i"

section \<open>Plans\<close>

record plan_step =
  step_id :: nat
  step_description :: string
  step_tool :: "string option"
  step_args :: "json option"
  step_depends_on :: "nat list"

record plan =
  plan_description :: string
  plan_steps :: "plan_step list"

record planner =
  pn_llm :: "nat \<Rightarrow> message list \<Rightarrow> agent_error + generate_response"
  pn_render :: "string \<Rightarrow> (string \<times> json) list \<Rightarrow> string + string"
  pn_examples :: "string \<Rightarrow> json option"
  pn_is_match :: "string \<Rightarrow> string \<Rightarrow> bool"
  pn_parse :: "string \<Rightarrow> string + json"
  pn_plan_of :: "json \<Rightarrow> string + plan"
  pn_strings_of :: "string \<Rightarrow> string + string list"
  pn_value_text :: "json \<Rightarrow> string"

definition prompt_guard_error :: "guard_error \<Rightarrow> agent_error" where
  "prompt_guard_error e = GuardrailErr
     (case e of GPromptInjection m \<Rightarrow> PromptInjection m
      | GOutputFiltered m \<Rightarrow> OutputFiltered m
      | _ \<Rightarrow> PromptInjection (guard_error_text e))"

text \<open>The text between the first opening and the last closing bracket, fences cut off.\<close>

definition find_char :: "char \<Rightarrow> string \<Rightarrow> nat option" where
  "find_char c s = find_str [c] s"

definition rfind_char :: "char \<Rightarrow> string \<Rightarrow> nat option" where
  "rfind_char c s = map_option (\<lambda>i. length s - 1 - i) (find_str [c] (rev s))"

definition fence :: string where
  "fence = [CHR 0x60, CHR 0x60, CHR 0x60]"

definition cut_or :: "string option \<Rightarrow> string \<Rightarrow> string" where
  "cut_or x s = (case x of Some t \<Rightarrow> t | None \<Rightarrow> s)"

definition strip_fences :: "string \<Rightarrow> string" where
  "strip_fences response_text =
     (let raw = trim response_text;
          raw = cut_or (strip_prefix (fence @ ''json'') raw) raw;
          raw = cut_or (strip_prefix fence raw) raw;
          raw = cut_or (strip_suffix fence raw) raw
      in trim raw)"

definition json_part :: "char \<Rightarrow> char \<Rightarrow> string \<Rightarrow> string" where
  "json_part a b raw =
     (case (find_char a raw, rfind_char b raw) of
        (Some start, Some stop) \<Rightarrow> if start \<le> stop then take (stop + 1 - start) (drop start raw) else raw
      | _ \<Rightarrow> raw)"

text \<open>The request to the model that both planners make: render, guard, ask.\<close>

definition ask_planner ::
  "planner \<Rightarrow> nat \<Rightarrow> string \<Rightarrow> (string \<times> json) list \<Rightarrow> string \<Rightarrow> agent_error + string" where
  "ask_planner pn tick template context request =
     try_bind (map_err (\<lambda>e. ConfigErr (ConfigInvalid e)) (pn_render pn template context)) (\<lambda>strategy_prompt.
     try_bind (map_err prompt_guard_error (check_prompt (pn_is_match pn) strategy_prompt)) (\<lambda>_.
     map_ok response_as_text
       (pn_llm pn tick [text_message RoleSystem strategy_prompt,
                        text_message RoleUser (''Request: '' @ request)])))"

definition with_examples :: "planner \<Rightarrow> string \<Rightarrow> (string \<times> json) list \<Rightarrow> (string \<times> json) list" where
  "with_examples pn key context =
     (case pn_examples pn key of Some v \<Rightarrow> assoc_put ''examples'' v context | None \<Rightarrow> context)"

definition parse_failure :: "string \<Rightarrow> string \<Rightarrow> string \<Rightarrow> agent_error" where
  "parse_failure what e response_text =
     ModelErr (InvalidResponse (''Failed to parse '' @ what @ '': '' @ e @ ''. Response was: '' @ response_text))"

definition generate_plan ::
  "planner \<Rightarrow> nat \<Rightarrow> string \<Rightarrow> string \<Rightarrow> string \<Rightarrow> agent_error + plan" where
  "generate_plan pn tick request tools conversation =
     try_bind (ask_planner pn tick ''strategies.plan_and_execute''
         (with_examples pn ''plan_examples''
            [(''tools'', JString tools), (''conversation'', JString conversation)]) request) (\<lambda>response_text.
       let json_str = json_part (CHR 0x7B) (CHR 0x7D) (strip_fences response_text) in
       map_err (\<lambda>e. parse_failure ''plan JSON'' e response_text)
         (try_bind (pn_parse pn json_str) (pn_plan_of pn)))"

definition decompose_request :: "planner \<Rightarrow> nat \<Rightarrow> string \<Rightarrow> agent_error + string list" where
  "decompose_request pn tick request =
     try_bind (ask_planner pn tick ''strategies.hierarchical.decompose''
         (with_examples pn ''hierarchical_examples''
            [(''conversation'', JString (''User: '' @ request))]) request) (\<lambda>response_text.
       map_err (\<lambda>e. parse_failure ''decomposition'' e response_text)
         (pn_strings_of pn (json_part (CHR ''['') (CHR '']'') (strip_fences response_text))))"

section \<open>Running a plan\<close>

fun role_label :: "message_role \<Rightarrow> string" where
  "role_label RoleSystem = ''System''"
| "role_label RoleUser = ''User''"
| "role_label RoleAssistant = ''Assistant''"
| "role_label RoleTool = ''Tool''"

definition conversation_of :: "message list \<Rightarrow> string" where
  "conversation_of messages =
     join newline (map (\<lambda>m. role_label (msg_role m) @ '': '' @ message_as_text m) messages)"

definition last_user_text :: "message list \<Rightarrow> string" where
  "last_user_text messages =
     (case find (\<lambda>m. msg_role m = RoleUser) (rev messages) of Some m \<Rightarrow> message_as_text m | None \<Rightarrow> [])"

text \<open>A tool by name: its text, or the error, or a panic.\<close>

definition execute_tool ::
  "planner \<Rightarrow> tool_registry \<Rightarrow> nat \<Rightarrow> string \<Rightarrow> json \<Rightarrow> (agent_error + string) option" where
  "execute_tool pn reg tick tool_name args =
     (case execute reg tick tool_name args of
        Panics \<Rightarrow> None
      | Returns (Err e) \<Rightarrow> Some (Err (ToolErr e))
      | Returns (Ok v) \<Rightarrow> Some (Ok (case v of JString s \<Rightarrow> s | _ \<Rightarrow> pn_value_text pn v)))"

definition started_call :: "tool_registry \<Rightarrow> string \<Rightarrow> json \<Rightarrow> (string \<times> json) list" where
  "started_call reg name args = (if find_tool reg name \<noteq> None then [(name, args)] else [])"

definition unavailable :: "string \<Rightarrow> string" where
  "unavailable tool_name = ''Tool '' @ quoted tool_name @ '' is not available for this session''"

definition step_arguments :: "plan_step \<Rightarrow> json" where
  "step_arguments s = (case step_args s of Some v \<Rightarrow> v | None \<Rightarrow> JNull)"

text \<open>One step: its text (or a panic) and the call it started.\<close>

definition run_step ::
  "planner \<Rightarrow> tool_registry \<Rightarrow> string list \<Rightarrow> nat \<Rightarrow> plan_step \<Rightarrow> string option \<times> (string \<times> json) list" where
  "run_step pn reg active tick s =
     (case step_tool s of
        None \<Rightarrow> (Some (''Reasoning: '' @ step_description s), [])
      | Some tool_name \<Rightarrow>
          if active \<noteq> [] \<and> tool_name \<notin> set active then (Some (unavailable tool_name), [])
          else (map_option (\<lambda>r. case r of Ok t \<Rightarrow> t | Err e \<Rightarrow> ''Tool error: '' @ agent_error_text e)
                  (execute_tool pn reg tick tool_name (step_arguments s)),
                started_call reg tool_name (step_arguments s)))"

text \<open>The steps in order, up to the first whose number exceeds the maximum.\<close>

fun run_steps ::
  "planner \<Rightarrow> tool_registry \<Rightarrow> string list \<Rightarrow> nat \<Rightarrow> nat \<Rightarrow> plan_step list \<Rightarrow>
   (nat \<times> string) list option \<times> (string \<times> json) list" where
  "run_steps pn reg active max_iter tick [] = (Some [], [])"
| "run_steps pn reg active max_iter tick (s # ss) =
     (if max_iter < step_id s then (Some [], [])
      else (case run_step pn reg active tick s of
              (None, tr) \<Rightarrow> (None, tr)
            | (Some t, tr) \<Rightarrow>
                (case run_steps pn reg active max_iter (tick + 1) ss of
                   (rs, tr') \<Rightarrow> (map_option (\<lambda>rs. (step_id s, t) # rs) rs, tr @ tr'))))"

definition guard_answer :: "planner \<Rightarrow> generate_response \<Rightarrow> agent_error + strategy_outcome" where
  "guard_answer pn answer =
     map_ok (\<lambda>_. Done (response_as_text answer))
       (map_err guard_to_agent_error (check_output (pn_is_match pn) (response_as_text answer)))"

definition plan_final_prompt :: "plan \<Rightarrow> (nat \<times> string) list \<Rightarrow> string \<Rightarrow> string" where
  "plan_final_prompt p step_results input =
     ''You executed the following plan:'' @ newline @ ''Plan: '' @ plan_description p @ paragraph_break
     @ ''Step results:'' @ newline
     @ join newline (map (\<lambda>(i, r). ''Step '' @ show_nat i @ '': '' @ r) step_results)
     @ paragraph_break @ ''Provide the final answer to: '' @ input"

definition plan_run_active ::
  "planner \<Rightarrow> tool_registry \<Rightarrow> nat \<Rightarrow> message list \<Rightarrow> string list \<Rightarrow>
   (agent_error + strategy_outcome) option \<times> (string \<times> json) list" where
  "plan_run_active pn reg max_iter messages active =
     (let input = last_user_text messages in
      case generate_plan pn 0 input (tool_summaries_for reg active) (conversation_of messages) of
        Err e \<Rightarrow> (Some (Err e), [])
      | Ok p \<Rightarrow>
          (case run_steps pn reg active max_iter 1 (plan_steps p) of
             (None, tr) \<Rightarrow> (None, tr)
           | (Some step_results, tr) \<Rightarrow>
               (Some (try_bind (pn_llm pn (1 + length step_results)
                    [text_message RoleSystem (plan_final_prompt p step_results input),
                     text_message RoleUser ''Based on the executed plan, provide the final answer.''])
                  (guard_answer pn)), tr)))"

definition plan_run ::
  "planner \<Rightarrow> tool_registry \<Rightarrow> nat \<Rightarrow> message list \<Rightarrow>
   (agent_error + strategy_outcome) option \<times> (string \<times> json) list" where
  "plan_run pn reg max_iter messages = plan_run_active pn reg max_iter messages (tool_names reg)"

section \<open>Hierarchical planning\<close>

fun run_sub_goals ::
  "planner \<Rightarrow> tool_registry \<Rightarrow> nat \<Rightarrow> message list \<Rightarrow> string list \<Rightarrow> nat \<Rightarrow> nat \<Rightarrow> string list \<Rightarrow>
   ((nat \<times> string) list \<times> nat) option \<times> (string \<times> json) list" where
  "run_sub_goals pn reg max_iter messages active i tick [] = (Some ([], tick), [])"
| "run_sub_goals pn reg max_iter messages active i tick (g # gs) =
     (case generate_plan pn tick g (tool_summaries_for reg active) (conversation_of messages) of
        Err e \<Rightarrow>
          (case run_sub_goals pn reg max_iter messages active (i + 1) (tick + 1) gs of
             (r, tr) \<Rightarrow>
               (map_option (\<lambda>(rs, t). ((i, ''Plan generation failed: '' @ agent_error_text e) # rs, t)) r, tr))
      | Ok p \<Rightarrow>
          (case run_steps pn reg active max_iter (tick + 1) (plan_steps p) of
             (None, tr) \<Rightarrow> (None, tr)
           | (Some step_results, tr) \<Rightarrow>
               (case run_sub_goals pn reg max_iter messages active (i + 1) (tick + 1 + length step_results) gs of
                  (r, tr') \<Rightarrow>
                    (map_option (\<lambda>(rs, t). ((i, join newline (map snd step_results)) # rs, t)) r, tr @ tr'))))"

definition hier_final_prompt :: "string \<Rightarrow> (nat \<times> string) list \<Rightarrow> string" where
  "hier_final_prompt input rs =
     ''All sub-goals have been executed. Provide a comprehensive answer to the user'' @ [CHR 0x27]
     @ ''s request.'' @ paragraph_break @ ''User request: '' @ input @ paragraph_break
     @ ''Sub-goal results:'' @ newline
     @ join newline (map (\<lambda>(i, r). ''Sub-goal '' @ show_nat i @ '': '' @ r) rs)"

definition synthesis_prompt :: string where
  "synthesis_prompt = ''You are a synthesis assistant. Combine the results of the completed sub-goals below ''
     @ ''into a single, comprehensive answer to the user'' @ [CHR 0x27] @ ''s request.''"

definition hier_run_active ::
  "planner \<Rightarrow> tool_registry \<Rightarrow> nat \<Rightarrow> nat \<Rightarrow> message list \<Rightarrow> string list \<Rightarrow>
   (agent_error + strategy_outcome) option \<times> (string \<times> json) list" where
  "hier_run_active pn reg max_iter max_depth messages active =
     (let input = last_user_text messages in
      case decompose_request pn 0 input of
        Err e \<Rightarrow> (Some (Err e), [])
      | Ok sub_goals \<Rightarrow>
          (case run_sub_goals pn reg max_iter messages active 0 1 (take max_depth sub_goals) of
             (None, tr) \<Rightarrow> (None, tr)
           | (Some (rs, tick), tr) \<Rightarrow>
               (Some (try_bind (pn_llm pn tick
                    [text_message RoleSystem synthesis_prompt,
                     text_message RoleUser (hier_final_prompt input rs)])
                  (guard_answer pn)), tr)))"

definition hier_run ::
  "planner \<Rightarrow> tool_registry \<Rightarrow> nat \<Rightarrow> nat \<Rightarrow> message list \<Rightarrow>
   (agent_error + strategy_outcome) option \<times> (string \<times> json) list" where
  "hier_run pn reg max_iter max_depth messages = hier_run_active pn reg max_iter max_depth messages (tool_names reg)"

section \<open>The strategy trait and its table\<close>

type_synonym run_result = "(agent_error + strategy_outcome) option \<times> (string \<times> json) list"

record 'q run_strategy =
  rs_run :: "message list \<Rightarrow> run_result"
  rs_run_active :: "message list \<Rightarrow> string list \<Rightarrow> run_result"
  rs_run_hitl :: "message list \<Rightarrow> string list \<Rightarrow> 'q hitl_hook \<Rightarrow> 'q \<Rightarrow> run_result \<times> 'q"

text \<open>What a strategy gets that does not define its own methods.\<close>

definition default_run_active ::
  "(message list \<Rightarrow> run_result) \<Rightarrow> message list \<Rightarrow> string list \<Rightarrow> run_result" where
  "default_run_active run_all messages active = run_all messages"

definition default_run_hitl ::
  "(message list \<Rightarrow> string list \<Rightarrow> run_result) \<Rightarrow> message list \<Rightarrow> string list \<Rightarrow> 'q hitl_hook \<Rightarrow> 'q \<Rightarrow> run_result \<times> 'q" where
  "default_run_hitl run_active messages active hook q = (run_active messages active, q)"

definition confined :: "(agent_error + strategy_outcome) \<times> (string \<times> json) list \<Rightarrow> run_result" where
  "confined r = (Some (fst r), snd r)"

definition react_strategy :: "cycle \<Rightarrow> 'q run_strategy" where
  "react_strategy cy =
     \<lparr>rs_run = (\<lambda>ms. confined (run cy ms)),
      rs_run_active = (\<lambda>ms active. confined (run_with_active_tools cy ms active)),
      rs_run_hitl = (\<lambda>ms active hook q. case run_hitl cy ms active hook q of (r, q') \<Rightarrow> (confined r, q'))\<rparr>"

definition plan_strategy :: "planner \<Rightarrow> tool_registry \<Rightarrow> nat \<Rightarrow> 'q run_strategy" where
  "plan_strategy pn reg n =
     \<lparr>rs_run = plan_run pn reg n, rs_run_active = plan_run_active pn reg n,
      rs_run_hitl = default_run_hitl (plan_run_active pn reg n)\<rparr>"

definition hierarchical_strategy :: "planner \<Rightarrow> tool_registry \<Rightarrow> nat \<Rightarrow> nat \<Rightarrow> 'q run_strategy" where
  "hierarchical_strategy pn reg n d =
     \<lparr>rs_run = hier_run pn reg n d, rs_run_active = hier_run_active pn reg n d,
      rs_run_hitl = default_run_hitl (hier_run_active pn reg n d)\<rparr>"

datatype strategy_kind = KReact | KPlan | KHierarchical

text \<open>The runner and the prompts a strategy is built from: a cycle whose registry and bound
  are still to be set, and a planner.\<close>

record strategy_deps =
  sd_cycle :: cycle
  sd_planner :: planner

definition build_strategy :: "strategy_kind \<Rightarrow> strategy_deps \<Rightarrow> tool_registry \<Rightarrow> nat \<Rightarrow> 'q run_strategy" where
  "build_strategy kind d tools max_iterations =
     (case kind of
        KReact \<Rightarrow> react_strategy ((sd_cycle d)\<lparr>rc_tools := tools, rc_max_iterations := max_iterations\<rparr>)
      | KPlan \<Rightarrow> plan_strategy (sd_planner d) tools max_iterations
      | KHierarchical \<Rightarrow> hierarchical_strategy (sd_planner d) tools max_iterations 3)"

section \<open>The router\<close>

datatype strategy_name = ReAct | PlanAndExecute | Hierarchical

fun strategy_name_text :: "strategy_name \<Rightarrow> string" where
  "strategy_name_text ReAct = ''react''"
| "strategy_name_text PlanAndExecute = ''plan_and_execute''"
| "strategy_name_text Hierarchical = ''hierarchical''"

fun strategy_description :: "strategy_name \<Rightarrow> string" where
  "strategy_description ReAct = ''Best for: simple Q&A, tool use, step-by-step reasoning''"
| "strategy_description PlanAndExecute = ''Best for: tasks with clear steps that can be planned upfront''"
| "strategy_description Hierarchical = ''Best for: complex tasks that need decomposition into sub-goals''"

record strategy_router =
  sr_planner :: planner
  sr_strategies :: "strategy_name list"
  sr_templated :: bool

definition router_new :: "planner \<Rightarrow> strategy_name list \<Rightarrow> strategy_router" where
  "router_new pn ss = \<lparr>sr_planner = pn, sr_strategies = ss, sr_templated = False\<rparr>"

definition router_with_registry :: "planner \<Rightarrow> strategy_name list \<Rightarrow> strategy_router" where
  "router_with_registry pn ss = \<lparr>sr_planner = pn, sr_strategies = ss, sr_templated = True\<rparr>"

definition strategy_list_text :: "strategy_router \<Rightarrow> string" where
  "strategy_list_text sr =
     join newline (map (\<lambda>s. strategy_name_text s @ '': '' @ strategy_description s) (sr_strategies sr))"

definition router_system :: "strategy_router \<Rightarrow> string \<Rightarrow> agent_error + string" where
  "router_system sr request =
     (if sr_templated sr then
        try_bind (map_err (\<lambda>e. ConfigErr (ConfigInvalid e))
            (pn_render (sr_planner sr) ''router''
               [(''conversation'', JString (''User: '' @ request)), (''tools'', JString (strategy_list_text sr))]))
          (\<lambda>p. map_ok (\<lambda>_. p @ paragraph_break @ ''Respond with ONLY the strategy name.'')
             (map_err prompt_guard_error (check_prompt (pn_is_match (sr_planner sr)) p)))
      else Ok (''Choose the best orchestration strategy for the following request.'' @ paragraph_break
             @ ''Available strategies:'' @ newline @ strategy_list_text sr @ paragraph_break
             @ ''Respond with ONLY the strategy name (e.g., '' @ quoted ''react'' @ '', '' @ quoted ''plan_and_execute''
             @ '', '' @ quoted ''hierarchical'' @ '').'' @ newline @ ''Do not include any explanation.''))"

definition strategy_of_text :: "string \<Rightarrow> strategy_name option" where
  "strategy_of_text s =
     (if s = ''react'' then Some ReAct
      else if s = ''plan_and_execute'' \<or> s = ''plan-and-execute'' then Some PlanAndExecute
      else if s = ''hierarchical'' then Some Hierarchical else None)"

definition route_strategy :: "strategy_router \<Rightarrow> nat \<Rightarrow> string \<Rightarrow> agent_error + strategy_name" where
  "route_strategy sr tick request =
     try_bind (router_system sr request) (\<lambda>system.
     try_bind (pn_llm (sr_planner sr) tick
         [text_message RoleSystem system, text_message RoleUser (''Request: '' @ request)]) (\<lambda>response.
       let response_text = response_as_text response in
       case strategy_of_text (to_lowercase (trim response_text)) of
         None \<Rightarrow> Err (ModelErr (InvalidResponse (''Unknown strategy: '' @ response_text)))
       | Some selected \<Rightarrow>
           if selected \<in> set (sr_strategies sr) then Ok selected
           else Err (ModelErr (InvalidResponse (''Selected strategy '' @ [CHR 0x60] @ strategy_name_text selected
                  @ [CHR 0x60] @ '' is not in the router'' @ [CHR 0x27] @ ''s available strategies'')))))"

section \<open>Which tools a plan can run\<close>

text \<open>A trace of started calls names only active tools.\<close>

definition calls_within :: "string list \<Rightarrow> (string \<times> json) list \<Rightarrow> bool" where
  "calls_within active tr \<longleftrightarrow> list_all (\<lambda>c. fst c \<in> set active) tr"

lemma calls_within_simps [simp]:
  "calls_within active []"
  "calls_within active (tr @ tr') \<longleftrightarrow> calls_within active tr \<and> calls_within active tr'"
  by (simp_all add: calls_within_def)

lemma run_step_active: "active \<noteq> [] \<Longrightarrow> calls_within active (snd (run_step pn reg active tick s))"
  by (auto simp: calls_within_def run_step_def started_call_def split: option.splits if_splits)

lemma run_steps_active:
  assumes "active \<noteq> []"
  shows "calls_within active (snd (run_steps pn reg active n tick ss))"
proof (induction ss arbitrary: tick)
  case (Cons s ss)
  show ?case
    using run_step_active [OF assms, of pn reg tick s] Cons.IH [of "tick + 1"]
    by (auto split: option.split prod.split)
qed simp

lemma run_sub_goals_active:
  assumes "active \<noteq> []"
  shows "calls_within active (snd (run_sub_goals pn reg n ms active i tick gs))"
proof (induction gs arbitrary: i tick)
  case (Cons g gs)
  show ?case
  proof (cases "generate_plan pn tick g (tool_summaries_for reg active) (conversation_of ms)")
    case (Inl e)
    then show ?thesis using Cons.IH [of "i + 1" "tick + 1"] by (auto split: prod.split)
  next
    case (Inr p)
    have "calls_within active (snd (run_steps pn reg active n (tick + 1) (plan_steps p)))"
      by (rule run_steps_active [OF assms])
    then show ?thesis using Inr Cons.IH by (simp split: option.split prod.split) (metis snd_conv)
  qed
qed simp

text \<open>
  A plan runs only the tools of the session: whenever the list of active tools is not
  empty, plan-and-execute and hierarchical planning start tools of that list only,
  whatever plan the model writes and however the run ends.
\<close>

theorem plans_run_only_active_tools:
  assumes "active \<noteq> []"
  shows "calls_within active (snd (plan_run_active pn reg n messages active))
    \<and> calls_within active (snd (hier_run_active pn reg n d messages active))"
proof
  show "calls_within active (snd (plan_run_active pn reg n messages active))"
    using run_steps_active [OF assms, of pn reg n 1]
    by (simp add: plan_run_active_def Let_def split: sum.split prod.split option.split) (metis snd_conv)
  show "calls_within active (snd (hier_run_active pn reg n d messages active))"
    using run_sub_goals_active [OF assms, of pn reg n messages 0 1]
    by (simp add: hier_run_active_def Let_def split: sum.split prod.split option.split) (metis snd_conv)
qed

definition sample_planner :: planner where
  "sample_planner = \<lparr>pn_llm = (\<lambda>tick ms. Ok \<lparr>resp_content = [Text (if tick = 0 then ''{}'' else ''done'')],
       resp_usage = usage_default\<rparr>),
     pn_render = (\<lambda>_ _. Ok ''plan''), pn_examples = (\<lambda>_. None), pn_is_match = (\<lambda>_ _. False),
     pn_parse = (\<lambda>_. Ok JNull),
     pn_plan_of = (\<lambda>_. Ok \<lparr>plan_description = ''p'', plan_steps =
        [\<lparr>step_id = 1, step_description = ''s'', step_tool = Some ''calc'', step_args = None, step_depends_on = []\<rparr>]\<rparr>),
     pn_strings_of = (\<lambda>_. Ok [''g'']), pn_value_text = (\<lambda>_. ''null'')\<rparr>"

lemma plans_run_only_active_tools_witness:
  "calls_within [''look''] (snd (plan_run_active sample_planner (new_registry (sample_tool ''adds'')) 5 [] [''look'']))"
  using plans_run_only_active_tools [of "[''look'']"] by simp

text \<open>
  An empty list of active tools opens every tool: the check of a step is skipped when
  the list is empty, so a session restricted to no tools runs whatever tool the model's
  plan names. (The caller states that a skill with an empty tool list has no tools.)
\<close>

theorem empty_active_list_opens_every_tool:
  assumes "generate_plan pn 0 (last_user_text messages) (tool_summaries_for reg []) (conversation_of messages) = Ok p"
    and "plan_steps p = s # rest" "step_id s \<le> n"
    and "step_tool s = Some t" "find_tool reg t \<noteq> None"
  shows "(t, step_arguments s) \<in> set (snd (plan_run_active pn reg n messages []))"
proof -
  have "snd (run_step pn reg [] 1 s) = [(t, step_arguments s)]"
    using assms(4,5) by (simp add: run_step_def started_call_def)
  then obtain r where step: "run_step pn reg [] 1 s = (r, [(t, step_arguments s)])" by (metis prod.collapse)
  obtain rs tr where rest: "run_steps pn reg [] n 2 rest = (rs, tr)" by force
  have "(t, step_arguments s) \<in> set (snd (run_steps pn reg [] n 1 (plan_steps p)))"
    using assms(2,3) step rest by (cases r) (simp_all add: numeral_2_eq_2)
  then show ?thesis
    using assms(1) by (simp add: plan_run_active_def Let_def split: prod.split option.split) (metis snd_conv)
qed

lemma empty_active_list_opens_every_tool_witness:
  "(''calc'', JNull) \<in> set (snd (plan_run_active sample_planner (new_registry (sample_tool ''adds'')) 5 [] []))"
proof -
  let ?s = "\<lparr>step_id = 1, step_description = ''s'', step_tool = Some ''calc'', step_args = None, step_depends_on = []\<rparr>"
  have "generate_plan sample_planner 0 (last_user_text []) (tool_summaries_for (new_registry (sample_tool ''adds'')) [])
      (conversation_of []) = Ok \<lparr>plan_description = ''p'', plan_steps = [?s]\<rparr>" by code_simp
  moreover have "find_tool (new_registry (sample_tool ''adds'')) ''calc'' \<noteq> None" by code_simp
  ultimately show ?thesis
    using empty_active_list_opens_every_tool [of sample_planner "[]" "new_registry (sample_tool ''adds'')" _ ?s "[]" 5 "''calc''"]
    by (simp add: step_arguments_def)
qed

text \<open>
  The list of active tools does not bind the ReAct cycle: it limits the definitions
  offered to the model, but a call the model makes to any other registered tool is
  started all the same. (The trait states that only the named tools are used.)
\<close>

theorem react_runs_unoffered_tools:
  assumes "rc_max_iterations cy = Suc n" "ask cy 0 (prepare_buffer cy messages) active = Ok response"
    and "action_from_response response = ToolCalls calls" "c \<in> set calls"
    and "find_tool (rc_tools cy) (call_name c) \<noteq> None" "call_name c \<notin> set active"
  shows "(call_name c, call_args c) \<in> set (snd (run_with_active_tools cy messages active))"
  using assms by (auto simp: run_with_active_tools_def Let_def started_def split: prod.split)

lemma react_runs_unoffered_tools_witness:
  "(''calc'', JString ''a'') \<in> set (snd (run_with_active_tools sample_cycle [] []))"
proof -
  let ?r = "\<lparr>resp_content = [ToolUse ''a'' ''calc'' (JString ''a'')], resp_usage = usage_default\<rparr>"
  have "ask sample_cycle 0 (prepare_buffer sample_cycle []) [] = Ok ?r" by code_simp
  moreover have "find_tool (rc_tools sample_cycle) ''calc'' \<noteq> None" by code_simp
  moreover have "rc_max_iterations sample_cycle = Suc 2" by (simp add: sample_cycle_def)
  ultimately show ?thesis
    using react_runs_unoffered_tools [of sample_cycle 2 "[]" "[]" ?r
        "[\<lparr>call_id = ''a'', call_name = ''calc'', call_args = JString ''a''\<rparr>]"]
    by (simp add: action_from_response_def Let_def)
qed

section \<open>How often the model is asked\<close>

text \<open>Two cycles that differ in their model only, and there only from some tick on.\<close>

definition same_until :: "nat \<Rightarrow> cycle \<Rightarrow> cycle \<Rightarrow> bool" where
  "same_until n cy cy' \<longleftrightarrow> cy' = cy\<lparr>rc_llm := rc_llm cy'\<rparr> \<and> (\<forall>tick < n. rc_llm cy' tick = rc_llm cy tick)"

lemma same_until_fields:
  assumes "same_until n cy cy'"
  shows "rc_preamble cy' = rc_preamble cy" "rc_tools cy' = rc_tools cy"
    "rc_max_iterations cy' = rc_max_iterations cy" "rc_order cy' = rc_order cy"
    "rc_is_match cy' = rc_is_match cy" "rc_value_text cy' = rc_value_text cy"
  using assms unfolding same_until_def by (metis cycle.select_convs(2-7) cycle.update_convs(1) cycle.surjective)+

lemma ask_same: "same_until n cy cy' \<Longrightarrow> tick < n \<Longrightarrow> ask cy' tick = ask cy tick"
  by (simp add: fun_eq_iff ask_def invoke_with_active_tools_def check_output_guardrail_def same_until_fields)
     (simp add: same_until_def)

lemma tool_turn_same: "same_until n cy cy' \<Longrightarrow> tool_turn cy' = tool_turn cy"
  by (simp add: fun_eq_iff tool_turn_def same_until_fields)

lemma react_loop_same:
  assumes "same_until (tick + left) cy cy'"
  shows "react_loop cy' active left tick buf = react_loop cy active left tick buf"
  using assms
proof (induction left arbitrary: tick buf)
  case 0
  then show ?case by (simp add: max_iterations_error_def same_until_fields)
next
  case (Suc left)
  have "ask cy' tick = ask cy tick" by (rule ask_same [OF Suc.prems]) simp
  moreover have "same_until (Suc tick + left) cy cy'" using Suc.prems by simp
  ultimately show ?case
    using Suc.IH [of "Suc tick"] by (simp add: same_until_fields [OF Suc.prems] tool_turn_same [OF Suc.prems]
        split: sum.split cycle_action.split)
qed

lemma hitl_loop_same:
  assumes "same_until (tick + left) cy cy'"
  shows "hitl_loop cy' active hook left tick buf called q = hitl_loop cy active hook left tick buf called q"
  using assms
proof (induction left arbitrary: tick buf called q)
  case 0
  then show ?case by (simp add: max_iterations_error_def same_until_fields)
next
  case (Suc left)
  have "ask cy' tick = ask cy tick" by (rule ask_same [OF Suc.prems]) simp
  moreover have "same_until (Suc tick + left) cy cy'" using Suc.prems by simp
  ultimately show ?case
    using Suc.IH [of "Suc tick"] by (simp add: same_until_fields [OF Suc.prems] tool_turn_same [OF Suc.prems]
        split: sum.split cycle_action.split prod.split)
qed

text \<open>
  A ReAct run ends after at most its maximum of model calls, with and without the
  approval hook: whatever the model would answer from that call on -- tool calls for ever
  included -- the run is the same, its result, its started tools and its queue.
\<close>

theorem react_asks_at_most_max_iterations:
  assumes "same_until (rc_max_iterations cy) cy cy'"
  shows "run_with_active_tools cy' messages active = run_with_active_tools cy messages active
    \<and> run_hitl cy' messages active hook q = run_hitl cy messages active hook q"
proof -
  have "prepare_buffer cy' messages = prepare_buffer cy messages"
    by (simp add: prepare_buffer_def same_until_fields [OF assms])
  then show ?thesis
    using react_loop_same [of 0 "rc_max_iterations cy" cy cy'] hitl_loop_same [of 0 "rc_max_iterations cy" cy cy'] assms
    by (simp add: run_with_active_tools_def run_hitl_def same_until_fields [OF assms])
qed

lemma react_asks_at_most_max_iterations_witness:
  "run_with_active_tools
     (sample_cycle\<lparr>rc_llm := \<lambda>tick ms ts. if tick < 3 then rc_llm sample_cycle tick ms ts else Err (MemoryErr [])\<rparr>) [] []
   = run_with_active_tools sample_cycle [] []"
  by (rule react_asks_at_most_max_iterations [THEN conjunct1])
     (simp add: same_until_def sample_cycle_def fun_eq_iff)

section \<open>What the router selects\<close>

text \<open>
  The router never invents a strategy: what it returns is one of the strategies it was
  configured with, named by the model's answer up to case and surrounding blanks, and
  anything else the model says is an error.
\<close>

theorem router_selects_configured_strategy:
  assumes "route_strategy sr tick request = Ok selected"
  shows "selected \<in> set (sr_strategies sr)
    \<and> (\<exists>ms response. pn_llm (sr_planner sr) tick ms = Ok response
         \<and> strategy_of_text (to_lowercase (trim (response_as_text response))) = Some selected)"
  using assms by (fastforce simp: route_strategy_def try_bind_Ok_iff Let_def split: option.splits if_splits)

definition sample_router :: strategy_router where
  "sample_router = router_new (sample_planner\<lparr>pn_llm := \<lambda>_ _. Ok
      \<lparr>resp_content = [Text '' React ''], resp_usage = usage_default\<rparr>\<rparr>) [ReAct]"

lemma router_selects_configured_strategy_witness: "ReAct \<in> set (sr_strategies sample_router)"
proof -
  have "route_strategy sample_router 0 ''hi'' = Ok ReAct" by code_simp
  from router_selects_configured_strategy [OF this] show ?thesis by (rule conjunct1)
qed

end
