(* ===== verification/Agent_Core.thy ===== *)
theory Agent_Core
  imports Session_Manager Working_Memory Hitl_Policy Strategies
begin

text \<open>
  The agent: its state and its errors (\<open>avs-agent/src/agent/mod.rs\<close>) and the operations on
  sessions (\<open>avs-agent/src/agent/sessions.rs\<close>). The world an operation runs in holds the
  session store, the cache, the approval queue (any implementation, reached by its submit
  operation), the identifiers drawn so far, the skill configuration that a reload replaces,
  the records handed to long-term memory and, for the theorems, the tools started.

  What an agent is built from is the record \<open>agent\<close>. The fixed strategy and the parts a
  routed strategy is built from are functions of the number of the run, as the model may
  answer differently each time. JSON text codecs are the parameters of \<open>agent_codec\<close>.
\<close>

section \<open>State, outputs, errors\<close>

record phase_transition =
  pt_next_skill :: string
  pt_summary :: string
  pt_deliverable :: string

datatype agent_output = OutDone string | OutInterrupted uuid interrupt_kind

datatype agent_failure =
    SessionFailed session_memory_error
  | LlmFailed agent_error
  | SkillFailed skill_error
  | JsonFailed string
  | IncompatiblePersistedInterrupt
  | RoutedStrategyDoesNotSupportHitl strategy_name
  | Panicked

datatype phase_advance_result = Advanced phase_transition | PendingGate uuid

record agent_codec =
  skill_ctx_to_text :: "skill_context \<Rightarrow> string"
  skill_ctx_from_text :: "string \<Rightarrow> string + skill_context"
  kind_from_text :: "string \<Rightarrow> string + interrupt_kind"
  history_to_text :: "message list \<Rightarrow> string"
  history_from_text :: "string \<Rightarrow> string + message list"
  calls_to_text :: "tool_call list \<Rightarrow> string"
  calls_from_text :: "string \<Rightarrow> string + tool_call list"
  state_to_text :: "interrupted_state \<Rightarrow> string"
  state_from_text :: "string \<Rightarrow> string + interrupted_state"
  transition_to_text :: "phase_transition \<Rightarrow> string"
  transition_from_text :: "string \<Rightarrow> string + phase_transition"

record 'q world =
  w_db :: db
  w_cache :: cache
  w_queue :: 'q
  w_ids :: nat
  w_skills :: "skill_config option"
  w_longterm :: "(string \<times> string) list"
  w_started :: "(string \<times> json) list"
  w_runs :: nat

record 'q agent =
  ag_codec :: content_codec
  ag_json :: agent_codec
  ag_hitl_codec :: hitl_codec
  ag_ids :: "nat \<Rightarrow> uuid"
  ag_tools :: tool_registry
  ag_order :: "tool_call list \<Rightarrow> tool_call list"
  ag_value_text :: "json \<Rightarrow> string"
  ag_base_prompt :: "string option"
  ag_strategy :: "nat \<Rightarrow> ('q \<times> nat) run_strategy"
  ag_deps :: "nat \<Rightarrow> strategy_deps"
  ag_router :: "strategy_router option"
  ag_retrieve :: "((string \<times> string) list \<Rightarrow> string \<Rightarrow> string \<Rightarrow> nat \<Rightarrow> string + string list) option"
  ag_hitl :: "hitl_policy option"
  ag_submit :: "approval_request \<Rightarrow> 'q \<Rightarrow> (hitl_error + uuid) \<times> 'q"

type_synonym ('q, 'a) op = "('q world, agent_failure, 'a) eff"

text \<open>An operation of the session manager, its error wrapped.\<close>

definition db_op :: "'a db_eff \<Rightarrow> ('q, 'a) op" where
  "db_op m = (\<lambda>w. case m (w_db w) of (r, db') \<Rightarrow> (map_err SessionFailed r, w\<lparr>w_db := db'\<rparr>))"

definition on_cache :: "(cache \<Rightarrow> cache) \<Rightarrow> ('q, unit) op" where
  "on_cache f = eff_mod (\<lambda>w. w\<lparr>w_cache := f (w_cache w)\<rparr>)"

definition draw_id :: "'q agent \<Rightarrow> ('q, uuid) op" where
  "draw_id ag = (\<lambda>w. (Ok (ag_ids ag (w_ids w)), w\<lparr>w_ids := w_ids w + 1\<rparr>))"

section \<open>Sessions\<close>

definition agent_create_session :: "'q agent \<Rightarrow> instant \<Rightarrow> string \<Rightarrow> ('q, uuid) op" where
  "agent_create_session ag now user_id =
     eff_bind (draw_id ag) (\<lambda>i. db_op (create_session now i user_id))"

definition agent_get_session :: "string \<Rightarrow> uuid \<Rightarrow> ('q, session option) op" where
  "agent_get_session user_id i = eff_seq (db_op (assert_owner user_id i)) (db_op (get_session i))"

definition session_owner :: "uuid \<Rightarrow> ('q, string option) op" where
  "session_owner i = eff_bind (db_op (get_session i)) (\<lambda>found. eff_ok (map_option ses_user_id found))"

definition agent_end_session :: "instant \<Rightarrow> string \<Rightarrow> uuid \<Rightarrow> ('q, unit) op" where
  "agent_end_session now user_id i =
     eff_seq (db_op (assert_owner user_id i))
       (eff_seq (db_op (end_session now i)) (on_cache (cache_evict user_id i)))"

definition agent_list_sessions :: "string \<Rightarrow> ('q, session list) op" where
  "agent_list_sessions user_id = db_op (list_sessions user_id)"

fun delete_each :: "string \<Rightarrow> session list \<Rightarrow> ('q, unit) op" where
  "delete_each user_id [] = eff_ok ()"
| "delete_each user_id (s # ss) =
     eff_seq (db_op (manager_delete_session (ses_id s)))
       (eff_seq (on_cache (cache_evict user_id (ses_id s))) (delete_each user_id ss))"

definition delete_all_user_data :: "string \<Rightarrow> ('q, unit) op" where
  "delete_all_user_data user_id = eff_bind (db_op (list_sessions user_id)) (delete_each user_id)"

definition agent_load_messages :: "'q agent \<Rightarrow> string \<Rightarrow> uuid \<Rightarrow> ('q, message list) op" where
  "agent_load_messages ag user_id i =
     eff_seq (db_op (assert_owner user_id i)) (db_op (manager_load_messages (ag_codec ag) i))"

section \<open>What the wrapped operations preserve\<close>

lemma db_op_run: "m (w_db w) = (r, db') \<Longrightarrow> db_op m w = (map_err SessionFailed r, w\<lparr>w_db := db'\<rparr>)"
  by (simp add: db_op_def)

lemma db_op_Ok_iff: "db_op m w = (Ok x, w') \<longleftrightarrow> (\<exists>db'. m (w_db w) = (Ok x, db') \<and> w' = w\<lparr>w_db := db'\<rparr>)"
  by (cases "m (w_db w)"; cases "fst (m (w_db w))") (auto simp: db_op_def)

lemma db_op_cases:
  assumes "db_op m w = (r, w')"
  obtains (failed) e db' where "m (w_db w) = (Err e, db')" "r = Err (SessionFailed e)" "w' = w\<lparr>w_db := db'\<rparr>"
  | (ok) x db' where "m (w_db w) = (Ok x, db')" "r = Ok x" "w' = w\<lparr>w_db := db'\<rparr>"
  using assms by (cases "m (w_db w)"; cases "fst (m (w_db w))") (auto simp: db_op_def)

lemma db_op_preserves [inv_intros]:
  "preserves I m \<Longrightarrow> preserves (\<lambda>w. I (w_db w)) (db_op m)"
  by (auto simp: preserves_def db_op_def split: prod.split)

lemma db_op_keeps_db: "keeps f m \<Longrightarrow> keeps (\<lambda>w. f (w_db w)) (db_op m)"
  by (auto simp: keeps_def db_op_def split: prod.split) (metis snd_conv)

lemma db_op_keeps [inv_intros]:
  "keeps w_cache (db_op m)" "keeps w_queue (db_op m)" "keeps w_ids (db_op m)" "keeps w_skills (db_op m)"
  "keeps w_longterm (db_op m)" "keeps w_started (db_op m)" "keeps w_runs (db_op m)"
  by (simp_all add: keeps_def db_op_def split: prod.split)

lemma on_cache_keeps [inv_intros]:
  "keeps w_db (on_cache f)" "keeps w_queue (on_cache f)" "keeps w_ids (on_cache f)" "keeps w_skills (on_cache f)"
  "keeps w_longterm (on_cache f)" "keeps w_started (on_cache f)" "keeps w_runs (on_cache f)"
  by (simp_all add: keeps_def on_cache_def eff_simps)

lemma draw_id_keeps [inv_intros]:
  "keeps w_db (draw_id ag)" "keeps w_queue (draw_id ag)" "keeps w_cache (draw_id ag)" "keeps w_skills (draw_id ag)"
  "keeps w_longterm (draw_id ag)" "keeps w_started (draw_id ag)" "keeps w_runs (draw_id ag)"
  by (simp_all add: keeps_def draw_id_def)

text \<open>The check of ownership, in front of an operation.\<close>

definition refused :: "'q world \<Rightarrow> uuid \<Rightarrow> agent_failure" where
  "refused w i = SessionFailed (case db_fault (w_db w) of Some e \<Rightarrow> Database e | None \<Rightarrow> NotFound i)"

lemma owner_check:
  "eff_seq (db_op (assert_owner u i)) k w = (if owned_by (w_db w) i u then k w else (Err (refused w i), w))"
  by (auto simp: eff_bind_def db_op_def assert_owner_run refused_def split: option.split)

end
