(* ===== verification/Agent_Invoke.thy ===== *)
theory Agent_Invoke
  imports Agent_Core
begin

text \<open>
  A turn of the agent (\<open>avs-agent/src/agent/invoke.rs\<close>) and the part of
  \<open>avs-agent/src/agent/resume.rs\<close> that persists an interrupt. \<open>invoke\<close> is the three stages
  the code has around its strategy: \<open>prepare\<close> up to the choice of the strategy, the run, and
  \<open>finish\<close> which records the outcome; they take the clock at their own time, as the run in
  between may take long. Metrics are left out.
\<close>

section \<open>Prompts\<close>

definition assemble_system :: "'q agent \<Rightarrow> skill_context option \<Rightarrow> string option \<Rightarrow> string option" where
  "assemble_system ag skill_ctx summaries_block =
     (let parts = (case skill_ctx of
                     Some ctx \<Rightarrow> sc_instructions ctx # sc_documents ctx
                   | None \<Rightarrow> (case summaries_block of Some b \<Rightarrow> if b \<noteq> [] then [b] else [] | None \<Rightarrow> []));
          base = (case ag_base_prompt ag of Some b \<Rightarrow> if trim b \<noteq> [] then [b] else [] | None \<Rightarrow> [])
      in if parts @ base = [] then None else Some (join paragraph_break (parts @ base)))"

definition assemble_messages :: "string option \<Rightarrow> message list \<Rightarrow> string \<Rightarrow> message list" where
  "assemble_messages system history input =
     (case system of Some sys \<Rightarrow> [text_message RoleSystem sys] | None \<Rightarrow> [])
     @ history @ [text_message RoleUser input]"

definition system_with_memory :: "string option \<Rightarrow> string option \<Rightarrow> string option" where
  "system_with_memory system long_term =
     (case (system, long_term) of
        (Some sys, Some lt) \<Rightarrow> Some (sys @ paragraph_break @ lt)
      | (Some sys, None) \<Rightarrow> Some sys
      | (None, Some lt) \<Rightarrow> Some lt
      | (None, None) \<Rightarrow> None)"

definition assemble_messages_with_context ::
  "string option \<Rightarrow> string option \<Rightarrow> message list \<Rightarrow> string \<Rightarrow> message list" where
  "assemble_messages_with_context system long_term history input =
     (case system_with_memory system long_term of Some c \<Rightarrow> [text_message RoleSystem c] | None \<Rightarrow> [])
     @ history @ [text_message RoleUser input]"

section \<open>The cache in front of the store\<close>

definition get_cache_memory :: "'q agent \<Rightarrow> instant \<Rightarrow> string \<Rightarrow> uuid \<Rightarrow> ('q, message list) op" where
  "get_cache_memory ag now user_id i =
     eff_bind (eff_get (\<lambda>w. cache_load now user_id i (w_cache w))) (\<lambda>hit. case hit of
        Some messages \<Rightarrow> eff_ok messages
      | None \<Rightarrow>
          eff_bind (db_op (manager_load_messages (ag_codec ag) i)) (\<lambda>history.
          eff_seq (on_cache (cache_store now user_id i history)) (eff_ok history)))"

definition update_cache_memory :: "instant \<Rightarrow> string \<Rightarrow> uuid \<Rightarrow> message \<Rightarrow> message \<Rightarrow> ('q, unit) op" where
  "update_cache_memory now user_id i um am = on_cache (cache_append_turn now user_id i um am)"

section \<open>Strategies\<close>

definition default_routed_max_iterations :: nat where
  "default_routed_max_iterations = 10"

fun kind_of_name :: "strategy_name \<Rightarrow> strategy_kind" where
  "kind_of_name ReAct = KReact"
| "kind_of_name PlanAndExecute = KPlan"
| "kind_of_name Hierarchical = KHierarchical"

definition build_routed_strategy ::
  "'q agent \<Rightarrow> nat \<Rightarrow> strategy_kind \<Rightarrow> string list \<Rightarrow> ('q \<times> nat) run_strategy" where
  "build_routed_strategy ag run_no kind active =
     build_strategy kind (ag_deps ag run_no) (restricted_to_names (ag_tools ag) active)
       default_routed_max_iterations"

definition strategy_for_resume :: "'q agent \<Rightarrow> nat \<Rightarrow> string list \<Rightarrow> ('q \<times> nat) run_strategy" where
  "strategy_for_resume ag run_no active =
     (if ag_router ag \<noteq> None then build_routed_strategy ag run_no KReact active else ag_strategy ag run_no)"

definition strategy_for_invoke ::
  "'q agent \<Rightarrow> nat \<Rightarrow> string \<Rightarrow> string list \<Rightarrow> agent_failure + ('q \<times> nat) run_strategy" where
  "strategy_for_invoke ag run_no request active =
     (case ag_router ag of
        None \<Rightarrow> Ok (ag_strategy ag run_no)
      | Some router \<Rightarrow>
          try_bind (map_err LlmFailed (route_strategy router run_no request)) (\<lambda>selected.
            if ag_hitl ag \<noteq> None \<and> selected \<noteq> ReAct then Err (RoutedStrategyDoesNotSupportHitl selected)
            else Ok (build_routed_strategy ag run_no (kind_of_name selected) active)))"

text \<open>A run: what it started is added to the world's trace, a panic unwinds.\<close>

definition settle :: "run_result \<Rightarrow> ('q, strategy_outcome) op" where
  "settle r = eff_seq (eff_mod (\<lambda>w. w\<lparr>w_started := w_started w @ snd r, w_runs := w_runs w + 1\<rparr>))
     (case fst r of
        None \<Rightarrow> eff_err Panicked
      | Some (Err e) \<Rightarrow> eff_err (LlmFailed e)
      | Some (Ok out) \<Rightarrow> eff_ok out)"

definition run_under_hook ::
  "'q agent \<Rightarrow> ('q \<times> nat) run_strategy \<Rightarrow> hitl_context \<Rightarrow> message list \<Rightarrow> string list \<Rightarrow> ('q, strategy_outcome) op" where
  "run_under_hook ag strategy ctx messages active = (\<lambda>w.
     case rs_run_hitl strategy messages active
            (context_hook (ag_hitl_codec ag) (ag_submit ag) (ag_ids ag) ctx) (w_queue w, w_ids w) of
       (r, (q, n)) \<Rightarrow> settle r (w\<lparr>w_queue := q, w_ids := n\<rparr>))"

definition run_chosen ::
  "'q agent \<Rightarrow> ('q \<times> nat) run_strategy \<Rightarrow> (hitl_policy \<Rightarrow> hitl_context) \<Rightarrow> message list \<Rightarrow> string list \<Rightarrow>
   ('q, strategy_outcome) op" where
  "run_chosen ag strategy mk_ctx messages active =
     (case ag_hitl ag of
        Some policy \<Rightarrow> run_under_hook ag strategy (mk_ctx policy) messages active
      | None \<Rightarrow> settle (rs_run_active strategy messages active))"

definition stateless_interrupt_error :: agent_error where
  "stateless_interrupt_error = MemoryErr (''HITL interrupt is not supported in invoke_stateless ''
     @ ''(no session to persist interrupted state into)'')"

definition invoke_stateless :: "'q agent \<Rightarrow> string \<Rightarrow> ('q, string) op" where
  "invoke_stateless ag input =
     eff_bind (eff_get w_runs) (\<lambda>n.
     eff_bind (settle (rs_run (ag_strategy ag n) (assemble_messages (assemble_system ag None None) [] input)))
       (\<lambda>out. case out of
          Done text \<Rightarrow> eff_ok text
        | Interrupted _ \<Rightarrow> eff_err (LlmFailed stateless_interrupt_error)))"

section \<open>Before the run\<close>

text \<open>The history and the input: a phase's opening context replaces the history once.\<close>

definition opening_turn :: "'q agent \<Rightarrow> instant \<Rightarrow> string \<Rightarrow> uuid \<Rightarrow> string \<Rightarrow> ('q, message list \<times> string) op" where
  "opening_turn ag now user_id i input =
     eff_bind (eff_get w_skills) (\<lambda>skills.
     eff_bind (if skills \<noteq> None then db_op (manager_get_phase_context i) else eff_ok None) (\<lambda>phase_ctx.
       case phase_ctx of
         Some ctx \<Rightarrow>
           eff_seq (on_cache (cache_evict user_id i))
             (eff_seq (db_op (manager_set_phase_context i None))
               (eff_ok ([], ctx @ paragraph_break @ input)))
       | None \<Rightarrow>
           eff_bind (get_cache_memory ag now user_id i) (\<lambda>history. eff_ok (history, input))))"

definition skill_threshold :: "skill_config \<Rightarrow> rat" where
  "skill_threshold cfg = (case cfg_threshold cfg of Some t \<Rightarrow> t | None \<Rightarrow> for_mode (cfg_mode cfg))"

definition resolve_skill ::
  "'q agent \<Rightarrow> uuid \<Rightarrow> string \<Rightarrow> ('q, skill_context option \<times> string option) op" where
  "resolve_skill ag i input =
     eff_bind (db_op (manager_get_skill_context i)) (\<lambda>existing. case existing of
        Some json \<Rightarrow>
          eff_bind (eff_lift (map_err JsonFailed (skill_ctx_from_text (ag_json ag) json)))
            (\<lambda>ctx. eff_ok (Some ctx, None))
      | None \<Rightarrow>
          eff_bind (eff_get w_skills) (\<lambda>skills. case skills of
             None \<Rightarrow> eff_ok (None, None)
           | Some cfg \<Rightarrow>
               (case route (skill_threshold cfg) input (eligible (cfg_registry cfg) (cfg_mode cfg)) of
                  Some skill_id \<Rightarrow>
                    eff_bind (eff_lift (map_err SkillFailed (compile_context (cfg_registry cfg) skill_id))) (\<lambda>ctx.
                    eff_seq (db_op (manager_set_skill_context i (Some (skill_ctx_to_text (ag_json ag) ctx))))
                      (eff_ok (Some ctx, None)))
                | None \<Rightarrow>
                    eff_ok (None, if cfg_summaries cfg = [] then None else Some (cfg_summaries cfg)))))"

definition active_tools :: "'q agent \<Rightarrow> skill_context option \<Rightarrow> string list" where
  "active_tools ag skill_ctx =
     (case skill_ctx of
        None \<Rightarrow> tool_names (ag_tools ag)
      | Some ctx \<Rightarrow> filter (has_tool (ag_tools ag)) (sc_tools ctx))"

text \<open>A failing retrieval counts as no memories.\<close>

definition long_term_text :: "'q agent \<Rightarrow> (string \<times> string) list \<Rightarrow> string \<Rightarrow> string \<Rightarrow> string option" where
  "long_term_text ag stored user_id qtext =
     (case ag_retrieve ag of
        None \<Rightarrow> None
      | Some retrieve \<Rightarrow>
          (let memories = (case retrieve stored user_id qtext 5 of Ok ms \<Rightarrow> ms | Err _ \<Rightarrow> []) in
           if memories = [] then None else Some (join newline (map (\<lambda>m. ''[Memory] '' @ m) memories))))"

record 'q prepared =
  pr_strategy :: "('q \<times> nat) run_strategy"
  pr_messages :: "message list"
  pr_active :: "string list"
  pr_skill :: "skill_context option"
  pr_input :: string

definition prepare :: "'q agent \<Rightarrow> instant \<Rightarrow> string \<Rightarrow> uuid \<Rightarrow> string \<Rightarrow> ('q, 'q prepared) op" where
  "prepare ag now user_id i input =
     eff_bind (opening_turn ag now user_id i input) (\<lambda>(history, effective_input).
     eff_bind (resolve_skill ag i input) (\<lambda>(skill_ctx, summaries_block).
     eff_bind (eff_get w_longterm) (\<lambda>stored.
     eff_bind (eff_get w_runs) (\<lambda>n.
       let active = active_tools ag skill_ctx;
           messages = assemble_messages_with_context (assemble_system ag skill_ctx summaries_block)
             (long_term_text ag stored user_id effective_input) history effective_input
       in eff_bind (eff_lift (strategy_for_invoke ag n effective_input active)) (\<lambda>strategy.
            eff_ok \<lparr>pr_strategy = strategy, pr_messages = messages, pr_active = active,
                    pr_skill = skill_ctx, pr_input = effective_input\<rparr>)))))"

section \<open>After the run\<close>

text \<open>An interrupt is persisted and the session suspended
  (\<open>handle_tool_interrupt\<close> in \<open>resume.rs\<close>).\<close>

definition interrupt_state ::
  "'q agent \<Rightarrow> hitl_interrupt \<Rightarrow> skill_context option \<Rightarrow> interrupt_kind \<Rightarrow> interrupted_state" where
  "interrupt_state ag intr skill_ctx kind =
     (let skill_json = map_option (skill_ctx_to_text (ag_json ag)) skill_ctx;
          history_json = history_to_text (ag_json ag) (int_history intr) in
      case kind of
        SkillCheckpoint _ _ \<Rightarrow>
          PendingCheckpoint (int_approval_id intr) (int_kind_json intr) history_json
            (int_active_tool_names intr) skill_json
      | _ \<Rightarrow>
          PendingToolCall (int_approval_id intr) (int_kind_json intr) history_json
            (calls_to_text (ag_json ag) (int_pending_calls intr)) (int_active_tool_names intr) skill_json)"

definition handle_tool_interrupt ::
  "'q agent \<Rightarrow> instant \<Rightarrow> uuid \<Rightarrow> hitl_interrupt \<Rightarrow> skill_context option \<Rightarrow> ('q, agent_output) op" where
  "handle_tool_interrupt ag now i intr skill_ctx =
     eff_bind (eff_lift (map_err (\<lambda>e. LlmFailed (MemoryErr (''bad HITL kind_json: '' @ e)))
         (kind_from_text (ag_json ag) (int_kind_json intr)))) (\<lambda>kind.
     eff_seq (db_op (manager_set_interrupted i
         (Some (state_to_text (ag_json ag) (interrupt_state ag intr skill_ctx kind)))))
       (eff_seq (db_op (manager_update_status now i Suspended))
         (eff_ok (OutInterrupted (int_approval_id intr) kind))))"

definition longterm_record :: "string \<Rightarrow> string \<Rightarrow> string" where
  "longterm_record input response = ''User: '' @ input @ newline @ ''Assistant: '' @ response"

text \<open>The record for long-term memory is handed to a task of its own.\<close>

definition finish ::
  "'q agent \<Rightarrow> instant \<Rightarrow> string \<Rightarrow> uuid \<Rightarrow> 'q prepared \<Rightarrow> strategy_outcome \<Rightarrow> ('q, agent_output) op" where
  "finish ag now user_id i p out =
     (case out of
        Interrupted intr \<Rightarrow> handle_tool_interrupt ag now i intr (pr_skill p)
      | Done response \<Rightarrow>
          (let um = text_message RoleUser (pr_input p); am = text_message RoleAssistant response in
           eff_seq (db_op (manager_append_turn (ag_codec ag) now i um am))
             (eff_seq (update_cache_memory now user_id i um am)
               (eff_seq (if ag_retrieve ag \<noteq> None
                         then eff_mod (\<lambda>w. w\<lparr>w_longterm := w_longterm w @ [(user_id, longterm_record (pr_input p) response)]\<rparr>)
                         else eff_ok ())
                 (eff_ok (OutDone response))))))"

definition invoke_context :: "uuid \<Rightarrow> 'q prepared \<Rightarrow> hitl_policy \<Rightarrow> hitl_context" where
  "invoke_context i p policy = new_context i (map_option sc_skill_id (pr_skill p)) policy"

definition invoke :: "'q agent \<Rightarrow> instant \<Rightarrow> instant \<Rightarrow> string \<Rightarrow> uuid \<Rightarrow> string \<Rightarrow> ('q, agent_output) op" where
  "invoke ag now later user_id i input =
     eff_seq (db_op (assert_owner user_id i))
       (eff_bind (prepare ag now user_id i input) (\<lambda>p.
        eff_bind (run_chosen ag (pr_strategy p) (invoke_context i p) (pr_messages p) (pr_active p)) (\<lambda>out.
          finish ag later user_id i p out)))"

end
