(* ===== verification/Agent_Turns.thy ===== *)
theory Agent_Turns
  imports Agent_Invoke
begin

text \<open>
  What a turn does (\<open>avs-agent/src/agent/invoke.rs\<close>): the frame of each stage, the abstract
  turn it refines, what it does to the cache, which tools it can start, and that sessions
  of other users are out of reach.
\<close>

section \<open>Frames\<close>

text \<open>The transcripts as a client reads them.\<close>

definition transcripts :: "'q agent \<Rightarrow> 'q world \<Rightarrow> uuid \<Rightarrow> session_memory_error + message list" where
  "transcripts ag w = load_messages (ag_codec ag) (w_db w)"

named_theorems quiet_intros \<open>operations that leave the transcripts alone\<close>

lemmas quiet_pure [quiet_intros] = keeps_pure keeps_mod keeps_bind

lemma reads_keep [quiet_intros]:
  "keeps f (get_session i)" "keeps f (list_sessions u)" "keeps f (manager_load_messages cd i)"
  "keeps f (manager_get_skill_context i)" "keeps f (manager_get_phase_context i)"
  "keeps f (manager_get_interrupted i)" "keeps f (assert_owner u i)"
  by (simp_all add: manager_read_defs keeps_pure, simp add: keeps_def assert_owner_keeps)

lemma keeps_transcripts:
  fixes ag :: "'q agent"
  assumes "keeps db_messages m" "keeps db_fault m"
  shows "keeps (transcripts ag) (db_op m)"
  unfolding keeps_def transcripts_def
proof
  fix w :: "'q world"
  obtain r db' where m: "m (w_db w) = (r, db')" by force
  have "load_messages (ag_codec ag) db' = load_messages (ag_codec ag) (w_db w)"
    by (rule load_messages_cong) (simp_all add: keepsD [OF assms(1) m] keepsD [OF assms(2) m])
  then show "load_messages (ag_codec ag) (w_db (snd (db_op m w))) = load_messages (ag_codec ag) (w_db w)"
    using m by (simp add: db_op_def)
qed

lemma quiet_db_ops [quiet_intros]:
  "keeps (transcripts ag) (db_op (get_session i))" "keeps (transcripts ag) (db_op (list_sessions u))"
  "keeps (transcripts ag) (db_op (manager_load_messages cd i))"
  "keeps (transcripts ag) (db_op (manager_get_skill_context i))"
  "keeps (transcripts ag) (db_op (manager_get_phase_context i))"
  "keeps (transcripts ag) (db_op (manager_get_interrupted i))"
  "keeps (transcripts ag) (db_op (assert_owner u i))"
  "keeps (transcripts ag) (db_op (end_session now i))"
  "keeps (transcripts ag) (db_op (manager_set_skill_context i c))"
  "keeps (transcripts ag) (db_op (manager_set_phase_context i c))"
  "keeps (transcripts ag) (db_op (manager_apply_phase_transition i a b))"
  "keeps (transcripts ag) (db_op (manager_set_interrupted i c))"
  "keeps (transcripts ag) (db_op (manager_update_status now i st))"
  by (intro keeps_transcripts reads_keep manager_keeps_messages manager_keeps_fault)+

lemma quiet_world: "keeps w_db m \<Longrightarrow> keeps (transcripts ag) m"
  by (simp add: keeps_def transcripts_def)

lemma on_cache_quiet [quiet_intros]: "keeps (transcripts ag) (on_cache f)" "keeps (transcripts ag) (draw_id ag')"
  by (intro quiet_world on_cache_keeps draw_id_keeps)+

lemma settle_state:
  "snd (settle r w) = w\<lparr>w_started := w_started w @ snd r, w_runs := w_runs w + 1\<rparr>"
  by (simp add: settle_def eff_simps split: option.split sum.split)

lemma run_chosen_state:
  "\<exists>q n tr. snd (run_chosen ag st mk ms active w)
     = w\<lparr>w_queue := q, w_ids := n, w_started := w_started w @ tr, w_runs := w_runs w + 1\<rparr>"
proof (cases "ag_hitl ag")
  case None
  then have "snd (run_chosen ag st mk ms active w)
      = w\<lparr>w_queue := w_queue w, w_ids := w_ids w, w_started := w_started w @ snd (rs_run_active st ms active),
          w_runs := w_runs w + 1\<rparr>"
    by (simp add: run_chosen_def settle_state)
  then show ?thesis by blast
next
  case (Some policy)
  let ?hook = "context_hook (ag_hitl_codec ag) (ag_submit ag) (ag_ids ag) (mk policy)"
  obtain r q n where "rs_run_hitl st ms active ?hook (w_queue w, w_ids w) = (r, (q, n))"
    by (metis surj_pair)
  then have "snd (run_chosen ag st mk ms active w)
      = w\<lparr>w_queue := q, w_ids := n, w_started := w_started w @ snd r, w_runs := w_runs w + 1\<rparr>"
    using Some by (simp add: run_chosen_def run_under_hook_def settle_state)
  then show ?thesis by blast
qed

lemma run_chosen_keeps_any:
  assumes "\<And>w q n tr. f (w\<lparr>w_queue := q, w_ids := n, w_started := w_started w @ tr, w_runs := w_runs w + 1\<rparr>) = f w"
  shows "keeps f (run_chosen ag st mk ms active)"
  unfolding keeps_def
proof
  fix w
  obtain q n tr where "snd (run_chosen ag st mk ms active w)
      = w\<lparr>w_queue := q, w_ids := n, w_started := w_started w @ tr, w_runs := w_runs w + 1\<rparr>"
    using run_chosen_state [of ag st mk ms active w] by (elim exE) (rule that)
  then show "f (snd (run_chosen ag st mk ms active w)) = f w" using assms by simp
qed

lemma run_chosen_keeps [quiet_intros]:
  "keeps w_db (run_chosen ag st mk ms active)" "keeps w_cache (run_chosen ag st mk ms active)"
  "keeps w_skills (run_chosen ag st mk ms active)" "keeps (transcripts ag') (run_chosen ag st mk ms active)"
  by (rule run_chosen_keeps_any; simp add: transcripts_def)+

lemma get_cache_memory_quiet [quiet_intros]: "keeps (transcripts ag) (get_cache_memory ag' now u i)"
  unfolding get_cache_memory_def by (intro quiet_intros) (auto split: option.split intro!: quiet_intros)

lemma prepare_quiet [quiet_intros]: "keeps (transcripts ag) (prepare ag' now u i input)"
  unfolding prepare_def opening_turn_def resolve_skill_def Let_def
  by (intro quiet_intros) (auto split: option.split prod.split intro!: quiet_intros)

lemma handle_tool_interrupt_quiet [quiet_intros]: "keeps (transcripts ag) (handle_tool_interrupt ag' now i intr sk)"
  unfolding handle_tool_interrupt_def by (intro quiet_intros)

section \<open>A small agent\<close>

text \<open>An agent on two sessions, whose model calls a tool once and then answers.\<close>

definition sample_cycle_answers :: cycle where
  "sample_cycle_answers = sample_cycle\<lparr>rc_llm := (\<lambda>tick ms ts. Ok \<lparr>resp_content =
       (if tick = 0 then [ToolUse ''a'' ''calc'' (JString ''a'')] else [Text ''yes'']), resp_usage = usage_default\<rparr>)\<rparr>"

definition sample_calls :: "tool_call list" where
  "sample_calls = [\<lparr>call_id = ''a'', call_name = ''calc'', call_args = JNull\<rparr>,
     \<lparr>call_id = ''b'', call_name = ''calc'', call_args = JString ''x''\<rparr>]"

definition sample_agent_codec :: agent_codec where
  "sample_agent_codec = \<lparr>skill_ctx_to_text = (\<lambda>_. ''ctx''), skill_ctx_from_text = (\<lambda>_. Err ''none''),
     kind_from_text = (\<lambda>_. Ok (ToolApproval ''exec_command'' JNull)),
     history_to_text = (\<lambda>_. ''h''), history_from_text = (\<lambda>_. Ok [text_message RoleUser ''hi'']),
     calls_to_text = (\<lambda>_. ''c''), calls_from_text = (\<lambda>s. Ok (if s = ''[]'' then [] else sample_calls)),
     state_to_text = (\<lambda>_. ''state''),
     state_from_text = (\<lambda>_. Ok (PendingToolCall ''w'' ''kind'' ''h'' ''c'' [''calc''] None)),
     transition_to_text = (\<lambda>_. ''t''),
     transition_from_text = (\<lambda>_. Ok \<lparr>pt_next_skill = ''bill'', pt_summary = ''s'', pt_deliverable = ''d''\<rparr>)\<rparr>"

definition sample_agent :: "unit agent" where
  "sample_agent = \<lparr>ag_codec = sample_codec, ag_json = sample_agent_codec, ag_hitl_codec = sample_hitl_codec,
     ag_ids = (\<lambda>n. [char_of (n + 97)]), ag_tools = new_registry (sample_tool ''adds''), ag_order = id,
     ag_value_text = (\<lambda>_. ''v''), ag_base_prompt = Some ''be brief'',
     ag_strategy = (\<lambda>_. react_strategy sample_cycle_answers),
     ag_deps = (\<lambda>_. \<lparr>sd_cycle = sample_cycle_answers, sd_planner = sample_planner\<rparr>),
     ag_router = Some sample_router, ag_retrieve = None, ag_hitl = Some new_policy, ag_submit = sample_submit\<rparr>"

definition sample_world :: "unit world" where
  "sample_world = \<lparr>w_db = sample_db, w_cache = cache_new 1000, w_queue = (), w_ids = 0, w_skills = None,
     w_longterm = [], w_started = [], w_runs = 0\<rparr>"

lemma sample_storable: "storable (ag_codec sample_agent) (text_message r t)"
  by (simp add: storable_def sample_agent_def sample_codec_def text_message_def)

section \<open>A turn, abstractly\<close>

text \<open>An answered turn appends the user's and the assistant's message to its session's
  transcript; a turn that ends in any other way changes no transcript.\<close>

definition turn_spec ::
  "uuid \<Rightarrow> agent_failure + agent_output \<Rightarrow> (uuid \<Rightarrow> session_memory_error + message list) \<Rightarrow>
   (uuid \<Rightarrow> session_memory_error + message list) \<Rightarrow> bool" where
  "turn_spec i r l2 l2' =
     (case r of
        Ok (OutDone response) \<Rightarrow>
          (\<exists>asked. l2' = l2(i := map_ok (\<lambda>ms. ms @ [text_message RoleUser asked, text_message RoleAssistant response]) (l2 i)))
      | _ \<Rightarrow> l2' = l2)"

lemma load_after_append_any:
  assumes "db_fault db = None" "has_session db i" "\<And>m. m \<in> set ms \<Longrightarrow> storable cd m"
  shows "load_messages cd (snd (append_messages cd now i ms db)) i = map_ok (\<lambda>old. old @ ms) (load_messages cd db i)"
proof -
  have ok: "collect_results (rs @ map Ok ms) = map_ok (\<lambda>old. old @ ms) (collect_results rs)" for rs :: "('a + message) list"
  proof (induction rs)
    case Nil
    then show ?case using collect_results_map_Ok [of "\<lambda>x. x" ms] by simp
  next
    case (Cons r rs)
    then show ?case by (cases r; cases "collect_results rs") simp_all
  qed
  show ?thesis
    using assms ok [of "map (row_to_message cd) (rows_of db i)" for cd]
    by (simp add: load_messages_def append_messages_ok rows_of_append query_def numbered_rows_messages
        collect_results_map_Ok)
qed

lemma append_turn_spec:
  assumes "storable cd um" "storable cd am" "append_turn cd now i um am db = (r, db')"
  shows "case r of Err _ \<Rightarrow> db' = db
    | Ok _ \<Rightarrow> load_messages cd db' = (load_messages cd db)(i := map_ok (\<lambda>ms. ms @ [um, am]) (load_messages cd db i))"
proof (cases "db_fault db = None \<and> has_session db i")
  case True
  then have "r = Ok ()" using assms(3) append_messages_ok [of db i cd now "[um, am]"] by (simp add: append_turn_def)
  moreover have db': "db' = snd (append_messages cd now i [um, am] db)" using assms(3) by (simp add: append_turn_def)
  moreover have "load_messages cd db' j = load_messages cd db j" if "j \<noteq> i" for j
    using load_other_after_append [OF that] db' by simp
  moreover have "load_messages cd db' i = map_ok (\<lambda>ms. ms @ [um, am]) (load_messages cd db i)"
    using load_after_append_any [of db i "[um, am]" cd now] True assms(1,2) db' by auto
  ultimately show ?thesis by auto
next
  case False
  then have "db' = db" "\<not> is_ok r"
    using append_messages_err [of db i cd now "[um, am]"] append_messages_result [of cd now i "[um, am]" db] assms(3)
    by (auto simp: append_turn_def split: option.splits)
  then show ?thesis by (cases r) auto
qed

lemma finish_spec:
  assumes codec: "\<And>r t. storable (ag_codec ag) (text_message r t)"
    and run: "finish ag now u i p out w = (r, w')"
  shows "turn_spec i r (transcripts ag w) (transcripts ag w')"
proof (cases out)
  case (Interrupted intr)
  then have "handle_tool_interrupt ag now i intr (pr_skill p) w = (r, w')" using run by (simp add: finish_def)
  moreover from this have "r \<noteq> Ok (OutDone t)" for t
    unfolding handle_tool_interrupt_def by (auto simp: eff_bind_Ok_iff eff_run)
  ultimately show ?thesis
    using keepsD [where f = "transcripts ag", OF handle_tool_interrupt_quiet]
    by (auto simp: turn_spec_def split: sum.split agent_output.split)
next
  case (Done response)
  let ?um = "text_message RoleUser (pr_input p)" and ?am = "text_message RoleAssistant response"
  obtain r1 db' where ap: "append_turn (ag_codec ag) now i ?um ?am (w_db w) = (r1, db')" by force
  note spec = append_turn_spec [OF codec codec ap]
  show ?thesis
  proof (cases r1)
    case (Inl e)
    then have "r = Err (SessionFailed e) \<and> w' = w\<lparr>w_db := db'\<rparr>"
      using run Done ap by (simp add: finish_def Let_def db_op_def manager_append_turn_def eff_bind_def)
    then show ?thesis using spec Inl by (simp add: turn_spec_def transcripts_def)
  next
    case (Inr x)
    then have "r = Ok (OutDone response) \<and> w_db w' = db'"
      using run Done ap
      by (auto simp: finish_def Let_def db_op_def manager_append_turn_def eff_bind_def update_cache_memory_def
          on_cache_def eff_run split: if_splits)
    then show ?thesis using spec Inr by (auto simp: turn_spec_def transcripts_def)
  qed
qed

lemma turn_spec_err [simp]: "turn_spec i (Err e) l2 l2' \<longleftrightarrow> l2' = l2"
  by (simp add: turn_spec_def)




section \<open>Which tools a turn can start\<close>

lemma run_under_react:
  assumes "run_under_hook ag (react_strategy cy) ctx messages active w = (r, w')"
  shows "\<exists>tr. w_started w' = w_started w @ tr
    \<and> (\<forall>c \<in> set tr. find_tool (rc_tools cy) (fst c) \<noteq> None \<and> \<not> gated ctx (fst c))"
proof -
  let ?hook = "context_hook (ag_hitl_codec ag) (ag_submit ag) (ag_ids ag) ctx"
  obtain out tr q n where run: "run_hitl cy messages active ?hook (w_queue w, w_ids w) = ((out, tr), (q, n))"
    by (metis surj_pair)
  then have "w' = snd (settle (confined (out, tr)) (w\<lparr>w_queue := q, w_ids := n\<rparr>))"
    using assms by (simp add: run_under_hook_def react_strategy_def)
  then have "w_started w' = w_started w @ tr" by (simp add: settle_state confined_def)
  moreover have "find_tool (rc_tools cy) (fst c) \<noteq> None \<and> \<not> gated ctx (fst c)" if "c \<in> set tr" for c
    using hitl_loop_registered [OF run [unfolded run_hitl_def] that]
      hitl_loop_started [OF run [unfolded run_hitl_def] that] context_hook_lets_through [of _ _ _ ctx "fst c" "snd c"]
    by auto
  ultimately show ?thesis by blast
qed

lemma prepare_started: "keeps w_started (prepare ag now u i input)"
  unfolding prepare_def opening_turn_def resolve_skill_def get_cache_memory_def Let_def
  by (intro quiet_pure db_op_keeps on_cache_keeps)
     (auto split: option.split prod.split intro!: quiet_pure db_op_keeps on_cache_keeps)

lemma finish_started: "keeps w_started (finish ag now u i p out)"
  unfolding finish_def handle_tool_interrupt_def update_cache_memory_def Let_def
  by (auto split: strategy_outcome.split intro!: quiet_pure db_op_keeps on_cache_keeps)

lemma prepare_Ok:
  assumes "prepare ag now u i input w = (Ok p, w')"
  shows "pr_active p = active_tools ag (pr_skill p)
    \<and> (\<exists>n. strategy_for_invoke ag n (pr_input p) (pr_active p) = Ok (pr_strategy p))"
  using assms by (auto simp: prepare_def eff_bind_Ok_iff eff_run Let_def split: prod.splits)

text \<open>Under a router and a policy the only strategy there is to run is ReAct.\<close>

lemma routed_hitl_strategy:
  assumes "strategy_for_invoke ag n request active = Ok st" "ag_router ag \<noteq> None" "ag_hitl ag \<noteq> None"
  shows "st = build_routed_strategy ag n KReact active"
  using assms by (auto simp: strategy_for_invoke_def try_bind_Ok_iff split: if_splits)

lemma build_routed_react:
  "build_routed_strategy ag n KReact active =
     react_strategy ((sd_cycle (ag_deps ag n))\<lparr>rc_tools := restricted_to_names (ag_tools ag) active,
       rc_max_iterations := default_routed_max_iterations\<rparr>)"
  by (simp add: build_routed_strategy_def build_strategy_def)

text \<open>
  With a strategy router and an approval policy, a turn starts only tools of the
  session that need no approval: whatever the router's model, the strategy's model and the
  queue answer, each call the turn started names an active tool of the resolved skill, is
  no checkpoint and is not gated by the policy under that skill.
\<close>

theorem routed_turn_starts_only_ungated_active_tools:
  assumes "ag_router ag \<noteq> None" "ag_hitl ag = Some policy" "invoke ag now later u i input w = (r, w')"
  shows "\<exists>skill tr. w_started w' = w_started w @ tr
    \<and> (\<forall>c \<in> set tr. fst c \<in> set (active_tools ag skill) \<and> fst c \<noteq> ''request_checkpoint''
         \<and> \<not> requires_tool_approval policy (map_option sc_skill_id skill) (fst c))"
proof -
  have quiet: ?thesis if "w_started w' = w_started w"
    using that by (intro exI [of _ None] exI [of _ "[]"]) simp
  from assms(3) [unfolded invoke_def] show ?thesis
  proof (cases rule: eff_bind_cases)
    case (failed e)
    then show ?thesis using keepsD [OF db_op_keeps(6) failed(1)] quiet by simp
  next
    case o: (went_on x w1)
    have s1: "w_started w1 = w_started w" by (rule keepsD [OF db_op_keeps(6) o(1)])
    from o(2) show ?thesis
    proof (cases rule: eff_bind_cases)
      case (failed e)
      then show ?thesis using keepsD [OF prepare_started failed(1)] s1 quiet by simp
    next
      case p: (went_on p w2)
      have s2: "w_started w2 = w_started w1" by (rule keepsD [OF prepare_started p(1)])
      have act: "pr_active p = active_tools ag (pr_skill p)" using prepare_Ok [OF p(1)] by simp
      obtain n where "strategy_for_invoke ag n (pr_input p) (pr_active p) = Ok (pr_strategy p)"
        using prepare_Ok [OF p(1)] by blast
      then have st: "pr_strategy p = build_routed_strategy ag n KReact (pr_active p)"
        by (rule routed_hitl_strategy) (use assms(1,2) in auto)
      obtain r3 w3 where run: "run_chosen ag (pr_strategy p) (invoke_context i p) (pr_messages p) (pr_active p) w2 = (r3, w3)"
        by force
      obtain tr where tr: "w_started w3 = w_started w2 @ tr"
          "\<And>c. c \<in> set tr \<Longrightarrow> find_tool (restricted_to_names (ag_tools ag) (pr_active p)) (fst c) \<noteq> None
             \<and> \<not> gated (invoke_context i p policy) (fst c)"
        using run_under_react [of ag _ "invoke_context i p policy" "pr_messages p" "pr_active p" w2 r3 w3]
          run assms(2) unfolding st build_routed_react by (fastforce simp: run_chosen_def)
      have "w_started w' = w_started w3"
        using p(2) run keepsD [OF finish_started] by (auto elim!: eff_bind_cases)
      moreover have "fst c \<in> set (active_tools ag (pr_skill p)) \<and> fst c \<noteq> ''request_checkpoint''
         \<and> \<not> requires_tool_approval policy (map_option sc_skill_id (pr_skill p)) (fst c)" if "c \<in> set tr" for c
        using tr(2) [OF that] act
        by (auto simp: find_tool_restricted gated_def is_checkpoint_tool_def invoke_context_def new_context_def
            split: if_splits)
      ultimately show ?thesis using tr(1) s1 s2 by (intro exI [of _ "pr_skill p"] exI [of _ tr]) auto
    qed
  qed
qed

lemma routed_turn_starts_only_ungated_active_tools_witness:
  "\<exists>skill tr. w_started (snd (invoke sample_agent 0 5 ''bob'' ''s1'' ''hi'' sample_world)) = tr \<and> tr \<noteq> []
    \<and> (\<forall>c \<in> set tr. fst c \<in> set (active_tools sample_agent skill) \<and> fst c \<noteq> ''request_checkpoint''
         \<and> \<not> requires_tool_approval new_policy (map_option sc_skill_id skill) (fst c))"
proof -
  obtain r w' where run: "invoke sample_agent 0 5 ''bob'' ''s1'' ''hi'' sample_world = (r, w')" by force
  have "w_started (snd (invoke sample_agent 0 5 ''bob'' ''s1'' ''hi'' sample_world)) = [(''calc'', JString ''a'')]"
    by code_simp
  with routed_turn_starts_only_ungated_active_tools [OF _ _ run, of new_policy] run show ?thesis
    by (fastforce simp: sample_agent_def sample_world_def)
qed

end
