(* ===== verification/Agent_Resume.thy ===== *)
theory Agent_Resume
  imports Agent_Turns
begin

text \<open>
  Resuming an interrupted session (\<open>avs-agent/src/agent/resume.rs\<close>). \<open>resume\<close> checks the owner
  and the approval id, parses the persisted payload, clears the interrupt and then acts on
  the decision it is given: a phase gate applies its transition, a tool call or checkpoint
  executes what the decision says and runs the strategy on. Persisting an interrupt is
  \<open>handle_tool_interrupt\<close> of \<open>Agent_Invoke\<close>. Metrics are left out.
\<close>

section \<open>The operation\<close>

definition parse_resume_payload ::
  "'q agent \<Rightarrow> string \<Rightarrow> string \<Rightarrow> agent_failure + (message list \<times> tool_call list)" where
  "parse_resume_payload ag history_json pending_calls_json =
     try_bind (map_err (\<lambda>_. IncompatiblePersistedInterrupt) (history_from_text (ag_json ag) history_json)) (\<lambda>history.
     try_bind (map_err (\<lambda>_. IncompatiblePersistedInterrupt) (calls_from_text (ag_json ag) pending_calls_json)) (\<lambda>pending.
       Ok (history, pending)))"

fun resolve_payload ::
  "'q agent \<Rightarrow> interrupted_state \<Rightarrow> agent_failure + (message list \<times> tool_call list) option" where
  "resolve_payload ag (PendingToolCall _ _ h c _ _) = map_ok Some (parse_resume_payload ag h c)"
| "resolve_payload ag (PendingCheckpoint _ _ h _ _) = map_ok Some (parse_resume_payload ag h ''[]'')"
| "resolve_payload ag (PendingPhaseGate _ _) = Ok None"

definition skills_not_configured :: "string \<Rightarrow> agent_failure" where
  "skills_not_configured m = SkillFailed (SkillNotConfigured m)"

definition phase_context_text :: "phase_transition \<Rightarrow> string" where
  "phase_context_text t = ''Context from previous phase: '' @ pt_summary t"

text \<open>A transition is applied: the next skill's context and the phase's opening context.\<close>

definition apply_transition :: "'q agent \<Rightarrow> uuid \<Rightarrow> string \<Rightarrow> phase_transition \<Rightarrow> ('q, unit) op" where
  "apply_transition ag i missing transition =
     eff_bind (eff_get w_skills) (\<lambda>skills. case skills of
        None \<Rightarrow> eff_err (skills_not_configured missing)
      | Some cfg \<Rightarrow>
          eff_bind (eff_lift (map_err SkillFailed (compile_context (cfg_registry cfg) (pt_next_skill transition))))
            (\<lambda>ctx. db_op (manager_apply_phase_transition i (skill_ctx_to_text (ag_json ag) ctx)
               (phase_context_text transition))))"

definition resume_phase_gate ::
  "'q agent \<Rightarrow> uuid \<Rightarrow> string \<Rightarrow> approval_decision \<Rightarrow> ('q, agent_output) op" where
  "resume_phase_gate ag i transition_json decision =
     (case decision of
        Rejected reason \<Rightarrow> eff_ok (OutDone (''Phase transition rejected: '' @ reason))
      | _ \<Rightarrow>
          eff_bind (eff_lift (map_err JsonFailed (transition_from_text (ag_json ag) transition_json))) (\<lambda>transition.
          eff_seq (apply_transition ag i ''no skills configured'' transition)
            (eff_ok (OutDone (''Phase transition to '' @ pt_next_skill transition @ '' approved.'')))))"

fun suspended_tools :: "interrupted_state \<Rightarrow> string list" where
  "suspended_tools (PendingToolCall _ _ _ _ active _) = active"
| "suspended_tools (PendingCheckpoint _ _ _ active _) = active"
| "suspended_tools (PendingPhaseGate _ _) = []"

fun suspended_skill :: "interrupted_state \<Rightarrow> string option" where
  "suspended_skill (PendingToolCall _ _ _ _ _ sk) = sk"
| "suspended_skill (PendingCheckpoint _ _ _ _ sk) = sk"
| "suspended_skill (PendingPhaseGate _ _) = None"

definition resumed_skill :: "'q agent \<Rightarrow> interrupted_state \<Rightarrow> skill_context option" where
  "resumed_skill ag st =
     Option.bind (suspended_skill st) (\<lambda>j. case skill_ctx_from_text (ag_json ag) j of Ok c \<Rightarrow> Some c | Err _ \<Rightarrow> None)"

definition execution_tools :: "'q agent \<Rightarrow> interrupted_state \<Rightarrow> tool_registry" where
  "execution_tools ag st =
     (if ag_router ag \<noteq> None then restricted_to_names (ag_tools ag) (suspended_tools st) else ag_tools ag)"

text \<open>Tools executed directly, without the approval hook.\<close>

definition execute_directly ::
  "'q agent \<Rightarrow> tool_registry \<Rightarrow> tool_call list \<Rightarrow> ('q, tool_call_result list) op" where
  "execute_directly ag tools calls = (\<lambda>w.
     (Ok (execute_many (ag_order ag) tools (w_runs w) calls),
      w\<lparr>w_started := w_started w @ started tools calls, w_runs := w_runs w + 1\<rparr>))"

definition result_report :: "'q agent \<Rightarrow> tool_call_result \<Rightarrow> string" where
  "result_report ag r = ''Tool: '' @ res_name r @ newline @ ''Result: '' @
     (case res_result r of Ok v \<Rightarrow> ag_value_text ag v | Err e \<Rightarrow> ''Error: '' @ tool_error_text e)"

definition results_report :: "'q agent \<Rightarrow> tool_call_result list \<Rightarrow> string" where
  "results_report ag results = join paragraph_break (map (result_report ag) results)"

definition rejected_report :: "string \<Rightarrow> tool_call \<Rightarrow> string" where
  "rejected_report reason c = ''Tool: '' @ call_name c @ newline @ ''Result: Rejected by approver: '' @ reason"

definition decided ::
  "'q agent \<Rightarrow> tool_registry \<Rightarrow> tool_call list \<Rightarrow> approval_decision \<Rightarrow> ('q, string) op" where
  "decided ag tools pending decision =
     (case decision of
        Approved \<Rightarrow>
          if pending = [] then eff_ok ''Checkpoint approved. Continue.''
          else eff_bind (execute_directly ag tools pending) (\<lambda>results. eff_ok (results_report ag results))
      | Modified new_args \<Rightarrow>
          (case pending of
             first # _ \<Rightarrow>
               eff_bind (execute_directly ag tools [first\<lparr>call_args := new_args\<rparr>]) (\<lambda>results.
                 eff_ok (results_report ag results))
           | [] \<Rightarrow> eff_ok ''No tool calls to modify.'')
      | Rejected reason \<Rightarrow>
          if pending = [] then eff_ok (''Checkpoint rejected: '' @ reason @ ''. Revise and resubmit.'')
          else eff_ok (join paragraph_break (map (rejected_report reason) pending)))"

definition resume_context :: "uuid \<Rightarrow> skill_context option \<Rightarrow> hitl_policy \<Rightarrow> hitl_context" where
  "resume_context i skill_ctx policy = new_for_resume i (map_option sc_skill_id skill_ctx) policy"

definition resume_tool_call_or_checkpoint ::
  "'q agent \<Rightarrow> instant \<Rightarrow> uuid \<Rightarrow> interrupted_state \<Rightarrow> approval_decision \<Rightarrow> message list \<Rightarrow> tool_call list \<Rightarrow>
   ('q, agent_output) op" where
  "resume_tool_call_or_checkpoint ag later i st decision history pending =
     eff_bind (decided ag (execution_tools ag st) pending decision) (\<lambda>observation.
     eff_bind (eff_get w_runs) (\<lambda>n.
     let augmented = history @ [text_message RoleUser observation];
         active = suspended_tools st;
         skill_ctx = resumed_skill ag st
     in eff_bind (run_chosen ag (strategy_for_resume ag n active) (resume_context i skill_ctx) augmented active)
          (\<lambda>out. case out of
             Done response \<Rightarrow> eff_ok (OutDone response)
           | Interrupted intr \<Rightarrow> handle_tool_interrupt ag later i intr skill_ctx)))"

definition mismatch_error :: "string \<Rightarrow> uuid \<Rightarrow> agent_failure" where
  "mismatch_error expected got =
     LlmFailed (MemoryErr (''approval_id mismatch: expected '' @ expected @ '', got '' @ got))"

definition resume ::
  "'q agent \<Rightarrow> instant \<Rightarrow> instant \<Rightarrow> string \<Rightarrow> uuid \<Rightarrow> uuid \<Rightarrow> approval_decision \<Rightarrow> ('q, agent_output) op" where
  "resume ag now later user_id i approval_id decision =
     eff_seq (db_op (assert_owner user_id i))
       (eff_bind (db_op (manager_get_interrupted i)) (\<lambda>found. case found of
          None \<Rightarrow> eff_err (SessionFailed (NotFound i))
        | Some state_json \<Rightarrow>
            eff_bind (eff_lift (map_err JsonFailed (state_from_text (ag_json ag) state_json))) (\<lambda>st.
              if approval_id_str st \<noteq> approval_id then eff_err (mismatch_error (approval_id_str st) approval_id)
              else eff_bind (eff_lift (resolve_payload ag st)) (\<lambda>resolved.
                eff_seq (db_op (manager_set_interrupted i None))
                  (eff_seq (db_op (manager_update_status now i Active))
                    (case (st, resolved) of
                       (PendingPhaseGate _ transition_json, _) \<Rightarrow> resume_phase_gate ag i transition_json decision
                     | (_, Some (history, pending)) \<Rightarrow>
                         resume_tool_call_or_checkpoint ag later i st decision history pending
                     | (_, None) \<Rightarrow> eff_err Panicked))))))"

section \<open>The steps of a resume\<close>

lemma owned_live: "owned_by db i u \<Longrightarrow> db_fault db = None \<and> has_session db i"
  using find_row_None_iff [of db i]
  by (cases "db_fault db"; cases "find_row db i") (auto simp: owned_by_def get_def query_def)

lemma update_row_live:
  assumes "keeps_row f" "db_fault db = None" "has_session db i"
  shows "fst (update_row i f db) = Ok ()" "db_fault (snd (update_row i f db)) = None"
    "has_session (snd (update_row i f db)) i"
proof -
  have "i \<in> row_id ` set (map (\<lambda>r. if row_id r = i then f r else r) (db_sessions db))"
    unfolding row_id_image_update [OF assms(1)] using assms(3) by (simp add: has_session_def)
  then show "fst (update_row i f db) = Ok ()" "db_fault (snd (update_row i f db)) = None"
    "has_session (snd (update_row i f db)) i"
    using assms(2,3) by (auto simp: update_row_def has_session_def)
qed

text \<open>The world with the interrupt cleared and the session active again.\<close>

definition reactivated :: "instant \<Rightarrow> uuid \<Rightarrow> 'q world \<Rightarrow> 'q world" where
  "reactivated now i w =
     w\<lparr>w_db := snd (update_status now i Active (snd (set_interrupted_state i None (w_db w))))\<rparr>"

lemma reactivate:
  assumes "owned_by (w_db w) i u"
  shows "eff_seq (db_op (manager_set_interrupted i None)) (eff_seq (db_op (manager_update_status now i Active)) k) w
    = k (reactivated now i w)"
proof -
  note live = owned_live [OF assms]
  let ?f = "\<lambda>r. r\<lparr>row_interrupted := None\<rparr>"
  have f: "keeps_row ?f" "keeps_row (\<lambda>r. r\<lparr>row_status := status_to_str Active, row_updated_at := t\<rparr>)" for t
    by (simp_all add: keeps_row_def status_from_str_def)
  note one = update_row_live [OF f(1) live [THEN conjunct1] live [THEN conjunct2]]
  note two = update_row_live(1) [OF f(2) one(2,3), of "timestamp now"]
  show ?thesis
    using one(1) two
    by (auto simp: eff_bind_def db_op_def manager_defs set_interrupted_state_def update_status_def
        reactivated_def split: prod.split)
qed

lemma reactivated_keeps [simp]:
  "w_queue (reactivated now i w) = w_queue w" "w_started (reactivated now i w) = w_started w"
  "w_runs (reactivated now i w) = w_runs w" "w_cache (reactivated now i w) = w_cache w"
  "w_ids (reactivated now i w) = w_ids w" "w_skills (reactivated now i w) = w_skills w"
  by (simp_all add: reactivated_def)

text \<open>What a resume does before it acts.\<close>

lemma resume_reads:
  assumes "owned_by (w_db w) i u" "get_interrupted_state (w_db w) i = Ok (Some js)"
    and "state_from_text (ag_json ag) js = Ok st"
  shows "resume ag now later u i a d w =
    (if approval_id_str st \<noteq> a then (Err (mismatch_error (approval_id_str st) a), w)
     else case resolve_payload ag st of
       Err e \<Rightarrow> (Err e, w)
     | Ok resolved \<Rightarrow>
         (case (st, resolved) of
            (PendingPhaseGate _ t, _) \<Rightarrow> resume_phase_gate ag i t d
          | (_, Some (history, pending)) \<Rightarrow> resume_tool_call_or_checkpoint ag later i st d history pending
          | (_, None) \<Rightarrow> eff_err Panicked) (reactivated now i w))"
proof -
  have "db_op (manager_get_interrupted i) w = (Ok (Some js), w)"
    by (simp add: db_op_def manager_read_defs eff_run assms(2))
  then show ?thesis
    using assms(1,3)
    by (simp add: resume_def owner_check eff_bind_run eff_bind_simps eff_run reactivate split: sum.split)
qed

text \<open>
  A resume that cannot be used changes nothing: with the wrong approval id, or on a
  persisted payload that no longer parses, the resume fails with that error and leaves the
  whole world as it was, the interrupt included, so the same request fails the same way
  again and the right one still works.
\<close>

theorem unusable_resume_changes_nothing:
  assumes "owned_by (w_db w) i u" "get_interrupted_state (w_db w) i = Ok (Some js)"
    and "state_from_text (ag_json ag) js = Ok st"
    and "approval_id_str st \<noteq> a \<or> resolve_payload ag st = Err e"
  shows "resume ag now later u i a d w =
    (Err (if approval_id_str st \<noteq> a then mismatch_error (approval_id_str st) a else e), w)"
  using resume_reads [OF assms(1-3)] assms(4) by auto

section \<open>What a decision executes\<close>

lemma run_chosen_started: "\<exists>tr. w_started (snd (run_chosen ag st mk ms active w)) = w_started w @ tr"
  using run_chosen_state [of ag st mk ms active w] by auto

lemma after_decision_started:
  assumes "resume_tool_call_or_checkpoint ag later i st d history pending w = (r, w')"
  shows "\<exists>tr. w_started w' = w_started (snd (decided ag (execution_tools ag st) pending d w)) @ tr"
  using assms unfolding resume_tool_call_or_checkpoint_def
proof (cases rule: eff_bind_cases)
  case (failed e)
  then show ?thesis by simp
next
  case obs: (went_on observation w1)
  let ?run = "run_chosen ag (strategy_for_resume ag (w_runs w1) (suspended_tools st))
     (resume_context i (resumed_skill ag st)) (history @ [text_message RoleUser observation]) (suspended_tools st)"
  have "eff_bind ?run (\<lambda>out. case out of Done response \<Rightarrow> eff_ok (OutDone response)
      | Interrupted intr \<Rightarrow> handle_tool_interrupt ag later i intr (resumed_skill ag st)) w1 = (r, w')"
    using obs(2) by (simp add: eff_bind_simps Let_def)
  moreover have "keeps w_started (case out of Done response \<Rightarrow> eff_ok (OutDone response)
      | Interrupted intr \<Rightarrow> handle_tool_interrupt ag later i intr (resumed_skill ag st))" for out
    unfolding handle_tool_interrupt_def
    by (auto split: strategy_outcome.split intro!: quiet_pure db_op_keeps)
  ultimately have "w_started w' = w_started (snd (?run w1))"
    by (elim eff_bind_cases) (auto dest: keepsD)
  then show ?thesis using run_chosen_started [of ag _ _ _ _ w1] obs(1) by auto
qed

lemma decided_started:
  "w_started (snd (decided ag tools pending d w)) = w_started w @
     (case d of Approved \<Rightarrow> started tools pending
      | Modified v \<Rightarrow> started tools (map (\<lambda>c. c\<lparr>call_args := v\<rparr>) (take 1 pending))
      | Rejected _ \<Rightarrow> [])"
  by (cases d; cases pending) (simp_all add: decided_def execute_directly_def eff_bind_def eff_run started_def)

lemma resume_tool_call:
  assumes "owned_by (w_db w) i u" "get_interrupted_state (w_db w) i = Ok (Some js)"
    and "state_from_text (ag_json ag) js = Ok st" "resolve_payload ag st = Ok (Some (history, pending))"
  shows "resume ag now later u i (approval_id_str st) d w
    = resume_tool_call_or_checkpoint ag later i st d history pending (reactivated now i w)"
  using resume_reads [OF assms(1-3)] assms(4) by (cases st) simp_all


lemma check_all_first_gated:
  assumes "\<And>p. p \<in> set pre \<Longrightarrow> \<not> gated ctx (call_name p)" "gated ctx (call_name c)"
  shows "check_all (context_hook cd submit ids ctx) (pre @ c # rest) q
    = context_check_tool cd submit ids ctx (call_name c) (call_args c) q"
  using assms
proof (induction pre)
  case Nil
  then have "fst (context_check_tool cd submit ids ctx (call_name c) (call_args c) q) \<noteq> None"
    by (simp add: context_check_None interrupt_kind_gated)
  then show ?case by (auto simp: context_hook_def split: prod.split option.split)
next
  case (Cons p pre)
  then have "interrupt_kind_for ctx (call_name p) (call_args p) = None" by (simp add: interrupt_kind_gated)
  then show ?case using Cons by (simp add: context_hook_def context_check_tool_def)
qed

text \<open>
  Approving one call releases its whole batch: of a batch of calls only the first
  gated one is ever submitted to the queue, yet when that approval is resumed every later
  call of the batch with a known tool is started too, gated or not. No approval hook runs
  for them and the queue is not asked.
\<close>

theorem approving_one_call_releases_the_batch:
  assumes "owned_by (w_db w) i u" "get_interrupted_state (w_db w) i = Ok (Some js)"
    and "state_from_text (ag_json ag) js = Ok st" "resolve_payload ag st = Ok (Some (history, pre @ c # rest))"
    and "resume ag now later u i (approval_id_str st) Approved w = (r, w')"
    and "\<And>p. p \<in> set pre \<Longrightarrow> \<not> gated ctx (call_name p)" "gated ctx (call_name c)"
  shows "check_all (context_hook cd submit ids ctx) (pre @ c # rest) q
      = context_check_tool cd submit ids ctx (call_name c) (call_args c) q
    \<and> (\<forall>d \<in> set rest. find_tool (execution_tools ag st) (call_name d) \<noteq> None \<longrightarrow>
         (call_name d, call_args d) \<in> set (w_started w'))"
proof -
  have "set (started (execution_tools ag st) (pre @ c # rest)) \<subseteq> set (w_started w')"
    using after_decision_started [of ag later i st Approved history "pre @ c # rest" "reactivated now i w" r w']
      resume_tool_call [OF assms(1-4)] assms(5) by (auto simp: decided_started)
  moreover have "check_all (context_hook cd submit ids ctx) (pre @ c # rest) q
      = context_check_tool cd submit ids ctx (call_name c) (call_args c) q"
    by (rule check_all_first_gated [OF assms(6,7)])
  ultimately show ?thesis by (auto simp: started_def)
qed

section \<open>A resume and the transcript\<close>

lemma decided_quiet: "keeps (transcripts ag) (decided ag' tools pending d)"
proof -
  have "keeps (transcripts ag) (execute_directly ag' ts cs)" for ts cs
    by (simp add: keeps_def execute_directly_def transcripts_def)
  then show ?thesis unfolding decided_def
    by (auto split: approval_decision.split list.split intro!: quiet_intros)
qed

lemma resume_quiet: "keeps (transcripts ag) (resume ag' now later u i a d)"
  unfolding resume_def resume_phase_gate_def apply_transition_def resume_tool_call_or_checkpoint_def Let_def
  by (auto split: option.split interrupted_state.split approval_decision.split strategy_outcome.split
      intro!: quiet_intros decided_quiet)

text \<open>
  A resumed run leaves no trace in the transcript: whatever the decision and however
  the run ends, answered or interrupted again, no message of the original request, of the
  decision or of the answer is ever appended to a transcript.
\<close>

theorem resume_never_appends:
  assumes "resume ag now later u i a d w = (r, w')"
  shows "transcripts ag w' = transcripts ag w"
  by (rule keepsD [OF resume_quiet assms])

lemma suspend_recorded:
  assumes "db' = snd (update_status now i Suspended (snd (set_interrupted_state i (Some js) db)))"
    and "owned_by db' i u"
  shows "get_interrupted_state db' i = Ok (Some js)"
proof -
  let ?f = "\<lambda>r. r\<lparr>row_interrupted := Some js\<rparr>"
  let ?g = "\<lambda>r. r\<lparr>row_status := status_to_str Suspended, row_updated_at := timestamp now\<rparr>"
  have f: "keeps_row ?f" "keeps_row ?g" by (simp_all add: keeps_row_def status_from_str_def)
  have db': "db' = snd (update_row i ?g (snd (update_row i ?f db)))"
    using assms(1) by (simp add: set_interrupted_state_def update_status_def)
  note live = owned_live [OF assms(2)]
  then obtain r where r: "find_row db' i = Some r" using find_row_None_iff [of db' i] by auto
  have "db_fault db = None" using live db' update_row_fault by metis
  then have "row_interrupted r = Some js"
    using r unfolding db'
    by (auto simp: find_row_update [OF f(1)] find_row_update [OF f(2)] update_row_fault simp del: status_to_str.simps)
  then show ?thesis using r live by (simp add: get_interrupted_state_def column_def query_def)
qed

lemma interrupt_recorded:
  assumes "handle_tool_interrupt ag now i intr skill w = (Ok (OutInterrupted a kind), w')" "owned_by (w_db w') i u"
  shows "a = int_approval_id intr \<and> get_interrupted_state (w_db w') i
    = Ok (Some (state_to_text (ag_json ag) (interrupt_state ag intr skill kind)))"
proof -
  have a: "a = int_approval_id intr"
    and db': "w_db w' = snd (update_status now i Suspended (snd (set_interrupted_state i
       (Some (state_to_text (ag_json ag) (interrupt_state ag intr skill kind))) (w_db w))))"
    using assms(1)
    by (auto simp: handle_tool_interrupt_def eff_bind_Ok_iff eff_run db_op_Ok_iff manager_defs)
  show ?thesis using a suspend_recorded [OF db' assms(2)] by simp
qed

text \<open>The payload of a recorded interrupt reads back, for texts the codec reads back.\<close>

lemma interrupt_resolves:
  assumes "history_from_text (ag_json ag) (history_to_text (ag_json ag) (int_history intr)) = Ok (int_history intr)"
    and "calls_from_text (ag_json ag) (calls_to_text (ag_json ag) (int_pending_calls intr)) = Ok (int_pending_calls intr)"
    and "calls_from_text (ag_json ag) ''[]'' = Ok []"
  shows "resolve_payload ag (interrupt_state ag intr skill kind) = Ok (Some (int_history intr,
      case kind of SkillCheckpoint _ _ \<Rightarrow> [] | _ \<Rightarrow> int_pending_calls intr))"
    "approval_id_str (interrupt_state ag intr skill kind) = int_approval_id intr"
  using assms by (auto simp: interrupt_state_def parse_resume_payload_def Let_def split: interrupt_kind.split)

text \<open>
  C10. An interrupt survives its persistence: after a turn's interrupt has been recorded,
  the resume that names its approval id continues with exactly the history, the pending
  calls (none for a checkpoint), the active tools and the skill text of the interrupt.
  Stated for texts the JSON codec reads back.
\<close>

theorem interrupt_round_trip:
  assumes "handle_tool_interrupt ag now i intr skill w = (Ok (OutInterrupted a kind), w')"
    and "owned_by (w_db w') i u" "st = interrupt_state ag intr skill kind"
    and "state_from_text (ag_json ag) (state_to_text (ag_json ag) st) = Ok st"
    and "history_from_text (ag_json ag) (history_to_text (ag_json ag) (int_history intr)) = Ok (int_history intr)"
    and "calls_from_text (ag_json ag) (calls_to_text (ag_json ag) (int_pending_calls intr)) = Ok (int_pending_calls intr)"
    and "calls_from_text (ag_json ag) ''[]'' = Ok []"
  shows "resume ag now1 later u i a d w' =
      resume_tool_call_or_checkpoint ag later i st d (int_history intr)
        (case kind of SkillCheckpoint _ _ \<Rightarrow> [] | _ \<Rightarrow> int_pending_calls intr) (reactivated now1 i w')
    \<and> suspended_tools st = int_active_tool_names intr
    \<and> suspended_skill st = map_option (skill_ctx_to_text (ag_json ag)) skill"
proof -
  note readback = interrupt_resolves [OF assms(5-7), of skill kind, folded assms(3)]
  have id: "approval_id_str st = a" "get_interrupted_state (w_db w') i = Ok (Some (state_to_text (ag_json ag) st))"
    using interrupt_recorded [OF assms(1,2)] assms(3) readback(2) by simp_all
  from resume_tool_call [OF assms(2) id(2) assms(4) readback(1), of now1 later d] show ?thesis
    using id(1) by (auto simp: assms(3) interrupt_state_def Let_def split: interrupt_kind.split)
qed

section \<open>On the sample agent\<close>

text \<open>The sample's session \<open>s1\<close>, interrupted.\<close>

definition sample_interrupt :: hitl_interrupt where
  "sample_interrupt = \<lparr>int_approval_id = ''w'', int_kind_json = ''kind'',
     int_history = [text_message RoleUser ''hi''],
     int_pending_calls = sample_calls,
     int_active_tool_names = [''calc'']\<rparr>"

definition sample_suspended :: "unit world" where
  "sample_suspended = snd (handle_tool_interrupt sample_agent 5 ''s1'' sample_interrupt None sample_world)"

definition sample_state :: interrupted_state where
  "sample_state = PendingToolCall ''w'' ''kind'' ''h'' ''c'' [''calc''] None"

lemma sample_owned: "owned_by (w_db sample_suspended) ''s1'' ''bob''"
proof -
  have "map_ok (map_option ses_user_id) (get (w_db sample_suspended) ''s1'') = Ok (Some ''bob'')" by code_simp
  then obtain found where "get (w_db sample_suspended) ''s1'' = Ok found" "map_option ses_user_id found = Some ''bob''"
    by (auto simp only: map_ok_Ok)
  then show ?thesis by (auto simp only: owned_by_def map_option_eq_Some)
qed

lemma sample_interrupted:
  "get_interrupted_state (w_db sample_suspended) ''s1'' = Ok (Some ''state'')"
  "state_from_text (ag_json sample_agent) ''state'' = Ok sample_state"
  "approval_id_str sample_state = ''w''"
  "resolve_payload sample_agent sample_state = Ok (Some ([text_message RoleUser ''hi''],
     [] @ \<lparr>call_id = ''a'', call_name = ''calc'', call_args = JNull\<rparr>
       # [\<lparr>call_id = ''b'', call_name = ''calc'', call_args = JString ''x''\<rparr>]))"
  by code_simp+

lemma unusable_resume_changes_nothing_witness:
  "snd (resume sample_agent 6 7 ''bob'' ''s1'' ''z'' Approved sample_suspended) = sample_suspended"
  using unusable_resume_changes_nothing [OF sample_owned sample_interrupted(1,2), of "''z''"] sample_interrupted(3)
  by simp


lemma resume_never_appends_witness:
  "transcripts sample_agent (snd (resume sample_agent 6 7 ''bob'' ''s1'' ''w'' Approved sample_suspended))
   = transcripts sample_agent sample_suspended"
  by (rule resume_never_appends [of _ 6 7 "''bob''" "''s1''" "''w''" Approved _
        "fst (resume sample_agent 6 7 ''bob'' ''s1'' ''w'' Approved sample_suspended)"]) simp

lemma approving_one_call_releases_the_batch_witness:
  "(''calc'', JString ''x'') \<in> set (w_started (snd (resume sample_agent 6 7 ''bob'' ''s1'' ''w'' Approved sample_suspended)))"
proof -
  obtain r w' where run: "resume sample_agent 6 7 ''bob'' ''s1'' ''w'' Approved sample_suspended = (r, w')" by force
  have known: "find_tool (execution_tools sample_agent sample_state) ''calc'' \<noteq> None" by code_simp
  let ?ctx = "new_context ''s1'' None (new_policy\<lparr>global_tool_blocklist := [''calc'']\<rparr>)"
  have "gated ?ctx ''calc''" by code_simp
  with known show ?thesis
    using approving_one_call_releases_the_batch [OF sample_owned sample_interrupted(1,2,4),
        unfolded sample_interrupted(3), OF run, of ?ctx, THEN conjunct2] run by simp
qed

lemma interrupt_round_trip_witness:
  "fst (resume sample_agent 6 7 ''bob'' ''s1'' ''w'' (Rejected ''no'') sample_suspended) =
     fst (resume_tool_call_or_checkpoint sample_agent 7 ''s1'' sample_state (Rejected ''no'')
       [text_message RoleUser ''hi''] sample_calls (reactivated 6 ''s1'' sample_suspended))"
proof -
  let ?kind = "ToolApproval ''exec_command'' JNull"
  have "fst (handle_tool_interrupt sample_agent 5 ''s1'' sample_interrupt None sample_world)
      = Ok (OutInterrupted ''w'' ?kind)" by code_simp
  then have run: "handle_tool_interrupt sample_agent 5 ''s1'' sample_interrupt None sample_world
      = (Ok (OutInterrupted ''w'' ?kind), sample_suspended)"
    by (simp add: sample_suspended_def prod_eq_iff)
  have codec: "interrupt_state sample_agent sample_interrupt None ?kind = sample_state"
    "state_from_text (ag_json sample_agent) (state_to_text (ag_json sample_agent) sample_state) = Ok sample_state"
    "history_from_text (ag_json sample_agent) (history_to_text (ag_json sample_agent) (int_history sample_interrupt))
       = Ok (int_history sample_interrupt)"
    "calls_from_text (ag_json sample_agent) (calls_to_text (ag_json sample_agent) (int_pending_calls sample_interrupt))
       = Ok (int_pending_calls sample_interrupt)"
    "calls_from_text (ag_json sample_agent) ''[]'' = Ok []" by code_simp+
  show ?thesis
    using interrupt_round_trip [OF run sample_owned codec(1) [symmetric] codec(2-5), of 6 7 "Rejected ''no''"]
    by (simp add: sample_interrupt_def)
qed

end
