(* ===== verification/Agent_Routing.thy ===== *)
theory Agent_Routing
  imports Agent_Resume
begin

text \<open>
  Phases and skills of a session (\<open>avs-agent/src/agent/routing.rs\<close>) and the policy an agent
  is built with (\<open>avs-agent/src/agent/builder.rs\<close>): the two directives that end a phase, the
  gate in front of a transition, sessions bound to a skill from the start, and the reload
  of the skill registry. Logging and metrics are left out.
\<close>

section \<open>The directives of a phase's output\<close>

definition blank :: "string \<Rightarrow> bool" where
  "blank l \<longleftrightarrow> trim l = []"

definition strip_blank_end :: "string list \<Rightarrow> string list" where
  "strip_blank_end ls = rev (dropWhile blank (rev ls))"

text \<open>The value of a directive on the last line, and the lines before it.\<close>

definition last_directive :: "string \<Rightarrow> string list \<Rightarrow> (string \<times> string list) option" where
  "last_directive key ls =
     (if ls = [] then None
      else case strip_prefix key (trim (List.last ls)) of
        None \<Rightarrow> None
      | Some v \<Rightarrow> if trim v = [] then None else Some (trim v, strip_blank_end (butlast ls)))"

definition parse_phase_transition :: "string \<Rightarrow> phase_transition option" where
  "parse_phase_transition output =
     (let ls = strip_blank_end (lines (trim_end output)) in
      if length ls < 2 then None
      else case last_directive ''SUMMARY:'' ls of
        None \<Rightarrow> None
      | Some (summary, ls1) \<Rightarrow>
          (case last_directive ''NEXT_SKILL:'' ls1 of
             None \<Rightarrow> None
           | Some (next_skill, ls2) \<Rightarrow>
               (let deliverable = join newline ls2 in
                if blank deliverable then None
                else Some \<lparr>pt_next_skill = next_skill, pt_summary = summary, pt_deliverable = deliverable\<rparr>)))"

section \<open>Transitions\<close>

definition no_registry :: string where
  "no_registry = ''no skill registry configured on this agent''"

definition create_session_with_skill ::
  "'q agent \<Rightarrow> instant \<Rightarrow> string \<Rightarrow> string \<Rightarrow> ('q, uuid) op" where
  "create_session_with_skill ag now user_id skill_id =
     eff_bind (eff_get w_skills) (\<lambda>skills. case skills of
        None \<Rightarrow> eff_err (skills_not_configured no_registry)
      | Some cfg \<Rightarrow>
          eff_bind (eff_lift (map_err SkillFailed (compile_context (cfg_registry cfg) skill_id))) (\<lambda>ctx.
          eff_bind (draw_id ag) (\<lambda>i.
            db_op (create_session_with_skill_context now i user_id (skill_ctx_to_text (ag_json ag) ctx)))))"

fun hitl_error_text :: "hitl_error \<Rightarrow> string" where
  "hitl_error_text (ApprovalNotFound i) = ''approval not found: '' @ i"
| "hitl_error_text (HitlDatabase m) = ''database error: '' @ m"
| "hitl_error_text (AlreadyResolved i) = ''already resolved: '' @ i"

text \<open>A request filed outside the hook: a failing queue is an error here.\<close>

definition file_request :: "'q agent \<Rightarrow> uuid \<Rightarrow> interrupt_kind \<Rightarrow> ('q, uuid) op" where
  "file_request ag i kind = (\<lambda>w.
     let req = new_request (ag_ids ag (w_ids w)) i kind;
         (r, q) = ag_submit ag req (w_queue w)
     in (map_err (\<lambda>e. SessionFailed (Database (hitl_error_text e))) r, w\<lparr>w_queue := q, w_ids := w_ids w + 1\<rparr>))"

text \<open>The skill the session is bound to; a context that does not parse counts as none.\<close>

definition current_skill_id :: "'q agent \<Rightarrow> uuid \<Rightarrow> ('q, string option) op" where
  "current_skill_id ag i =
     eff_bind (db_op (manager_get_skill_context i)) (\<lambda>found.
       eff_ok (map_option sc_skill_id
         (Option.bind found (\<lambda>j. case skill_ctx_from_text (ag_json ag) j of Ok c \<Rightarrow> Some c | Err _ \<Rightarrow> None))))"

text \<open>The skill whose phase gate stands in the way, if one does.\<close>

definition gating_skill :: "'q agent \<Rightarrow> uuid \<Rightarrow> ('q, string option) op" where
  "gating_skill ag i =
     (case ag_hitl ag of
        None \<Rightarrow> eff_ok None
      | Some policy \<Rightarrow>
          eff_bind (current_skill_id ag i) (\<lambda>cur. eff_ok
            (case cur of Some s \<Rightarrow> if requires_phase_gate policy s then Some s else None | None \<Rightarrow> None)))"

definition suspend_at_gate ::
  "'q agent \<Rightarrow> instant \<Rightarrow> uuid \<Rightarrow> string \<Rightarrow> phase_transition \<Rightarrow> ('q, phase_advance_result option) op" where
  "suspend_at_gate ag now i skill_id t =
     eff_bind (file_request ag i (PhaseGate skill_id (pt_next_skill t) (pt_deliverable t))) (\<lambda>approval_id.
     eff_seq (db_op (manager_set_interrupted i (Some (state_to_text (ag_json ag)
         (PendingPhaseGate approval_id (transition_to_text (ag_json ag) t))))))
       (eff_seq (db_op (manager_update_status now i Suspended))
         (eff_ok (Some (PendingGate approval_id)))))"

definition advance_phase ::
  "'q agent \<Rightarrow> instant \<Rightarrow> string \<Rightarrow> uuid \<Rightarrow> string \<Rightarrow> ('q, phase_advance_result option) op" where
  "advance_phase ag now user_id i output =
     eff_seq (db_op (assert_owner user_id i))
       (case parse_phase_transition output of
          None \<Rightarrow> eff_ok None
        | Some t \<Rightarrow>
            eff_bind (gating_skill ag i) (\<lambda>gate. case gate of
               Some skill_id \<Rightarrow> suspend_at_gate ag now i skill_id t
             | None \<Rightarrow>
                 eff_seq (apply_transition ag i no_registry t) (eff_ok (Some (Advanced t)))))"

text \<open>The registry is replaced and the caches rebuilt; the policy the agent has stays. The
  directory is read at the time of the call: \<open>disk\<close> is what it holds.\<close>

type_synonym skill_disk = "(string + fs list) option \<times> (string + fs list) option"

definition reload_skills ::
  "(string \<Rightarrow> string + skill_frontmatter) \<Rightarrow> skill_disk \<Rightarrow> ('q, unit) op" where
  "reload_skills yaml disk =
     eff_bind (eff_get w_skills) (\<lambda>skills. case skills of
        None \<Rightarrow> eff_err (skills_not_configured ''no skills configured on this agent'')
      | Some cfg \<Rightarrow>
          eff_bind (eff_lift (map_err SkillFailed
              (load_with_trusted_system_skills yaml (fst disk) (snd disk)))) (\<lambda>(reg, _).
            eff_mod (\<lambda>w. w\<lparr>w_skills := Some ((rebuild_caches reg cfg)\<lparr>cfg_registry := reg\<rparr>)\<rparr>)))"

section \<open>Building an agent\<close>

text \<open>The approval policy: the one given, or one derived from the trusted system skills
  when any of them declares an approval.\<close>

definition declares_hitl :: "skill \<Rightarrow> bool" where
  "declares_hitl sk \<longleftrightarrow> sk_hitl_tools sk \<noteq> [] \<or> sk_phase_gate sk \<or> sk_checkpoints sk \<noteq> []"

definition built_policy :: "hitl_policy option \<Rightarrow> skill_config option \<Rightarrow> hitl_policy option" where
  "built_policy given skills =
     (case given of
        Some p \<Rightarrow> Some p
      | None \<Rightarrow>
          (case skills of
             None \<Rightarrow> None
           | Some cfg \<Rightarrow>
               if list_ex declares_hitl (cfg_trusted cfg) then Some (from_system_skills (cfg_trusted cfg)) else None))"

section \<open>Reading the directives back\<close>

lemma split_on_join:
  assumes "ls \<noteq> []" "\<And>l. l \<in> set ls \<Longrightarrow> CHR 0x0A \<notin> set l"
  shows "split_on (\<lambda>c. c = CHR 0x0A) (join newline ls) = ls"
proof -
  have one: "CHR 0x0A \<notin> set l \<Longrightarrow> split_on (\<lambda>c. c = CHR 0x0A) l = [l]" for l :: string
    by (induction l) auto
  have more: "CHR 0x0A \<notin> set l \<Longrightarrow>
      split_on (\<lambda>c. c = CHR 0x0A) (l @ newline @ t) = l # split_on (\<lambda>c. c = CHR 0x0A) t" for l t :: string
    by (induction l) auto
  show ?thesis using assms
    by (induction newline ls rule: join.induct) (simp_all add: one more del: append_Cons)
qed

definition one_line :: "string \<Rightarrow> bool" where
  "one_line l \<longleftrightarrow> CHR 0x0A \<notin> set l \<and> strip_cr l = l"

lemma lines_join:
  assumes "ls \<noteq> []" "\<And>l. l \<in> set ls \<Longrightarrow> one_line l" "List.last ls \<noteq> []"
  shows "lines (join newline ls) = ls"
proof -
  have "split_on (\<lambda>c. c = CHR 0x0A) (join newline ls) = ls"
    by (rule split_on_join) (use assms(1,2) in \<open>auto simp: one_line_def\<close>)
  then show ?thesis using assms by (simp add: lines_def Let_def one_line_def map_idI)
qed

lemma trim_end_snoc: "trim_end (xs @ [c]) = (if is_ws c then trim_end xs else xs @ [c])"
  by (simp add: trim_end_def)

lemma trim_end_length: "length (trim_end s) \<le> length s"
  using length_dropWhile_le [of is_ws "rev s"] by (simp add: trim_end_def)

lemma trim_end_id: "trim_end s = s \<longleftrightarrow> s = [] \<or> \<not> is_ws (List.last s)"
proof (cases s rule: rev_cases)
  case (snoc xs c)
  have "trim_end xs \<noteq> xs @ [c]"
  proof
    assume "trim_end xs = xs @ [c]"
    then show False using trim_end_length [of xs] by simp
  qed
  then show ?thesis by (simp add: snoc trim_end_snoc)
qed (simp add: trim_end_def)

lemma trim_id: "trim s = s \<longleftrightarrow> s = [] \<or> (\<not> is_ws (hd s) \<and> \<not> is_ws (List.last s))"
proof (cases s)
  case (Cons c cs)
  show ?thesis
  proof (cases "is_ws c")
    case True
    then have "length (trim s) \<le> length cs"
      using trim_end_length [of "dropWhile is_ws cs"] length_dropWhile_le [of is_ws cs]
      by (simp add: Cons trim_def trim_start_def)
    then have "trim s \<noteq> s" using Cons by fastforce
    then show ?thesis using True Cons by simp
  next
    case False
    then have "trim s = trim_end s" by (simp add: Cons trim_def trim_start_def)
    then show ?thesis using False trim_end_id [of s] Cons by simp
  qed
qed (simp add: trim_def trim_start_def trim_end_def)

text \<open>A directive's line: its key, a space and a trimmed value.\<close>

definition directive_line :: "string \<Rightarrow> string \<Rightarrow> string" where
  "directive_line key v = key @ '' '' @ v"

definition directive_value :: "string \<Rightarrow> bool" where
  "directive_value v \<longleftrightarrow> v \<noteq> [] \<and> trim v = v \<and> CHR 0x0A \<notin> set v"

definition directive_key :: "string \<Rightarrow> bool" where
  "directive_key key \<longleftrightarrow> key \<noteq> [] \<and> \<not> is_ws (hd key) \<and> CHR 0x0A \<notin> set key"

lemma directive_line_facts:
  assumes "directive_key key" "directive_value v"
  shows "one_line (directive_line key v)" "trim (directive_line key v) = directive_line key v"
    "directive_line key v \<noteq> []" "\<not> blank (directive_line key v)" "\<not> is_ws (List.last (directive_line key v))"
    "last_directive key (ls @ [directive_line key v]) = Some (v, strip_blank_end ls)"
proof -
  have v: "v \<noteq> []" "\<not> is_ws (hd v)" "\<not> is_ws (List.last v)" "CHR 0x0A \<notin> set v"
    using assms(2) trim_id [of v] by (auto simp: directive_value_def)
  have key: "key \<noteq> []" "\<not> is_ws (hd key)" "CHR 0x0A \<notin> set key"
    using assms(1) by (auto simp: directive_key_def)
  show last: "\<not> is_ws (List.last (directive_line key v))" using v by (simp add: directive_line_def)
  show ne: "directive_line key v \<noteq> []" using key by (simp add: directive_line_def)
  show tr: "trim (directive_line key v) = directive_line key v"
    using key(1,2) last by (simp add: trim_id directive_line_def)
  then show "\<not> blank (directive_line key v)" using ne by (simp add: blank_def)
  have "List.last (directive_line key v) \<noteq> CHR 0x0D" using last by (auto simp: is_ws_def)
  then show "one_line (directive_line key v)"
    using v(4) key(3) by (auto simp: one_line_def strip_cr_def directive_line_def)
  have "trim ('' '' @ v) = v"
    using v trim_end_id [of v] by (cases v) (auto simp: trim_def trim_start_def is_ws_def)
  then show "last_directive key (ls @ [directive_line key v]) = Some (v, strip_blank_end ls)"
    using tr v(1) by (simp add: last_directive_def) (simp add: directive_line_def)
qed

lemma strip_blank_end_id: "ls \<noteq> [] \<Longrightarrow> \<not> blank (List.last ls) \<Longrightarrow> strip_blank_end ls = ls"
  by (cases ls rule: rev_cases) (simp_all add: strip_blank_end_def)

lemma strip_blank_end_gap: "list_all blank gap \<Longrightarrow> strip_blank_end (ls @ gap) = strip_blank_end ls"
  by (simp add: strip_blank_end_def list_all_iff dropWhile_append1 dropWhile_append)

lemma blank_iff: "blank l \<longleftrightarrow> (\<forall>c \<in> set l. is_ws c)"
proof -
  have "trim_end t = [] \<longleftrightarrow> (\<forall>c \<in> set t. is_ws c)" for t by (simp add: trim_end_def dropWhile_eq_Nil_conv)
  then have "blank l \<longleftrightarrow> (\<forall>c \<in> set (dropWhile is_ws l). is_ws c)" by (simp add: blank_def trim_def trim_start_def)
  also have "\<dots> \<longleftrightarrow> (\<forall>c \<in> set l. is_ws c)"
    using takeWhile_dropWhile_id [of is_ws l] set_takeWhileD [of _ is_ws l] by (metis Un_iff set_append)
  finally show ?thesis .
qed

lemma join_pieces: "l \<in> set ls \<Longrightarrow> set l \<subseteq> set (join sep ls)"
  by (induction sep ls rule: join.induct) auto

lemma last_join:
  "ls \<noteq> [] \<Longrightarrow> List.last ls \<noteq> [] \<Longrightarrow> join sep ls \<noteq> [] \<and> List.last (join sep ls) = List.last (List.last ls)"
  by (induction sep ls rule: join.induct) (auto split: if_splits)

text \<open>
  The directives that end a phase are read back: an output of any lines whose last is
  not blank, followed by the two directives, with any blank lines in front of each, parses
  to the named skill, the summary and the lines before as the deliverable.
\<close>

theorem phase_directives_read_back:
  assumes "ls \<noteq> []" "\<not> blank (List.last ls)" "\<And>l. l \<in> set (ls @ gap1 @ gap2) \<Longrightarrow> one_line l"
    and "list_all blank gap1" "list_all blank gap2" "directive_value next_skill" "directive_value summary"
  shows "parse_phase_transition (join newline (ls @ gap1 @ [directive_line ''NEXT_SKILL:'' next_skill]
      @ gap2 @ [directive_line ''SUMMARY:'' summary]))
    = Some \<lparr>pt_next_skill = next_skill, pt_summary = summary, pt_deliverable = join newline ls\<rparr>"
proof -
  let ?n = "directive_line ''NEXT_SKILL:'' next_skill" and ?s = "directive_line ''SUMMARY:'' summary"
  let ?all = "ls @ gap1 @ [?n] @ gap2 @ [?s]"
  have keys: "directive_key ''NEXT_SKILL:''" "directive_key ''SUMMARY:''"
    by (simp_all add: directive_key_def is_ws_def)
  note n = directive_line_facts [OF keys(1) assms(6)] and sm = directive_line_facts [OF keys(2) assms(7)]
  have last_all: "List.last ?all = ?s" by simp
  have "lines (join newline ?all) = ?all"
    by (rule lines_join) (use assms(1,3) n(1) sm(1,3) in auto)
  moreover have "trim_end (join newline ?all) = join newline ?all"
    using last_join [of ?all newline] sm(3,5) by (simp add: trim_end_id last_all)
  moreover have "strip_blank_end ?all = ?all" using strip_blank_end_id [of ?all] sm(4) last_all by simp
  ultimately have read: "strip_blank_end (lines (trim_end (join newline ?all))) = ?all" by simp
  have summary: "last_directive ''SUMMARY:'' ?all = Some (summary, ls @ gap1 @ [?n])"
    using sm(6) [of "ls @ gap1 @ [?n] @ gap2"] strip_blank_end_gap [OF assms(5), of "ls @ gap1 @ [?n]"]
      strip_blank_end_id [of "ls @ gap1 @ [?n]"] n(4) by simp
  have skill: "last_directive ''NEXT_SKILL:'' (ls @ gap1 @ [?n]) = Some (next_skill, ls)"
    using n(6) [of "ls @ gap1"] strip_blank_end_gap [OF assms(4), of ls] strip_blank_end_id [OF assms(1,2)] by simp
  have "\<not> blank (join newline ls)"
    using assms(1,2) join_pieces [of "List.last ls" ls newline] by (auto simp: blank_iff)
  then show ?thesis unfolding parse_phase_transition_def Let_def read summary by (simp add: skill)
qed

lemma phase_directives_read_back_witness:
  "parse_phase_transition (join newline ([''the plan''] @ [[]] @ [directive_line ''NEXT_SKILL:'' ''bill'']
      @ [] @ [directive_line ''SUMMARY:'' ''all set'']))
    = Some \<lparr>pt_next_skill = ''bill'', pt_summary = ''all set'', pt_deliverable = join newline [''the plan'']\<rparr>"
  by (rule phase_directives_read_back)
     (auto simp: blank_iff is_ws_def one_line_def strip_cr_def directive_value_def trim_id)

section \<open>The gate\<close>

text \<open>The columns a transition would change.\<close>

type_synonym columns = "(session_memory_error + string option) \<times> (session_memory_error + string option)"

definition phase_columns :: "'q world \<Rightarrow> uuid \<Rightarrow> columns" where
  "phase_columns w i = (get_skill_context (w_db w) i, get_phase_opening_context (w_db w) i)"

lemma column_update:
  assumes "keeps_row g" "\<And>r. f (g r) = f r"
  shows "column f (snd (update_row i g db)) j = column f db j"
  using assms(2) find_row_update [OF assms(1), of i db j]
  by (auto simp: column_def query_def update_row_fault split: option.split)

lemma db_op_columns:
  fixes m :: "'a db_eff"
  assumes "\<And>db j. column row_skill_context (snd (m db)) j = column row_skill_context db j"
    and "\<And>db j. column row_phase_context (snd (m db)) j = column row_phase_context db j"
  shows "keeps phase_columns (db_op m)"
  using assms unfolding keeps_def
  by (auto simp: phase_columns_def db_op_def get_skill_context_def get_phase_opening_context_def fun_eq_iff
      split: prod.split) (metis snd_conv)+

lemma suspend_keeps_columns:
  "keeps phase_columns (db_op (manager_set_interrupted i st))" "keeps phase_columns (db_op (manager_update_status now i s))"
  by (rule db_op_columns; simp add: manager_defs set_interrupted_state_def update_status_def column_update keeps_row_def)+

lemma file_request_db: "keeps w_db (file_request ag i kind)"
  by (simp add: keeps_def file_request_def Let_def split: prod.split)

lemma phase_columns_db: "keeps w_db m \<Longrightarrow> keeps phase_columns m"
  by (simp add: keeps_def phase_columns_def fun_eq_iff)

lemma gating_skill_run:
  assumes "ag_hitl ag = Some policy" "get_skill_context (w_db w) i = Ok found"
  shows "gating_skill ag i w =
    (Ok (case Option.bind found (\<lambda>j. case skill_ctx_from_text (ag_json ag) j of Ok c \<Rightarrow> Some c | Err _ \<Rightarrow> None) of
        Some c \<Rightarrow> if requires_phase_gate policy (sc_skill_id c) then Some (sc_skill_id c) else None
      | None \<Rightarrow> None), w)"
  using assms
  by (auto simp: gating_skill_def current_skill_id_def eff_bind_def eff_run db_op_def manager_read_defs
      split: option.split)

text \<open>
  A gated phase never advances by itself: while the session's skill requires a phase
  gate, no output of the phase makes \<open>advance_phase\<close> apply a transition, and the skill and
  the opening context of every session stay as they are, whatever the queue answers.
\<close>

theorem gated_phase_waits_for_approval:
  assumes "ag_hitl ag = Some policy" "get_skill_context (w_db w) i = Ok (Some js)"
    and "skill_ctx_from_text (ag_json ag) js = Ok ctx" "requires_phase_gate policy (sc_skill_id ctx)"
    and "advance_phase ag now u i output w = (r, w')"
  shows "(\<forall>t. r \<noteq> Ok (Some (Advanced t))) \<and> phase_columns w' = phase_columns w"
proof -
  have gate: "gating_skill ag i w = (Ok (Some (sc_skill_id ctx)), w)"
    using gating_skill_run [OF assms(1,2)] assms(3,4) by simp
  have quiet: "keeps phase_columns (suspend_at_gate ag now i s t)" for s t
    unfolding suspend_at_gate_def
    by (rule keeps_bind phase_columns_db [OF file_request_db] suspend_keeps_columns keeps_pure)+
  have waits: "suspend_at_gate ag now i s t w \<noteq> (Ok (Some (Advanced t')), w')" for s t t'
    by (auto simp: suspend_at_gate_def eff_bind_Ok_iff eff_run)
  note gated_bind = eff_bind_run(1) [where m = "gating_skill ag i", OF gate]
  show ?thesis
    using assms(5) waits keepsD [OF quiet]
    by (auto simp: advance_phase_def owner_check gated_bind eff_run split: if_splits option.splits)
qed

text \<open>
  A skill context that does not parse opens the gate: the check treats it as a session
  without a skill, so a transition is applied at once though the skill the session is
  bound to requires an approval. (A turn on the same session fails with the JSON error.)
\<close>

theorem unreadable_skill_context_opens_the_gate:
  assumes "owned_by (w_db w) i u" "ag_hitl ag = Some policy" "get_skill_context (w_db w) i = Ok (Some js)"
    and "skill_ctx_from_text (ag_json ag) js = Err e" "parse_phase_transition output = Some t"
    and "w_skills w = Some cfg" "compile_context (cfg_registry cfg) (pt_next_skill t) = Ok ctx"
  shows "fst (advance_phase ag now u i output w) = Ok (Some (Advanced t))
    \<and> fst (resolve_skill ag i input w) = Err (JsonFailed e)"
proof -
  have gate: "gating_skill ag i w = (Ok None, w)" using gating_skill_run [OF assms(2,3)] assms(4) by simp
  note live = owned_live [OF assms(1)]
  have "fst (manager_apply_phase_transition i sc pc (w_db w)) = Ok ()" for sc pc
    using update_row_live(1) [OF _ live [THEN conjunct1] live [THEN conjunct2],
        of "\<lambda>r. r\<lparr>row_skill_context := Some sc, row_phase_context := Some pc\<rparr>"]
    by (simp add: manager_defs apply_phase_transition_def keeps_row_def)
  then have applied: "\<exists>w2. apply_transition ag i no_registry t w = (Ok (), w2)"
    using assms(6,7)
    by (auto simp: apply_transition_def eff_bind_simps db_op_def split: prod.split) (metis fst_conv map_err_simps(2))
  have "fst (resolve_skill ag i input w) = Err (JsonFailed e)"
    using assms(3,4) by (simp add: resolve_skill_def eff_bind_def db_op_def manager_read_defs eff_run)
  note gated_bind = eff_bind_run(1) [where m = "gating_skill ag i", OF gate]
  show ?thesis
    using assms(1,5) applied \<open>fst (resolve_skill ag i input w) = Err (JsonFailed e)\<close>
    by (auto simp: advance_phase_def owner_check gated_bind eff_bind_run eff_run)
qed

section \<open>The decision of a gate\<close>

lemma owned_update:
  assumes "keeps_row g" "\<And>r. row_user_id (g r) = row_user_id r"
  shows "owned_by (snd (update_row i g db)) j u = owned_by db j u"
  using assms(2) find_row_update [OF assms(1), of i db j]
  by (auto simp: owned_by_def get_def query_def update_row_fault row_to_session_def split: option.splits)

lemma suspended_owned:
  "owned_by (snd (update_status now i st (snd (set_interrupted_state i js db)))) j u = owned_by db j u"
  by (simp add: set_interrupted_state_def update_status_def owned_update keeps_row_def)

lemma suspended_columns:
  "column row_skill_context (snd (update_status now i st (snd (set_interrupted_state i js db)))) j
    = column row_skill_context db j"
  "column row_phase_context (snd (update_status now i st (snd (set_interrupted_state i js db)))) j
    = column row_phase_context db j"
  by (simp_all add: set_interrupted_state_def update_status_def column_update keeps_row_def)

lemma reactivated_columns: "phase_columns (reactivated now i w) = phase_columns w"
  by (simp add: reactivated_def phase_columns_def fun_eq_iff get_skill_context_def get_phase_opening_context_def
      suspended_columns)

lemma gating_skill_state: "gating_skill ag i w = (r, w2) \<Longrightarrow> w2 = w"
  by (auto simp: gating_skill_def current_skill_id_def eff_bind_def eff_run db_op_def manager_read_defs
      split: option.splits sum.splits)

lemma pending_gate_suspends:
  assumes "advance_phase ag now u i output w = (Ok (Some (PendingGate a)), w')" "parse_phase_transition output = Some t"
  shows "owned_by (w_db w) i u \<and> w_skills w' = w_skills w \<and> phase_columns w' = phase_columns w
    \<and> w_db w' = snd (update_status now i Suspended (snd (set_interrupted_state i (Some (state_to_text (ag_json ag)
         (PendingPhaseGate a (transition_to_text (ag_json ag) t)))) (w_db w))))"
proof -
  have own: "owned_by (w_db w) i u" using assms(1) by (auto simp: advance_phase_def owner_check split: if_splits)
  then obtain s where "suspend_at_gate ag now i s t w = (Ok (Some (PendingGate a)), w')"
    using assms by (auto simp: advance_phase_def owner_check eff_bind_Ok_iff eff_run
        dest!: gating_skill_state split: option.splits)
  then obtain w1 where w1: "file_request ag i (PhaseGate s (pt_next_skill t) (pt_deliverable t)) w = (Ok a, w1)"
    and w': "w_db w' = snd (update_status now i Suspended (snd (set_interrupted_state i (Some (state_to_text (ag_json ag)
         (PendingPhaseGate a (transition_to_text (ag_json ag) t)))) (w_db w1))))" "w_skills w' = w_skills w1"
    by (auto simp: suspend_at_gate_def eff_bind_Ok_iff eff_run db_op_Ok_iff manager_defs)
  have "w_db w1 = w_db w" by (rule keepsD [OF file_request_db w1])
  moreover have "w_skills w1 = w_skills w" using w1 by (auto simp: file_request_def Let_def split: prod.splits)
  moreover have "phase_columns w' = phase_columns w"
    unfolding phase_columns_def w'(1) calculation(1) get_skill_context_def get_phase_opening_context_def
    by (simp add: suspended_columns)
  ultimately show ?thesis using own w' by simp
qed


section \<open>On the sample agent\<close>

definition sample_ctx_bill :: skill_context where
  "sample_ctx_bill = \<lparr>sc_skill_id = ''bill'', sc_instructions = ''x'', sc_documents = [], sc_tools = [''grep''],
     sc_max_iterations = None\<rparr>"

text \<open>An agent whose policy gates the phases of \<open>bill\<close>, in a world bound to that skill.\<close>

definition sample_gated :: "unit agent" where
  "sample_gated = sample_agent\<lparr>ag_json := sample_agent_codec\<lparr>skill_ctx_from_text := \<lambda>_. Ok sample_ctx_bill,
     state_from_text := \<lambda>_. Ok (PendingPhaseGate ''a'' ''t'')\<rparr>,
     ag_hitl := Some (from_system_skills [sample_skill ''x''])\<rparr>"

definition sample_gated_world :: "unit world" where
  "sample_gated_world = sample_world\<lparr>w_db := snd (set_skill_context ''s1'' (Some ''ctx'') sample_db),
     w_skills := Some \<lparr>cfg_registry = [(''bill'', sample_skill ''x'', ''p'')], cfg_trusted = [sample_skill ''x''],
       cfg_mode = Open, cfg_threshold = None, cfg_summaries = [], cfg_ids = [''bill'']\<rparr>\<rparr>"

definition sample_output :: string where
  "sample_output = ''d'' @ newline @ ''NEXT_SKILL: bill'' @ newline @ ''SUMMARY: s''"

definition sample_transition :: phase_transition where
  "sample_transition = \<lparr>pt_next_skill = ''bill'', pt_summary = ''s'', pt_deliverable = ''d''\<rparr>"

lemma sample_parses: "parse_phase_transition sample_output = Some sample_transition"
  by code_simp

lemma sample_gated_facts:
  "ag_hitl sample_gated = Some (from_system_skills [sample_skill ''x''])"
  "get_skill_context (w_db sample_gated_world) ''s1'' = Ok (Some ''ctx'')"
  "skill_ctx_from_text (ag_json sample_gated) ''ctx'' = Ok sample_ctx_bill"
  "requires_phase_gate (from_system_skills [sample_skill ''x'']) (sc_skill_id sample_ctx_bill)"
  by (simp add: sample_gated_def) code_simp+

lemma gated_phase_waits_for_approval_witness:
  "phase_columns (snd (advance_phase sample_gated 8 ''bob'' ''s1'' sample_output sample_gated_world)) ''s1''
   = (Ok (Some ''ctx''), Ok None)"
proof -
  have "phase_columns sample_gated_world ''s1'' = (Ok (Some ''ctx''), Ok None)" by code_simp
  then show ?thesis
    using gated_phase_waits_for_approval [OF sample_gated_facts, of 8 "''bob''" sample_output
        "fst (advance_phase sample_gated 8 ''bob'' ''s1'' sample_output sample_gated_world)"
        "snd (advance_phase sample_gated 8 ''bob'' ''s1'' sample_output sample_gated_world)"] by simp
qed

lemma unreadable_skill_context_opens_the_gate_witness:
  "fst (advance_phase (sample_gated\<lparr>ag_json := sample_agent_codec\<rparr>) 8 ''bob'' ''s1'' sample_output sample_gated_world)
   = Ok (Some (Advanced sample_transition))"
proof -
  let ?ag = "sample_gated\<lparr>ag_json := sample_agent_codec\<rparr>"
  let ?cfg = "the (w_skills sample_gated_world)"
  have "owned_by (w_db sample_gated_world) ''s1'' ''bob''"
    using owned_update [of "\<lambda>r. r\<lparr>row_skill_context := Some ''ctx''\<rparr>" "''s1''" sample_db "''s1''" "''bob''"]
    by (simp add: sample_gated_world_def set_skill_context_def keeps_row_def owned_by_def get_def find_row_def
        query_def row_to_session_def sample_db_def sample_eval)
  moreover have "ag_hitl ?ag = Some (from_system_skills [sample_skill ''x''])" by (simp add: sample_gated_def)
  moreover have "skill_ctx_from_text (ag_json ?ag) ''ctx'' = Err ''none''" by (simp add: sample_agent_codec_def)
  moreover have "w_skills sample_gated_world = Some ?cfg"
    "compile_context (cfg_registry ?cfg) (pt_next_skill sample_transition) = Ok sample_ctx_bill" by code_simp+
  ultimately show ?thesis
    using unreadable_skill_context_opens_the_gate [OF _ _ sample_gated_facts(2) _ sample_parses] by blast
qed


end
