(* ===== verification/Agent_Cache.thy ===== *)
theory Agent_Cache
  imports Agent_Routing
begin

text \<open>
  What a turn does to the cache in front of the transcripts (\<open>avs-agent/src/agent/invoke.rs\<close>,
  \<open>avs-memory/src/working.rs\<close>): it keeps the cache coherent with the store, except across a
  phase transition, whose cut of the history lasts as long as the cache entry does.
\<close>

section \<open>What the stages do to the cache\<close>

lemma resolve_skill_cache: "keeps w_cache (resolve_skill ag i input)"
  unfolding resolve_skill_def by (intro keeps_pure keeps_bind db_op_keeps) (auto split: option.split intro!: keeps_pure keeps_bind db_op_keeps)

lemma resolve_skill_quiet: "keeps (transcripts ag) (resolve_skill ag' i input)"
  unfolding resolve_skill_def
  by (intro quiet_intros) (auto split: option.split intro!: quiet_intros)

text \<open>A turn without a phase's opening context reads the history through the cache.\<close>

definition no_phase_context :: "'q world \<Rightarrow> uuid \<Rightarrow> bool" where
  "no_phase_context w i \<longleftrightarrow> w_skills w = None \<or> get_phase_opening_context (w_db w) i = Ok None"

lemma opening_turn_plain:
  assumes "no_phase_context w i"
  shows "opening_turn ag now u i input w
    = eff_bind (get_cache_memory ag now u i) (\<lambda>history. eff_ok (history, input)) w"
  using assms
  by (auto simp: opening_turn_def no_phase_context_def eff_bind_def eff_run db_op_def manager_read_defs split: option.splits)

lemma get_cache_memory_run:
  "get_cache_memory ag now u i w =
     (case cache_load now u i (w_cache w) of
        Some ms \<Rightarrow> (Ok ms, w)
      | None \<Rightarrow> (case transcripts ag w i of
           Err e \<Rightarrow> (Err (SessionFailed e), w)
         | Ok ms \<Rightarrow> (Ok ms, w\<lparr>w_cache := cache_store now u i ms (w_cache w)\<rparr>)))"
  by (auto simp: get_cache_memory_def eff_bind_def eff_run db_op_def manager_read_defs transcripts_def on_cache_def
      split: option.split sum.split)

definition coherent_world :: "'q agent \<Rightarrow> instant \<Rightarrow> 'q world \<Rightarrow> bool" where
  "coherent_world ag now w \<longleftrightarrow> cache_inv (w_cache w)
     \<and> (\<exists>l2. transcripts ag w = (\<lambda>i. Ok (l2 i)) \<and> cache.coherent l2 now (w_cache w))"

lemma rehydrated:
  assumes "coherent_world ag now w" "get_cache_memory ag now u i w = (Ok history, w')"
  shows "coherent_world ag now w' \<and> cache_load now u i (w_cache w') = Some history
    \<and> transcripts ag w' = transcripts ag w
    \<and> (\<forall>v t. v \<noteq> u \<longrightarrow> now \<le> t \<longrightarrow> cache_load t v i (w_cache w') = cache_load t v i (w_cache w))"
proof -
  obtain l2 where l2: "transcripts ag w = (\<lambda>i. Ok (l2 i))" "cache.coherent l2 now (w_cache w)" "cache_inv (w_cache w)"
    using assms(1) by (auto simp: coherent_world_def)
  show ?thesis
  proof (cases "cache_load now u i (w_cache w)")
    case None
    then have w': "w' = w\<lparr>w_cache := cache_store now u i (l2 i) (w_cache w)\<rparr>" "history = l2 i"
      using assms(2) l2(1) by (auto simp: get_cache_memory_run)
    have "cache.coherent l2 now (cache_store now u i (l2 i) (w_cache w))"
      by (rule cache.coherent_rehydrate [OF l2(3,2)])
    moreover have "transcripts ag w' = transcripts ag w" by (simp add: w' transcripts_def)
    ultimately show ?thesis
      using l2 cache_ops_inv(1) [OF l2(3)] cache_load_now [OF l2(3)] cache_load_store_other [OF l2(3)]
      by (auto simp: coherent_world_def w')
  next
    case (Some ms)
    then show ?thesis using assms by (simp add: get_cache_memory_run)
  qed
qed

lemma coherent_world_cong:
  "w_cache w' = w_cache w \<Longrightarrow> transcripts ag w' = transcripts ag w \<Longrightarrow> coherent_world ag now w \<Longrightarrow> coherent_world ag now w'"
  by (simp add: coherent_world_def)

lemma coherent_world_later: "coherent_world ag now w \<Longrightarrow> now \<le> later \<Longrightarrow> coherent_world ag later w"
  using cache.coherent_later by (auto simp: coherent_world_def)

text \<open>What \<open>prepare\<close> does after the opening.\<close>

definition prepare_rest ::
  "'q agent \<Rightarrow> string \<Rightarrow> uuid \<Rightarrow> string \<Rightarrow> message list \<times> string \<Rightarrow> ('q, 'q prepared) op" where
  "prepare_rest ag u i input opened = (case opened of (history, effective_input) \<Rightarrow>
     eff_bind (resolve_skill ag i input) (\<lambda>(skill_ctx, summaries_block).
     eff_bind (eff_get w_longterm) (\<lambda>stored.
     eff_bind (eff_get w_runs) (\<lambda>n.
       let active = active_tools ag skill_ctx;
           messages = assemble_messages_with_context (assemble_system ag skill_ctx summaries_block)
             (long_term_text ag stored u effective_input) history effective_input
       in eff_bind (eff_lift (strategy_for_invoke ag n effective_input active)) (\<lambda>strategy.
            eff_ok \<lparr>pr_strategy = strategy, pr_messages = messages, pr_active = active,
                    pr_skill = skill_ctx, pr_input = effective_input\<rparr>)))))"

lemma prepare_split: "prepare ag now u i input = eff_bind (opening_turn ag now u i input) (prepare_rest ag u i input)"
  by (simp add: prepare_def prepare_rest_def [abs_def])

lemma prepare_cache:
  assumes "prepare ag now u i input w = (r, w')"
  obtains (failed) e where "opening_turn ag now u i input w = (Err e, w')" "r = Err e"
  | (opened) x w1 where "opening_turn ag now u i input w = (Ok x, w1)" "w_cache w' = w_cache w1"
      "transcripts ag w' = transcripts ag w1"
proof -
  from assms [unfolded prepare_split] show ?thesis
  proof (cases rule: eff_bind_cases)
    case (failed e)
    then show ?thesis by (rule that(1))
  next
    case (went_on x w1)
    have "keeps w_cache (prepare_rest ag u i input x)"
      unfolding prepare_rest_def
      by (auto simp: Let_def split: prod.split intro!: keeps_bind keeps_pure resolve_skill_cache)
    moreover have "keeps (transcripts ag) (prepare_rest ag u i input x)"
      unfolding prepare_rest_def
      by (auto simp: Let_def split: prod.split intro!: quiet_intros resolve_skill_quiet)
    ultimately show ?thesis using went_on by (intro that(2) [OF went_on(1)]) (auto dest: keepsD)
  qed
qed

lemma get_cache_memory_Err: "get_cache_memory ag now u i w = (Err e, w') \<Longrightarrow> w' = w"
  by (auto simp: get_cache_memory_run split: option.splits sum.splits)

lemma prepare_coherent:
  assumes "coherent_world ag now w" "no_phase_context w i" "prepare ag now u i input w = (r, w')"
  shows "coherent_world ag now w'
    \<and> (is_ok r \<longrightarrow> (\<exists>history. cache_load now u i (w_cache w') = Some history))
    \<and> (\<forall>v t. v \<noteq> u \<longrightarrow> now \<le> t \<longrightarrow> cache_load t v i (w_cache w') = cache_load t v i (w_cache w))"
  using assms(3)
proof (cases rule: prepare_cache)
  case (failed e)
  then have "eff_bind (get_cache_memory ag now u i) (\<lambda>history. eff_ok (history, input)) w = (Err e, w')"
    using opening_turn_plain [OF assms(2)] by metis
  then have "w' = w" by (cases rule: eff_bind_cases) (auto simp: eff_run dest: get_cache_memory_Err)
  then show ?thesis using assms(1) failed(2) by simp
next
  case (opened x w1)
  then have "eff_bind (get_cache_memory ag now u i) (\<lambda>history. eff_ok (history, input)) w = (Ok x, w1)"
    using opening_turn_plain [OF assms(2)] by metis
  then obtain history where "get_cache_memory ag now u i w = (Ok history, w1)"
    by (auto simp: eff_bind_Ok_iff eff_run)
  note re = rehydrated [OF assms(1) this]
  have "coherent_world ag now w'" using coherent_world_cong [OF opened(2,3)] re by blast
  then show ?thesis using re opened(2) by simp
qed

lemma finish_done:
  assumes "finish ag later u i p (Done response) w = (r, w')"
    and "um = text_message RoleUser (pr_input p)" "am = text_message RoleAssistant response"
  obtains (failed) e where "append_turn (ag_codec ag) later i um am (w_db w) = (Err e, w_db w')"
      "r = Err (SessionFailed e)" "w_cache w' = w_cache w"
  | (recorded) "append_turn (ag_codec ag) later i um am (w_db w) = (Ok (), w_db w')"
      "r = Ok (OutDone response)" "w_cache w' = cache_append_turn later u i um am (w_cache w)"
      "w_skills w' = w_skills w"
proof -
  obtain r1 db' where ap: "append_turn (ag_codec ag) later i um am (w_db w) = (r1, db')" by force
  show ?thesis
  proof (cases r1)
    case (Inl e)
    then show ?thesis using assms ap
      by (intro that(1)) (auto simp: finish_def Let_def db_op_def manager_append_turn_def eff_bind_def)
  next
    case (Inr x)
    then show ?thesis using assms ap
      by (intro that(2)) (auto simp: finish_def Let_def db_op_def manager_append_turn_def eff_bind_def eff_run
          update_cache_memory_def on_cache_def split: if_splits)
  qed
qed

lemma handle_tool_interrupt_cache: "keeps w_cache (handle_tool_interrupt ag now i intr sk)"
  unfolding handle_tool_interrupt_def by (intro keeps_bind keeps_pure db_op_keeps)

text \<open>
  C18. Turns keep the cache coherent: in a world whose cache agrees with the stored
  transcripts from some instant on, a turn that opens no phase leaves it so, whether it
  hits or misses the cache and however it ends, even if the entry expires while the turn
  runs. (No other user has an entry for the session.)
\<close>

theorem turn_keeps_cache_coherent:
  assumes "\<And>r t. storable (ag_codec ag) (text_message r t)"
    and "coherent_world ag now w" "now \<le> later" "no_phase_context w i"
    and "\<And>v t. v \<noteq> u \<Longrightarrow> now \<le> t \<Longrightarrow> cache_load t v i (w_cache w) = None"
    and "invoke ag now later u i input w = (r, w')"
  shows "coherent_world ag later w'"
proof (cases "owned_by (w_db w) i u")
  case False
  then show ?thesis
    using assms(6) coherent_world_later [OF assms(2,3)] by (simp add: invoke_def owner_check)
next
  case True
  let ?run = "\<lambda>p. eff_bind (run_chosen ag (pr_strategy p) (invoke_context i p) (pr_messages p) (pr_active p))
     (finish ag later u i p)"
  have "eff_bind (prepare ag now u i input) ?run w = (r, w')"
    using True assms(6) by (simp add: invoke_def owner_check)
  then show ?thesis
  proof (cases rule: eff_bind_cases)
    case (failed e)
    have "coherent_world ag now w'" by (rule prepare_coherent [OF assms(2,4) failed(1), THEN conjunct1])
    then show ?thesis by (rule coherent_world_later [OF _ assms(3)])
  next
    case p: (went_on p w2)
    obtain history where co: "coherent_world ag now w2" "cache_load now u i (w_cache w2) = Some history"
        "\<And>v t. v \<noteq> u \<Longrightarrow> now \<le> t \<Longrightarrow> cache_load t v i (w_cache w2) = None"
      using prepare_coherent [OF assms(2,4) p(1)] assms(5) by auto
    from p(2) show ?thesis
    proof (cases rule: eff_bind_cases)
      case (failed e)
      have "coherent_world ag now w'"
        by (rule coherent_world_cong [OF keepsD [OF run_chosen_keeps(2) failed(1)] keepsD [OF run_chosen_keeps(4) failed(1)] co(1)])
      then show ?thesis by (rule coherent_world_later [OF _ assms(3)])
    next
      case run: (went_on out w3)
      have c3: "w_cache w3 = w_cache w2" by (rule keepsD [OF run_chosen_keeps(2) run(1)])
      have co3: "coherent_world ag now w3"
        by (rule coherent_world_cong [OF c3 keepsD [OF run_chosen_keeps(4) run(1)] co(1)])
      show ?thesis
      proof (cases out)
        case (Interrupted intr)
        then have "handle_tool_interrupt ag later i intr (pr_skill p) w3 = (r, w')"
          using run(2) by (simp add: finish_def)
        from coherent_world_cong [OF keepsD [OF handle_tool_interrupt_cache this]
            keepsD [OF handle_tool_interrupt_quiet this] co3] show ?thesis
          by (rule coherent_world_later [OF _ assms(3)])
      next
        case (Done response)
        let ?um = "text_message RoleUser (pr_input p)" and ?am = "text_message RoleAssistant response"
        from run(2) [unfolded Done] refl refl show ?thesis
        proof (cases rule: finish_done)
          case (failed e)
          then have "w_db w' = w_db w3" using append_turn_spec [OF assms(1) assms(1) failed(1)] by simp
          then have "coherent_world ag now w'"
            using coherent_world_cong [OF failed(3) _ co3] by (simp add: transcripts_def)
          then show ?thesis by (rule coherent_world_later [OF _ assms(3)])
        next
          case recorded
          obtain l2 where l2: "transcripts ag w3 = (\<lambda>i. Ok (l2 i))" "cache.coherent l2 now (w_cache w3)" "cache_inv (w_cache w3)"
            using co3 by (auto simp: coherent_world_def)
          have "transcripts ag w' = (\<lambda>j. Ok ((l2(i := l2 i @ [?um, ?am])) j))"
            using append_turn_spec [OF assms(1) assms(1) recorded(1)] l2(1) by (auto simp: transcripts_def fun_eq_iff)
          moreover have "cache.coherent (l2(i := l2 i @ [?um, ?am])) now (w_cache w')"
            unfolding recorded(3)
            by (rule cache.coherent_turn [OF l2(3,2)]) (use co c3 in auto)
          ultimately have "coherent_world ag now w'"
            unfolding coherent_world_def recorded(3)
            by (intro conjI exI [of _ "l2(i := l2 i @ [?um, ?am])"] cache_ops_inv(2) [OF l2(3)])
          then show ?thesis by (rule coherent_world_later [OF _ assms(3)])
        qed
      qed
    qed
  qed
qed

section \<open>Across a phase transition\<close>

text \<open>The first turn of a phase: the cache entry goes, the context is consumed.\<close>

definition phase_context :: "uuid \<Rightarrow> 'q world \<Rightarrow> session_memory_error + string option" where
  "phase_context i w = get_phase_opening_context (w_db w) i"

lemma opening_turn_phase:
  assumes "w_skills w = Some cfg" "phase_context i w = Ok (Some ctx)"
  shows "\<exists>w1. opening_turn ag now u i input w = (Ok ([], ctx @ paragraph_break @ input), w1)
    \<and> w_cache w1 = cache_evict u i (w_cache w) \<and> transcripts ag w1 = transcripts ag w
    \<and> phase_context i w1 = Ok None"
proof -
  let ?g = "\<lambda>r. r\<lparr>row_phase_context := None\<rparr>" and ?db = "w_db w"
  have g: "keeps_row ?g" by (simp add: keeps_row_def)
  have col: "column row_phase_context ?db i = Ok (Some ctx)"
    using assms(2) by (simp add: phase_context_def get_phase_opening_context_def)
  then have fault: "db_fault ?db = None" by (cases "db_fault ?db") (simp_all add: column_def query_def)
  then obtain row where row: "find_row ?db i = Some row"
    using col by (cases "find_row ?db i") (simp_all add: column_def)
  then have has: "has_session ?db i" using find_row_None_iff [of ?db i] by simp
  have set: "db_op (manager_set_phase_context i None) v = (Ok (), v\<lparr>w_db := snd (update_row i ?g ?db)\<rparr>)"
    if "w_db v = ?db" for v :: "'a world"
    using update_row_live(1) [OF g fault has] that
    by (cases "update_row i ?g ?db") (simp add: db_op_def manager_defs set_phase_opening_context_def)
  have get: "db_op (manager_get_phase_context i) w = (Ok (Some ctx), w)"
    using col by (simp add: db_op_def manager_read_defs eff_run get_phase_opening_context_def)
  let ?w1 = "w\<lparr>w_cache := cache_evict u i (w_cache w), w_db := snd (update_row i ?g ?db)\<rparr>"
  have "opening_turn ag now u i input w = (Ok ([], ctx @ paragraph_break @ input), ?w1)"
    using assms(1) by (simp add: opening_turn_def eff_bind_def eff_run get set on_cache_def)
  moreover have "transcripts ag ?w1 = transcripts ag w"
    unfolding transcripts_def by (rule load_messages_cong) (simp_all add: update_row_messages update_row_fault)
  moreover have "phase_context i ?w1 = Ok None"
    using row fault find_row_update [OF g, of i ?db i]
    by (simp add: phase_context_def get_phase_opening_context_def column_def query_def update_row_fault)
  ultimately show ?thesis by (intro exI [of _ ?w1]) simp
qed

lemma db_op_phase:
  fixes m :: "'a db_eff"
  assumes "\<And>db. column row_phase_context (snd (m db)) i = column row_phase_context db i"
  shows "keeps (phase_context i) (db_op m :: ('q, 'a) op)"
  unfolding keeps_def
proof
  fix w :: "'q world"
  obtain r db' where m: "m (w_db w) = (r, db')" by force
  show "phase_context i (snd (db_op m w)) = phase_context i w"
    using assms [of "w_db w"] m by (simp add: phase_context_def db_op_def get_phase_opening_context_def)
qed

lemma phase_context_kept:
  "keeps (phase_context i) (db_op (manager_set_skill_context j c))"
  "keeps (phase_context i) (db_op (manager_set_interrupted j js))"
  "keeps (phase_context i) (db_op (manager_update_status now j s))"
  "keeps (phase_context i) (db_op (manager_append_turn cd now j um am))"
  "keeps (phase_context i) (db_op (manager_get_skill_context j))"
  "keeps (phase_context i) (run_chosen ag st mk ms active)"
proof -
  show "keeps (phase_context i) (db_op (manager_append_turn cd now j um am))"
    by (rule db_op_phase)
       (simp add: manager_append_turn_def append_turn_def column_def find_row_def query_def frame_simps)
  show "keeps (phase_context i) (run_chosen ag st mk ms active)"
    by (rule run_chosen_keeps_any) (simp add: phase_context_def)
qed (rule db_op_phase; simp add: manager_defs manager_read_defs eff_run set_skill_context_def set_interrupted_state_def
    update_status_def column_update keeps_row_def)+

lemma after_opening_phase:
  "keeps (phase_context i) (resolve_skill ag j input)" "keeps (phase_context i) (finish ag later u j p out)"
proof -
  have world: "keeps (phase_context i) (on_cache f)" for f
    by (simp add: keeps_def on_cache_def eff_run phase_context_def)
  show "keeps (phase_context i) (resolve_skill ag j input)"
    unfolding resolve_skill_def
    by (intro keeps_bind phase_context_kept keeps_pure) (auto split: option.split intro!: keeps_bind phase_context_kept keeps_pure)
  show "keeps (phase_context i) (finish ag later u j p out)"
    unfolding finish_def handle_tool_interrupt_def update_cache_memory_def Let_def
    by (auto split: strategy_outcome.split intro!: keeps_bind phase_context_kept keeps_pure world keeps_mod
        simp: phase_context_def)
qed

text \<open>After the opening, only the answer touches the cache.\<close>

lemma opened_turn:
  assumes "owned_by (w_db w) i u" "w_skills w = Some cfg" "phase_context i w = Ok (Some ctx)"
    and "invoke ag now later u i input w = (r, w')"
  obtains (stopped) e where "r = Err e" "w_cache w' = cache_evict u i (w_cache w)"
      "transcripts ag w' = transcripts ag w" "phase_context i w' = Ok None"
  | (finished) p out w3 where "finish ag later u i p out w3 = (r, w')" "w_cache w3 = cache_evict u i (w_cache w)"
      "transcripts ag w3 = transcripts ag w" "phase_context i w3 = Ok None"
proof -
  have "eff_bind (prepare ag now u i input) (\<lambda>p. eff_bind (run_chosen ag (pr_strategy p) (invoke_context i p)
      (pr_messages p) (pr_active p)) (finish ag later u i p)) w = (r, w')"
    using assms(1,4) by (simp add: invoke_def owner_check)
  moreover have prep: "w_cache w2 = cache_evict u i (w_cache w) \<and> transcripts ag w2 = transcripts ag w \<and> phase_context i w2 = Ok None"
    if run: "prepare ag now u i input w = (r2, w2)" for r2 w2
  proof -
    obtain w1 where w1: "opening_turn ag now u i input w = (Ok ([], ctx @ paragraph_break @ input), w1)"
        "w_cache w1 = cache_evict u i (w_cache w)" "transcripts ag w1 = transcripts ag w" "phase_context i w1 = Ok None"
      using opening_turn_phase [OF assms(2,3)] by blast
    have rest: "prepare_rest ag u i input ([], ctx @ paragraph_break @ input) w1 = (r2, w2)"
      using run unfolding prepare_split by (simp add: eff_bind_def w1(1))
    have "keeps (phase_context i) (prepare_rest ag u i input x)" for x
      unfolding prepare_rest_def
      by (auto simp: Let_def split: prod.split intro!: keeps_bind keeps_pure after_opening_phase)
    then have "phase_context i w2 = phase_context i w1" using rest by (rule keepsD)
    moreover have "w_cache w2 = w_cache w1 \<and> transcripts ag w2 = transcripts ag w1"
      using run by (cases rule: prepare_cache) (use w1(1) in auto)
    ultimately show ?thesis using w1 by simp
  qed
  ultimately show ?thesis
  proof (cases rule: eff_bind_cases)
    case (failed e)
    then show ?thesis using prep by (intro that(1)) auto
  next
    case p: (went_on p w2)
    from p(2) show ?thesis
    proof (cases rule: eff_bind_cases)
      case (failed e)
      then show ?thesis
        using prep [OF p(1)] keepsD [OF run_chosen_keeps(2) failed(1)] keepsD [OF run_chosen_keeps(4) failed(1)]
          keepsD [OF phase_context_kept(6) failed(1)] by (intro that(1)) auto
    next
      case run: (went_on out w3)
      show ?thesis
        by (rule that(2) [OF run(2)])
           (use prep [OF p(1)] keepsD [OF run_chosen_keeps(2) run(1)] keepsD [OF run_chosen_keeps(4) run(1)]
             keepsD [OF phase_context_kept(6) run(1)] in auto)
    qed
  qed
qed

lemma cache_load_evicted: "cache_load t u i (cache_evict u i c) = None"
  by (simp add: cache_load_evict)

text \<open>
  A phase's cut of the history lasts as long as its cache entry: after an answered turn
  that opened a phase, the next turn sees only that turn while the entry is fresh, and the
  whole transcript of every earlier phase again once it has expired. (The source means the
  context to be the sole prior context of the phase.)
\<close>

theorem phase_history_returns_after_ttl:
  assumes "\<And>r t. storable (ag_codec ag) (text_message r t)" "cache_inv (w_cache w)" "owned_by (w_db w) i u"
    and "w_skills w = Some cfg" "phase_context i w = Ok (Some ctx)" "transcripts ag w i = Ok old"
    and "invoke ag now later u i input w = (Ok (OutDone answer), w')"
  shows "\<exists>asked. let turn = [text_message RoleUser asked, text_message RoleAssistant answer] in
    fst (get_cache_memory ag t u i w') = Ok (if t - later \<le> wm_ttl (w_cache w) then turn else old @ turn)"
  using assms(3-5,7)
proof (cases rule: opened_turn)
  case (finished p out w3)
  obtain response where out: "out = Done response"
  proof (cases out)
    case (Interrupted intr)
    then have False using finished(1)
      by (auto simp: finish_def handle_tool_interrupt_def eff_bind_Ok_iff eff_run)
    then show ?thesis ..
  qed
  let ?um = "text_message RoleUser (pr_input p)" and ?am = "text_message RoleAssistant response"
  from finished(1) [unfolded out] refl refl show ?thesis
  proof (cases rule: finish_done)
    case recorded
    have "transcripts ag w' i = Ok (old @ [?um, ?am])"
      using append_turn_spec [OF assms(1) assms(1) recorded(1)] finished(3) assms(6) by (simp add: transcripts_def fun_eq_iff)
    moreover have "cache_load t u i (w_cache w') = (if t - later \<le> wm_ttl (w_cache w) then Some [?um, ?am] else None)"
      using assms(2) unfolding recorded(3) finished(2) cache_load_append
      by (simp add: cache_evict_def cache_inv_def)
    ultimately show ?thesis using recorded(2) by (auto simp: get_cache_memory_run Let_def)
  qed simp
qed simp

text \<open>
  A turn that opens a phase and then fails forgets the phase: the opening context is
  consumed before the model is asked, so after any later error of the turn it is gone, the
  cache entry too, and the retry runs on the whole transcript of the earlier phases
  without the summary.
\<close>

theorem failed_opening_turn_forgets_the_phase:
  assumes "owned_by (w_db w) i u" "w_skills w = Some cfg" "phase_context i w = Ok (Some ctx)"
    and "transcripts ag w i = Ok old" "invoke ag now later u i input w = (Err e, w')"
    and "\<And>r t. storable (ag_codec ag) (text_message r t)"
  shows "phase_context i w' = Ok None \<and> fst (get_cache_memory ag t u i w') = Ok old"
  using assms(1-3,5)
proof (cases rule: opened_turn)
  case (stopped e')
  then show ?thesis using assms(4) by (simp add: get_cache_memory_run cache_load_evicted)
next
  case (finished p out w3)
  have "phase_context i w' = Ok None" using keepsD [OF after_opening_phase(2) finished(1)] finished(4) by simp
  moreover have "transcripts ag w' = transcripts ag w"
    using finish_spec [OF assms(6) finished(1)] finished(3) by simp
  moreover have "w_cache w' = w_cache w3"
  proof (cases out)
    case (Interrupted intr)
    then show ?thesis using finished(1) keepsD [OF handle_tool_interrupt_cache] by (auto simp: finish_def)
  next
    case (Done response)
    from finished(1) [unfolded Done] refl refl show ?thesis by (cases rule: finish_done) auto
  qed
  ultimately show ?thesis using finished(2) assms(4) by (simp add: get_cache_memory_run cache_load_evicted)
qed

section \<open>On the sample agent\<close>

lemma sample_coherent: "coherent_world sample_agent 0 sample_world"
proof -
  have "transcripts sample_agent sample_world = (\<lambda>i. Ok [])"
    by (simp add: fun_eq_iff transcripts_def sample_world_def sample_db_def sample_eval load_messages_def rows_of_def)
  moreover have "cache.coherent (\<lambda>_. []) 0 (w_cache sample_world)"
    by (simp add: cache.coherent_def sample_world_def cache_load_def cache_new_def)
  ultimately show ?thesis by (auto simp: coherent_world_def sample_world_def cache_new_inv)
qed

lemma turn_keeps_cache_coherent_witness:
  "coherent_world sample_agent 5 (snd (invoke sample_agent 0 5 ''bob'' ''s1'' ''hi'' sample_world))"
proof -
  have "no_phase_context sample_world ''s1''" by (simp add: no_phase_context_def sample_world_def)
  then show ?thesis
    using turn_keeps_cache_coherent [OF sample_storable sample_coherent, of 5 "''s1''" "''bob''" "''hi''"
        "fst (invoke sample_agent 0 5 ''bob'' ''s1'' ''hi'' sample_world)"
        "snd (invoke sample_agent 0 5 ''bob'' ''s1'' ''hi'' sample_world)"]
    by (simp add: sample_world_def cache_new_def cache_load_def)
qed

text \<open>A session with one turn that has just entered a phase.\<close>

definition sample_phase_world :: "unit world" where
  "sample_phase_world = sample_gated_world\<lparr>w_db := snd (apply_phase_transition ''s1'' ''ctx'' ''pc''
     (snd (append_turn sample_codec 0 ''s1'' (text_message RoleUser ''a'') (text_message RoleAssistant ''b'') sample_db)))\<rparr>"

lemma sample_phase_facts:
  "w_skills sample_phase_world = Some (the (w_skills sample_gated_world))"
  "phase_context ''s1'' sample_phase_world = Ok (Some ''pc'')"
  "map_ok (map_option ses_user_id) (get (w_db sample_phase_world) ''s1'') = Ok (Some ''bob'')"
  by code_simp+

lemma sample_phase_owned: "owned_by (w_db sample_phase_world) ''s1'' ''bob''"
proof -
  obtain found where "get (w_db sample_phase_world) ''s1'' = Ok found" "map_option ses_user_id found = Some ''bob''"
    using sample_phase_facts(3) by (auto simp only: map_ok_Ok)
  then show ?thesis by (auto simp only: owned_by_def map_option_eq_Some)
qed

lemma failed_opening_turn_forgets_the_phase_witness:
  "fst (get_cache_memory sample_agent 7 ''bob'' ''s1''
     (snd (invoke sample_agent 0 5 ''bob'' ''s1'' ''go'' sample_phase_world)))
   = Ok [text_message RoleUser ''a'', text_message RoleAssistant ''b'']"
proof -
  let ?run = "invoke sample_agent 0 5 ''bob'' ''s1'' ''go'' sample_phase_world"
  have "fst ?run = Err (JsonFailed ''none'')" by code_simp
  then have run: "?run = (Err (JsonFailed ''none''), snd ?run)" by (simp add: prod_eq_iff)
  have "transcripts sample_agent sample_phase_world ''s1''
      = Ok [text_message RoleUser ''a'', text_message RoleAssistant ''b'']" by code_simp
  from failed_opening_turn_forgets_the_phase [OF sample_phase_owned sample_phase_facts(1,2) this run sample_storable]
  show ?thesis by (rule conjunct2)
qed

lemma phase_history_returns_after_ttl_witness:
  "\<exists>asked. fst (get_cache_memory (sample_agent\<lparr>ag_json := ag_json sample_gated\<rparr>) 5000 ''bob'' ''s1''
     (snd (invoke (sample_agent\<lparr>ag_json := ag_json sample_gated\<rparr>) 0 5 ''bob'' ''s1'' ''go'' sample_phase_world)))
   = Ok [text_message RoleUser ''a'', text_message RoleAssistant ''b'',
         text_message RoleUser asked, text_message RoleAssistant ''yes'']"
proof -
  let ?ag = "sample_agent\<lparr>ag_json := ag_json sample_gated\<rparr>"
  let ?run = "invoke ?ag 0 5 ''bob'' ''s1'' ''go'' sample_phase_world"
  have "fst ?run = Ok (OutDone ''yes'')" by code_simp
  then have run: "?run = (Ok (OutDone ''yes''), snd ?run)" by (simp add: prod_eq_iff)
  have old: "transcripts ?ag sample_phase_world ''s1''
      = Ok [text_message RoleUser ''a'', text_message RoleAssistant ''b'']" by code_simp
  have cache: "w_cache sample_phase_world = cache_new 1000"
    by (simp add: sample_phase_world_def sample_gated_world_def sample_world_def)
  have storable: "storable (ag_codec ?ag) (text_message r t)" for r t using sample_storable by simp
  have "cache_inv (w_cache sample_phase_world)" by (simp add: cache cache_new_inv)
  from phase_history_returns_after_ttl [OF storable this sample_phase_owned sample_phase_facts(1,2) old run, of 5000] show ?thesis
    by (simp add: cache cache_new_def Let_def)
qed

end
