(* ===== verification/Workers.thy ===== *)
theory Workers
  imports Session_Manager
begin

text \<open>
  The background workers (\<open>avs-agent/src/workers.rs\<close>): one tick of the consolidation worker,
  which hands messages to long-term memory, and one of the cleanup worker, which applies
  the retention windows. A worker's state is the session store and the long-term memory it
  writes to; writing is any function \<open>write\<close> that may fail. A worker's loop runs ticks for
  ever and only logs a failed one. The clock is read once per tick.
\<close>

section \<open>Configurations\<close>

record consolidation_config =
  cc_batch_size :: nat
  cc_idle_timeout :: int  \<comment> \<open>seconds\<close>
  cc_poll_interval :: int

definition consolidation_default :: consolidation_config where
  "consolidation_default = \<lparr>cc_batch_size = 10, cc_idle_timeout = 1800, cc_poll_interval = 60\<rparr>"

record cleanup_config =
  cl_message_retention :: int
  cl_session_retention :: int
  cl_poll_interval :: int

definition cleanup_default :: cleanup_config where
  "cleanup_default = \<lparr>cl_message_retention = 86400, cl_session_retention = 2592000, cl_poll_interval = 300\<rparr>"

section \<open>The consolidation worker\<close>

datatype worker_error = StoreFailed session_memory_error | LongtermFailed string

record worker_state =
  ws_db :: db
  ws_longterm :: "(string \<times> string) list"

type_synonym 'a worker_op = "(worker_state, worker_error, 'a) eff"
type_synonym longterm_write = "string \<Rightarrow> string \<Rightarrow> (string \<times> string) list \<Rightarrow> string + (string \<times> string) list"

definition store_op :: "'a db_eff \<Rightarrow> 'a worker_op" where
  "store_op m = (\<lambda>s. case m (ws_db s) of (r, db') \<Rightarrow> (map_err StoreFailed r, s\<lparr>ws_db := db'\<rparr>))"

definition write_longterm :: "longterm_write \<Rightarrow> string \<Rightarrow> string \<Rightarrow> unit worker_op" where
  "write_longterm write user_id content = (\<lambda>s. case write user_id content (ws_longterm s) of
       Err e \<Rightarrow> (Err (LongtermFailed e), s)
     | Ok lt \<Rightarrow> (Ok (), s\<lparr>ws_longterm := lt\<rparr>))"

fun consolidate_messages :: "longterm_write \<Rightarrow> string \<Rightarrow> uuid \<Rightarrow> (int \<times> message) list \<Rightarrow> unit worker_op" where
  "consolidate_messages write user_id i [] = eff_ok ()"
| "consolidate_messages write user_id i ((seq, msg) # msgs) =
     eff_seq (write_longterm write user_id (message_as_text msg))
       (eff_seq (store_op (advance_watermark i seq)) (consolidate_messages write user_id i msgs))"

text \<open>Too few messages wait for the idle timeout.\<close>

definition keeps_waiting :: "consolidation_config \<Rightarrow> instant \<Rightarrow> session \<Rightarrow> (int \<times> message) list \<Rightarrow> bool" where
  "keeps_waiting cfg now ses msgs \<longleftrightarrow>
     length msgs < cc_batch_size cfg \<and> timestamp now - timestamp (ses_updated_at ses) < cc_idle_timeout cfg"

definition consolidate_session ::
  "content_codec \<Rightarrow> longterm_write \<Rightarrow> consolidation_config \<Rightarrow> instant \<Rightarrow> session \<Rightarrow> unit worker_op" where
  "consolidate_session cd write cfg now ses =
     eff_bind (store_op (eff_read (\<lambda>db. load_messages_above_watermark cd db (ses_id ses)))) (\<lambda>msgs.
       if msgs = [] then eff_ok ()
       else if keeps_waiting cfg now ses msgs then eff_ok ()
       else consolidate_messages write (ses_user_id ses) (ses_id ses) msgs)"

fun for_each :: "('a \<Rightarrow> unit worker_op) \<Rightarrow> 'a list \<Rightarrow> unit worker_op" where
  "for_each f [] = eff_ok ()"
| "for_each f (x # xs) = eff_seq (f x) (for_each f xs)"

definition consolidation_tick ::
  "content_codec \<Rightarrow> longterm_write \<Rightarrow> consolidation_config \<Rightarrow> instant \<Rightarrow> unit worker_op" where
  "consolidation_tick cd write cfg now =
     eff_bind (store_op (eff_read (list_sessions_needing_maintenance now)))
       (for_each (consolidate_session cd write cfg now))"

section \<open>The cleanup worker\<close>

definition cleanup_session :: "int \<Rightarrow> session \<Rightarrow> unit worker_op" where
  "cleanup_session message_cutoff_ts ses =
     eff_bind (store_op (eff_read (\<lambda>db. get_watermark db (ses_id ses)))) (\<lambda>wm.
     eff_seq (store_op (cleanup_expired_messages (ses_id ses) message_cutoff_ts wm)) (eff_ok ()))"

definition cleanup_tick :: "cleanup_config \<Rightarrow> instant \<Rightarrow> unit worker_op" where
  "cleanup_tick cfg now =
     eff_seq (store_op (delete_ended_sessions_before (timestamp now - cl_session_retention cfg)))
       (eff_bind (store_op (eff_read (list_sessions_needing_maintenance now)))
          (for_each (cleanup_session (timestamp now - cl_message_retention cfg))))"

section \<open>What is still to be consolidated\<close>

lemma store_op_run: "m (ws_db s) = (r, db') \<Longrightarrow> store_op m s = (map_err StoreFailed r, s\<lparr>ws_db := db'\<rparr>)"
  by (simp add: store_op_def)

lemma store_op_keeps_longterm: "keeps ws_longterm (store_op m)"
  by (simp add: keeps_def store_op_def split: prod.split)

lemma store_op_keeps: "keeps f m \<Longrightarrow> keeps (\<lambda>s. f (ws_db s)) (store_op m)"
  by (auto simp: keeps_def store_op_def split: prod.split) (metis snd_conv)

lemma store_op_preserves [inv_intros]: "preserves I m \<Longrightarrow> preserves (\<lambda>s. I (ws_db s)) (store_op m)"
  by (auto simp: preserves_def store_op_def split: prod.split)

lemma for_each_preserves [inv_intros]: "(\<And>x. preserves I (f x)) \<Longrightarrow> preserves I (for_each f xs)"
  by (induction xs) (auto intro: preserves_pure preserves_bind)

lemma for_each_keeps: "(\<And>x. keeps g (f x)) \<Longrightarrow> keeps g (for_each f xs)"
  by (induction xs) (auto intro: keeps_pure keeps_bind)

text \<open>Advancing past a prefix of the pending messages leaves the rest pending.\<close>

lemma advance_row:
  assumes "db_fault db = None" "find_row db i = Some r"
  shows "fst (advance_watermark i w db) = Ok ()"
    "db_fault (snd (advance_watermark i w db)) = None"
    "find_row (snd (advance_watermark i w db)) i = Some (r\<lparr>row_watermark := max (row_watermark r) w\<rparr>)"
    "db_messages (snd (advance_watermark i w db)) = db_messages db"
  using assms find_row_SomeD [OF assms(2)] find_row_update [of "\<lambda>r. r\<lparr>row_watermark := max (row_watermark r) w\<rparr>" i db i]
  by (auto simp: advance_watermark_def update_row_def keeps_row_def)

lemma pending_rows:
  assumes "db_fault db = None" "find_row db i = Some r"
  shows "load_messages_above_watermark cd db i =
    collect_results (map (\<lambda>m. map_ok (Pair (mrow_seq m)) (row_to_message cd m))
      (filter (\<lambda>m. row_watermark r < mrow_seq m) (rows_of db i)))"
  using assms by (simp add: load_messages_above_watermark_def get_watermark_def)

lemma rows_of_seqs:
  assumes "store_inv db"
  shows "sorted (map mrow_seq (rows_of db i))" "distinct (map mrow_seq (rows_of db i))"
proof -
  show "sorted (map mrow_seq (rows_of db i))" by (simp add: rows_of_def)
  have "distinct (map mrow_seq (filter (\<lambda>m. mrow_session m = i) (db_messages db)))"
    using assms by (auto simp: store_inv_def distinct_map inj_on_def)
  then show "distinct (map mrow_seq (rows_of db i))"
    by (simp add: rows_of_def distinct_map)
qed

lemma pending_advance:
  assumes "store_inv db" "db_fault db = None" "find_row db i = Some r"
    and "load_messages_above_watermark cd db i = Ok ((n, m) # ms)"
  shows "load_messages_above_watermark cd (snd (advance_watermark i n db)) i = Ok ms"
proof -
  let ?P = "filter (\<lambda>m. row_watermark r < mrow_seq m) (rows_of db i)"
  obtain x xs where P: "?P = x # xs" and x: "mrow_seq x = n"
      "map (\<lambda>m. map_ok (Pair (mrow_seq m)) (row_to_message cd m)) xs = map Ok ms"
    using assms(4) unfolding pending_rows [OF assms(2,3)] collect_results_Ok_iff
    by (auto simp: Cons_eq_map_conv map_eq_Cons_conv map_ok_Ok)
  have "sorted (map mrow_seq ?P)" "distinct (map mrow_seq ?P)"
    using rows_of_seqs [OF assms(1), of i] by (auto simp: sorted_filter distinct_map inj_on_def)
  then have above: "filter (\<lambda>m. n < mrow_seq m) xs = xs" "row_watermark r < n"
    using P x(1) by (auto simp: filter_id_conv less_le filter_eq_Cons_iff)
  have "filter (\<lambda>m. max (row_watermark r) n < mrow_seq m) (rows_of db i) = filter (\<lambda>m. n < mrow_seq m) ?P"
    by (simp add: filter_filter)
  then have "filter (\<lambda>m. max (row_watermark r) n < mrow_seq m) (rows_of db i) = xs" using P x(1) above by simp
  moreover have "rows_of (snd (advance_watermark i n db)) i = rows_of db i"
    using advance_row(4) [OF assms(2,3), of n] by (simp add: rows_of_def)
  ultimately show ?thesis
    using pending_rows [OF advance_row(2,3) [OF assms(2,3), of n], of cd] x(2)
    by (simp add: collect_results_Ok_iff)
qed

lemma pending_advance_other:
  assumes "j \<noteq> i"
  shows "load_messages_above_watermark cd (snd (advance_watermark i n db)) j = load_messages_above_watermark cd db j"
proof -
  have "find_row (snd (advance_watermark i n db)) j = find_row db j"
    using assms find_row_update [of "\<lambda>r. r\<lparr>row_watermark := max (row_watermark r) n\<rparr>" i db j]
    by (simp add: advance_watermark_def keeps_row_def)
  moreover have "db_messages (snd (advance_watermark i n db)) = db_messages db"
    "db_fault (snd (advance_watermark i n db)) = db_fault db"
    by (simp_all add: advance_watermark_def update_row_messages update_row_fault)
  ultimately show ?thesis
    by (simp add: load_messages_above_watermark_def get_watermark_def rows_of_def query_def)
qed

text \<open>A write either records the content once or fails.\<close>

definition appends_or_fails :: "longterm_write \<Rightarrow> bool" where
  "appends_or_fails write \<longleftrightarrow>
     (\<forall>u c lt. write u c lt = Ok (lt @ [(u, c)]) \<or> (\<exists>e. write u c lt = Err e))"

definition records_of :: "string \<Rightarrow> (int \<times> message) list \<Rightarrow> (string \<times> string) list" where
  "records_of user_id msgs = map (\<lambda>(_, m). (user_id, message_as_text m)) msgs"

lemma consolidate_messages_exact:
  assumes "appends_or_fails write" "store_inv (ws_db s)" "db_fault (ws_db s) = None"
    and "find_row (ws_db s) i = Some r" "load_messages_above_watermark cd (ws_db s) i = Ok msgs"
    and "consolidate_messages write u i msgs s = (res, s')"
  shows "\<exists>written rest. msgs = written @ rest \<and> ws_longterm s' = ws_longterm s @ records_of u written
    \<and> load_messages_above_watermark cd (ws_db s') i = Ok rest \<and> (is_ok res \<longrightarrow> rest = [])
    \<and> (\<forall>j. j \<noteq> i \<longrightarrow> load_messages_above_watermark cd (ws_db s') j = load_messages_above_watermark cd (ws_db s) j)"
  using assms(2-)
proof (induction msgs arbitrary: s r)
  case Nil
  then show ?case by (simp add: eff_run records_of_def)
next
  case (Cons x msgs)
  obtain n m where x: "x = (n, m)" by force
  show ?case
  proof (cases "write u (message_as_text m) (ws_longterm s)")
    case (Inl e)
    then have "s' = s \<and> res = Err (LongtermFailed e)"
      using Cons.prems(5) by (simp add: x eff_bind_def write_longterm_def)
    then show ?thesis using Cons.prems(4) by (intro exI [of _ "[]"] exI [of _ "x # msgs"]) (simp add: records_of_def)
  next
    case (Inr lt)
    then have lt: "lt = ws_longterm s @ [(u, message_as_text m)]"
      using assms(1) unfolding appends_or_fails_def by (metis Inl_Inr_False Inr_inject)
    let ?s = "s\<lparr>ws_longterm := lt, ws_db := snd (advance_watermark i n (ws_db s))\<rparr>"
    note row = advance_row [OF Cons.prems(2,3), of n]
    have run: "consolidate_messages write u i msgs ?s = (res, s')"
      using Cons.prems(5) Inr row(1)
      by (cases "advance_watermark i n (ws_db s)") (simp add: x eff_bind_def write_longterm_def store_op_def)
    have pend: "load_messages_above_watermark cd (ws_db ?s) i = Ok msgs"
      using pending_advance [OF Cons.prems(1-3)] Cons.prems(4) x by simp
    have inv: "store_inv (ws_db ?s)" using Cons.prems(1) by (simp add: store_inv_updates)
    have frame: "load_messages_above_watermark cd (ws_db ?s) j = load_messages_above_watermark cd (ws_db s) j"
      if "j \<noteq> i" for j using pending_advance_other [OF that] by simp
    have live: "db_fault (ws_db ?s) = None" "find_row (ws_db ?s) i = Some (r\<lparr>row_watermark := max (row_watermark r) n\<rparr>)"
      using row(2,3) by simp_all
    obtain written rest where w: "msgs = written @ rest" "ws_longterm s' = ws_longterm ?s @ records_of u written"
        "load_messages_above_watermark cd (ws_db s') i = Ok rest" "is_ok res \<longrightarrow> rest = []"
        "\<forall>j. j \<noteq> i \<longrightarrow> load_messages_above_watermark cd (ws_db s') j = load_messages_above_watermark cd (ws_db ?s) j"
      using Cons.IH [OF inv live pend run] by blast
    then show ?thesis
      using lt x frame by (intro exI [of _ "x # written"] exI [of _ rest]) (simp add: records_of_def)
  qed
qed


section \<open>What cleanup deletes\<close>

lemma delete_ended_active:
  assumes "store_inv db" "find_row db i = Some r" "row_status r = ''active''"
    and "delete_ended_sessions_before cutoff db = (res, db')"
  shows "find_row db' i = Some r \<and> rows_of db' i = rows_of db i \<and> db_fault db' = db_fault db"
proof (cases "db_fault db")
  case None
  let ?P = "\<lambda>r. row_status r \<noteq> ''active'' \<and> row_updated_at r < cutoff"
  have db': "db' = delete_rows ?P db" using None assms(4) by (simp add: delete_ended_sessions_before_def Let_def)
  have "row_id ` set (filter ?P (db_sessions db)) \<subseteq> - {i}"
    using assms(1,2,3) find_row_eqI [OF assms(1)] by auto
  then have "\<And>m. mrow_session m = i \<Longrightarrow> mrow_session m \<notin> row_id ` set (filter ?P (db_sessions db))" by blast
  then have "rows_of db' i = rows_of db i"
    by (auto simp: db' rows_of_def delete_rows_def Let_def intro!: arg_cong [where f = "sort_key mrow_seq"] filter_cong)
  moreover have "store_inv db'" unfolding db' by (rule store_inv_delete_rows [OF assms(1)])
  moreover have "r \<in> set (db_sessions db')" "row_id r = i"
    using find_row_SomeD [OF assms(2)] assms(3) by (simp_all add: db' delete_rows_def Let_def)
  ultimately show ?thesis using find_row_eqI by (auto simp: db' delete_rows_def Let_def)
qed (use assms in \<open>simp add: delete_ended_sessions_before_def\<close>)

lemma pending_cong:
  "find_row db' i = find_row db i \<Longrightarrow> rows_of db' i = rows_of db i \<Longrightarrow> db_fault db' = db_fault db \<Longrightarrow>
     load_messages_above_watermark cd db' i = load_messages_above_watermark cd db i"
  by (simp add: load_messages_above_watermark_def get_watermark_def query_def)

lemma store_op_reads: "keeps f (store_op (eff_read g))"
  by (simp add: keeps_def store_op_def eff_run)

lemma cleanup_session_keeps:
  assumes "\<And>j c w. keeps f (cleanup_expired_messages j c w)"
  shows "keeps (\<lambda>s. f (ws_db s)) (for_each (cleanup_session cutoff) xs)"
proof (rule for_each_keeps)
  have step: "keeps (\<lambda>s. f (ws_db s)) (store_op (cleanup_expired_messages j c w))" for j c w
    using assms [of j c w] by (rule store_op_keeps [of f])
  show "keeps (\<lambda>s. f (ws_db s)) (cleanup_session cutoff x)" for x
    unfolding cleanup_session_def by (rule keeps_bind store_op_reads step keeps_pure)+
qed

lemma cleanup_sessions_keep:
  "keeps (\<lambda>s. find_row (ws_db s) i) (for_each (cleanup_session cutoff) xs)"
  "keeps (\<lambda>s. load_messages_above_watermark cd (ws_db s) i) (for_each (cleanup_session cutoff) xs)"
  "keeps ws_longterm (for_each (cleanup_session cutoff) xs)"
proof -
  show "keeps (\<lambda>s. find_row (ws_db s) i) (for_each (cleanup_session cutoff) xs)"
    by (rule cleanup_session_keeps [of "\<lambda>db. find_row db i"]) (simp add: keeps_def find_row_def frame_simps)
  show "keeps (\<lambda>s. load_messages_above_watermark cd (ws_db s) i) (for_each (cleanup_session cutoff) xs)"
    by (rule cleanup_session_keeps [of "\<lambda>db. load_messages_above_watermark cd db i"]) (simp add: keeps_def pending_after_cleanup)
  show "keeps ws_longterm (for_each (cleanup_session cutoff) xs)"
    unfolding cleanup_session_def
    by (rule for_each_keeps keeps_bind keeps_pure store_op_keeps_longterm)+
qed

text \<open>
  A cleanup tick never deletes an active session nor any of its messages that is still
  to be consolidated, whatever the retention windows are, negative ones included, and
  wherever the tick fails.
\<close>

theorem cleanup_tick_spares_active_pending:
  assumes "store_inv (ws_db s)" "find_row (ws_db s) i = Some r" "row_status r = ''active''"
    and "cleanup_tick cfg now s = (res, s')"
  shows "find_row (ws_db s') i = Some r
    \<and> load_messages_above_watermark cd (ws_db s') i = load_messages_above_watermark cd (ws_db s) i
    \<and> ws_longterm s' = ws_longterm s"
proof -
  obtain r1 db1 where del: "delete_ended_sessions_before (timestamp now - cl_session_retention cfg) (ws_db s) = (r1, db1)"
    by force
  note one = delete_ended_active [OF assms(1-3) del]
  let ?rest = "eff_bind (store_op (eff_read (list_sessions_needing_maintenance now)))
          (for_each (cleanup_session (timestamp now - cl_message_retention cfg)))"
  have keep: "keeps (\<lambda>s. find_row (ws_db s) i) ?rest" "keeps ws_longterm ?rest"
    "keeps (\<lambda>s. load_messages_above_watermark cd (ws_db s) i) ?rest"
    by (rule keeps_bind cleanup_sessions_keep store_op_reads)+
  have "s' = s\<lparr>ws_db := db1\<rparr> \<or> (\<exists>r2. ?rest (s\<lparr>ws_db := db1\<rparr>) = (r2, s'))"
    using assms(4) del by (cases r1) (auto simp: cleanup_tick_def eff_bind_run store_op_run)
  moreover have "load_messages_above_watermark cd db1 i = load_messages_above_watermark cd (ws_db s) i"
    by (rule pending_cong) (use one assms(2) in simp_all)
  ultimately show ?thesis
    using one keepsD [OF keep(1)] keepsD [OF keep(2)] keepsD [OF keep(3)] by fastforce
qed

text \<open>
  Cleanup deletes sessions that have not ended: a session suspended at an approval is
  not active, so once its status is older than the session retention a tick deletes it,
  its transcript and the interrupt a reviewer could still have decided. (The
  configuration states that a session is deleted some time after it ends.)
\<close>

theorem cleanup_deletes_suspended_sessions:
  assumes "store_inv (ws_db s)" "db_fault (ws_db s) = None" "find_row (ws_db s) i = Some r"
    and "row_status r = status_to_str Suspended" "row_updated_at r < timestamp now - cl_session_retention cfg"
    and "cleanup_tick cfg now s = (res, s')"
  shows "find_row (ws_db s') i = None"
proof -
  let ?c = "timestamp now - cl_session_retention cfg"
  let ?db1 = "snd (delete_ended_sessions_before ?c (ws_db s))"
  let ?rest = "eff_bind (store_op (eff_read (list_sessions_needing_maintenance now)))
          (for_each (cleanup_session (timestamp now - cl_message_retention cfg)))"
  have "keeps (\<lambda>s. find_row (ws_db s) i) ?rest"
    by (rule keeps_bind cleanup_sessions_keep store_op_reads)+
  moreover obtain r2 where "?rest (s\<lparr>ws_db := ?db1\<rparr>) = (r2, s')"
    using assms(2,6) by (auto simp: cleanup_tick_def delete_ended_sessions_before_def eff_bind_def store_op_def Let_def)
  ultimately have "find_row (ws_db s') i = find_row ?db1 i" by (auto dest: keepsD)
  moreover have "find_row ?db1 i \<noteq> Some x" for x
  proof
    assume x: "find_row ?db1 i = Some x"
    then have "find_row (ws_db s) i = Some x"
      using find_row_delete_rows [OF assms(1)] assms(2) by (auto simp: delete_ended_sessions_before_def Let_def)
    then show False
      using x find_row_SomeD [OF x] assms(2-5) by (auto simp: delete_ended_sessions_before_def delete_rows_def Let_def)
  qed
  ultimately show ?thesis by (cases "find_row ?db1 i") auto
qed

section \<open>On the sample store\<close>

definition sample_write :: longterm_write where
  "sample_write u c lt = Ok (lt @ [(u, c)])"

definition sample_worker :: worker_state where
  "sample_worker = \<lparr>ws_db = snd (append_turn sample_codec 6000000000 ''s1'' (text_message RoleUser ''a'')
     (text_message RoleAssistant ''b'') sample_db), ws_longterm = []\<rparr>"

definition sample_suspended_worker :: worker_state where
  "sample_suspended_worker = \<lparr>ws_db = snd (update_status 7000000000 ''s1'' Suspended sample_db), ws_longterm = []\<rparr>"

lemma sample_worker_inv: "store_inv (ws_db sample_worker)" "store_inv (ws_db sample_suspended_worker)"
  unfolding sample_worker_def sample_suspended_worker_def append_turn_def
  using store_inv_append store_inv_updates(1) store_inv_reachable [OF sample_db_reachable] by simp_all


lemma cleanup_tick_spares_active_pending_witness:
  "load_messages_above_watermark sample_codec (ws_db (snd (cleanup_tick cleanup_default 9000000000000000 sample_worker))) ''s1''
   = Ok [(1, text_message RoleUser ''a''), (2, text_message RoleAssistant ''b'')]"
proof -
  let ?run = "cleanup_tick cleanup_default 9000000000000000 sample_worker"
  let ?row = "the (find_row (ws_db sample_worker) ''s1'')"
  have row: "find_row (ws_db sample_worker) ''s1'' = Some ?row" "row_status ?row = ''active''"
    and "load_messages_above_watermark sample_codec (ws_db sample_worker) ''s1''
      = Ok [(1, text_message RoleUser ''a''), (2, text_message RoleAssistant ''b'')]" by code_simp+
  then show ?thesis
    using cleanup_tick_spares_active_pending [OF sample_worker_inv(1) row, of cleanup_default 9000000000000000
        "fst ?run" "snd ?run" sample_codec] by simp
qed

lemma cleanup_deletes_suspended_sessions_witness:
  "find_row (ws_db (snd (cleanup_tick cleanup_default 9000000000000000 sample_suspended_worker))) ''s1'' = None"
proof -
  let ?run = "cleanup_tick cleanup_default 9000000000000000 sample_suspended_worker"
  let ?row = "the (find_row (ws_db sample_suspended_worker) ''s1'')"
  have "db_fault (ws_db sample_suspended_worker) = None" "find_row (ws_db sample_suspended_worker) ''s1'' = Some ?row"
    "row_status ?row = status_to_str Suspended"
    "row_updated_at ?row < timestamp 9000000000000000 - cl_session_retention cleanup_default" by code_simp+
  from cleanup_deletes_suspended_sessions [OF sample_worker_inv(2) this, of "fst ?run" "snd ?run"] show ?thesis by simp
qed

end
