(* ===== verification/Agent_Reach.thy ===== *)
theory Agent_Reach
  imports Agent_Cache Workers
begin

text \<open>
  The agent as a state machine: every operation a client can call and every tick of a
  background worker is a step, in any order and on any input, and the queue may change at
  any time (a reviewer decides). The invariants hold in every reachable world. The steps
  are whole operations; the source serialises nothing but single store calls, so what is
  shown here is about one operation at a time.
\<close>

section \<open>Steps\<close>

definition on_worker :: "'q world \<Rightarrow> worker_state \<Rightarrow> 'q world" where
  "on_worker w s = w\<lparr>w_db := ws_db s, w_longterm := ws_longterm s\<rparr>"

definition worker_view :: "'q world \<Rightarrow> worker_state" where
  "worker_view w = \<lparr>ws_db = w_db w, ws_longterm = w_longterm w\<rparr>"

inductive agent_step :: "'q agent \<Rightarrow> 'q world \<Rightarrow> 'q world \<Rightarrow> bool" for ag where
  step_create_session: "agent_step ag w (snd (agent_create_session ag now u w))"
| step_create_with_skill: "agent_step ag w (snd (create_session_with_skill ag now u sk w))"
| step_end_session: "agent_step ag w (snd (agent_end_session now u i w))"
| step_delete_all: "agent_step ag w (snd (delete_all_user_data u w))"
| step_load: "agent_step ag w (snd (agent_load_messages ag u i w))"
| step_invoke: "agent_step ag w (snd (invoke ag now later u i input w))"
| step_stateless: "agent_step ag w (snd (invoke_stateless ag input w))"
| step_resume: "agent_step ag w (snd (resume ag now later u i a d w))"
| step_advance: "agent_step ag w (snd (advance_phase ag now u i output w))"
| step_reload: "agent_step ag w (snd (reload_skills yaml disk w))"
| step_consolidate: "agent_step ag w (on_worker w (snd (consolidation_tick (ag_codec ag) write cc now (worker_view w))))"
| step_cleanup: "agent_step ag w (on_worker w (snd (cleanup_tick cl now (worker_view w))))"
| step_reviewer: "agent_step ag w (w\<lparr>w_queue := q\<rparr>)"

inductive reachable_world :: "'q agent \<Rightarrow> 'q world \<Rightarrow> bool" for ag where
  start: "w_db w = empty_db \<Longrightarrow> w_cache w = cache_new ttl \<Longrightarrow> 0 \<le> ttl \<Longrightarrow> reachable_world ag w"
| step: "reachable_world ag w \<Longrightarrow> agent_step ag w w' \<Longrightarrow> reachable_world ag w'"

section \<open>The invariant of the store\<close>

text \<open>A suspended session holds the text of an interrupt.\<close>

definition row_resumable :: "'q agent \<Rightarrow> session_row \<Rightarrow> bool" where
  "row_resumable ag r \<longleftrightarrow>
     (row_status r = status_to_str Suspended \<longrightarrow> (\<exists>st. row_interrupted r = Some (state_to_text (ag_json ag) st)))"

definition db_ok :: "'q agent \<Rightarrow> db \<Rightarrow> bool" where
  "db_ok ag db \<longleftrightarrow> store_inv db \<and> (\<forall>r \<in> set (db_sessions db). row_resumable ag r)"

lemma db_ok_update:
  assumes "keeps_row g" "\<And>r. row_resumable ag r \<Longrightarrow> row_resumable ag (g r)" "db_ok ag db"
  shows "db_ok ag (snd (update_row i g db))"
  using assms store_inv_update [OF _ assms(1), of db i]
  by (auto simp: db_ok_def update_row_def split: option.splits)

lemma db_ok_same: "db_ok ag db \<Longrightarrow> store_inv db' \<Longrightarrow> set (db_sessions db') \<subseteq> set (db_sessions db) \<Longrightarrow> db_ok ag db'"
  by (auto simp: db_ok_def)

lemma db_ok_insert:
  assumes "db_ok ag db" "store_inv (snd (insert_session_row r db))" "row_resumable ag r"
  shows "db_ok ag (snd (insert_session_row r db))"
  using assms by (auto simp: db_ok_def insert_session_row_def split: option.splits)

lemma preserves_db_ok_simple [inv_intros]:
  "preserves (db_ok ag) (end_session now i)" "preserves (db_ok ag) (manager_set_skill_context i c)"
  "preserves (db_ok ag) (manager_set_phase_context i c)" "preserves (db_ok ag) (manager_apply_phase_transition i a b)"
  "preserves (db_ok ag) (advance_watermark i n)" "preserves (db_ok ag) (eff_read f)"
  unfolding preserves_def manager_defs update_status_def set_skill_context_def set_phase_opening_context_def
    apply_phase_transition_def advance_watermark_def
  by (auto intro!: db_ok_update simp: keeps_row_def row_resumable_def status_from_str_def eff_run)

lemma preserves_db_okI:
  assumes "\<And>db. store_inv db \<Longrightarrow> store_inv (snd (m db))" "\<And>db. set (db_sessions (snd (m db))) \<subseteq> set (db_sessions db)"
  shows "preserves (db_ok ag) m"
  using assms by (fastforce simp: preserves_def db_ok_def)

lemma preserves_db_ok_rows [inv_intros]:
  "preserves (db_ok ag) (manager_append_turn cd now i um am)" "preserves (db_ok ag) (manager_delete_session i)"
  "preserves (db_ok ag) (delete_ended_sessions_before c)" "preserves (db_ok ag) (cleanup_expired_messages i c w)"
proof -
  show "preserves (db_ok ag) (manager_append_turn cd now i um am)"
    by (rule preserves_db_okI) (simp_all add: manager_append_turn_def append_turn_def store_inv_append frame_simps)
  show "preserves (db_ok ag) (manager_delete_session i)"
    by (rule preserves_db_okI) (simp_all add: manager_delete_session_def store_inv_deletes,
      auto simp: delete_session_def delete_rows_def Let_def split: option.split)
  show "preserves (db_ok ag) (delete_ended_sessions_before c)"
    by (rule preserves_db_okI) (simp_all add: store_inv_deletes,
      auto simp: delete_ended_sessions_before_def delete_rows_def Let_def split: option.split)
  show "preserves (db_ok ag) (cleanup_expired_messages i c w)"
    by (rule preserves_db_okI) (simp_all add: store_inv_cleanup frame_simps)
qed

lemma preserves_db_ok_insert:
  assumes "\<And>db. snd (m db) = snd (insert_session_row (create_session_row now i u c) db)"
    and "\<And>db. store_inv db \<Longrightarrow> store_inv (snd (m db))"
  shows "preserves (db_ok ag) m"
  unfolding preserves_def
proof (intro allI impI)
  fix db
  assume ok: "db_ok ag db"
  have "row_resumable ag (create_session_row now i u c)"
    by (simp add: row_resumable_def create_session_row_def)
  moreover have "store_inv (snd (m db))" by (rule assms(2)) (use ok in \<open>simp add: db_ok_def\<close>)
  ultimately show "db_ok ag (snd (m db))" using db_ok_insert [OF ok] assms(1) [of db] by simp
qed

lemma created_row:
  "snd (create now i u db) = snd (insert_session_row (create_session_row now i u None) db)"
  "snd (create_with_skill_context now i u c db) = snd (insert_session_row (create_session_row now i u (Some c)) db)"
  by (auto simp: create_def create_with_skill_context_def split: prod.split sum.split)

lemma preserves_db_ok_create [inv_intros]:
  "preserves (db_ok ag) (create_session now i u)" "preserves (db_ok ag) (create_session_with_skill_context now i u c)"
proof -
  have "preserves (db_ok ag) (create now i u)"
    by (rule preserves_db_ok_insert [of _ now i u None])
       (rule created_row(1), rule store_inv_create(1))
  then show "preserves (db_ok ag) (create_session now i u)"
    unfolding create_session_def by (intro preserves_bind preserves_pure)
  have "preserves (db_ok ag) (create_with_skill_context now i u c)"
    by (rule preserves_db_ok_insert [of _ now i u "Some c"])
       (rule created_row(2), rule store_inv_create(2))
  then show "preserves (db_ok ag) (create_session_with_skill_context now i u c)"
    unfolding create_session_with_skill_context_def by (intro preserves_bind preserves_pure)
qed

lemma update_row_rows:
  "db_sessions (snd (update_row i g db)) =
     (if db_fault db = None then map (\<lambda>r. if row_id r = i then g r else r) (db_sessions db) else db_sessions db)"
  by (auto simp: update_row_def map_idI [symmetric] split: option.split intro!: map_idI)

text \<open>The two pairs of updates that record and clear an interrupt.\<close>

lemma db_ok_pair:
  assumes "keeps_row f" "keeps_row g" "db_ok ag db" "\<And>r. row_resumable ag (g (f r))"
  shows "db_ok ag (snd (update_row i g (snd (update_row i f db))))"
proof -
  have "store_inv (snd (update_row i g (snd (update_row i f db))))"
    using store_inv_update [OF store_inv_update [OF _ assms(1)] assms(2)] assms(3) by (simp add: db_ok_def)
  moreover have "row_id (f r) = row_id r" for r using assms(1) by (simp add: keeps_row_def)
  ultimately show ?thesis
    using assms(3,4) by (auto simp: db_ok_def update_row_rows update_row_fault)
qed

lemma status_keeps_row: "keeps_row (\<lambda>r. r\<lparr>row_status := status_to_str st, row_updated_at := t\<rparr>)"
  unfolding keeps_row_def using status_round_trip [of st] by simp

lemma db_ok_suspended:
  assumes "db_ok ag db"
  shows "db_ok ag (snd (set_interrupted_state i (Some (state_to_text (ag_json ag) st)) db))"
    "db_ok ag (snd (update_status now i Suspended (snd (set_interrupted_state i (Some (state_to_text (ag_json ag) st)) db))))"
proof -
  have f: "keeps_row (\<lambda>r. r\<lparr>row_interrupted := Some (state_to_text (ag_json ag) st)\<rparr>)"
    by (simp add: keeps_row_def)
  show "db_ok ag (snd (set_interrupted_state i (Some (state_to_text (ag_json ag) st)) db))"
    unfolding set_interrupted_state_def by (rule db_ok_update [OF f _ assms]) (auto simp: row_resumable_def)
  show "db_ok ag (snd (update_status now i Suspended (snd (set_interrupted_state i (Some (state_to_text (ag_json ag) st)) db))))"
    unfolding set_interrupted_state_def update_status_def
    by (rule db_ok_pair [OF f status_keeps_row assms]) (auto simp: row_resumable_def)
qed

lemma db_ok_reactivated:
  assumes "db_ok ag db"
  shows "db_ok ag (snd (update_status now i Active (snd (set_interrupted_state i None db))))"
  unfolding set_interrupted_state_def update_status_def
  by (rule db_ok_pair [OF _ status_keeps_row assms]) (simp_all add: keeps_row_def row_resumable_def)

section \<open>Every operation keeps the world well-formed\<close>

definition world_ok :: "'q agent \<Rightarrow> 'q world \<Rightarrow> bool" where
  "world_ok ag w \<longleftrightarrow> db_ok ag (w_db w) \<and> cache_inv (w_cache w)"

named_theorems world_intros \<open>operations that keep the world well-formed\<close>

lemmas world_pure [world_intros] = preserves_pure preserves_bind

lemma db_op_world [world_intros]:
  assumes "preserves (db_ok ag) m" shows "preserves (world_ok ag) (db_op m)"
  using assms by (auto simp: preserves_def world_ok_def db_op_def split: prod.split)

lemma on_cache_world: "(\<And>c. cache_inv c \<Longrightarrow> cache_inv (f c)) \<Longrightarrow> preserves (world_ok ag) (on_cache f)"
  by (simp add: preserves_def world_ok_def on_cache_def eff_run)

lemma cache_ops_world [world_intros]:
  "preserves (world_ok ag) (on_cache (cache_store now u i ms))"
  "preserves (world_ok ag) (on_cache (cache_append_turn now u i um am))"
  "preserves (world_ok ag) (on_cache (cache_evict u i))"
  by (rule on_cache_world, erule cache_ops_inv)+

lemma keeps_world:
  assumes "keeps w_db m" "keeps w_cache m" shows "preserves (world_ok ag) m"
  using assms by (auto simp: preserves_def keeps_def world_ok_def)

lemma untouched_world [world_intros]:
  "preserves (world_ok ag) (draw_id ag')" "preserves (world_ok ag) (run_chosen ag' st mk ms active)"
  "preserves (world_ok ag) (file_request ag' i kind)" "preserves (world_ok ag) (execute_directly ag' ts cs)"
  "preserves (world_ok ag) (settle res)"
proof -
  have "keeps w_cache (file_request ag' i kind)" by (simp add: keeps_def file_request_def Let_def split: prod.split)
  then show "preserves (world_ok ag) (file_request ag' i kind)" using file_request_db by (rule keeps_world [rotated])
  show "preserves (world_ok ag) (draw_id ag')" by (intro keeps_world draw_id_keeps)
  show "preserves (world_ok ag) (run_chosen ag' st mk ms active)" by (intro keeps_world run_chosen_keeps)
  show "preserves (world_ok ag) (execute_directly ag' ts cs)" "preserves (world_ok ag) (settle res)"
    by (intro keeps_world; simp add: keeps_def execute_directly_def settle_state)+
qed

lemma preserves_eff_mod_world [world_intros]:
  "(\<And>w. w_db (h w) = w_db w \<and> w_cache (h w) = w_cache w) \<Longrightarrow> preserves (world_ok ag) (eff_mod h)"
  by (simp add: preserves_def world_ok_def eff_run)

lemma update_row_Err: "update_row i g db = (Err e, db') \<Longrightarrow> db' = db"
  by (auto simp: update_row_def split: option.splits if_splits)

lemma set_interrupted_Err: "set_interrupted_state i js db = (Err e, db') \<Longrightarrow> db_ok ag db \<Longrightarrow> db_ok ag db'"
  by (auto simp: set_interrupted_state_def dest: update_row_Err)

text \<open>Two store calls in a row, judged by the store after both.\<close>

lemma db_pair_world:
  assumes "\<And>db. db_ok ag db \<Longrightarrow> db_ok ag (snd (m2 (snd (m1 db))))"
    and "\<And>db e db'. db_ok ag db \<Longrightarrow> m1 db = (Err e, db') \<Longrightarrow> db_ok ag db'" "preserves (world_ok ag) k"
  shows "preserves (world_ok ag) (eff_seq (db_op m1) (eff_seq (db_op m2) k))"
  unfolding preserves_def
proof (intro allI impI)
  fix w
  assume w: "world_ok ag w"
  obtain r1 db1 r2 db2 where m: "m1 (w_db w) = (r1, db1)" "m2 db1 = (r2, db2)" by (metis surj_pair)
  have both: "world_ok ag (w\<lparr>w_db := db2\<rparr>)" using assms(1) [of "w_db w"] w m by (simp add: world_ok_def)
  have one: "r1 = Err e \<Longrightarrow> world_ok ag (w\<lparr>w_db := db1\<rparr>)" for e
    using assms(2) [of "w_db w" e db1] w m by (simp add: world_ok_def)
  show "world_ok ag (snd (eff_seq (db_op m1) (eff_seq (db_op m2) k) w))"
    using both one assms(3) m by (cases r1; cases r2) (simp_all add: eff_bind_def db_op_def preserves_def)
qed

lemma suspend_world [world_intros]:
  "preserves (world_ok ag) k \<Longrightarrow>
   preserves (world_ok ag) (eff_seq (db_op (manager_set_interrupted i (Some (state_to_text (ag_json ag) st))))
     (eff_seq (db_op (manager_update_status now i Suspended)) k))"
  by (rule db_pair_world)
     (auto simp: manager_defs db_ok_suspended(2) dest: db_ok_suspended(1) [of ag _ i st] intro: arg_cong)

lemma reactivate_world [world_intros]:
  "preserves (world_ok ag) k \<Longrightarrow>
   preserves (world_ok ag) (eff_seq (db_op (manager_set_interrupted i None)) (eff_seq (db_op (manager_update_status now i Active)) k))"
  by (rule db_pair_world)
     (auto simp: manager_defs db_ok_reactivated dest: set_interrupted_Err)

lemmas db_reads_ok [inv_intros] = preserves_pure

lemma reads_world [world_intros]:
  "preserves (world_ok ag) (db_op (get_session i))"
  "preserves (world_ok ag) (db_op (list_sessions u))" "preserves (world_ok ag) (db_op (manager_load_messages cd i))"
  "preserves (world_ok ag) (db_op (manager_get_skill_context i))"
  "preserves (world_ok ag) (db_op (manager_get_phase_context i))"
  "preserves (world_ok ag) (db_op (manager_get_interrupted i))"
  by (rule db_op_world, simp only: manager_read_defs preserves_pure)+

lemma owner_world [world_intros]: "preserves (world_ok ag) (db_op (assert_owner u i))"
  by (rule db_op_world) (simp add: preserves_def assert_owner_keeps)

lemma writes_world [world_intros]:
  "preserves (world_ok ag) (db_op (end_session now i))" "preserves (world_ok ag) (db_op (manager_set_skill_context i c))"
  "preserves (world_ok ag) (db_op (manager_set_phase_context i c))"
  "preserves (world_ok ag) (db_op (manager_apply_phase_transition i a b))"
  "preserves (world_ok ag) (db_op (manager_append_turn cd now i um am))"
  "preserves (world_ok ag) (db_op (manager_delete_session i))" "preserves (world_ok ag) (db_op (create_session now i u))"
  "preserves (world_ok ag) (db_op (create_session_with_skill_context now i u b))"
  by (intro db_op_world inv_intros)+

lemma session_ops_world:
  "preserves (world_ok ag) (agent_create_session ag' now u)" "preserves (world_ok ag) (agent_end_session now u i)"
  "preserves (world_ok ag) (agent_load_messages ag' u i)"
  unfolding agent_create_session_def agent_end_session_def agent_load_messages_def
  by (intro world_intros)+

lemma delete_all_world: "preserves (world_ok ag) (delete_all_user_data u)"
proof -
  have "preserves (world_ok ag) (delete_each u ss)" for ss
    by (induction ss) (auto intro!: world_intros)
  then show ?thesis unfolding delete_all_user_data_def by (intro world_intros)
qed

lemma interrupt_world: "preserves (world_ok ag) (handle_tool_interrupt ag now i intr sk)"
  unfolding handle_tool_interrupt_def by (intro world_intros)

lemma get_cache_memory_world: "preserves (world_ok ag) (get_cache_memory ag' now u i)"
  unfolding get_cache_memory_def by (auto split: option.split intro!: world_intros)

lemma prepare_world: "preserves (world_ok ag) (prepare ag' now u i input)"
  unfolding prepare_def opening_turn_def resolve_skill_def Let_def
  by (auto split: option.split prod.split intro!: world_intros get_cache_memory_world)

lemma finish_world: "preserves (world_ok ag) (finish ag now u i p out)"
  unfolding finish_def update_cache_memory_def Let_def
  by (auto split: strategy_outcome.split intro!: world_intros interrupt_world)

lemma invoke_world: "preserves (world_ok ag) (invoke ag now later u i input)"
  unfolding invoke_def by (intro world_intros prepare_world finish_world)

lemma stateless_world: "preserves (world_ok ag) (invoke_stateless ag' input)"
  unfolding invoke_stateless_def by (auto split: strategy_outcome.split intro!: world_intros)

lemma apply_transition_world: "preserves (world_ok ag) (apply_transition ag' i m t)"
  unfolding apply_transition_def by (auto split: option.split intro!: world_intros)

lemma resume_world: "preserves (world_ok ag) (resume ag now later u i a d)"
proof -
  have gate: "preserves (world_ok ag) (resume_phase_gate ag i t d)" for t
    unfolding resume_phase_gate_def
    by (auto split: approval_decision.split intro!: world_intros apply_transition_world)
  have "preserves (world_ok ag) (decided ag ts pending d)" for ts pending
    unfolding decided_def by (auto split: approval_decision.split list.split intro!: world_intros)
  then have call: "preserves (world_ok ag) (resume_tool_call_or_checkpoint ag later i st d history pending)" for st history pending
    unfolding resume_tool_call_or_checkpoint_def Let_def
    by (auto split: strategy_outcome.split intro!: world_intros interrupt_world)
  show ?thesis
    unfolding resume_def
    by (auto split: option.split interrupted_state.split intro!: world_intros gate call)
qed

lemma routing_ops_world:
  "preserves (world_ok ag) (create_session_with_skill ag' now u sk)"
  "preserves (world_ok ag) (advance_phase ag now u i output)" "preserves (world_ok ag) (reload_skills yaml disk)"
proof -
  show "preserves (world_ok ag) (create_session_with_skill ag' now u sk)"
    unfolding create_session_with_skill_def by (auto split: option.split intro!: world_intros)
  have "preserves (world_ok ag) (gating_skill ag i)"
    unfolding gating_skill_def current_skill_id_def by (auto split: option.split intro!: world_intros)
  moreover have "preserves (world_ok ag) (suspend_at_gate ag now i s t)" for s t
    unfolding suspend_at_gate_def by (intro world_intros)
  ultimately show "preserves (world_ok ag) (advance_phase ag now u i output)"
    unfolding advance_phase_def by (auto split: option.split intro!: world_intros apply_transition_world)
  show "preserves (world_ok ag) (reload_skills yaml disk)"
    unfolding reload_skills_def by (auto split: option.split prod.split intro!: world_intros)
qed

lemma consolidate_world:
  "preserves (\<lambda>s. db_ok ag (ws_db s)) (consolidation_tick cd write cc now)"
  "preserves (\<lambda>s. db_ok ag (ws_db s)) (cleanup_tick cl now)"
proof -
  have reads: "preserves (\<lambda>s. db_ok ag (ws_db s)) (store_op (eff_read f))" for f :: "db \<Rightarrow> session_memory_error + 'b"
    by (rule store_op_preserves) (rule preserves_pure)
  have "preserves (\<lambda>s. db_ok ag (ws_db s)) (write_longterm write u c)" for u c
    by (auto simp: preserves_def write_longterm_def split: sum.split)
  then have "preserves (\<lambda>s. db_ok ag (ws_db s)) (consolidate_messages write u i msgs)" for u i msgs
    by (induction msgs) (auto intro!: preserves_pure preserves_bind store_op_preserves preserves_db_ok_simple)
  then show "preserves (\<lambda>s. db_ok ag (ws_db s)) (consolidation_tick cd write cc now)"
    unfolding consolidation_tick_def consolidate_session_def
    by (auto intro!: preserves_bind preserves_pure for_each_preserves reads)
  show "preserves (\<lambda>s. db_ok ag (ws_db s)) (cleanup_tick cl now)"
    unfolding cleanup_tick_def cleanup_session_def
    by (auto intro!: preserves_bind preserves_pure for_each_preserves reads store_op_preserves preserves_db_ok_rows)
qed

lemma on_worker_world:
  assumes "preserves (\<lambda>s. db_ok ag (ws_db s)) m" "world_ok ag w"
  shows "world_ok ag (on_worker w (snd (m (worker_view w))))"
  using assms by (simp add: preserves_def world_ok_def on_worker_def worker_view_def)

lemma preserves_snd: "preserves I m \<Longrightarrow> I s \<Longrightarrow> I (snd (m s))"
  by (simp add: preserves_def)

lemma world_ok_step:
  assumes "agent_step ag w w'" "world_ok ag w"
  shows "world_ok ag w'"
  using assms
proof cases
  case step_consolidate
  then show ?thesis using on_worker_world [OF consolidate_world(1) assms(2)] by simp
next
  case step_cleanup
  then show ?thesis using on_worker_world [OF consolidate_world(2) assms(2)] by simp
next
  case step_reviewer
  then show ?thesis using assms(2) by (simp add: world_ok_def)
qed (use assms(2) in \<open>auto intro!: preserves_snd session_ops_world delete_all_world invoke_world stateless_world
     resume_world routing_ops_world\<close>)

lemma world_ok_reachable: "reachable_world ag w \<Longrightarrow> world_ok ag w"
proof (induction rule: reachable_world.induct)
  case (start w ttl)
  then show ?case
    by (simp add: world_ok_def db_ok_def store_inv_empty cache_new_inv) (simp add: empty_db_def)
next
  case (step w w')
  show ?case by (rule world_ok_step [OF step.hyps(2) step.IH])
qed

text \<open>
  The agent's world stays well-formed: in every world the agent can reach, through any
  interleaving of client operations, worker ticks and reviewer decisions, session ids are
  unique, (session, sequence number) pairs are unique and positive, every message belongs
  to a session and has a known role, every status text parses, and the cache has one entry
  per key.
\<close>

theorem reachable_worlds_are_well_formed:
  assumes "reachable_world ag w"
  shows "store_inv (w_db w) \<and> cache_inv (w_cache w)"
  using world_ok_reachable [OF assms] by (simp add: world_ok_def db_ok_def)


section \<open>Users\<close>

text \<open>
  C6. Sessions of other users are out of reach: an operation that names a session the user
  does not own fails as if the session did not exist and changes nothing at all: no
  message, no status, no interrupt, no cache entry, no tool started.
\<close>

theorem foreign_sessions_are_untouchable:
  assumes "\<not> owned_by (w_db w) i u"
  shows "invoke ag now later u i input w = (Err (refused w i), w)
    \<and> resume ag now later u i a d w = (Err (refused w i), w)
    \<and> advance_phase ag now u i output w = (Err (refused w i), w)
    \<and> agent_get_session u i w = (Err (refused w i), w)
    \<and> agent_end_session now u i w = (Err (refused w i), w)
    \<and> agent_load_messages ag u i w = (Err (refused w i), w)"
  using assms
  by (simp add: invoke_def resume_def advance_phase_def agent_get_session_def agent_end_session_def
      agent_load_messages_def owner_check)

lemma owned_by_row:
  assumes "store_inv db" "db_fault db = None"
  shows "owned_by db j u \<longleftrightarrow> (\<exists>r \<in> set (db_sessions db). row_id r = j \<and> row_user_id r = u)"
proof -
  have "owned_by db j u \<longleftrightarrow> (\<exists>r. find_row db j = Some r \<and> row_user_id r = u)"
    using assms(2) by (auto simp: owned_by_def get_def row_to_session_def)
  also have "\<dots> \<longleftrightarrow> (\<exists>r \<in> set (db_sessions db). row_id r = j \<and> row_user_id r = u)"
  proof
    assume "\<exists>r. find_row db j = Some r \<and> row_user_id r = u"
    then obtain r where "find_row db j = Some r" "row_user_id r = u" by blast
    then show "\<exists>r \<in> set (db_sessions db). row_id r = j \<and> row_user_id r = u"
      using find_row_SomeD [of db j r] by blast
  next
    assume "\<exists>r \<in> set (db_sessions db). row_id r = j \<and> row_user_id r = u"
    then obtain r where "r \<in> set (db_sessions db)" "row_id r = j" "row_user_id r = u" by blast
    then show "\<exists>r. find_row db j = Some r \<and> row_user_id r = u"
      using find_row_eqI [OF assms(1)] by blast
  qed
  finally show ?thesis .
qed

lemma delete_each_exact:
  assumes "store_inv (w_db w)" "db_fault (w_db w) = None"
  shows "\<exists>w'. delete_each u ss w = (Ok (), w') \<and> store_inv (w_db w') \<and> db_fault (w_db w') = None
    \<and> (\<forall>j. get (w_db w') j = (if j \<in> ses_id ` set ss then Ok None else get (w_db w) j))
    \<and> (\<forall>j. j \<notin> ses_id ` set ss \<longrightarrow> load_messages cd (w_db w') j = load_messages cd (w_db w) j)
    \<and> (\<forall>j t. cache_load t u j (w_cache w') = (if j \<in> ses_id ` set ss then None else cache_load t u j (w_cache w)))"
  using assms
proof (induction ss arbitrary: w)
  case Nil
  then show ?case by (simp add: eff_run)
next
  case (Cons s ss)
  obtain db' where db': "delete_session (ses_id s) (w_db w) = (Ok (), db')" "store_inv db'" "db_fault db' = None"
      "get db' (ses_id s) = Ok None" "\<And>j. j \<noteq> ses_id s \<Longrightarrow> get db' j = get (w_db w) j"
      "\<And>j. j \<noteq> ses_id s \<Longrightarrow> load_messages cd db' j = load_messages cd (w_db w) j"
    using delete_session_contract [of "w_db w" "ses_id s" cd] Cons.prems by blast
  let ?w = "w\<lparr>w_db := db', w_cache := cache_evict u (ses_id s) (w_cache w)\<rparr>"
  have run: "delete_each u (s # ss) w = delete_each u ss ?w"
    using db'(1) by (simp add: eff_bind_def db_op_def manager_delete_session_def on_cache_def eff_run)
  obtain w' where "delete_each u ss ?w = (Ok (), w')" "store_inv (w_db w')" "db_fault (w_db w') = None"
      "\<forall>j. get (w_db w') j = (if j \<in> ses_id ` set ss then Ok None else get db' j)"
      "\<forall>j. j \<notin> ses_id ` set ss \<longrightarrow> load_messages cd (w_db w') j = load_messages cd db' j"
      "\<forall>j t. cache_load t u j (w_cache w') =
         (if j \<in> ses_id ` set ss then None else cache_load t u j (cache_evict u (ses_id s) (w_cache w)))"
    using Cons.IH [of ?w] db'(2,3) by auto
  then show ?case
    unfolding run by (intro exI [of _ w']) (use db'(4-6) in \<open>auto simp: cache_load_evict\<close>)
qed


section \<open>On the sample agent\<close>

text \<open>An agent whose model asks for a blocked tool, started on an empty store.\<close>

definition sample_asking :: "unit agent" where
  "sample_asking = sample_agent\<lparr>ag_deps := \<lambda>_. \<lparr>sd_cycle = sample_cycle, sd_planner = sample_planner\<rparr>\<rparr>"

definition sample_started :: "unit world" where
  "sample_started = snd (agent_create_session sample_asking 3000000000 ''bob'' (sample_world\<lparr>w_db := empty_db\<rparr>))"

definition sample_asked :: "unit world" where
  "sample_asked = snd (invoke sample_asking 0 5 ''bob'' ''a'' ''hi'' sample_started)"

lemma sample_asked_reachable: "reachable_world sample_asking sample_asked"
proof -
  have "reachable_world sample_asking (sample_world\<lparr>w_db := empty_db\<rparr>)"
    by (rule start [where ttl = 1000]) (simp_all add: sample_world_def)
  then show ?thesis
    unfolding sample_asked_def sample_started_def by (intro step [OF _ step_invoke] step [OF _ step_create_session])
qed

lemma reachable_worlds_are_well_formed_witness:
  "distinct (map row_id (db_sessions (w_db sample_asked)))"
  using reachable_worlds_are_well_formed [OF sample_asked_reachable] by (simp add: store_inv_def)


lemma sample_foreign: "\<not> owned_by (w_db sample_world) ''s1'' ''ada''"
  by (simp add: sample_world_def owned_by_def get_def find_row_def query_def row_to_session_def sample_db_def sample_eval)

lemma foreign_sessions_are_untouchable_witness:
  "resume sample_agent 0 5 ''ada'' ''s1'' ''w'' Approved sample_world = (Err (refused sample_world ''s1''), sample_world)"
  using foreign_sessions_are_untouchable [OF sample_foreign, of sample_agent 0 5] by blast


end
