(* ===== verification/Connection.thy ===== *)
theory Connection
  imports Core_Types
begin

text \<open>
  The language-model client: the circuit breaker, the retry loop and the fallback chain
  (\<open>avs-core/src/model/connection_manager.rs\<close>), the provider table
  (\<open>avs-core/src/model/registry.rs\<close>), the configuration (\<open>avs-core/src/config.rs\<close>) and the
  runner that splits system messages off (\<open>avs-core/src/llm_runner.rs\<close>).

  The network is the parameter \<open>http\<close>: what the server does at a tick with a request. The
  clock gives the time of a tick. A manager and its fallbacks are a list, the primary
  first; breakers live in a table, as \<open>with_model\<close> shares one between managers.
\<close>

section \<open>Circuit breaker\<close>

datatype circuit_state = Closed | OpenState | HalfOpen

record circuit_breaker =
  cb_state :: circuit_state
  cb_failures :: nat
  cb_threshold :: nat
  cb_last_failure :: "instant option"
  cb_timeout_secs :: nat

definition breaker_new :: "nat \<Rightarrow> nat \<Rightarrow> circuit_breaker" where
  "breaker_new threshold timeout_secs =
     \<lparr>cb_state = Closed, cb_failures = 0, cb_threshold = threshold, cb_last_failure = None,
      cb_timeout_secs = timeout_secs\<rparr>"

definition can_execute :: "instant \<Rightarrow> circuit_breaker \<Rightarrow> bool \<times> circuit_breaker" where
  "can_execute now cb =
     (case cb_state cb of
        Closed \<Rightarrow> (True, cb)
      | OpenState \<Rightarrow>
          (case cb_last_failure cb of
             Some t \<Rightarrow>
               if int (cb_timeout_secs cb) * nanos_per_sec < now - t
               then (True, cb\<lparr>cb_state := HalfOpen\<rparr>) else (False, cb)
           | None \<Rightarrow> (False, cb))
      | HalfOpen \<Rightarrow> (True, cb))"

definition record_success :: "circuit_breaker \<Rightarrow> circuit_breaker" where
  "record_success cb = cb\<lparr>cb_failures := 0, cb_state := Closed\<rparr>"

definition record_failure :: "instant \<Rightarrow> circuit_breaker \<Rightarrow> circuit_breaker" where
  "record_failure now cb =
     (let cb' = cb\<lparr>cb_failures := cb_failures cb + 1, cb_last_failure := Some now\<rparr> in
      if cb_threshold cb \<le> cb_failures cb + 1 then cb'\<lparr>cb_state := OpenState\<rparr> else cb')"

section \<open>Providers and managers\<close>

record provider =
  prov_name :: string
  prov_build :: "string \<Rightarrow> generate_request \<Rightarrow> model_error + json"
  prov_parse :: "string \<Rightarrow> model_error + generate_response"
  prov_headers :: "string \<Rightarrow> (string \<times> string) list"
  prov_path :: "string \<Rightarrow> string"

record connection =
  cn_api_base :: string
  cn_api_key :: string
  cn_model_name :: string
  cn_provider :: provider
  cn_settings :: "(string \<times> string) list"
  cn_breaker :: nat
  cn_max_retries :: nat
  cn_retry_delay_ms :: "64 word"

definition sat_mul :: "64 word \<Rightarrow> 64 word \<Rightarrow> 64 word" where
  "sat_mul a b = (if unat a * unat b < 2 ^ 64 then a * b else - 1)"

definition backoff_ms :: "connection \<Rightarrow> nat \<Rightarrow> 64 word" where
  "backoff_ms cn attempt = sat_mul (cn_retry_delay_ms cn) (2 ^ min attempt 10)"

definition rate_limit_backoff_ms :: "connection \<Rightarrow> nat \<Rightarrow> 64 word" where
  "rate_limit_backoff_ms cn attempt = sat_mul (backoff_ms cn attempt) 4"

definition clamp_retry_after_ms :: "64 word \<Rightarrow> 64 word" where
  "clamp_retry_after_ms ms = min ms 60000"

text \<open>\<open>str::parse::<u64>\<close>: an optional plus sign and decimal digits that fit.\<close>

definition is_digit :: "char \<Rightarrow> bool" where
  "is_digit c \<longleftrightarrow> CHR ''0'' \<le> c \<and> c \<le> CHR ''9''"

definition parse_u64 :: "string \<Rightarrow> 64 word option" where
  "parse_u64 s =
     (let ds = (case s of [] \<Rightarrow> [] | c # cs \<Rightarrow> if c = CHR ''+'' then cs else s);
          n = foldl (\<lambda>a c. a * 10 + (of_char c - 48)) (0 :: nat) ds
      in if ds \<noteq> [] \<and> list_all is_digit ds \<and> n < 2 ^ 64 then Some (of_nat n) else None)"

definition retry_after_of :: "string option \<Rightarrow> 64 word option" where
  "retry_after_of header =
     map_option (\<lambda>secs. clamp_retry_after_ms (sat_mul secs 1000))
       (Option.bind header (\<lambda>v. parse_u64 (trim v)))"

section \<open>Sending a request\<close>

datatype http_outcome =
    SendFailed string
  | BodyFailed nat "string option" string
  | Answered nat "string option" string

record http_request =
  hr_url :: string
  hr_headers :: "(string \<times> string) list"
  hr_body :: json

record net_state =
  ns_tick :: nat
  ns_breakers :: "nat \<Rightarrow> circuit_breaker"
  ns_sleeps :: "64 word list"

record network =
  nw_http :: "nat \<Rightarrow> http_request \<Rightarrow> http_outcome"
  nw_clock :: "nat \<Rightarrow> instant"
  nw_status_text :: "nat \<Rightarrow> string"

definition now_of :: "network \<Rightarrow> net_state \<Rightarrow> instant" where
  "now_of nw st = nw_clock nw (ns_tick st)"

definition on_breaker :: "nat \<Rightarrow> (circuit_breaker \<Rightarrow> circuit_breaker) \<Rightarrow> net_state \<Rightarrow> net_state" where
  "on_breaker i f st = st\<lparr>ns_breakers := (ns_breakers st)(i := f (ns_breakers st i))\<rparr>"

definition fail_breaker :: "network \<Rightarrow> connection \<Rightarrow> net_state \<Rightarrow> net_state" where
  "fail_breaker nw cn st = on_breaker (cn_breaker cn) (record_failure (now_of nw st)) st"

definition sleep_ms :: "64 word \<Rightarrow> net_state \<Rightarrow> net_state" where
  "sleep_ms ms st = st\<lparr>ns_sleeps := ns_sleeps st @ [ms]\<rparr>"

definition send :: "network \<Rightarrow> http_request \<Rightarrow> net_state \<Rightarrow> http_outcome \<times> net_state" where
  "send nw req st = (nw_http nw (ns_tick st) req, st\<lparr>ns_tick := ns_tick st + 1\<rparr>)"

text \<open>How the retry loop of one manager ends: with its answer, or with the error that a
  fallback, if there is one, takes over from.\<close>

datatype attempt_result =
    Final "model_error + generate_response"
  | TryFallback model_error

text \<open>The attempts from \<open>attempt\<close> on, with the number left; \<open>last_error\<close> is the last one's.\<close>

fun attempt_loop ::
  "network \<Rightarrow> connection \<Rightarrow> http_request \<Rightarrow> nat \<Rightarrow> nat \<Rightarrow> model_error option \<Rightarrow> net_state \<Rightarrow>
   attempt_result \<times> net_state" where
  "attempt_loop nw cn req 0 attempt last_error st =
     (TryFallback (case last_error of Some e \<Rightarrow> e | None \<Rightarrow> ApiError ''No response''), st)"
| "attempt_loop nw cn req (Suc left) attempt last_error st =
     (case send nw req st of
        (SendFailed e, st1) \<Rightarrow>
          let st2 = fail_breaker nw cn st1;
              st3 = (if attempt < cn_max_retries cn then sleep_ms (backoff_ms cn attempt) st2 else st2)
          in attempt_loop nw cn req left (attempt + 1) (Some (ApiError e)) st3
      | (BodyFailed status header e, st1) \<Rightarrow> (Final (Err (ApiError e)), st1)
      | (Answered status header body, st1) \<Rightarrow>
          if status = 429 then
            (let st2 = fail_breaker nw cn st1;
                 delay = (case retry_after_of header of Some ms \<Rightarrow> ms | None \<Rightarrow> rate_limit_backoff_ms cn attempt);
                 st3 = (if attempt < cn_max_retries cn then sleep_ms delay st2 else st2)
             in attempt_loop nw cn req left (attempt + 1) (Some (RateLimited body)) st3)
          else if \<not> (200 \<le> status \<and> status < 300) then
            (TryFallback (ApiError (''HTTP '' @ nw_status_text nw status @ '': '' @ body)),
             fail_breaker nw cn st1)
          else
            (case prov_parse (cn_provider cn) body of
               Ok response \<Rightarrow> (Final (Ok response), on_breaker (cn_breaker cn) record_success st1)
             | Err e \<Rightarrow> (Final (Err e), fail_breaker nw cn st1)))"

definition url_of :: "connection \<Rightarrow> string" where
  "url_of cn =
     (let path = prov_path (cn_provider cn) (cn_model_name cn) in
      if prov_name (cn_provider cn) = ''gemini''
      then cn_api_base cn @ path @ ''?key='' @ cn_api_key cn
      else cn_api_base cn @ path)"

definition request_of :: "connection \<Rightarrow> json \<Rightarrow> http_request" where
  "request_of cn body =
     \<lparr>hr_url = url_of cn,
      hr_headers = assoc_put ''content-type'' ''application/json'' (prov_headers (cn_provider cn) (cn_api_key cn)),
      hr_body = body\<rparr>"

text \<open>\<open>generate\<close> of the first manager of the chain, the rest its fallbacks.\<close>

fun generate ::
  "network \<Rightarrow> connection list \<Rightarrow> generate_request \<Rightarrow> net_state \<Rightarrow>
   (model_error + generate_response) \<times> net_state" where
  "generate nw [] request st = (Err (ApiError ''No response''), st)"
| "generate nw (cn # fallbacks) request st =
     (let (ok, cb) = can_execute (now_of nw st) (ns_breakers st (cn_breaker cn));
          st1 = on_breaker (cn_breaker cn) (\<lambda>_. cb) st
      in if \<not> ok then
           (if fallbacks \<noteq> [] then generate nw fallbacks request st1
            else (Err (CircuitOpen ''Circuit breaker is open''), st1))
         else
           (case prov_build (cn_provider cn) (cn_model_name cn) request of
              Err e \<Rightarrow> (Err e, st1)
            | Ok body \<Rightarrow>
                (case attempt_loop nw cn (request_of cn body) (cn_max_retries cn + 1) 0 None st1 of
                   (Final r, st2) \<Rightarrow> (r, st2)
                 | (TryFallback e, st2) \<Rightarrow>
                     if fallbacks \<noteq> [] then generate nw fallbacks request st2 else (Err e, st2))))"

section \<open>The runner\<close>

definition split_request ::
  "message list \<Rightarrow> tool_definition list option \<Rightarrow> json option \<Rightarrow> generate_request" where
  "split_request messages tools response_format =
     (let system_parts = map message_as_text (filter (\<lambda>m. msg_role m = RoleSystem) messages) in
      \<lparr>req_system = (if system_parts = [] then None else Some (join paragraph_break system_parts)),
       req_messages = filter (\<lambda>m. msg_role m \<noteq> RoleSystem) messages,
       req_tools = tools, req_response_format = response_format\<rparr>)"

definition invoke_inner ::
  "network \<Rightarrow> connection list \<Rightarrow> message list \<Rightarrow> tool_definition list option \<Rightarrow> json option \<Rightarrow> net_state \<Rightarrow>
   (agent_error + generate_response) \<times> net_state" where
  "invoke_inner nw chain messages tools response_format st =
     (let (r, st') = generate nw chain (split_request messages tools response_format) st in
      (map_err ModelErr r, st'))"

definition invoke_plain ::
  "network \<Rightarrow> connection list \<Rightarrow> message list \<Rightarrow> net_state \<Rightarrow> (agent_error + generate_response) \<times> net_state" where
  "invoke_plain nw chain messages st = invoke_inner nw chain messages None None st"

definition invoke_with_tools ::
  "network \<Rightarrow> connection list \<Rightarrow> message list \<Rightarrow> tool_definition list \<Rightarrow> net_state \<Rightarrow>
   (agent_error + generate_response) \<times> net_state" where
  "invoke_with_tools nw chain messages tools st = invoke_inner nw chain messages (Some tools) None st"

definition invoke_structured ::
  "network \<Rightarrow> connection list \<Rightarrow> message list \<Rightarrow> json \<Rightarrow> net_state \<Rightarrow>
   (agent_error + generate_response) \<times> net_state" where
  "invoke_structured nw chain messages schema st = invoke_inner nw chain messages None (Some schema) st"

section \<open>The breaker as a state machine\<close>

inductive breaker_step :: "circuit_breaker \<Rightarrow> circuit_breaker \<Rightarrow> bool" where
  bs_check: "breaker_step cb (snd (can_execute now cb))"
| bs_success: "breaker_step cb (record_success cb)"
| bs_failure: "breaker_step cb (record_failure now cb)"

inductive reachable_breaker :: "nat \<Rightarrow> nat \<Rightarrow> circuit_breaker \<Rightarrow> bool" for threshold timeout where
  rb_new: "reachable_breaker threshold timeout (breaker_new threshold timeout)"
| rb_step: "reachable_breaker threshold timeout cb \<Longrightarrow> breaker_step cb cb' \<Longrightarrow>
    reachable_breaker threshold timeout cb'"

inductive_cases breaker_stepE: "breaker_step cb cb'"

definition breaker_inv :: "nat \<Rightarrow> nat \<Rightarrow> circuit_breaker \<Rightarrow> bool" where
  "breaker_inv threshold timeout cb \<longleftrightarrow>
     cb_threshold cb = threshold \<and> cb_timeout_secs cb = timeout
     \<and> (cb_failures cb \<noteq> 0 \<longrightarrow> cb_last_failure cb \<noteq> None)
     \<and> (cb_state cb = Closed \<longrightarrow> 0 < threshold \<longrightarrow> cb_failures cb < threshold)
     \<and> (cb_state cb \<noteq> Closed \<longrightarrow> cb_last_failure cb \<noteq> None \<and> threshold \<le> cb_failures cb)"

lemma breaker_inv_step: "breaker_step cb cb' \<Longrightarrow> breaker_inv n t cb \<Longrightarrow> breaker_inv n t cb'"
  by (erule breaker_stepE)
     (auto simp: breaker_inv_def can_execute_def record_success_def record_failure_def Let_def
       split: circuit_state.splits option.splits)

lemma breaker_inv_reachable: "reachable_breaker n t cb \<Longrightarrow> breaker_inv n t cb"
  by (induction rule: reachable_breaker.induct)
     (auto simp: breaker_inv_def breaker_new_def dest: breaker_inv_step)

text \<open>
  C33. The breaker is never stuck and never leaks: in every state it can reach, it refuses
  a call exactly when it is open and its last failure is at most the timeout old; a
  refused call changes nothing; one failure of a probe in the half-open state opens it
  again, one success closes it, and while closed it has seen fewer failures in a row than
  the threshold.
\<close>

theorem breaker_refuses_exactly_while_cooling:
  assumes "reachable_breaker threshold timeout cb"
  shows "(\<not> fst (can_execute now cb) \<longleftrightarrow> cb_state cb = OpenState
            \<and> now - the (cb_last_failure cb) \<le> int timeout * nanos_per_sec)
    \<and> (\<not> fst (can_execute now cb) \<longrightarrow> snd (can_execute now cb) = cb)
    \<and> (cb_state cb = HalfOpen \<longrightarrow> cb_state (record_failure now cb) = OpenState)
    \<and> fst (can_execute now (record_success cb))
    \<and> (cb_state cb = Closed \<longrightarrow> 0 < threshold \<longrightarrow> cb_failures cb < threshold)"
proof -
  have inv: "breaker_inv threshold timeout cb" by (rule breaker_inv_reachable [OF assms])
  then have "\<not> fst (can_execute now cb) \<longleftrightarrow> cb_state cb = OpenState
      \<and> now - the (cb_last_failure cb) \<le> int timeout * nanos_per_sec"
    by (auto simp: breaker_inv_def can_execute_def split: circuit_state.splits option.splits if_splits)
  moreover have "\<not> fst (can_execute now cb) \<longrightarrow> snd (can_execute now cb) = cb"
    by (auto simp: can_execute_def split: circuit_state.splits option.splits)
  moreover have "cb_state cb = HalfOpen \<longrightarrow> cb_state (record_failure now cb) = OpenState"
    using inv by (auto simp: breaker_inv_def record_failure_def Let_def)
  ultimately show ?thesis
    using inv by (auto simp: breaker_inv_def can_execute_def record_success_def)
qed

lemma breaker_refuses_exactly_while_cooling_witness:
  "\<not> fst (can_execute 5 (record_failure 3 (breaker_new 1 30)))"
proof -
  have "reachable_breaker 1 30 (record_failure 3 (breaker_new 1 30))"
    by (intro rb_step [OF _ bs_failure] rb_new)
  from breaker_refuses_exactly_while_cooling [OF this, of 5] show ?thesis
    by (simp add: record_failure_def breaker_new_def)
qed

section \<open>Bounds\<close>

lemma unat_sat_mul: "unat (sat_mul a b) = min (2 ^ 64 - 1) (unat a * unat b)"
proof (cases "unat a * unat b < 2 ^ 64")
  case True
  then have "unat (a * b) = unat a * unat b" by (simp add: unat_mult_lem [THEN iffD1])
  then show ?thesis using True by (simp add: sat_mul_def min_def)
next
  case False
  then show ?thesis by (simp add: sat_mul_def unsigned_minus_1_eq_mask mask_eq_exp_minus_1)
qed

lemma unat_pow2: "k \<le> 10 \<Longrightarrow> unat ((2 :: 64 word) ^ k) = 2 ^ k"
proof -
  assume "k \<le> 10"
  then have "(2 :: nat) ^ k < 2 ^ 64" by (intro power_strict_increasing) auto
  moreover have "(2 :: 64 word) ^ k = of_nat (2 ^ k)" by simp
  ultimately show ?thesis by (simp only: unat_of_nat) (simp add: take_bit_nat_eq_self)
qed

text \<open>
  Delays never wrap around: the exponential backoff is the delay times two to the
  attempt, the exponent capped at ten, and the rate-limit backoff four times that, both
  cut off at the largest 64-bit value; a server's \<open>Retry-After\<close> never exceeds a minute.
\<close>

theorem backoff_is_exponential_and_saturating:
  "unat (backoff_ms cn attempt) = min (2 ^ 64 - 1) (unat (cn_retry_delay_ms cn) * 2 ^ min attempt 10)
   \<and> unat (rate_limit_backoff_ms cn attempt) =
       min (2 ^ 64 - 1) (unat (cn_retry_delay_ms cn) * 2 ^ min attempt 10 * 4)
   \<and> (case retry_after_of header of None \<Rightarrow> True | Some ms \<Rightarrow> unat ms \<le> 60000)"
proof -
  have "unat (backoff_ms cn attempt) = min (2 ^ 64 - 1) (unat (cn_retry_delay_ms cn) * 2 ^ min attempt 10)"
    by (simp add: backoff_ms_def unat_sat_mul unat_pow2)
  moreover from this have "unat (rate_limit_backoff_ms cn attempt)
      = min (2 ^ 64 - 1) (unat (cn_retry_delay_ms cn) * 2 ^ min attempt 10 * 4)"
    by (simp add: rate_limit_backoff_ms_def unat_sat_mul min_def)
  moreover have "unat (clamp_retry_after_ms ms) \<le> 60000" for ms
    unfolding clamp_retry_after_ms_def by (simp add: min_def word_le_nat_alt)
  ultimately show ?thesis by (auto simp: retry_after_of_def split: option.split)
qed

lemma ticks_frame [simp]:
  "ns_tick (fail_breaker nw cn st) = ns_tick st" "ns_tick (on_breaker i f st) = ns_tick st"
  "ns_tick (sleep_ms ms st) = ns_tick st"
  "ns_breakers (sleep_ms ms st) = ns_breakers st"
  by (simp_all add: fail_breaker_def on_breaker_def sleep_ms_def)

lemma attempt_loop_ticks:
  "attempt_loop nw cn req left attempt last_error st = (r, st') \<Longrightarrow> ns_tick st' \<le> ns_tick st + left"
proof (induction left arbitrary: attempt last_error st)
  case (Suc left)
  obtain out st1 where out: "send nw req st = (out, st1)" "ns_tick st1 = ns_tick st + 1"
    by (simp add: send_def)
  have step: "ns_tick st' \<le> Suc (ns_tick st + left)"
    if "attempt_loop nw cn req left a e st3 = (r, st')" "ns_tick st3 = Suc (ns_tick st)" for a e st3
    using Suc.IH [OF that(1)] that(2) by simp
  show ?case
  proof (cases out)
    case (SendFailed e)
    then show ?thesis using Suc.prems out by (auto simp: Let_def split: if_splits elim!: step)
  next
    case (BodyFailed s h e)
    then show ?thesis using Suc.prems out by auto
  next
    case (Answered s h b)
    then show ?thesis using Suc.prems out
      by (auto simp: Let_def split: if_splits sum.splits elim!: step)
  qed
qed simp

text \<open>
  C34. A call of the model always comes to an end within a fixed number of requests: for
  every behaviour of the network, the managers of a chain send together at most one
  request more than their retries each.
\<close>

theorem generate_sends_boundedly_many_requests:
  assumes "generate nw chain request st = (r, st')"
  shows "ns_tick st' \<le> ns_tick st + sum_list (map (\<lambda>cn. cn_max_retries cn + 1) chain)"
  using assms
proof (induction chain arbitrary: st)
  case (Cons cn fallbacks)
  obtain ok cb where check: "can_execute (now_of nw st) (ns_breakers st (cn_breaker cn)) = (ok, cb)" by force
  let ?st1 = "on_breaker (cn_breaker cn) (\<lambda>_. cb) st"
  let ?n = "sum_list (map (\<lambda>cn. cn_max_retries cn + 1) fallbacks)"
  have rest: "ns_tick st' \<le> ns_tick st2 + ?n" if "generate nw fallbacks request st2 = (r, st')" for st2
    by (rule Cons.IH [OF that])
  show ?case
  proof (cases ok)
    case False
    then show ?thesis using Cons.prems check rest [of ?st1] by (auto simp: Let_def split: if_splits)
  next
    case True
    show ?thesis
    proof (cases "prov_build (cn_provider cn) (cn_model_name cn) request")
      case (Inl e)
      then show ?thesis using Cons.prems check True by (auto simp: Let_def)
    next
      case (Inr body)
      obtain ar st2 where ar: "attempt_loop nw cn (request_of cn body) (cn_max_retries cn + 1) 0 None ?st1 = (ar, st2)"
        by force
      have "ns_tick st2 \<le> ns_tick st + (cn_max_retries cn + 1)"
        using attempt_loop_ticks [OF ar] by simp
      then show ?thesis
        using Cons.prems check True Inr ar rest [of st2]
        by (cases ar) (auto simp: Let_def split: if_splits)
    qed
  qed
qed simp

text \<open>
  A server error is not retried: whatever attempts are left, an answer outside
  200--299 other than 429 ends the manager's loop after that one request and hands over to
  the fallback. (The documentation counts server errors among the retried failures.)
\<close>

theorem server_error_is_not_retried:
  assumes "nw_http nw (ns_tick st) req = Answered status header body"
    and "status \<noteq> 429" "\<not> (200 \<le> status \<and> status < 300)"
  shows "\<exists>st'. attempt_loop nw cn req (Suc left) attempt last_error st =
      (TryFallback (ApiError (''HTTP '' @ nw_status_text nw status @ '': '' @ body)), st')
    \<and> ns_tick st' = ns_tick st + 1 \<and> ns_sleeps st' = ns_sleeps st"
  using assms by (auto simp: send_def fail_breaker_def on_breaker_def)

lemma failing_loop:
  assumes "\<And>t. \<exists>e. nw_http nw t req = SendFailed e"
  shows "\<exists>e st'. attempt_loop nw cn req left attempt last_error st = (TryFallback e, st')
    \<and> ns_tick st' = ns_tick st + left
    \<and> cb_failures (ns_breakers st' (cn_breaker cn)) = cb_failures (ns_breakers st (cn_breaker cn)) + left
    \<and> cb_threshold (ns_breakers st' (cn_breaker cn)) = cb_threshold (ns_breakers st (cn_breaker cn))
    \<and> (0 < left \<longrightarrow> cb_threshold (ns_breakers st (cn_breaker cn)) \<le> cb_failures (ns_breakers st (cn_breaker cn)) + left \<longrightarrow>
         cb_state (ns_breakers st' (cn_breaker cn)) = OpenState)"
proof (induction left arbitrary: attempt last_error st)
  case (Suc left)
  obtain e where e: "nw_http nw (ns_tick st) req = SendFailed e" using assms by blast
  let ?st2 = "fail_breaker nw cn (st\<lparr>ns_tick := ns_tick st + 1\<rparr>)"
  let ?st3 = "if attempt < cn_max_retries cn then sleep_ms (backoff_ms cn attempt) ?st2 else ?st2"
  let ?b = "ns_breakers st (cn_breaker cn)" and ?b3 = "ns_breakers ?st3 (cn_breaker cn)"
  have step: "attempt_loop nw cn req (Suc left) attempt last_error st
      = attempt_loop nw cn req left (attempt + 1) (Some (ApiError e)) ?st3"
    using e by (simp add: send_def Let_def)
  have b3: "?b3 = record_failure (now_of nw (st\<lparr>ns_tick := ns_tick st + 1\<rparr>)) ?b"
    by (simp add: fail_breaker_def on_breaker_def)
  then have f: "cb_failures ?b3 = cb_failures ?b + 1" "cb_threshold ?b3 = cb_threshold ?b"
      "cb_threshold ?b \<le> cb_failures ?b + 1 \<longrightarrow> cb_state ?b3 = OpenState"
    by (simp_all add: record_failure_def Let_def)
  have t: "ns_tick ?st3 = ns_tick st + 1" by simp
  show ?case
  proof (cases left)
    case 0
    then show ?thesis using f t unfolding step by auto
  next
    case left: (Suc m)
    then show ?thesis using Suc.IH [of "attempt + 1" "Some (ApiError e)" ?st3] f t unfolding step by auto
  qed
qed simp

text \<open>
  When the transport keeps failing, one call opens the breaker as soon as its
  attempts reach the threshold: every attempt is counted, and the very next call within
  the timeout is refused without a request.
\<close>

theorem failing_transport_opens_breaker:
  assumes down: "\<And>t req. \<exists>e. nw_http nw t req = SendFailed e"
    and build: "prov_build (cn_provider cn) (cn_model_name cn) request = Ok body"
    and closed: "ns_breakers st (cn_breaker cn) = breaker_new threshold timeout"
    and "threshold \<le> cn_max_retries cn + 1"
  shows "\<exists>e st'. generate nw [cn] request st = (Err e, st')
    \<and> ns_tick st' = ns_tick st + (cn_max_retries cn + 1)
    \<and> cb_failures (ns_breakers st' (cn_breaker cn)) = cn_max_retries cn + 1
    \<and> cb_state (ns_breakers st' (cn_breaker cn)) = OpenState"
proof -
  let ?st1 = "on_breaker (cn_breaker cn) (\<lambda>_. breaker_new threshold timeout) st"
  have can: "can_execute now (breaker_new threshold timeout) = (True, breaker_new threshold timeout)" for now
    by (simp add: can_execute_def breaker_new_def)
  have b: "ns_breakers ?st1 (cn_breaker cn) = breaker_new threshold timeout" by (simp add: on_breaker_def)
  obtain e st' where "attempt_loop nw cn (request_of cn body) (cn_max_retries cn + 1) 0 None ?st1 = (TryFallback e, st')"
      "ns_tick st' = ns_tick ?st1 + (cn_max_retries cn + 1)"
      "cb_failures (ns_breakers st' (cn_breaker cn)) = cn_max_retries cn + 1"
      "cb_state (ns_breakers st' (cn_breaker cn)) = OpenState"
    using failing_loop [of nw "request_of cn body" cn "cn_max_retries cn + 1" 0 None ?st1] down assms(4) b
    by (auto simp: breaker_new_def)
  then show ?thesis using build closed can by (simp add: Let_def)
qed

definition sample_provider :: provider where
  "sample_provider = \<lparr>prov_name = ''p'', prov_build = (\<lambda>_ _. Ok JNull),
     prov_parse = (\<lambda>_. Ok \<lparr>resp_content = [Text ''ok''], resp_usage = usage_default\<rparr>),
     prov_headers = (\<lambda>_. []), prov_path = (\<lambda>_. [])\<rparr>"

definition sample_connection :: connection where
  "sample_connection = \<lparr>cn_api_base = [], cn_api_key = [], cn_model_name = ''m'',
     cn_provider = sample_provider, cn_settings = [], cn_breaker = 0, cn_max_retries = 3,
     cn_retry_delay_ms = 500\<rparr>"

definition sample_net :: net_state where
  "sample_net = \<lparr>ns_tick = 0, ns_breakers = (\<lambda>_. breaker_new 4 30), ns_sleeps = []\<rparr>"

definition sample_request_body :: generate_request where
  "sample_request_body = \<lparr>req_system = None, req_messages = [], req_tools = None, req_response_format = None\<rparr>"

definition network_with :: "http_outcome \<Rightarrow> network" where
  "network_with out = \<lparr>nw_http = (\<lambda>_ _. out), nw_clock = int, nw_status_text = show_nat\<rparr>"

lemma failing_transport_opens_breaker_witness:
  "\<exists>e st'. generate (network_with (SendFailed ''down'')) [sample_connection] sample_request_body sample_net = (Err e, st')
     \<and> ns_tick st' = 4 \<and> cb_state (ns_breakers st' 0) = OpenState"
proof -
  have "\<And>t req. \<exists>e. nw_http (network_with (SendFailed ''down'')) t req = SendFailed e"
    by (simp add: network_with_def)
  moreover have "prov_build (cn_provider sample_connection) (cn_model_name sample_connection) sample_request_body
      = Ok JNull" by (simp add: sample_connection_def sample_provider_def)
  moreover have "ns_breakers sample_net (cn_breaker sample_connection) = breaker_new 4 30"
    by (simp add: sample_net_def)
  moreover have "4 \<le> cn_max_retries sample_connection + 1" by (simp add: sample_connection_def)
  ultimately have "\<exists>e st'. generate (network_with (SendFailed ''down'')) [sample_connection] sample_request_body sample_net = (Err e, st')
    \<and> ns_tick st' = ns_tick sample_net + (cn_max_retries sample_connection + 1)
    \<and> cb_failures (ns_breakers st' (cn_breaker sample_connection)) = cn_max_retries sample_connection + 1
    \<and> cb_state (ns_breakers st' (cn_breaker sample_connection)) = OpenState"
    by (rule failing_transport_opens_breaker)
  then show ?thesis by (auto simp: sample_connection_def sample_net_def)
qed

lemma generate_sends_boundedly_many_requests_witness:
  "ns_tick (snd (generate (network_with (SendFailed ''down'')) [sample_connection, sample_connection]
     sample_request_body sample_net)) \<le> 8"
  using generate_sends_boundedly_many_requests [OF prod.collapse [symmetric],
      of "network_with (SendFailed ''down'')" "[sample_connection, sample_connection]" sample_request_body sample_net]
  by (simp add: sample_connection_def sample_net_def)

lemma server_error_is_not_retried_witness:
  "\<exists>st'. attempt_loop (network_with (Answered 503 None ''busy'')) sample_connection
      (request_of sample_connection JNull) (Suc 3) 0 None sample_net
    = (TryFallback (ApiError ''HTTP 503: busy''), st') \<and> ns_tick st' = 1"
proof -
  have "show_nat 503 = ''503''" by code_simp
  then show ?thesis
    using server_error_is_not_retried [of "network_with (Answered 503 None ''busy'')" sample_net
        "request_of sample_connection JNull" 503 None "''busy''" sample_connection 3 0 None]
    by (simp add: network_with_def sample_net_def) blast
qed

end
