(* ===== verification/Providers.thy ===== *)
theory Providers
  imports Connection
begin

text \<open>
  The protocol translators: OpenAI-compatible chat
  (\<open>avs-core/src/model/openai_compatible.rs\<close>), Anthropic messages
  (\<open>avs-core/src/model/anthropic_provider.rs\<close>) and Gemini
  (\<open>avs-core/src/model/gemini_provider.rs\<close>), each as the request it builds and the answer it
  reads. The wire structs are records, \<open>to_value\<close> prints them as JSON objects, and reading a
  body into the response structs is the parameter \<open>decode\<close> (the code \<open>serde\<close> derives).
  Printing and reading the JSON text of a tool's arguments is the parameter \<open>codec\<close>.
\<close>

section \<open>Shared wire helpers\<close>

record args_codec =
  print_args :: "json \<Rightarrow> string option"
  parse_args :: "string \<Rightarrow> string + json"
  debug_block :: "content_block \<Rightarrow> string"

definition optional_field :: "string \<Rightarrow> ('a \<Rightarrow> json) \<Rightarrow> 'a option \<Rightarrow> (string \<times> json) list" where
  "optional_field k f x = (case x of None \<Rightarrow> [] | Some v \<Rightarrow> [(k, f v)])"

definition is_blank :: "string \<Rightarrow> bool" where
  "is_blank s \<longleftrightarrow> trim s = []"

definition header_char_ok :: "char \<Rightarrow> bool" where
  "header_char_ok c \<longleftrightarrow> (let n = (of_char c :: nat) in n = 9 \<or> (32 \<le> n \<and> n \<noteq> 127))"

definition header_value_ok :: "string \<Rightarrow> bool" where
  "header_value_ok s \<longleftrightarrow> list_all header_char_ok s"

section \<open>OpenAI-compatible chat\<close>

record chat_tool_call =
  tc_id :: string
  tc_type :: string
  tc_name :: string
  tc_arguments :: string

record chat_message =
  cm_role :: string
  cm_content :: "string option"
  cm_tool_calls :: "chat_tool_call list option"
  cm_tool_call_id :: "string option"

record chat_tool =
  ct_type :: string
  ct_name :: string
  ct_description :: string
  ct_parameters :: json
  ct_strict :: bool

record chat_request =
  cr_model :: string
  cr_messages :: "chat_message list"
  cr_tools :: "chat_tool list option"
  cr_template_kwargs :: "json option"
  cr_response_format :: "json option"

definition read_disable_thinking :: "string option \<Rightarrow> bool" where
  "read_disable_thinking env =
     (case env of Some v \<Rightarrow> \<not> (v = ''0'' \<or> to_lowercase v = ''false'') | None \<Rightarrow> True)"

fun split_blocks ::
  "args_codec \<Rightarrow> string \<Rightarrow> content_block list \<Rightarrow> model_error + (string list \<times> chat_tool_call list)" where
  "split_blocks cd role [] = Ok ([], [])"
| "split_blocks cd role (Text t # bs) =
     map_ok (\<lambda>(ts, cs). (t # ts, cs)) (split_blocks cd role bs)"
| "split_blocks cd role (ToolUse i n v # bs) =
     map_ok (\<lambda>(ts, cs).
         (ts, \<lparr>tc_id = i, tc_type = ''function'', tc_name = n,
               tc_arguments = (case print_args cd v of Some s \<Rightarrow> s | None \<Rightarrow> ''{}'')\<rparr> # cs))
       (split_blocks cd role bs)"
| "split_blocks cd role (ToolResult i c e # bs) =
     Err (InvalidResponse (role @ ''-role message must not contain a ToolResult block''))"

definition build_text_message ::
  "args_codec \<Rightarrow> string \<Rightarrow> content_block list \<Rightarrow> model_error + chat_message" where
  "build_text_message cd role content =
     map_ok (\<lambda>(text_parts, tool_calls).
         \<lparr>cm_role = role,
          cm_content =
            (if text_parts = [] \<and> tool_calls = [] then Some []
             else if text_parts = [] then None else Some (join newline text_parts)),
          cm_tool_calls = (if tool_calls = [] then None else Some tool_calls),
          cm_tool_call_id = None\<rparr>)
       (split_blocks cd role content)"

fun tool_result_messages ::
  "args_codec \<Rightarrow> content_block list \<Rightarrow> model_error + chat_message list" where
  "tool_result_messages cd [] = Ok []"
| "tool_result_messages cd (ToolResult i c e # bs) =
     map_ok (\<lambda>ms. \<lparr>cm_role = ''tool'', cm_content = Some (if e then ''Error: '' @ c else c),
                    cm_tool_calls = None, cm_tool_call_id = Some i\<rparr> # ms)
       (tool_result_messages cd bs)"
| "tool_result_messages cd (b # bs) =
     Err (InvalidResponse (''Tool-role message must contain only ToolResult blocks, found '' @ debug_block cd b))"

fun chat_messages :: "args_codec \<Rightarrow> message list \<Rightarrow> model_error + chat_message list" where
  "chat_messages cd [] = Ok []"
| "chat_messages cd (m # ms) =
     try_bind
       (case msg_role m of
          RoleSystem \<Rightarrow> Ok []
        | RoleTool \<Rightarrow> tool_result_messages cd (msg_content m)
        | RoleUser \<Rightarrow> map_ok (\<lambda>c. [c]) (build_text_message cd ''user'' (msg_content m))
        | RoleAssistant \<Rightarrow> map_ok (\<lambda>c. [c]) (build_text_message cd ''assistant'' (msg_content m)))
       (\<lambda>cs. map_ok (\<lambda>rest. cs @ rest) (chat_messages cd ms))"

definition chat_tool_of :: "tool_definition \<Rightarrow> chat_tool" where
  "chat_tool_of d = \<lparr>ct_type = ''function'', ct_name = def_name d, ct_description = def_description d,
     ct_parameters = def_parameters d, ct_strict = True\<rparr>"

definition system_message :: "string \<Rightarrow> chat_message" where
  "system_message s = \<lparr>cm_role = ''system'', cm_content = Some s, cm_tool_calls = None, cm_tool_call_id = None\<rparr>"

definition openai_wire ::
  "args_codec \<Rightarrow> bool \<Rightarrow> string \<Rightarrow> generate_request \<Rightarrow> model_error + chat_request" where
  "openai_wire cd disable_thinking model request =
     map_ok (\<lambda>ms.
         \<lparr>cr_model = model,
          cr_messages = (case req_system request of Some s \<Rightarrow> system_message s # ms | None \<Rightarrow> ms),
          cr_tools = map_option (map chat_tool_of) (req_tools request),
          cr_template_kwargs =
            (if disable_thinking then Some (JObject [(''enable_thinking'', JBool False)]) else None),
          cr_response_format = map_option (\<lambda>schema. JObject
              [(''json_schema'', JObject [(''name'', JString ''response''), (''schema'', schema)]),
               (''type'', JString ''json_schema'')]) (req_response_format request)\<rparr>)
       (chat_messages cd (req_messages request))"

definition chat_tool_call_value :: "chat_tool_call \<Rightarrow> json" where
  "chat_tool_call_value c = JObject (obj_from
     [(''id'', JString (tc_id c)), (''type'', JString (tc_type c)),
      (''function'', JObject (obj_from [(''name'', JString (tc_name c)), (''arguments'', JString (tc_arguments c))]))])"

definition chat_message_value :: "chat_message \<Rightarrow> json" where
  "chat_message_value m = JObject (obj_from
     ([(''role'', JString (cm_role m))]
      @ optional_field ''content'' JString (cm_content m)
      @ optional_field ''tool_calls'' (\<lambda>cs. JArray (map chat_tool_call_value cs)) (cm_tool_calls m)
      @ optional_field ''tool_call_id'' JString (cm_tool_call_id m)))"

definition chat_tool_value :: "chat_tool \<Rightarrow> json" where
  "chat_tool_value t = JObject (obj_from
     [(''type'', JString (ct_type t)),
      (''function'', JObject (obj_from
         [(''name'', JString (ct_name t)), (''description'', JString (ct_description t)),
          (''parameters'', ct_parameters t), (''strict'', JBool (ct_strict t))]))])"

definition chat_request_value :: "chat_request \<Rightarrow> json" where
  "chat_request_value r = JObject (obj_from
     ([(''model'', JString (cr_model r)), (''messages'', JArray (map chat_message_value (cr_messages r)))]
      @ optional_field ''tools'' (\<lambda>ts. JArray (map chat_tool_value ts)) (cr_tools r)
      @ optional_field ''chat_template_kwargs'' (\<lambda>v. v) (cr_template_kwargs r)
      @ optional_field ''response_format'' (\<lambda>v. v) (cr_response_format r)))"

definition openai_build ::
  "args_codec \<Rightarrow> bool \<Rightarrow> string \<Rightarrow> generate_request \<Rightarrow> model_error + json" where
  "openai_build cd disable_thinking model request =
     map_ok chat_request_value (openai_wire cd disable_thinking model request)"

record tool_call_wire =
  tw_id :: string
  tw_name :: string
  tw_arguments :: string

record response_message =
  rm_content :: "string option"
  rm_tool_calls :: "tool_call_wire list"

record chat_response =
  ch_choices :: "response_message list"
  ch_prompt_tokens :: "32 word"
  ch_completion_tokens :: "32 word"
  ch_cached_tokens :: "32 word"

fun read_tool_calls :: "args_codec \<Rightarrow> tool_call_wire list \<Rightarrow> model_error + content_block list" where
  "read_tool_calls cd [] = Ok []"
| "read_tool_calls cd (c # cs) =
     (case parse_args cd (tw_arguments c) of
        Err e \<Rightarrow> Err (InvalidResponse (''invalid tool_call arguments JSON: '' @ e))
      | Ok input \<Rightarrow> map_ok (\<lambda>bs. ToolUse (tw_id c) (tw_name c) input # bs) (read_tool_calls cd cs))"

definition read_message :: "args_codec \<Rightarrow> response_message \<Rightarrow> model_error + content_block list" where
  "read_message cd m =
     try_bind (read_tool_calls cd (rm_tool_calls m)) (\<lambda>calls.
       let text = (case rm_content m of
                     Some t \<Rightarrow> if is_blank t then [] else [Text t] | None \<Rightarrow> []) in
       if text @ calls = [] then Err (InvalidResponse ''No content in response'') else Ok (text @ calls))"

definition openai_parse ::
  "args_codec \<Rightarrow> (string \<Rightarrow> string + chat_response) \<Rightarrow> string \<Rightarrow> model_error + generate_response" where
  "openai_parse cd decode body =
     try_bind (map_err InvalidResponse (decode body)) (\<lambda>resp.
       case ch_choices resp of
         [] \<Rightarrow> Err (InvalidResponse ''No content in response'')
       | m # _ \<Rightarrow>
           map_ok (\<lambda>content.
               \<lparr>resp_content = content,
                resp_usage = \<lparr>input_tokens = ch_prompt_tokens resp, output_tokens = ch_completion_tokens resp,
                  cache_write_tokens = 0, cache_read_tokens = ch_cached_tokens resp\<rparr>\<rparr>)
             (read_message cd m))"

definition openai_headers :: "string \<Rightarrow> (string \<times> string) list" where
  "openai_headers api_key =
     (if header_value_ok (''Bearer '' @ api_key) then [(''authorization'', ''Bearer '' @ api_key)] else [])"

definition openai_provider ::
  "args_codec \<Rightarrow> (string \<Rightarrow> string + chat_response) \<Rightarrow> bool \<Rightarrow> provider" where
  "openai_provider cd decode disable_thinking =
     \<lparr>prov_name = ''openai'', prov_build = openai_build cd disable_thinking,
      prov_parse = openai_parse cd decode, prov_headers = openai_headers,
      prov_path = (\<lambda>_. ''/chat/completions'')\<rparr>"

section \<open>Anthropic messages\<close>

text \<open>A content block and whether it carries the ephemeral cache marker.\<close>

record anthropic_block =
  ab_block :: content_block
  ab_cached :: bool

record anthropic_message =
  am_role :: string
  am_content :: "anthropic_block list"

record anthropic_tool =
  at_name :: string
  at_description :: string
  at_schema :: json
  at_cached :: bool
  at_strict :: bool

record anthropic_request =
  ar_model :: string
  ar_system :: "anthropic_block list"
  ar_messages :: "anthropic_message list"
  ar_tools :: "anthropic_tool list option"
  ar_max_tokens :: nat
  ar_output_schema :: "json option"

definition new_block :: "content_block \<Rightarrow> anthropic_block" where
  "new_block b = \<lparr>ab_block = b, ab_cached = False\<rparr>"

definition set_cache_control :: "anthropic_block \<Rightarrow> anthropic_block" where
  "set_cache_control b = b\<lparr>ab_cached := True\<rparr>"

fun map_role :: "message_role \<Rightarrow> string option" where
  "map_role RoleUser = Some ''user''"
| "map_role RoleAssistant = Some ''assistant''"
| "map_role RoleTool = Some ''user''"
| "map_role RoleSystem = None"

fun map_last :: "('a \<Rightarrow> 'a) \<Rightarrow> 'a list \<Rightarrow> 'a list" where
  "map_last f [] = []"
| "map_last f [x] = [f x]"
| "map_last f (x # xs) = x # map_last f xs"

definition anthropic_tool_of :: "tool_definition \<Rightarrow> anthropic_tool" where
  "anthropic_tool_of d = \<lparr>at_name = def_name d, at_description = def_description d,
     at_schema = def_parameters d, at_cached = False, at_strict = True\<rparr>"

definition anthropic_message_of :: "message \<Rightarrow> anthropic_message option" where
  "anthropic_message_of m =
     map_option (\<lambda>role. \<lparr>am_role = role, am_content = map new_block (msg_content m)\<rparr>) (map_role (msg_role m))"

definition mark_last_block :: "anthropic_message \<Rightarrow> anthropic_message" where
  "mark_last_block m = m\<lparr>am_content := map_last set_cache_control (am_content m)\<rparr>"

definition mark_penultimate :: "anthropic_message list \<Rightarrow> anthropic_message list" where
  "mark_penultimate ms =
     (if 2 \<le> length ms then ms[length ms - 2 := mark_last_block (ms ! (length ms - 2))] else ms)"

definition build_wire_request :: "string \<Rightarrow> generate_request \<Rightarrow> anthropic_request" where
  "build_wire_request model_name request =
     \<lparr>ar_model = model_name,
      ar_system = (case req_system request of Some s \<Rightarrow> [set_cache_control (new_block (Text s))] | None \<Rightarrow> []),
      ar_messages = mark_penultimate (List.map_filter anthropic_message_of (req_messages request)),
      ar_tools = map_option (\<lambda>defs. map_last (\<lambda>t. t\<lparr>at_cached := True\<rparr>) (map anthropic_tool_of defs))
        (req_tools request),
      ar_max_tokens = 4096,
      ar_output_schema = req_response_format request\<rparr>"

definition cache_field :: "bool \<Rightarrow> (string \<times> json) list" where
  "cache_field c = (if c then [(''cache_control'', JObject [(''type'', JString ''ephemeral'')])] else [])"

fun block_fields :: "content_block \<Rightarrow> (string \<times> json) list" where
  "block_fields (Text t) = [(''type'', JString ''text''), (''text'', JString t)]"
| "block_fields (ToolUse i n v) =
     [(''type'', JString ''tool_use''), (''id'', JString i), (''name'', JString n), (''input'', v)]"
| "block_fields (ToolResult i c e) =
     [(''type'', JString ''tool_result''), (''tool_use_id'', JString i), (''content'', JString c),
      (''is_error'', JBool e)]"

definition anthropic_block_value :: "anthropic_block \<Rightarrow> json" where
  "anthropic_block_value b = JObject (obj_from (block_fields (ab_block b) @ cache_field (ab_cached b)))"

definition anthropic_message_value :: "anthropic_message \<Rightarrow> json" where
  "anthropic_message_value m = JObject (obj_from
     [(''role'', JString (am_role m)), (''content'', JArray (map anthropic_block_value (am_content m)))])"

definition anthropic_tool_value :: "anthropic_tool \<Rightarrow> json" where
  "anthropic_tool_value t = JObject (obj_from
     ([(''name'', JString (at_name t)), (''description'', JString (at_description t)),
       (''input_schema'', at_schema t), (''strict'', JBool (at_strict t))] @ cache_field (at_cached t)))"

definition anthropic_value :: "anthropic_request \<Rightarrow> json" where
  "anthropic_value r = JObject (obj_from
     ([(''model'', JString (ar_model r)),
       (''messages'', JArray (map anthropic_message_value (ar_messages r))),
       (''max_tokens'', JNumber (PosInt (ar_max_tokens r)))]
      @ (if ar_system r = [] then [] else [(''system'', JArray (map anthropic_block_value (ar_system r)))])
      @ optional_field ''tools'' (\<lambda>ts. JArray (map anthropic_tool_value ts)) (ar_tools r)
      @ optional_field ''output_config'' (\<lambda>schema. JObject [(''format'', JObject (obj_from
            [(''type'', JString ''json_schema''), (''schema'', schema)]))]) (ar_output_schema r)))"

definition anthropic_build :: "string \<Rightarrow> generate_request \<Rightarrow> model_error + json" where
  "anthropic_build model request = Ok (anthropic_value (build_wire_request model request))"

record anthropic_content =
  ac_type :: string
  ac_text :: "string option"
  ac_id :: "string option"
  ac_name :: "string option"
  ac_input :: "json option"

record anthropic_response =
  an_content :: "anthropic_content list"
  an_usage :: usage_stats

fun read_content :: "anthropic_content list \<Rightarrow> model_error + content_block list" where
  "read_content [] = Ok []"
| "read_content (c # cs) =
     (if ac_type c = ''text'' then
        map_ok (\<lambda>bs. (case ac_text c of
                        Some t \<Rightarrow> if is_blank t then bs else Text t # bs | None \<Rightarrow> bs)) (read_content cs)
      else if ac_type c = ''tool_use'' then
        (case (ac_id c, ac_name c, ac_input c) of
           (Some i, Some n, Some v) \<Rightarrow> map_ok (\<lambda>bs. ToolUse i n v # bs) (read_content cs)
         | _ \<Rightarrow> Err (InvalidResponse ''tool_use content block missing id, name, or input''))
      else read_content cs)"

definition anthropic_parse ::
  "(string \<Rightarrow> string + anthropic_response) \<Rightarrow> string \<Rightarrow> model_error + generate_response" where
  "anthropic_parse decode body =
     try_bind (map_err InvalidResponse (decode body)) (\<lambda>resp.
       try_bind (read_content (an_content resp)) (\<lambda>content.
         if content = [] then Err (InvalidResponse ''No text or tool_use content in response'')
         else Ok \<lparr>resp_content = content, resp_usage = an_usage resp\<rparr>))"

definition anthropic_headers :: "string \<Rightarrow> (string \<times> string) list" where
  "anthropic_headers api_key =
     [(''x-api-key'', if header_value_ok api_key then api_key else []),
      (''anthropic-version'', ''2023-06-01''),
      (''anthropic-beta'', ''prompt-caching-2024-07-31'')]"

definition anthropic_provider :: "(string \<Rightarrow> string + anthropic_response) \<Rightarrow> provider" where
  "anthropic_provider decode =
     \<lparr>prov_name = ''anthropic'', prov_build = anthropic_build, prov_parse = anthropic_parse decode,
      prov_headers = anthropic_headers, prov_path = (\<lambda>_. ''/v1/messages'')\<rparr>"

section \<open>Gemini\<close>

record gemini_content =
  gc_role :: string
  gc_parts :: "string list"

record gemini_request =
  gr_system :: "string option"
  gr_contents :: "gemini_content list"

fun is_text_block :: "content_block \<Rightarrow> bool" where
  "is_text_block (Text t) = True"
| "is_text_block _ = False"

fun gemini_role :: "message_role \<Rightarrow> string option" where
  "gemini_role RoleUser = Some ''user''"
| "gemini_role RoleAssistant = Some ''model''"
| "gemini_role RoleTool = Some ''user''"
| "gemini_role RoleSystem = None"

definition gemini_tools_error :: string where
  "gemini_tools_error = ''GeminiProvider does not support native tool-calling (request.tools) '' @ em_dash
     @ '' Gemini is out of scope for this project'' @ [CHR 0x27] @ ''s strict tool-calling support''"

definition gemini_blocks_error :: string where
  "gemini_blocks_error = ''GeminiProvider does not support native tool-calling content blocks (ToolUse/ToolResult) ''
     @ em_dash @ '' only Text blocks are supported''"

definition gemini_content_of :: "message \<Rightarrow> gemini_content option" where
  "gemini_content_of m =
     map_option (\<lambda>role. \<lparr>gc_role = role, gc_parts = [message_as_text m]\<rparr>) (gemini_role (msg_role m))"

definition gemini_wire :: "generate_request \<Rightarrow> model_error + gemini_request" where
  "gemini_wire request =
     (if req_tools request \<noteq> None then Err (InvalidResponse gemini_tools_error)
      else if \<exists>m \<in> set (req_messages request). \<exists>b \<in> set (msg_content m). \<not> is_text_block b
      then Err (InvalidResponse gemini_blocks_error)
      else Ok \<lparr>gr_system = req_system request,
               gr_contents = List.map_filter gemini_content_of (req_messages request)\<rparr>)"

definition gemini_part_value :: "string \<Rightarrow> json" where
  "gemini_part_value t = JObject [(''text'', JString t)]"

definition gemini_value :: "gemini_request \<Rightarrow> json" where
  "gemini_value r = JObject (obj_from
     (optional_field ''system_instruction''
        (\<lambda>s. JObject [(''parts'', JArray [gemini_part_value s])]) (gr_system r)
      @ [(''contents'', JArray (map (\<lambda>c. JObject (obj_from
            [(''role'', JString (gc_role c)), (''parts'', JArray (map gemini_part_value (gc_parts c)))]))
          (gr_contents r)))]))"

definition gemini_build :: "string \<Rightarrow> generate_request \<Rightarrow> model_error + json" where
  "gemini_build model request = map_ok gemini_value (gemini_wire request)"

text \<open>A response is the list of its candidates, each the list of its parts' texts.\<close>

definition gemini_parse ::
  "(string \<Rightarrow> string + string list list) \<Rightarrow> string \<Rightarrow> model_error + generate_response" where
  "gemini_parse decode body =
     try_bind (map_err InvalidResponse (decode body)) (\<lambda>candidates.
       case candidates of
         (t # _) # _ \<Rightarrow> Ok \<lparr>resp_content = [Text t], resp_usage = usage_default\<rparr>
       | _ \<Rightarrow> Err (InvalidResponse ''No content in response''))"

definition gemini_provider :: "(string \<Rightarrow> string + string list list) \<Rightarrow> provider" where
  "gemini_provider decode =
     \<lparr>prov_name = ''gemini'', prov_build = gemini_build, prov_parse = gemini_parse decode,
      prov_headers = (\<lambda>_. []), prov_path = (\<lambda>model. ''/v1beta/models/'' @ model @ '':generateContent'')\<rparr>"

section \<open>What the translators keep\<close>

text \<open>The tool calls and the tool results of a transcript, in order.\<close>

definition transcript_calls :: "message list \<Rightarrow> (string \<times> string) list" where
  "transcript_calls ms = concat (map (\<lambda>m.
     if msg_role m = RoleUser \<or> msg_role m = RoleAssistant
     then List.map_filter (\<lambda>b. case b of ToolUse i n v \<Rightarrow> Some (i, n) | _ \<Rightarrow> None) (msg_content m) else []) ms)"

definition transcript_results :: "message list \<Rightarrow> (string \<times> string) list" where
  "transcript_results ms = concat (map (\<lambda>m. if msg_role m = RoleTool
     then List.map_filter (\<lambda>b. case b of ToolResult i c e \<Rightarrow> Some (i, if e then ''Error: '' @ c else c) | _ \<Rightarrow> None)
       (msg_content m) else []) ms)"

definition wire_calls :: "chat_message list \<Rightarrow> (string \<times> string) list" where
  "wire_calls cs = concat (map (\<lambda>c. case cm_tool_calls c of
     Some tcs \<Rightarrow> map (\<lambda>t. (tc_id t, tc_name t)) tcs | None \<Rightarrow> []) cs)"

definition wire_results :: "chat_message list \<Rightarrow> (string \<times> string) list" where
  "wire_results cs = List.map_filter (\<lambda>c. case (cm_tool_call_id c, cm_content c) of
     (Some i, Some t) \<Rightarrow> Some (i, t) | _ \<Rightarrow> None) cs"

definition is_result_block :: "content_block \<Rightarrow> bool" where
  "is_result_block b = (case b of ToolResult _ _ _ \<Rightarrow> True | _ \<Rightarrow> False)"

text \<open>Results stand in tool messages only, and nothing else does.\<close>

definition results_placed :: "message \<Rightarrow> bool" where
  "results_placed m \<longleftrightarrow> (case msg_role m of
     RoleSystem \<Rightarrow> True
   | RoleTool \<Rightarrow> list_all is_result_block (msg_content m)
   | _ \<Rightarrow> list_all (\<lambda>b. \<not> is_result_block b) (msg_content m))"

lemma map_filter_Cons: "List.map_filter f (x # xs) = (case f x of Some y \<Rightarrow> y # List.map_filter f xs | None \<Rightarrow> List.map_filter f xs)"
  by (simp add: List.map_filter_simps)

lemma map_filter_append: "List.map_filter f (xs @ ys) = List.map_filter f xs @ List.map_filter f ys"
  by (simp add: List.map_filter_def)

lemma split_blocks_calls:
  "split_blocks cd role bs = Ok (ts, tcs) \<Longrightarrow>
     map (\<lambda>t. (tc_id t, tc_name t)) tcs
       = List.map_filter (\<lambda>b. case b of ToolUse i n v \<Rightarrow> Some (i, n) | _ \<Rightarrow> None) bs"
  by (induction cd role bs arbitrary: ts tcs rule: split_blocks.induct)
     (auto simp: map_ok_Ok map_filter_Cons List.map_filter_simps)

lemma split_blocks_ok: "is_ok (split_blocks cd role bs) \<longleftrightarrow> list_all (\<lambda>b. \<not> is_result_block b) bs"
  by (induction cd role bs rule: split_blocks.induct) (auto simp: is_result_block_def)

lemma build_text_message_ok:
  "is_ok (build_text_message cd role bs) \<longleftrightarrow> list_all (\<lambda>b. \<not> is_result_block b) bs"
  by (simp add: build_text_message_def split_blocks_ok)

lemma build_text_message_wire:
  assumes "build_text_message cd role bs = Ok c"
  shows "wire_calls [c] = List.map_filter (\<lambda>b. case b of ToolUse i n v \<Rightarrow> Some (i, n) | _ \<Rightarrow> None) bs"
    and "wire_results [c] = []"
proof -
  obtain ts tcs where sb: "split_blocks cd role bs = Ok (ts, tcs)"
    and c: "cm_tool_calls c = (if tcs = [] then None else Some tcs)" "cm_tool_call_id c = None"
    using assms by (auto simp: build_text_message_def map_ok_Ok)
  from c show "wire_results [c] = []" by (simp add: wire_results_def List.map_filter_def)
  from split_blocks_calls [OF sb] c
  show "wire_calls [c] = List.map_filter (\<lambda>b. case b of ToolUse i n v \<Rightarrow> Some (i, n) | _ \<Rightarrow> None) bs"
    by (auto simp: wire_calls_def)
qed

lemma tool_result_messages_ok: "is_ok (tool_result_messages cd bs) \<longleftrightarrow> list_all is_result_block bs"
  by (induction cd bs rule: tool_result_messages.induct) (auto simp: is_result_block_def)

lemma tool_result_messages_wire:
  "tool_result_messages cd bs = Ok cs \<Longrightarrow>
     wire_calls cs = []
     \<and> wire_results cs = List.map_filter
         (\<lambda>b. case b of ToolResult i c e \<Rightarrow> Some (i, if e then ''Error: '' @ c else c) | _ \<Rightarrow> None) bs"
  by (induction cd bs arbitrary: cs rule: tool_result_messages.induct)
     (auto simp: map_ok_Ok wire_calls_def wire_results_def map_filter_Cons List.map_filter_simps)

lemma wire_append:
  "wire_calls (a @ b) = wire_calls a @ wire_calls b" "wire_results (a @ b) = wire_results a @ wire_results b"
  by (simp_all add: wire_calls_def wire_results_def map_filter_append)

lemma transcript_Cons:
  "transcript_calls (m # ms) = transcript_calls [m] @ transcript_calls ms"
  "transcript_results (m # ms) = transcript_results [m] @ transcript_results ms"
  by (simp_all add: transcript_calls_def transcript_results_def)

lemma is_ok_try_bind: "is_ok (try_bind r f) \<longleftrightarrow> (\<exists>x. r = Ok x \<and> is_ok (f x))"
  by (cases r) auto

lemma is_ok_iff: "is_ok r \<longleftrightarrow> (\<exists>x. r = Ok x)"
  by (cases r) auto

lemma chat_messages_ok: "is_ok (chat_messages cd ms) \<longleftrightarrow> list_all results_placed ms"
proof (induction cd ms rule: chat_messages.induct)
  case (2 cd m ms)
  show ?case
  proof (cases "msg_role m")
    case RoleSystem
    then show ?thesis using 2 by (simp add: results_placed_def)
  next
    case RoleTool
    then show ?thesis using 2 tool_result_messages_ok [of cd "msg_content m"]
      by (auto simp: results_placed_def is_ok_try_bind is_ok_iff [of "tool_result_messages cd _"])
  next
    case RoleUser
    then show ?thesis using 2 build_text_message_ok [of cd "''user''" "msg_content m"]
      by (auto simp: results_placed_def is_ok_try_bind map_ok_Ok is_ok_iff [of "build_text_message cd _ _"])
  next
    case RoleAssistant
    then show ?thesis using 2 build_text_message_ok [of cd "''assistant''" "msg_content m"]
      by (auto simp: results_placed_def is_ok_try_bind map_ok_Ok is_ok_iff [of "build_text_message cd _ _"])
  qed
qed simp

lemma chat_messages_wire:
  "chat_messages cd ms = Ok cs \<Longrightarrow>
     wire_calls cs = transcript_calls ms \<and> wire_results cs = transcript_results ms"
proof (induction cd ms arbitrary: cs rule: chat_messages.induct)
  case (1 cd)
  then show ?case by (simp add: wire_calls_def wire_results_def transcript_calls_def transcript_results_def
        List.map_filter_simps)
next
  case (2 cd m ms)
  from "2.prems" obtain c1 c2 where one: "(case msg_role m of
          RoleSystem \<Rightarrow> Ok []
        | RoleTool \<Rightarrow> tool_result_messages cd (msg_content m)
        | RoleUser \<Rightarrow> map_ok (\<lambda>c. [c]) (build_text_message cd ''user'' (msg_content m))
        | RoleAssistant \<Rightarrow> map_ok (\<lambda>c. [c]) (build_text_message cd ''assistant'' (msg_content m))) = Ok c1"
    and rest: "chat_messages cd ms = Ok c2" and cs: "cs = c1 @ c2"
    unfolding chat_messages.simps try_bind_Ok_iff map_ok_Ok by blast
  have "wire_calls c1 = transcript_calls [m] \<and> wire_results c1 = transcript_results [m]"
    using one tool_result_messages_wire [of cd "msg_content m" c1]
    by (cases "msg_role m")
       (auto simp: map_ok_Ok transcript_calls_def transcript_results_def build_text_message_wire
         wire_calls_def [of "[]"] wire_results_def [of "[]"] List.map_filter_simps)
  then show ?case using "2.IH" [OF rest] cs transcript_Cons [of m ms] by (simp add: wire_append)
qed

text \<open>
  The OpenAI translator refuses a request exactly when a tool result stands outside a
  tool message or something else stands inside one; no block is dropped silently.
\<close>

theorem openai_refuses_misplaced_results:
  "is_ok (openai_wire cd disable_thinking model request) \<longleftrightarrow> list_all results_placed (req_messages request)"
  by (simp add: openai_wire_def chat_messages_ok)

text \<open>
  What is sent pairs calls and results as the transcript does: the tool calls on the
  wire are the transcript's, in order with their ids and names, and every tool result
  becomes one message with the id of its call and its text, marked when it is an error.
\<close>

theorem openai_keeps_calls_and_results:
  assumes "openai_wire cd disable_thinking model request = Ok wire"
  shows "wire_calls (cr_messages wire) = transcript_calls (req_messages request)
    \<and> wire_results (cr_messages wire) = transcript_results (req_messages request)"
proof -
  obtain cs where cs: "chat_messages cd (req_messages request) = Ok cs"
    and w: "cr_messages wire = (case req_system request of Some s \<Rightarrow> system_message s # cs | None \<Rightarrow> cs)"
    using assms by (auto simp: openai_wire_def map_ok_Ok)
  have "wire_calls (system_message s # cs) = wire_calls cs" "wire_results (system_message s # cs) = wire_results cs" for s
    by (simp_all add: wire_calls_def wire_results_def system_message_def map_filter_Cons)
  then show ?thesis using chat_messages_wire [OF cs] w by (simp split: option.splits)
qed

definition sample_codec_args :: args_codec where
  "sample_codec_args = \<lparr>print_args = (\<lambda>v. if v = JNull then Some ''null'' else None),
     parse_args = (\<lambda>s. if s = ''null'' then Ok JNull else Err ''bad''), debug_block = (\<lambda>_. ''block'')\<rparr>"

definition sample_dialogue :: generate_request where
  "sample_dialogue =
     \<lparr>req_system = Some ''be brief'',
      req_messages = [text_message RoleUser ''hi'',
        \<lparr>msg_role = RoleAssistant, msg_content = [Text ''let me look'', ToolUse ''c1'' ''look'' JNull]\<rparr>,
        \<lparr>msg_role = RoleTool, msg_content = [ToolResult ''c1'' ''gone'' True]\<rparr>],
      req_tools = None, req_response_format = None\<rparr>"

lemma openai_keeps_calls_and_results_witness:
  "\<exists>wire. openai_wire sample_codec_args True ''m'' sample_dialogue = Ok wire
     \<and> wire_calls (cr_messages wire) = [(''c1'', ''look'')]
     \<and> wire_results (cr_messages wire) = [(''c1'', ''Error: gone'')]"
proof -
  have "is_ok (openai_wire sample_codec_args True ''m'' sample_dialogue)" by code_simp
  then obtain wire where w: "openai_wire sample_codec_args True ''m'' sample_dialogue = Ok wire"
    by (auto simp: is_ok_iff)
  have "transcript_calls (req_messages sample_dialogue) = [(''c1'', ''look'')]"
      "transcript_results (req_messages sample_dialogue) = [(''c1'', ''Error: gone'')]"
    by code_simp+
  with w openai_keeps_calls_and_results [OF w] show ?thesis by simp
qed

section \<open>An answer survives being sent back\<close>

text \<open>What a server would read out of a message that was sent.\<close>

definition echo_message :: "chat_message \<Rightarrow> response_message" where
  "echo_message c = \<lparr>rm_content = cm_content c,
     rm_tool_calls = map (\<lambda>t. \<lparr>tw_id = tc_id t, tw_name = tc_name t, tw_arguments = tc_arguments t\<rparr>)
       (case cm_tool_calls c of Some ts \<Rightarrow> ts | None \<Rightarrow> [])\<rparr>"

definition codec_ok :: "args_codec \<Rightarrow> json \<Rightarrow> bool" where
  "codec_ok cd v \<longleftrightarrow> (case print_args cd v of Some s \<Rightarrow> parse_args cd s = Ok v | None \<Rightarrow> False)"

definition call_args_ok :: "args_codec \<Rightarrow> content_block \<Rightarrow> bool" where
  "call_args_ok cd b = (case b of ToolUse _ _ v \<Rightarrow> codec_ok cd v | _ \<Rightarrow> True)"

definition is_call :: "content_block \<Rightarrow> bool" where
  "is_call b = (case b of ToolUse _ _ _ \<Rightarrow> True | _ \<Rightarrow> False)"

lemma read_tool_calls_are_calls: "read_tool_calls cd cs = Ok bs \<Longrightarrow> list_all is_call bs"
  by (induction cd cs arbitrary: bs rule: read_tool_calls.induct)
     (auto simp: map_ok_Ok is_call_def split: sum.splits)

lemma resend_calls:
  assumes "list_all is_call bs" "list_all (call_args_ok cd) bs"
  shows "\<exists>tcs. split_blocks cd role bs = Ok ([], tcs) \<and> (tcs = [] \<longleftrightarrow> bs = [])
    \<and> read_tool_calls cd (map (\<lambda>t. \<lparr>tw_id = tc_id t, tw_name = tc_name t, tw_arguments = tc_arguments t\<rparr>) tcs) = Ok bs"
  using assms
proof (induction bs)
  case (Cons b bs)
  obtain i n v where b: "b = ToolUse i n v" using Cons.prems by (cases b) (auto simp: is_call_def)
  obtain s where s: "print_args cd v = Some s" "parse_args cd s = Ok v"
    using Cons.prems b by (auto simp: call_args_ok_def codec_ok_def split: option.splits)
  show ?case using Cons b s by (auto simp: map_ok_Ok)
qed simp

text \<open>
  An answer survives being sent back: when the arguments' text codec round-trips, the
  content read from a response, replayed as an assistant message, is accepted, and a
  server reading that message finds the same text and the same calls again.
\<close>

theorem openai_answer_survives_replay:
  assumes read: "read_message cd m = Ok content"
    and codec: "list_all (call_args_ok cd) content"
  shows "\<exists>c. build_text_message cd ''assistant'' content = Ok c \<and> read_message cd (echo_message c) = Ok content"
proof -
  define txts where "txts = (case rm_content m of Some t \<Rightarrow> if is_blank t then [] else [Text t] | None \<Rightarrow> [])"
  obtain calls where calls: "read_tool_calls cd (rm_tool_calls m) = Ok calls"
    and content: "content = txts @ calls" "content \<noteq> []"
    using read unfolding read_message_def try_bind_Ok_iff txts_def by (auto simp: Let_def split: if_splits)
  obtain tcs where tcs: "split_blocks cd ''assistant'' calls = Ok ([], tcs)" "tcs = [] \<longleftrightarrow> calls = []"
      "read_tool_calls cd (map (\<lambda>t. \<lparr>tw_id = tc_id t, tw_name = tc_name t, tw_arguments = tc_arguments t\<rparr>) tcs) = Ok calls"
    using resend_calls [of calls cd "''assistant''"] read_tool_calls_are_calls [OF calls] codec content by auto
  have "txts = [] \<or> (\<exists>t. txts = [Text t] \<and> \<not> is_blank t)"
    by (simp add: txts_def split: option.splits)
  then consider (none) "txts = []" | (some) t where "txts = [Text t]" "\<not> is_blank t"
    by blast
  then show ?thesis
  proof cases
    case none
    then show ?thesis using content tcs
      by (auto simp: build_text_message_def read_message_def echo_message_def Let_def)
  next
    case some
    then show ?thesis using content tcs
      by (cases "calls = []") (auto simp: build_text_message_def read_message_def echo_message_def Let_def)
  qed
qed

lemma openai_answer_survives_replay_witness:
  "\<exists>c. build_text_message sample_codec_args ''assistant'' [Text ''ok'', ToolUse ''c1'' ''look'' JNull] = Ok c
     \<and> read_message sample_codec_args (echo_message c) = Ok [Text ''ok'', ToolUse ''c1'' ''look'' JNull]"
proof -
  have "read_message sample_codec_args
      \<lparr>rm_content = Some ''ok'', rm_tool_calls = [\<lparr>tw_id = ''c1'', tw_name = ''look'', tw_arguments = ''null''\<rparr>]\<rparr>
    = Ok [Text ''ok'', ToolUse ''c1'' ''look'' JNull]" by code_simp
  moreover have "list_all (call_args_ok sample_codec_args) [Text ''ok'', ToolUse ''c1'' ''look'' JNull]"
    by code_simp
  ultimately show ?thesis by (rule openai_answer_survives_replay)
qed

section \<open>Cache markers\<close>

definition marked :: "anthropic_block list \<Rightarrow> nat" where
  "marked bs = length (filter ab_cached bs)"

definition cache_markers :: "anthropic_request \<Rightarrow> nat" where
  "cache_markers r = marked (ar_system r) + sum_list (map (\<lambda>m. marked (am_content m)) (ar_messages r))
     + (case ar_tools r of Some ts \<Rightarrow> length (filter at_cached ts) | None \<Rightarrow> 0)"

lemma map_last_append: "map_last f (xs @ [x]) = xs @ [f x]"
  by (induction f xs rule: map_last.induct) auto

lemma map_last_cases: "xs = [] \<or> (\<exists>ys y. xs = ys @ [y] \<and> map_last f xs = ys @ [f y])"
  by (cases xs rule: rev_cases) (simp_all add: map_last_append)

lemma map_map_last: "(\<And>x. g (f x) = g x) \<Longrightarrow> map g (map_last f xs) = map g xs"
  using map_last_cases [of xs f] by auto

lemma length_filter_map_last:
  assumes "\<And>x. x \<in> set xs \<Longrightarrow> \<not> P x"
  shows "length (filter P (map_last f xs)) \<le> 1"
proof -
  consider "xs = []" | ys y where "xs = ys @ [y]" "map_last f xs = ys @ [f y]"
    using map_last_cases [of xs f] by blast
  then show ?thesis
  proof cases
    case 2
    then have "filter P ys = []" using assms by (auto simp: filter_empty_conv)
    with 2 show ?thesis by simp
  qed simp
qed

lemma marked_map_last: "marked (map_last set_cache_control (map new_block bs)) \<le> 1"
  unfolding marked_def by (rule length_filter_map_last) (auto simp: new_block_def)

lemma marked_new: "marked (map new_block bs) = 0"
  by (induction bs) (simp_all add: marked_def new_block_def)

lemma plain_messages:
  "\<forall>m \<in> set (List.map_filter anthropic_message_of ms). \<exists>bs. am_content m = map new_block bs"
  by (induction ms) (auto simp: map_filter_Cons List.map_filter_simps anthropic_message_of_def split: option.splits)

lemma mark_penultimate_marks:
  assumes "\<forall>m \<in> set ms. \<exists>bs. am_content m = map new_block bs"
  shows "sum_list (map (\<lambda>m. marked (am_content m)) (mark_penultimate ms)) \<le> 1"
proof -
  have zero: "sum_list (map (\<lambda>m. marked (am_content m)) xs) = 0" if "set xs \<subseteq> set ms" for xs
    using assms that by (induction xs) (auto simp: marked_new)
  show ?thesis
  proof (cases "2 \<le> length ms")
    case True
    let ?n = "length ms - 2"
    have "mark_penultimate ms = take ?n ms @ mark_last_block (ms ! ?n) # drop (Suc ?n) ms"
      using True by (simp add: mark_penultimate_def upd_conv_take_nth_drop)
    moreover have "ms ! ?n \<in> set ms" using True by simp
    then have "marked (am_content (mark_last_block (ms ! ?n))) \<le> 1"
      using assms marked_map_last by (auto simp: mark_last_block_def)
    ultimately show ?thesis
      by (simp only: map_append list.map sum_list.append sum_list.Cons
          zero [OF set_take_subset] zero [OF set_drop_subset])
  qed (simp add: mark_penultimate_def zero)
qed

lemma mark_penultimate_content:
  "map (\<lambda>m. (am_role m, map ab_block (am_content m))) (mark_penultimate ms)
     = map (\<lambda>m. (am_role m, map ab_block (am_content m))) ms"
proof (cases "2 \<le> length ms")
  case True
  have "map ab_block (am_content (mark_last_block m)) = map ab_block (am_content m)" for m
    by (simp add: mark_last_block_def map_map_last set_cache_control_def)
  moreover have "am_role (mark_last_block m) = am_role m" for m by (simp add: mark_last_block_def)
  ultimately show ?thesis using True
    by (auto simp: mark_penultimate_def map_update list_update_same_conv)
qed (simp add: mark_penultimate_def)

lemma tools_marked_at_most_once:
  "length (filter at_cached (map_last (\<lambda>t. t\<lparr>at_cached := True\<rparr>) (map anthropic_tool_of ds))) \<le> 1"
  by (rule length_filter_map_last) (auto simp: anthropic_tool_of_def)

lemma wire_message_content:
  "map (\<lambda>m. (am_role m, map ab_block (am_content m))) (List.map_filter anthropic_message_of ms)
     = List.map_filter (\<lambda>m. map_option (\<lambda>r. (r, msg_content m)) (map_role (msg_role m))) ms"
  by (induction ms)
     (auto simp: map_filter_Cons List.map_filter_simps anthropic_message_of_def new_block_def o_def split: option.splits)

text \<open>
  The prompt-cache markers are only markers: an Anthropic request carries at most three
  (the service allows four), and with the markers set aside its messages are the
  transcript's, block by block, every message but the system ones under its role.
\<close>

theorem anthropic_marks_at_most_three_blocks:
  "cache_markers (build_wire_request model request) \<le> 3
   \<and> map (\<lambda>m. (am_role m, map ab_block (am_content m))) (ar_messages (build_wire_request model request))
     = List.map_filter (\<lambda>m. map_option (\<lambda>r. (r, msg_content m)) (map_role (msg_role m))) (req_messages request)"
proof -
  let ?r = "build_wire_request model request"
  have "marked (ar_system ?r) \<le> 1"
    by (simp add: build_wire_request_def marked_def split: option.splits)
  moreover have "sum_list (map (\<lambda>m. marked (am_content m)) (ar_messages ?r)) \<le> 1"
    using mark_penultimate_marks [OF plain_messages] by (simp add: build_wire_request_def)
  moreover have "(case ar_tools ?r of Some ts \<Rightarrow> length (filter at_cached ts) | None \<Rightarrow> 0) \<le> 1"
    using tools_marked_at_most_once by (simp add: build_wire_request_def split: option.splits)
  ultimately have "cache_markers ?r \<le> 3" by (simp add: cache_markers_def)
  then show ?thesis by (simp add: build_wire_request_def mark_penultimate_content wire_message_content)
qed

section \<open>No tool call is dropped\<close>

definition well_formed_use :: "anthropic_content \<Rightarrow> bool" where
  "well_formed_use c \<longleftrightarrow> ac_type c = ''tool_use'' \<longrightarrow> ac_id c \<noteq> None \<and> ac_name c \<noteq> None \<and> ac_input c \<noteq> None"

lemma read_content_ok: "is_ok (read_content cs) \<longleftrightarrow> list_all well_formed_use cs"
  by (induction cs) (auto simp: well_formed_use_def split: option.splits)

lemma read_content_calls:
  "read_content cs = Ok bs \<Longrightarrow>
     filter is_call bs = map (\<lambda>c. ToolUse (the (ac_id c)) (the (ac_name c)) (the (ac_input c)))
       (filter (\<lambda>c. ac_type c = ''tool_use'') cs)"
  by (induction cs arbitrary: bs)
     (auto simp: map_ok_Ok is_call_def split: if_splits option.splits)

text \<open>
  A model's tool call never vanishes: an Anthropic answer with a malformed tool call is
  an error, and one that is accepted contains every tool call of the body, in order.
\<close>

theorem anthropic_never_drops_a_call:
  assumes "decode body = Ok answer"
  shows "(\<not> list_all well_formed_use (an_content answer) \<longrightarrow> \<not> is_ok (anthropic_parse decode body))
    \<and> (\<forall>response. anthropic_parse decode body = Ok response \<longrightarrow>
         filter is_call (resp_content response)
           = map (\<lambda>c. ToolUse (the (ac_id c)) (the (ac_name c)) (the (ac_input c)))
               (filter (\<lambda>c. ac_type c = ''tool_use'') (an_content answer)))"
proof -
  have "is_ok (read_content (an_content answer))" if "is_ok (anthropic_parse decode body)"
    using that assms by (auto simp: anthropic_parse_def is_ok_try_bind)
  then show ?thesis using assms read_content_ok [of "an_content answer"]
    by (auto simp: anthropic_parse_def try_bind_Ok_iff read_content_calls split: if_splits)
qed

definition sample_answer :: anthropic_response where
  "sample_answer = \<lparr>an_content =
     [\<lparr>ac_type = ''text'', ac_text = Some ''hm'', ac_id = None, ac_name = None, ac_input = None\<rparr>,
      \<lparr>ac_type = ''tool_use'', ac_text = None, ac_id = Some ''c1'', ac_name = Some ''look'', ac_input = Some JNull\<rparr>],
     an_usage = usage_default\<rparr>"

lemma anthropic_never_drops_a_call_witness:
  "filter is_call (resp_content (the (case anthropic_parse (\<lambda>_. Ok sample_answer) ''{}'' of Ok r \<Rightarrow> Some r | Err _ \<Rightarrow> None)))
     = [ToolUse ''c1'' ''look'' JNull]"
proof -
  have "is_ok (anthropic_parse (\<lambda>_. Ok sample_answer) ''{}'')" by code_simp
  then obtain r where r: "anthropic_parse (\<lambda>_. Ok sample_answer) ''{}'' = Ok r" by (auto simp: is_ok_iff)
  have "filter is_call (resp_content r)
      = map (\<lambda>c. ToolUse (the (ac_id c)) (the (ac_name c)) (the (ac_input c)))
          (filter (\<lambda>c. ac_type c = ''tool_use'') (an_content sample_answer))"
    using anthropic_never_drops_a_call [of "\<lambda>_. Ok sample_answer" "''{}''" sample_answer] r by blast
  also have "\<dots> = [ToolUse ''c1'' ''look'' JNull]" by code_simp
  finally show ?thesis using r by simp
qed

end
