(* ===== verification/Provider_Registry.thy ===== *)
theory Provider_Registry
  imports Providers
begin

text \<open>
  Configuration (\<open>avs-core/src/config.rs\<close>), the table of provider factories
  (\<open>avs-core/src/model/registry.rs\<close>), the constructors of a connection manager
  (\<open>avs-core/src/model/connection_manager.rs\<close>) and the runner's builder
  (\<open>avs-core/src/builder.rs\<close>, \<open>avs-core/src/llm_runner.rs\<close>).

  A manager is the list of itself and its fallbacks (\<open>Connection\<close>). Its breaker is an index
  of the table \<open>ns_breakers\<close>; a constructor that makes a breaker takes a fresh index and the
  table, so that two managers share a breaker exactly when they hold the same index.
\<close>

section \<open>Configuration\<close>

type_synonym settings = "(string \<times> string) list"

record provider_config =
  pc_name :: string
  pc_settings :: settings

definition anthropic_config :: "string \<Rightarrow> string \<Rightarrow> provider_config" where
  "anthropic_config model_name api_key =
     \<lparr>pc_name = ''anthropic'', pc_settings = [(''model_name'', model_name), (''api_key'', api_key)]\<rparr>"

definition openai_config :: "string \<Rightarrow> string \<Rightarrow> string option \<Rightarrow> provider_config" where
  "openai_config model_name api_key base_url =
     \<lparr>pc_name = ''openai'',
      pc_settings = (let s = [(''model_name'', model_name), (''api_key'', api_key)] in
        case base_url of Some u \<Rightarrow> assoc_put ''base_url'' u s | None \<Rightarrow> s)\<rparr>"

definition gemini_config :: "string \<Rightarrow> string \<Rightarrow> provider_config" where
  "gemini_config model_name api_key =
     \<lparr>pc_name = ''gemini'', pc_settings = [(''model_name'', model_name), (''api_key'', api_key)]\<rparr>"

definition custom_config :: "string \<Rightarrow> settings \<Rightarrow> provider_config" where
  "custom_config name settings = \<lparr>pc_name = name, pc_settings = settings\<rparr>"

record config =
  cfg_provider :: provider_config
  cfg_max_messages :: nat
  cfg_tools :: "string list"
  cfg_prompts_dir :: "string option"
  cfg_system_prompt :: "string option"

definition validate_config :: "config \<Rightarrow> agent_error + unit" where
  "validate_config c =
     (if pc_name (cfg_provider c) = [] then Err (ConfigErr (ConfigMissing ''provider.name is required''))
      else Ok ())"

text \<open>Reading the file and its YAML are parameters: their errors are texts.\<close>

definition config_from_file ::
  "(string \<Rightarrow> string + string) \<Rightarrow> (string \<Rightarrow> string + config) \<Rightarrow> string \<Rightarrow> agent_error + config" where
  "config_from_file read_file from_yaml path =
     try_bind (map_err (\<lambda>e. ConfigErr (ConfigInvalid e)) (read_file path)) (\<lambda>content.
     try_bind (map_err (\<lambda>e. ConfigErr (ConfigInvalid e)) (from_yaml content)) (\<lambda>c.
     map_ok (\<lambda>_. c) (validate_config c)))"

section \<open>The provider registry\<close>

record resolved_provider =
  rp_provider :: provider
  rp_api_base :: string
  rp_api_key :: string
  rp_model_name :: string

type_synonym provider_factory = "settings \<Rightarrow> model_error + resolved_provider"

record provider_registry =
  factories :: "(string \<times> provider_factory) list"

definition empty_provider_registry :: provider_registry where
  "empty_provider_registry = \<lparr>factories = []\<rparr>"

definition register_factory :: "string \<Rightarrow> provider_factory \<Rightarrow> provider_registry \<Rightarrow> provider_registry" where
  "register_factory name f r = r\<lparr>factories := assoc_put name f (factories r)\<rparr>"

definition build_provider :: "provider_registry \<Rightarrow> string \<Rightarrow> settings \<Rightarrow> model_error + resolved_provider" where
  "build_provider r name settings =
     (case map_of (factories r) name of
        None \<Rightarrow> Err (UnknownProvider name) | Some f \<Rightarrow> f settings)"

definition require_setting :: "settings \<Rightarrow> string \<Rightarrow> string \<Rightarrow> model_error + string" where
  "require_setting settings key prov =
     (case map_of settings key of
        Some v \<Rightarrow> if v \<noteq> [] then Ok v else Err (MissingSetting key prov)
      | None \<Rightarrow> Err (MissingSetting key prov))"

definition validate_header_value :: "string \<Rightarrow> model_error + unit" where
  "validate_header_value api_key =
     (if \<not> header_value_ok api_key
      then Err (InvalidApiKey (''API key contains characters that are invalid in an HTTP header ''
             @ ''(control characters or non-visible ASCII)''))
      else Ok ())"

text \<open>What the three translators take from \<open>serde\<close> and from the environment.\<close>

record protocols =
  pt_codec :: args_codec
  pt_disable_thinking_env :: "string option"
  pt_openai :: "string \<Rightarrow> string + chat_response"
  pt_anthropic :: "string \<Rightarrow> string + anthropic_response"
  pt_gemini :: "string \<Rightarrow> string + string list list"

definition openai_of :: "protocols \<Rightarrow> provider" where
  "openai_of pt = openai_provider (pt_codec pt) (pt_openai pt) (read_disable_thinking (pt_disable_thinking_env pt))"

definition anthropic_factory :: "protocols \<Rightarrow> provider_factory" where
  "anthropic_factory pt settings =
     try_bind (require_setting settings ''model_name'' ''anthropic'') (\<lambda>model_name.
     try_bind (require_setting settings ''api_key'' ''anthropic'') (\<lambda>api_key.
     map_ok (\<lambda>_. \<lparr>rp_provider = anthropic_provider (pt_anthropic pt),
                  rp_api_base = ''https://api.anthropic.com'', rp_api_key = api_key,
                  rp_model_name = model_name\<rparr>)
       (validate_header_value api_key)))"

definition openai_factory :: "protocols \<Rightarrow> provider_factory" where
  "openai_factory pt settings =
     try_bind (require_setting settings ''model_name'' ''openai'') (\<lambda>model_name.
       let base_url = (case map_of settings ''base_url'' of
                         Some u \<Rightarrow> if u = [] then None else Some u | None \<Rightarrow> None);
           api_key = (case map_of settings ''api_key'' of Some k \<Rightarrow> k | None \<Rightarrow> [])
       in if api_key = [] \<and> base_url = None then Err (MissingSetting ''api_key'' ''openai'')
          else map_ok (\<lambda>_. \<lparr>rp_provider = openai_of pt,
                            rp_api_base = (case base_url of Some u \<Rightarrow> u | None \<Rightarrow> ''https://api.openai.com/v1''),
                            rp_api_key = api_key, rp_model_name = model_name\<rparr>)
                 (if api_key \<noteq> [] then validate_header_value api_key else Ok ()))"

definition gemini_factory :: "protocols \<Rightarrow> provider_factory" where
  "gemini_factory pt settings =
     try_bind (require_setting settings ''model_name'' ''gemini'') (\<lambda>model_name.
     try_bind (require_setting settings ''api_key'' ''gemini'') (\<lambda>api_key.
     map_ok (\<lambda>_. \<lparr>rp_provider = gemini_provider (pt_gemini pt),
                  rp_api_base = ''https://generativelanguage.googleapis.com'', rp_api_key = api_key,
                  rp_model_name = model_name\<rparr>)
       (validate_header_value api_key)))"

definition with_builtins :: "protocols \<Rightarrow> provider_registry" where
  "with_builtins pt =
     register_factory ''gemini'' (gemini_factory pt)
       (register_factory ''openai'' (openai_factory pt)
          (register_factory ''anthropic'' (anthropic_factory pt) empty_provider_registry))"

section \<open>Connection managers\<close>

type_synonym breakers = "nat \<Rightarrow> circuit_breaker"

definition connection_new ::
  "nat \<Rightarrow> provider \<Rightarrow> string \<Rightarrow> string \<Rightarrow> string \<Rightarrow> breakers \<Rightarrow> connection list \<times> breakers" where
  "connection_new i prov api_base api_key model_name bs =
     ([\<lparr>cn_api_base = api_base, cn_api_key = api_key, cn_model_name = model_name, cn_provider = prov,
        cn_settings = [], cn_breaker = i, cn_max_retries = 3, cn_retry_delay_ms = 500\<rparr>],
      bs(i := breaker_new 5 30))"

definition set_settings :: "settings \<Rightarrow> connection list \<times> breakers \<Rightarrow> connection list \<times> breakers" where
  "set_settings s r = (case r of
      (cn # fallbacks, bs) \<Rightarrow> (cn\<lparr>cn_settings := s\<rparr> # fallbacks, bs) | ([], bs) \<Rightarrow> ([], bs))"

definition connection_anthropic ::
  "protocols \<Rightarrow> nat \<Rightarrow> string \<Rightarrow> string \<Rightarrow> string \<Rightarrow> breakers \<Rightarrow> connection list \<times> breakers" where
  "connection_anthropic pt i api_base model_name api_key bs =
     set_settings [(''model_name'', model_name), (''api_key'', api_key)]
       (connection_new i (anthropic_provider (pt_anthropic pt)) api_base api_key model_name bs)"

definition connection_openai ::
  "protocols \<Rightarrow> nat \<Rightarrow> string \<Rightarrow> string \<Rightarrow> string \<Rightarrow> breakers \<Rightarrow> connection list \<times> breakers" where
  "connection_openai pt i api_base model_name api_key bs =
     set_settings [(''model_name'', model_name), (''api_key'', api_key), (''base_url'', api_base)]
       (connection_new i (openai_of pt) api_base api_key model_name bs)"

definition connection_gemini ::
  "protocols \<Rightarrow> nat \<Rightarrow> string \<Rightarrow> string \<Rightarrow> string \<Rightarrow> breakers \<Rightarrow> connection list \<times> breakers" where
  "connection_gemini pt i api_base model_name api_key bs =
     set_settings [(''model_name'', model_name), (''api_key'', api_key)]
       (connection_new i (gemini_provider (pt_gemini pt)) api_base api_key model_name bs)"

definition connection_from_config ::
  "nat \<Rightarrow> provider_config \<Rightarrow> provider_registry \<Rightarrow> breakers \<Rightarrow> model_error + connection list \<times> breakers" where
  "connection_from_config i c registry bs =
     map_ok (\<lambda>r. ([\<lparr>cn_api_base = rp_api_base r, cn_api_key = rp_api_key r, cn_model_name = rp_model_name r,
                     cn_provider = rp_provider r, cn_settings = pc_settings c, cn_breaker = i,
                     cn_max_retries = 3, cn_retry_delay_ms = 500\<rparr>],
                   bs(i := breaker_new 5 30)))
       (build_provider registry (pc_name c) (pc_settings c))"

fun with_retries :: "nat \<Rightarrow> 64 word \<Rightarrow> connection list \<Rightarrow> connection list" where
  "with_retries n ms (cn # fallbacks) = cn\<lparr>cn_max_retries := n, cn_retry_delay_ms := ms\<rparr> # fallbacks"
| "with_retries n ms [] = []"

fun with_circuit_breaker ::
  "nat \<Rightarrow> nat \<Rightarrow> nat \<Rightarrow> connection list \<Rightarrow> breakers \<Rightarrow> connection list \<times> breakers" where
  "with_circuit_breaker i threshold timeout (cn # fallbacks) bs =
     (cn\<lparr>cn_breaker := i\<rparr> # fallbacks, bs(i := breaker_new threshold timeout))"
| "with_circuit_breaker i threshold timeout [] bs = ([], bs)"

fun with_fallback :: "connection list \<Rightarrow> connection list \<Rightarrow> connection list" where
  "with_fallback fallback (cn # _) = cn # fallback"
| "with_fallback fallback [] = []"

definition with_model :: "connection \<Rightarrow> string \<Rightarrow> provider_registry \<Rightarrow> model_error + connection list" where
  "with_model cn model_name registry =
     map_ok (\<lambda>r. [\<lparr>cn_api_base = cn_api_base cn, cn_api_key = cn_api_key cn, cn_model_name = model_name,
                    cn_provider = rp_provider r, cn_settings = cn_settings cn, cn_breaker = cn_breaker cn,
                    cn_max_retries = cn_max_retries cn, cn_retry_delay_ms = cn_retry_delay_ms cn\<rparr>])
       (build_provider registry (prov_name (cn_provider cn)) (cn_settings cn))"

section \<open>The runner's constructors\<close>

definition runner_from_config ::
  "protocols \<Rightarrow> nat \<Rightarrow> config \<Rightarrow> breakers \<Rightarrow> agent_error + connection list \<times> breakers" where
  "runner_from_config pt i c bs =
     try_bind (validate_config c) (\<lambda>_.
       map_err ModelErr (connection_from_config i (cfg_provider c) (with_builtins pt) bs))"

definition runner_build ::
  "protocols \<Rightarrow> nat \<Rightarrow> config option \<Rightarrow> breakers \<Rightarrow> agent_error + connection list \<times> breakers" where
  "runner_build pt i c bs =
     runner_from_config pt i
       (case c of Some c \<Rightarrow> c
        | None \<Rightarrow> \<lparr>cfg_provider = openai_config [] [] None, cfg_max_messages = 100, cfg_tools = [],
                  cfg_prompts_dir = None, cfg_system_prompt = None\<rparr>) bs"

section \<open>What the built-in factories accept\<close>

definition nonempty_setting :: "settings \<Rightarrow> string \<Rightarrow> bool" where
  "nonempty_setting s k = (case map_of s k of Some v \<Rightarrow> v \<noteq> [] | None \<Rightarrow> False)"

definition key_ok :: "settings \<Rightarrow> bool" where
  "key_ok s = (case map_of s ''api_key'' of Some k \<Rightarrow> header_value_ok k | None \<Rightarrow> True)"

lemma is_ok_require [simp]: "is_ok (require_setting s k p) = nonempty_setting s k"
  by (simp add: require_setting_def nonempty_setting_def split: option.splits)

lemma require_setting_Ok: "require_setting s k p = Ok v \<longleftrightarrow> map_of s k = Some v \<and> v \<noteq> []"
  by (auto simp: require_setting_def split: option.splits)

lemma is_ok_validate [simp]: "is_ok (validate_header_value k) = header_value_ok k"
  by (simp add: validate_header_value_def)

lemma header_value_ok_Nil [simp]: "header_value_ok []"
  by (simp add: header_value_ok_def)

lemma with_builtins_lookup [simp]:
  "map_of (factories (with_builtins pt)) =
     [''anthropic'' \<mapsto> anthropic_factory pt, ''openai'' \<mapsto> openai_factory pt, ''gemini'' \<mapsto> gemini_factory pt]"
  by (auto simp: with_builtins_def register_factory_def empty_provider_registry_def fun_eq_iff)

lemma anthropic_factory_ok:
  "is_ok (anthropic_factory pt s) \<longleftrightarrow> nonempty_setting s ''model_name'' \<and> nonempty_setting s ''api_key'' \<and> key_ok s"
  by (auto simp: anthropic_factory_def is_ok_try_bind require_setting_Ok nonempty_setting_def key_ok_def
      split: option.splits)

lemma gemini_factory_ok:
  "is_ok (gemini_factory pt s) \<longleftrightarrow> nonempty_setting s ''model_name'' \<and> nonempty_setting s ''api_key'' \<and> key_ok s"
  by (auto simp: gemini_factory_def is_ok_try_bind require_setting_Ok nonempty_setting_def key_ok_def
      split: option.splits)

lemma openai_factory_ok:
  "is_ok (openai_factory pt s) \<longleftrightarrow> nonempty_setting s ''model_name''
     \<and> (nonempty_setting s ''api_key'' \<or> nonempty_setting s ''base_url'') \<and> key_ok s"
  by (auto simp: openai_factory_def is_ok_try_bind require_setting_Ok nonempty_setting_def key_ok_def Let_def
      split: option.splits)

text \<open>
  Which configurations the shipped registry accepts: a provider it names, a model name,
  an API key -- optional only for an OpenAI-compatible endpoint with its own base URL --
  and no key that cannot stand in a header.
\<close>

theorem builtin_registry_accepts:
  "is_ok (build_provider (with_builtins pt) name s) \<longleftrightarrow>
     name \<in> {''anthropic'', ''openai'', ''gemini''} \<and> nonempty_setting s ''model_name'' \<and> key_ok s
     \<and> (nonempty_setting s ''api_key'' \<or> name = ''openai'' \<and> nonempty_setting s ''base_url'')"
  by (auto simp: build_provider_def anthropic_factory_ok openai_factory_ok gemini_factory_ok)

lemma builtin_name:
  assumes "build_provider (with_builtins pt) name s = Ok r"
  shows "prov_name (rp_provider r) = name"
  using assms
  by (auto simp: build_provider_def anthropic_factory_def openai_factory_def gemini_factory_def
      try_bind_Ok_iff map_ok_Ok Let_def anthropic_provider_def openai_of_def openai_provider_def
      gemini_provider_def split: if_splits)

text \<open>
  A model override always succeeds on a manager configured through the shipped
  registry, and it is the same endpoint, key, translator and retry budget with another
  model name: it shares the parent's breaker, so a circuit the parent opened refuses the
  override's calls too.
\<close>

theorem with_model_shares_the_circuit:
  assumes "connection_from_config i c (with_builtins pt) bs = Ok ([cn], bs')"
  shows "with_model cn model (with_builtins pt) = Ok [cn\<lparr>cn_model_name := model\<rparr>]
    \<and> cn_breaker (cn\<lparr>cn_model_name := model\<rparr>) = i
    \<and> (\<forall>nw request st. \<not> fst (can_execute (now_of nw st) (ns_breakers st i)) \<longrightarrow>
         (\<exists>st'. generate nw [cn\<lparr>cn_model_name := model\<rparr>] request st
              = (Err (CircuitOpen ''Circuit breaker is open''), st') \<and> ns_tick st' = ns_tick st))"
proof -
  obtain r where r: "build_provider (with_builtins pt) (pc_name c) (pc_settings c) = Ok r"
    and cn: "cn = \<lparr>cn_api_base = rp_api_base r, cn_api_key = rp_api_key r, cn_model_name = rp_model_name r,
                 cn_provider = rp_provider r, cn_settings = pc_settings c, cn_breaker = i,
                 cn_max_retries = 3, cn_retry_delay_ms = 500\<rparr>"
    using assms by (auto simp: connection_from_config_def map_ok_Ok)
  have "with_model cn model (with_builtins pt) = Ok [cn\<lparr>cn_model_name := model\<rparr>]"
    using r builtin_name [OF r] cn by (simp add: with_model_def)
  moreover have "cn_breaker (cn\<lparr>cn_model_name := model\<rparr>) = i" using cn by simp
  ultimately show ?thesis by (auto simp: Let_def on_breaker_def split: prod.splits)
qed

definition sample_protocols :: protocols where
  "sample_protocols = \<lparr>pt_codec = sample_codec_args, pt_disable_thinking_env = None,
     pt_openai = (\<lambda>_. Err ''x''), pt_anthropic = (\<lambda>_. Ok sample_answer), pt_gemini = (\<lambda>_. Err ''x'')\<rparr>"

lemma with_model_shares_the_circuit_witness:
  "\<exists>cn bs'. connection_from_config 7 (anthropic_config ''m'' ''key'') (with_builtins sample_protocols) (\<lambda>_. breaker_new 1 1)
       = Ok ([cn], bs')
     \<and> with_model cn ''m2'' (with_builtins sample_protocols) = Ok [cn\<lparr>cn_model_name := ''m2''\<rparr>]"
proof -
  have "is_ok (build_provider (with_builtins sample_protocols) ''anthropic'' [(''model_name'', ''m''), (''api_key'', ''key'')])"
    by code_simp
  then obtain cn bs' where
    c: "connection_from_config 7 (anthropic_config ''m'' ''key'') (with_builtins sample_protocols) (\<lambda>_. breaker_new 1 1)
       = Ok ([cn], bs')"
    by (auto simp: is_ok_iff connection_from_config_def anthropic_config_def)
  with with_model_shares_the_circuit [OF c] show ?thesis by blast
qed

text \<open>
  A provider registered under a name of its own loses its model overrides: the
  override looks the factory up under the name the translator reports, not under the name
  the manager was configured with, so with a registry holding only that entry it fails.
\<close>

theorem custom_name_loses_model_override:
  assumes "factory s = Ok r" "prov_name (rp_provider r) \<noteq> name"
  shows "\<exists>cn bs'. connection_from_config i (custom_config name s) (register_factory name factory empty_provider_registry) bs
      = Ok ([cn], bs')
    \<and> with_model cn model (register_factory name factory empty_provider_registry)
      = Err (UnknownProvider (prov_name (rp_provider r)))"
  using assms
  by (auto simp: connection_from_config_def custom_config_def build_provider_def register_factory_def
      empty_provider_registry_def with_model_def)

lemma custom_name_loses_model_override_witness:
  "\<exists>cn bs'. connection_from_config 0 (custom_config ''local'' [(''model_name'', ''m''), (''base_url'', ''u'')])
      (register_factory ''local'' (openai_factory sample_protocols) empty_provider_registry) (\<lambda>_. breaker_new 1 1) = Ok ([cn], bs')
    \<and> with_model cn ''m2'' (register_factory ''local'' (openai_factory sample_protocols) empty_provider_registry)
      = Err (UnknownProvider ''openai'')"
proof -
  have "is_ok (openai_factory sample_protocols [(''model_name'', ''m''), (''base_url'', ''u'')])" by code_simp
  then obtain r where r: "openai_factory sample_protocols [(''model_name'', ''m''), (''base_url'', ''u'')] = Ok r"
    by (auto simp: is_ok_iff)
  then have "prov_name (rp_provider r) = ''openai''"
    by (auto simp: openai_factory_def openai_of_def openai_provider_def try_bind_Ok_iff map_ok_Ok Let_def split: if_splits)
  with r custom_name_loses_model_override [of "openai_factory sample_protocols" _ r "''local''" 0 "\<lambda>_. breaker_new 1 1" "''m2''"]
  show ?thesis by simp
qed

end
