(* ===== verification/Sub_Agent.thy ===== *)
theory Sub_Agent
  imports Strategies Provider_Registry
begin

text \<open>
  Sub-agents (\<open>avs-subagent\<close>): a bounded ReAct cycle over a restricted tool registry, run by
  an executor (\<open>executor.rs\<close>), offered to the model as the tool \<open>spawn_subagent\<close> (\<open>tool.rs\<close>)
  or described by a file of a skill (\<open>skill.rs\<close>, \<open>spec.rs\<close>). The model behind a connection
  manager, the reading of JSON arguments and of YAML are parameters. A run takes \<open>timer\<close>:
  \<open>None\<close> when it ends within its timeout, else the number of steps done when the timer
  fires and the text of the elapsed time.
\<close>

section \<open>Specifications\<close>

record budget =
  bu_max_steps :: nat
  bu_max_tokens :: "32 word"
  bu_timeout_secs :: nat

datatype model_override = Alias string | ModelId string

record sub_agent_spec =
  sp_name :: string
  sp_objective :: string
  sp_system_prompt :: "string option"
  sp_model :: "model_override option"
  sp_allowed_tools :: "string list"
  sp_budget :: budget

record resource_content =
  rs_label :: string
  rs_content :: string

record sub_agent_context =
  sx_resources :: "resource_content list"
  sx_depth :: nat

record sub_agent_result =
  sr_answer :: string
  sr_usage :: usage_stats
  sr_steps :: nat

datatype sub_agent_error =
    DepthExceeded
  | StepBudgetExceeded nat
  | TokenBudgetExceeded "32 word" "32 word"
  | SubTimeout string
  | SubLlm agent_error
  | SubTool tool_error
  | SubPanic string
  | SubIo string
  | SubConfig string

fun sub_agent_error_text :: "sub_agent_error \<Rightarrow> string" where
  "sub_agent_error_text DepthExceeded = ''depth limit exceeded: subagents cannot spawn subagents''"
| "sub_agent_error_text (StepBudgetExceeded n) = ''step budget exhausted after '' @ show_nat n @ '' steps''"
| "sub_agent_error_text (TokenBudgetExceeded used limit) =
     ''token budget exceeded: used '' @ show_nat (unat used) @ '', limit '' @ show_nat (unat limit)"
| "sub_agent_error_text (SubTimeout t) = ''timeout after '' @ t"
| "sub_agent_error_text (SubLlm e) = ''llm error: '' @ agent_error_text e"
| "sub_agent_error_text (SubTool e) = ''tool error: '' @ tool_error_text e"
| "sub_agent_error_text (SubPanic m) = ''subagent panicked: '' @ m"
| "sub_agent_error_text (SubIo m) = ''io error: '' @ m"
| "sub_agent_error_text (SubConfig m) = ''config error: '' @ m"

section \<open>The cycle\<close>

definition tokens_used :: "usage_stats \<Rightarrow> 32 word" where
  "tokens_used u = input_tokens u + output_tokens u"

type_synonym sub_run = "(sub_agent_error + sub_agent_result) \<times> (string \<times> json) list"

text \<open>The loop with the steps left; the calls started come with the result.\<close>

fun sub_loop :: "cycle \<Rightarrow> 32 word \<Rightarrow> nat \<Rightarrow> nat \<Rightarrow> message list \<Rightarrow> usage_stats \<Rightarrow> sub_run" where
  "sub_loop cy max_tokens left steps buf usage =
     (if max_tokens < tokens_used usage then (Err (TokenBudgetExceeded (tokens_used usage) max_tokens), [])
      else case left of
        0 \<Rightarrow> (Err (StepBudgetExceeded steps), [])
      | Suc left' \<Rightarrow>
          (case invoke_with_active_tools cy steps buf (tool_names (rc_tools cy)) of
             Err e \<Rightarrow> (Err (SubLlm e), [])
           | Ok response \<Rightarrow>
               (case check_output_guardrail cy (response_as_text response) of
                  Err e \<Rightarrow> (Err (SubLlm e), [])
                | Ok _ \<Rightarrow>
                    (let usage' = usage_add_assign usage (resp_usage response) in
                     case action_from_response response of
                       ToolCalls calls \<Rightarrow>
                         (let results = execute_many (rc_order cy) (rc_tools cy) steps calls;
                              (r, log_calls) = sub_loop cy max_tokens left' (Suc steps)
                                (buf @ [assistant_turn response, tool_turn cy calls results]) usage'
                          in (r, started (rc_tools cy) calls @ log_calls))
                     | DoneAnswer answer \<Rightarrow>
                         (Ok \<lparr>sr_answer = answer, sr_usage = usage', sr_steps = Suc steps\<rparr>, [])
                     | ProtocolError m \<Rightarrow> (Err (SubLlm (ModelErr (InvalidResponse m))), [])))))"

declare sub_loop.simps [simp del]

definition run_cycle :: "cycle \<Rightarrow> budget \<Rightarrow> message list \<Rightarrow> sub_run" where
  "run_cycle cy b messages = sub_loop cy (bu_max_tokens b) (bu_max_steps b) 0 (prepare_buffer cy messages) usage_default"

section \<open>The executor\<close>

record sub_agent_executor =
  ex_manager :: "connection list"
  ex_parent_tools :: tool_registry
  ex_protocols :: protocols
  ex_cycle :: "connection list \<Rightarrow> cycle"  \<comment> \<open>the model, prompts and guardrails behind a manager\<close>
  ex_max_depth :: nat

definition executor_new ::
  "connection list \<Rightarrow> tool_registry \<Rightarrow> protocols \<Rightarrow> (connection list \<Rightarrow> cycle) \<Rightarrow> sub_agent_executor" where
  "executor_new cm tools pt cy = \<lparr>ex_manager = cm, ex_parent_tools = tools, ex_protocols = pt, ex_cycle = cy,
     ex_max_depth = 1\<rparr>"

fun resolve_model_name :: "model_override \<Rightarrow> string" where
  "resolve_model_name (ModelId i) = i"
| "resolve_model_name (Alias a) =
     (if a = ''haiku'' then ''claude-haiku-4-5-20251001''
      else if a = ''sonnet'' then ''claude-sonnet-4-6''
      else if a = ''opus'' then ''claude-opus-4-8'' else a)"

definition build_initial_messages :: "sub_agent_spec \<Rightarrow> sub_agent_context \<Rightarrow> message list" where
  "build_initial_messages spec ctx =
     (case sp_system_prompt spec of Some sys \<Rightarrow> [text_message RoleSystem sys] | None \<Rightarrow> [])
     @ [text_message RoleUser (''Objective: '' @ sp_objective spec @
         (if sx_resources ctx = [] then []
          else paragraph_break @ ''## Context'' @ newline @
            concat (map (\<lambda>r. newline @ ''### '' @ rs_label r @ newline @ rs_content r @ newline) (sx_resources ctx))))]"

definition sub_agent_manager :: "sub_agent_executor \<Rightarrow> sub_agent_spec \<Rightarrow> sub_agent_error + connection list" where
  "sub_agent_manager ex spec =
     (case sp_model spec of
        None \<Rightarrow> Ok (ex_manager ex)
      | Some ov \<Rightarrow> map_err (\<lambda>e. SubLlm (ModelErr e))
          (with_model (hd (ex_manager ex)) (resolve_model_name ov) (with_builtins (ex_protocols ex))))"

definition scoped_cycle :: "sub_agent_executor \<Rightarrow> sub_agent_spec \<Rightarrow> connection list \<Rightarrow> cycle" where
  "scoped_cycle ex spec cm = (ex_cycle ex cm)\<lparr>rc_tools := filter_by_names (ex_parent_tools ex) (sp_allowed_tools spec),
     rc_max_iterations := bu_max_steps (sp_budget spec)\<rparr>"

definition sub_run ::
  "sub_agent_executor \<Rightarrow> (nat \<times> string) option \<Rightarrow> sub_agent_spec \<Rightarrow> sub_agent_context \<Rightarrow> sub_run" where
  "sub_run ex timer spec ctx =
     (if ex_max_depth ex \<le> sx_depth ctx then (Err DepthExceeded, [])
      else case sub_agent_manager ex spec of
        Err e \<Rightarrow> (Err e, [])
      | Ok cm \<Rightarrow>
          (let cy = scoped_cycle ex spec cm; messages = build_initial_messages spec ctx; b = sp_budget spec in
           case timer of
             None \<Rightarrow> run_cycle cy b messages
           | Some (k, elapsed) \<Rightarrow>
               (Err (SubTimeout elapsed), snd (run_cycle cy (b\<lparr>bu_max_steps := min k (bu_max_steps b)\<rparr>) messages))))"

text \<open>Several at once: the results in the order of completion.\<close>

type_synonym sub_task = "(nat \<times> string) option \<times> sub_agent_spec \<times> sub_agent_context"

definition run_many :: "sub_agent_executor \<Rightarrow> (sub_task list \<Rightarrow> sub_task list) \<Rightarrow> sub_task list \<Rightarrow> sub_run list" where
  "run_many ex order tasks = map (\<lambda>(timer, spec, ctx). sub_run ex timer spec ctx) (order tasks)"

section \<open>The tool\<close>

record sub_agent_args =
  sa_name :: string
  sa_objective :: string
  sa_system_prompt :: "string option"
  sa_model :: "string option"
  sa_allowed_tools :: "string list"
  sa_max_steps :: "nat option"
  sa_max_tokens :: "32 word option"
  sa_timeout_secs :: "nat option"
  sa_resources :: "resource_content list"

definition or_default :: "'a option \<Rightarrow> 'a \<Rightarrow> 'a" where
  "or_default x d = (case x of Some v \<Rightarrow> v | None \<Rightarrow> d)"

definition spec_of_args :: "sub_agent_args \<Rightarrow> sub_agent_spec" where
  "spec_of_args a = \<lparr>sp_name = sa_name a, sp_objective = sa_objective a, sp_system_prompt = sa_system_prompt a,
     sp_model = map_option Alias (sa_model a), sp_allowed_tools = sa_allowed_tools a,
     sp_budget = \<lparr>bu_max_steps = or_default (sa_max_steps a) 10, bu_max_tokens = or_default (sa_max_tokens a) 20000,
       bu_timeout_secs = or_default (sa_timeout_secs a) 120\<rparr>\<rparr>"

definition spawn_execute ::
  "sub_agent_executor \<Rightarrow> nat \<Rightarrow> (nat \<Rightarrow> (nat \<times> string) option) \<Rightarrow> nat \<Rightarrow> sub_agent_args \<Rightarrow> tool_run" where
  "spawn_execute ex current_depth timers tick a =
     (case fst (sub_run ex (timers tick) (spec_of_args a) \<lparr>sx_resources = sa_resources a, sx_depth = current_depth\<rparr>) of
        Ok r \<Rightarrow> Returns (Ok (JString (sr_answer r)))
      | Err e \<Rightarrow> Returns (Err (Execution (sub_agent_error_text e))))"

definition spawn_description :: string where
  "spawn_description = ''Spawn an isolated AI worker to handle a focused subtask. ''
     @ ''The worker runs independently and returns only its final answer. ''
     @ ''Use for tasks that would add too much noise to the current context, ''
     @ ''or when you need to run multiple analyses in parallel.''"

definition sub_agent_tool ::
  "sub_agent_executor \<Rightarrow> nat \<Rightarrow> (nat \<Rightarrow> (nat \<times> string) option) \<Rightarrow> json \<Rightarrow> (json \<Rightarrow> string + sub_agent_args) \<Rightarrow> tool" where
  "sub_agent_tool ex current_depth timers schema from_value =
     erase_tool spawn_subagent_tool_name spawn_description schema from_value (spawn_execute ex current_depth timers)"

definition register_tool ::
  "(sub_agent_executor \<Rightarrow> nat \<Rightarrow> tool) \<Rightarrow> sub_agent_executor \<Rightarrow> tool_registry \<Rightarrow> tool_registry" where
  "register_tool tool_of ex reg = register (tool_of ex 0) reg"

definition register_tool_if_absent ::
  "(sub_agent_executor \<Rightarrow> nat \<Rightarrow> tool) \<Rightarrow> sub_agent_executor \<Rightarrow> tool_registry \<Rightarrow> bool \<times> tool_registry" where
  "register_tool_if_absent tool_of ex reg = register_if_absent (tool_of ex 0) reg"

section \<open>A skill's \<open>subagent.yaml\<close>\<close>

datatype model_override_yaml = Plain string | Tagged string string

record budget_yaml =
  by_max_steps :: nat
  by_max_tokens :: "32 word"
  by_timeout :: nat

record skill_sub_agent_yaml =
  sy_name :: string
  sy_objective :: string
  sy_system_prompt :: "string option"
  sy_model :: "model_override_yaml option"
  sy_allowed_tools :: "string list"
  sy_budget :: budget_yaml

datatype file_read = Missing | Unreadable string | Contents string

fun model_of_yaml :: "model_override_yaml \<Rightarrow> model_override" where
  "model_of_yaml (Plain s) = Alias s"
| "model_of_yaml (Tagged kind v) = (if kind = ''id'' then ModelId v else Alias v)"

definition load_skill_subagent_spec ::
  "(string \<Rightarrow> string + skill_sub_agent_yaml) \<Rightarrow> string \<Rightarrow> file_read \<Rightarrow> sub_agent_error + sub_agent_spec option" where
  "load_skill_subagent_spec yaml path file =
     (case file of
        Missing \<Rightarrow> Ok None
      | Unreadable e \<Rightarrow> Err (SubIo (''Failed to read '' @ path @ '': '' @ e))
      | Contents content \<Rightarrow>
          map_ok (\<lambda>raw. Some \<lparr>sp_name = sy_name raw, sp_objective = sy_objective raw,
              sp_system_prompt = sy_system_prompt raw, sp_model = map_option model_of_yaml (sy_model raw),
              sp_allowed_tools = sy_allowed_tools raw,
              sp_budget = \<lparr>bu_max_steps = by_max_steps (sy_budget raw),
                bu_max_tokens = by_max_tokens (sy_budget raw), bu_timeout_secs = by_timeout (sy_budget raw)\<rparr>\<rparr>)
            (map_err (\<lambda>e. SubConfig (''Failed to parse '' @ path @ '': '' @ e)) (yaml content)))"

section \<open>What a sub-agent can start\<close>

lemma sub_loop_cases:
  assumes "sub_loop cy mx left steps buf usage = (r, tr)"
  obtains (stopped) e where "r = Err e" "tr = []"
  | (answered) left' usage' answer where "left = Suc left'"
      "r = Ok \<lparr>sr_answer = answer, sr_usage = usage', sr_steps = Suc steps\<rparr>" "tr = []"
  | (batch) left' response calls tr' where "left = Suc left'"
      "invoke_with_active_tools cy steps buf (tool_names (rc_tools cy)) = Ok response"
      "action_from_response response = ToolCalls calls" "tr = started (rc_tools cy) calls @ tr'"
      "sub_loop cy mx left' (Suc steps) (buf @ [assistant_turn response, tool_turn cy calls
         (execute_many (rc_order cy) (rc_tools cy) steps calls)]) (usage_add_assign usage (resp_usage response)) = (r, tr')"
  using assms [THEN trans [OF sub_loop.simps [symmetric]]]
  by (auto simp: Let_def split: if_splits nat.splits sum.splits cycle_action.splits prod.splits)

lemma sub_loop_registered:
  "sub_loop cy mx left steps buf usage = (r, tr) \<Longrightarrow> c \<in> set tr \<Longrightarrow> find_tool (rc_tools cy) (fst c) \<noteq> None"
proof (induction left arbitrary: steps buf usage r tr)
  case 0
  from 0(1) show ?case by (cases rule: sub_loop_cases) (use 0(2) in simp_all)
next
  case (Suc left)
  from Suc.prems(1) show ?case
  proof (cases rule: sub_loop_cases)
    case (batch left' response calls tr')
    then show ?thesis using Suc.prems(2) Suc.IH [of "Suc steps"] by (auto simp: started_def)
  qed (use Suc.prems(2) in simp_all)
qed

lemma sub_run_cycle:
  assumes "c \<in> set (snd (sub_run ex timer spec ctx))"
  shows "\<exists>cm b. c \<in> set (snd (run_cycle (scoped_cycle ex spec cm) b (build_initial_messages spec ctx)))"
proof (cases "sub_agent_manager ex spec")
  case (Inl e)
  then show ?thesis using assms by (simp add: sub_run_def split: if_splits)
next
  case (Inr cm)
  define b where "b = (case timer of None \<Rightarrow> sp_budget spec
    | Some (k, elapsed) \<Rightarrow> (sp_budget spec)\<lparr>bu_max_steps := min k (bu_max_steps (sp_budget spec))\<rparr>)"
  have "snd (sub_run ex timer spec ctx) = [] \<or>
      snd (sub_run ex timer spec ctx) = snd (run_cycle (scoped_cycle ex spec cm) b (build_initial_messages spec ctx))"
    by (simp add: sub_run_def Let_def Inr b_def split: option.split prod.split)
  then have "c \<in> set (snd (run_cycle (scoped_cycle ex spec cm) b (build_initial_messages spec ctx)))"
    using assms by auto
  then show ?thesis by blast
qed

text \<open>
  C40. A sub-agent starts only what it was given and never nests: every call it starts names
  a tool on its allowed list that the parent has, and none starts another sub-agent, even
  when the allowed list names the spawning tool, whatever its model answers and whether or
  not its timer fires.
\<close>

theorem sub_agents_run_only_allowed_tools:
  "\<forall>c \<in> set (snd (sub_run ex timer spec ctx)).
     fst c \<in> set (sp_allowed_tools spec) \<and> fst c \<noteq> ''spawn_subagent'' \<and> find_tool (ex_parent_tools ex) (fst c) \<noteq> None"
proof
  fix c
  assume c: "c \<in> set (snd (sub_run ex timer spec ctx))"
  obtain cm b where "c \<in> set (snd (run_cycle (scoped_cycle ex spec cm) b (build_initial_messages spec ctx)))"
    using sub_run_cycle [OF c] by blast
  then have "find_tool (filter_by_names (ex_parent_tools ex) (sp_allowed_tools spec)) (fst c) \<noteq> None"
    using sub_loop_registered [OF prod.collapse [symmetric], of c "scoped_cycle ex spec cm"]
    by (simp add: run_cycle_def) (simp add: scoped_cycle_def)
  then show "fst c \<in> set (sp_allowed_tools spec) \<and> fst c \<noteq> ''spawn_subagent'' \<and> find_tool (ex_parent_tools ex) (fst c) \<noteq> None"
    by (auto simp: find_tool_restricted spawn_subagent_tool_name_def split: if_splits)
qed

lemma sub_loop_steps:
  "sub_loop cy mx left steps buf usage = (Ok res, tr) \<Longrightarrow> steps < sr_steps res \<and> sr_steps res \<le> steps + left"
proof (induction left arbitrary: steps buf usage tr)
  case 0
  from 0 show ?case by (cases rule: sub_loop_cases) simp_all
next
  case (Suc left)
  from Suc.prems show ?case
  proof (cases rule: sub_loop_cases)
    case (batch left' response calls tr')
    then show ?thesis using Suc.IH [of "Suc steps"] by fastforce
  qed auto
qed

lemma sub_loop_same:
  assumes "same_until (steps + left) cy cy'"
  shows "sub_loop cy' mx left steps buf usage = sub_loop cy mx left steps buf usage"
  using assms
proof (induction left arbitrary: steps buf usage)
  case 0
  then show ?case by (simp add: sub_loop.simps)
next
  case (Suc left)
  have "rc_llm cy' steps = rc_llm cy steps" using Suc.prems by (simp add: same_until_def)
  then have "invoke_with_active_tools cy' steps = invoke_with_active_tools cy steps"
    by (simp add: fun_eq_iff invoke_with_active_tools_def same_until_fields [OF Suc.prems])
  moreover have "check_output_guardrail cy' = check_output_guardrail cy"
    by (simp add: fun_eq_iff check_output_guardrail_def same_until_fields [OF Suc.prems])
  moreover have "same_until (Suc steps + left) cy cy'" using Suc.prems by simp
  ultimately show ?case
    using Suc.IH [of "Suc steps"] by (simp add: sub_loop.simps [of _ _ "Suc left"] same_until_fields [OF Suc.prems]
        tool_turn_same [OF Suc.prems] cong: if_cong sum.case_cong cycle_action.case_cong)
qed

text \<open>
  A sub-agent stays within its step budget: it asks the model at most \<open>max_steps\<close>
  times (whatever the model would answer later, the run is the same), and an answer
  reports between one and \<open>max_steps\<close> steps.
\<close>

theorem sub_agent_stays_within_step_budget:
  assumes "same_until (bu_max_steps b) cy cy'"
  shows "run_cycle cy' b messages = run_cycle cy b messages
    \<and> (fst (run_cycle cy b messages) = Ok res \<longrightarrow> 1 \<le> sr_steps res \<and> sr_steps res \<le> bu_max_steps b)"
proof -
  have "prepare_buffer cy' messages = prepare_buffer cy messages"
    by (simp add: prepare_buffer_def same_until_fields [OF assms])
  moreover have "fst (run_cycle cy b messages) = Ok res \<Longrightarrow> 1 \<le> sr_steps res \<and> sr_steps res \<le> bu_max_steps b"
    using sub_loop_steps [of cy "bu_max_tokens b" "bu_max_steps b" 0 "prepare_buffer cy messages" usage_default res
        "snd (run_cycle cy b messages)"] by (simp add: run_cycle_def prod_eq_iff)
  ultimately show ?thesis using sub_loop_same [of 0 "bu_max_steps b" cy cy'] assms by (simp add: run_cycle_def)
qed

text \<open>
  A sub-agent bypasses approval: the default policy blocks \<open>exec_command\<close> under every
  skill but not \<open>spawn_subagent\<close>, and a sub-agent that lists the blocked tool starts it as
  soon as its model calls it; no hook runs in a sub-agent's cycle.
\<close>

theorem sub_agents_bypass_approval:
  assumes "sx_depth ctx < ex_max_depth ex" "sub_agent_manager ex spec = Ok cm" "0 < bu_max_steps (sp_budget spec)"
    and "cy = scoped_cycle ex spec cm"
    and "invoke_with_active_tools cy 0 (prepare_buffer cy (build_initial_messages spec ctx)) (tool_names (rc_tools cy)) = Ok response"
    and "check_output_guardrail cy (response_as_text response) = Ok ()" "action_from_response response = ToolCalls calls"
    and "c \<in> set calls" "call_name c = ''exec_command''" "''exec_command'' \<in> set (sp_allowed_tools spec)"
    and "find_tool (ex_parent_tools ex) ''exec_command'' \<noteq> None"
  shows "(''exec_command'', call_args c) \<in> set (snd (sub_run ex None spec ctx))
    \<and> requires_tool_approval new_policy skill ''exec_command''
    \<and> \<not> requires_tool_approval new_policy None spawn_subagent_tool_name"
proof -
  have tools: "rc_tools cy = filter_by_names (ex_parent_tools ex) (sp_allowed_tools spec)"
    by (simp add: assms(4) scoped_cycle_def)
  have "find_tool (rc_tools cy) ''exec_command'' \<noteq> None"
    using assms(10,11) by (simp add: tools find_tool_restricted spawn_subagent_tool_name_def)
  then have "(''exec_command'', call_args c) \<in> set (started (rc_tools cy) calls)"
    using assms(8,9) by (force simp: started_def)
  moreover have "set (started (rc_tools cy) calls) \<subseteq> set (snd (run_cycle cy (sp_budget spec) (build_initial_messages spec ctx)))"
    using assms(3,5-7) by (cases "bu_max_steps (sp_budget spec)")
      (auto simp: run_cycle_def sub_loop.simps [of _ _ "Suc n" for n] tokens_used_def usage_default_def Let_def split: prod.split)
  moreover have "sub_run ex None spec ctx = run_cycle cy (sp_budget spec) (build_initial_messages spec ctx)"
    using assms(1,2,4) by (simp add: sub_run_def Let_def)
  ultimately show ?thesis
    by (auto simp: requires_tool_approval_def new_policy_def spawn_subagent_tool_name_def)
qed

text \<open>
  The token count of a sub-agent wraps: its input and output counts are added at 32
  bits, so a usage whose true total exceeds the budget can pass the check.
\<close>

theorem token_budget_wraps:
  assumes "unat (input_tokens u) + unat (output_tokens u) = 2 ^ 32 + k" "k \<le> unat max_tokens"
  shows "\<not> max_tokens < tokens_used u"
proof -
  have "unat (tokens_used u) = (unat (input_tokens u) + unat (output_tokens u)) mod 2 ^ 32"
    by (simp add: tokens_used_def unat_word_ariths)
  also have "\<dots> = k mod 2 ^ 32" by (simp add: assms(1))
  also have "\<dots> = k"
  proof -
    have "unat max_tokens < 2 ^ LENGTH(32)" by (rule unsigned_less)
    then show ?thesis using assms(2) by simp
  qed
  finally show ?thesis using assms(2) by (simp add: word_less_nat_alt)
qed

definition sample_executor :: sub_agent_executor where
  "sample_executor = executor_new [sample_connection]
     (new_registry (erase_tool ''exec_command'' ''runs'' JNull (\<lambda>j. Ok j) (\<lambda>_ j. Returns (Ok j)))) sample_protocols
     (\<lambda>cm. \<lparr>rc_llm = (\<lambda>tick ms ts. Ok \<lparr>resp_content = [ToolUse ''b'' ''exec_command'' JNull], resp_usage = usage_default\<rparr>),
       rc_preamble = None, rc_tools = new_registry (sample_tool ''adds''), rc_max_iterations = 3,
       rc_order = id, rc_is_match = (\<lambda>_ _. False), rc_value_text = (\<lambda>_. [])\<rparr>)"

definition sample_spec :: sub_agent_spec where
  "sample_spec = \<lparr>sp_name = ''w'', sp_objective = ''look'', sp_system_prompt = None, sp_model = None,
     sp_allowed_tools = [''exec_command'', ''spawn_subagent''],
     sp_budget = \<lparr>bu_max_steps = 1, bu_max_tokens = 10, bu_timeout_secs = 60\<rparr>\<rparr>"

definition sample_sub_ctx :: sub_agent_context where
  "sample_sub_ctx = \<lparr>sx_resources = [], sx_depth = 0\<rparr>"

lemma sample_sub_run: "snd (sub_run sample_executor None sample_spec sample_sub_ctx) = [(''exec_command'', JNull)]"
  by code_simp

lemma sub_agents_run_only_allowed_tools_witness:
  "''exec_command'' \<in> set (sp_allowed_tools sample_spec)
   \<and> find_tool (ex_parent_tools sample_executor) ''exec_command'' \<noteq> None"
  using sub_agents_run_only_allowed_tools [of sample_executor None sample_spec sample_sub_ctx]
  by (simp add: sample_sub_run)

lemma sub_agent_stays_within_step_budget_witness:
  "fst (run_cycle (scoped_cycle sample_executor sample_spec []) (sp_budget sample_spec) []) \<noteq> Ok \<lparr>sr_answer = [],
    sr_usage = usage_default, sr_steps = 2\<rparr>"
proof -
  define cy where "cy = scoped_cycle sample_executor sample_spec []"
  have "same_until (bu_max_steps (sp_budget sample_spec)) cy cy" by (simp add: same_until_def)
  from sub_agent_stays_within_step_budget [OF this, of "[]" "\<lparr>sr_answer = [], sr_usage = usage_default, sr_steps = 2\<rparr>"]
  show ?thesis by (auto simp: cy_def sample_spec_def)
qed

lemma sub_agents_bypass_approval_witness:
  "(''exec_command'', JNull) \<in> set (snd (sub_run sample_executor None sample_spec sample_sub_ctx))
   \<and> requires_tool_approval new_policy None ''exec_command''"
proof -
  define call where "call = \<lparr>call_id = ''b'', call_name = ''exec_command'', call_args = JNull\<rparr>"
  define response where "response = \<lparr>resp_content = [ToolUse ''b'' ''exec_command'' JNull], resp_usage = usage_default\<rparr>"
  define cy where "cy = scoped_cycle sample_executor sample_spec [sample_connection]"
  have 1: "sx_depth sample_sub_ctx < ex_max_depth sample_executor" by code_simp
  have 2: "sub_agent_manager sample_executor sample_spec = Ok [sample_connection]"
    by (simp add: sub_agent_manager_def sample_executor_def executor_new_def sample_spec_def)
  have 3: "0 < bu_max_steps (sp_budget sample_spec)" by code_simp
  have 4: "invoke_with_active_tools cy 0 (prepare_buffer cy (build_initial_messages sample_spec sample_sub_ctx))
      (tool_names (rc_tools cy)) = Ok response"
    unfolding cy_def response_def by code_simp
  have 5: "check_output_guardrail cy (response_as_text response) = Ok ()"
    unfolding cy_def response_def by code_simp
  have 6: "action_from_response response = ToolCalls [call]"
    unfolding response_def call_def by code_simp
  have 7: "''exec_command'' \<in> set (sp_allowed_tools sample_spec)" by code_simp
  have 8: "find_tool (ex_parent_tools sample_executor) ''exec_command'' \<noteq> None"
    by (simp add: sample_executor_def executor_new_def new_registry_def find_tool_def register_def
        register_with_options_def empty_registry_def erase_tool_def)
  from sub_agents_bypass_approval [OF 1 2 3 cy_def 4 5 6, of call None] 7 8 show ?thesis
    by (simp add: call_def)
qed

lemma token_budget_wraps_witness: "\<not> (5 :: 32 word) < tokens_used \<lparr>input_tokens = 4294967295, output_tokens = 1,
    cache_write_tokens = 0, cache_read_tokens = 0\<rparr>"
  by (rule token_budget_wraps [where k = 0]) simp_all

end
