(* ===== verification/Http_Routes.thy ===== *)
theory Http_Routes
  imports Agent_Resume
begin

text \<open>
  The HTTP handlers of the agent (\<open>avs-agent/src/http/routes.rs\<close> and
  \<open>session_routes.rs\<close>). A handler is a function of the request and of the server's state,
  the agent's world and the rate limiter, to a response. The framework is a parameter of the
  server theory: here a request has already been read into its fields. A handler whose agent
  panics drops the connection. A request takes two instants, its arrival and the end of its
  run. Requests are serialised: the state is one request's at a time.
\<close>

section \<open>Responses\<close>

datatype response = Response nat "json option" | Dropped

definition reply :: "nat \<Rightarrow> json \<Rightarrow> response" where
  "reply status body = Response status (Some body)"

definition error_body :: "string \<Rightarrow> json" where
  "error_body m = JObject [(''error'', JString m)]"

record 'q http =
  hs_world :: "'q world"
  hs_limiter :: rate_limiter

type_synonym 'q handler = "'q http \<Rightarrow> response \<times> 'q http"

section \<open>Errors\<close>

fun session_memory_error_text :: "session_memory_error \<Rightarrow> string" where
  "session_memory_error_text (Database m) = ''database error: '' @ m"
| "session_memory_error_text (NotFound i) = ''session not found: '' @ i"

fun skill_error_text :: "skill_error \<Rightarrow> string" where
  "skill_error_text (SkillNotFound i) = ''skill not found: '' @ i"
| "skill_error_text (SkillNotConfigured m) = ''skill registry not configured: '' @ m"
| "skill_error_text (SkillParse path m) = ''SKILL.md parse error in '' @ path @ '': '' @ m"
| "skill_error_text (SkillIo m) = ''io error: '' @ m"

fun agent_failure_text :: "agent_failure \<Rightarrow> string" where
  "agent_failure_text (SessionFailed e) = ''session error: '' @ session_memory_error_text e"
| "agent_failure_text (LlmFailed e) = ''llm error: '' @ agent_error_text e"
| "agent_failure_text (SkillFailed e) = ''skill error: '' @ skill_error_text e"
| "agent_failure_text (JsonFailed m) = ''json error: '' @ m"
| "agent_failure_text IncompatiblePersistedInterrupt =
     ''cannot resume: this session'' @ [CHR 0x27] @ ''s pending approval was interrupted before an incompatible ''
     @ ''upgrade to the persisted interrupt format and cannot be replayed (no migration exists ''
     @ ''for pre-upgrade rows, by design); abandon this session and start a new one''"
| "agent_failure_text (RoutedStrategyDoesNotSupportHitl s) =
     ''routed strategy `'' @ strategy_name_text s
     @ ''` does not support HITL interception; only ReAct can be used with configured HITL''"
| "agent_failure_text Panicked = []"

fun store_err_status :: "session_memory_error \<Rightarrow> nat" where
  "store_err_status (NotFound _) = 404"
| "store_err_status (Database _) = 500"

fun status_for_agent_error :: "agent_failure \<Rightarrow> nat" where
  "status_for_agent_error (SessionFailed e) = store_err_status e"
| "status_for_agent_error (LlmFailed _) = 502"
| "status_for_agent_error IncompatiblePersistedInterrupt = 409"
| "status_for_agent_error _ = 500"

section \<open>Running the agent\<close>

definition ask_agent :: "('q, 'a) op \<Rightarrow> ('a \<Rightarrow> response) \<Rightarrow> (agent_failure \<Rightarrow> response) \<Rightarrow> 'q handler" where
  "ask_agent m ok err = (\<lambda>s. case m (hs_world s) of (r, w') \<Rightarrow>
     (case r of Ok x \<Rightarrow> ok x | Err Panicked \<Rightarrow> Dropped | Err e \<Rightarrow> err e, s\<lparr>hs_world := w'\<rparr>))"

definition limited :: "instant \<Rightarrow> string \<Rightarrow> 'q handler \<Rightarrow> 'q handler" where
  "limited now user_id h = (\<lambda>s. case rate_check now user_id (hs_limiter s) of (r, l) \<Rightarrow>
     (case r of
        Err e \<Rightarrow> (reply 429 (error_body (guard_error_text e)), s\<lparr>hs_limiter := l\<rparr>)
      | Ok _ \<Rightarrow> h (s\<lparr>hs_limiter := l\<rparr>)))"

definition fail_500 :: "agent_failure \<Rightarrow> response" where
  "fail_500 e = reply 500 (error_body (agent_failure_text e))"

definition fail_mapped :: "agent_failure \<Rightarrow> response" where
  "fail_mapped e = reply (status_for_agent_error e) (error_body (agent_failure_text e))"

definition answer :: "response \<Rightarrow> 'q handler" where
  "answer r = (\<lambda>s. (r, s))"

section \<open>Stateless invocation, health, readiness\<close>

definition http_invoke :: "'q agent \<Rightarrow> instant \<Rightarrow> string \<Rightarrow> string \<Rightarrow> 'q handler" where
  "http_invoke ag now user_id msg =
     limited now user_id
       (if trim msg = [] then answer (reply 400 (error_body ''message must not be empty''))
        else ask_agent (invoke_stateless ag msg)
          (\<lambda>text. reply 200 (JObject (obj_from [(''message'', JString text), (''user_id'', JString user_id)])))
          fail_500)"

definition health :: "'q handler" where
  "health = answer (reply 200 (JObject [(''status'', JString ''healthy'')]))"

definition ready :: "'q handler" where
  "ready = answer (reply 200 (JObject [(''status'', JString ''ready'')]))"

section \<open>Sessions\<close>

definition http_create_session :: "'q agent \<Rightarrow> instant \<Rightarrow> string \<Rightarrow> 'q handler" where
  "http_create_session ag now user_id =
     (if trim user_id = [] then answer (reply 400 (error_body ''user_id must not be empty''))
      else ask_agent (agent_create_session ag now user_id)
        (\<lambda>i. reply 201 (JObject [(''session_id'', JString i)])) fail_500)"

text \<open>The derived JSON of an output and of an interrupt.\<close>

fun interrupt_kind_value :: "interrupt_kind \<Rightarrow> json" where
  "interrupt_kind_value (ToolApproval tool_name args) =
     JObject [(''ToolApproval'', JObject (obj_from [(''tool_name'', JString tool_name), (''args'', args)]))]"
| "interrupt_kind_value (PhaseGate from_skill to_skill deliverable) =
     JObject [(''PhaseGate'', JObject (obj_from [(''from_skill'', JString from_skill),
       (''to_skill'', JString to_skill), (''deliverable'', JString deliverable)]))]"
| "interrupt_kind_value (SkillCheckpoint checkpoint_name payload) =
     JObject [(''SkillCheckpoint'', JObject (obj_from [(''checkpoint_name'', JString checkpoint_name),
       (''payload'', payload)]))]"

fun agent_output_value :: "agent_output \<Rightarrow> json" where
  "agent_output_value (OutDone text) = JObject [(''Done'', JString text)]"
| "agent_output_value (OutInterrupted approval_id kind) =
     JObject [(''Interrupted'', JObject (obj_from [(''approval_id'', JString approval_id),
       (''kind'', interrupt_kind_value kind)]))]"

definition send_message ::
  "'q agent \<Rightarrow> instant \<Rightarrow> instant \<Rightarrow> uuid \<Rightarrow> string \<Rightarrow> string \<Rightarrow> 'q handler" where
  "send_message ag now later i user_id msg =
     limited now user_id
       (if trim msg = [] then answer (reply 400 (error_body ''message must not be empty''))
        else ask_agent (invoke ag now later user_id i msg)
          (\<lambda>out. reply 200 (JObject (obj_from [(''session_id'', JString i), (''reply'', agent_output_value out)])))
          fail_mapped)"

fun content_block_value :: "content_block \<Rightarrow> json" where
  "content_block_value (Text t) = JObject (obj_from [(''type'', JString ''text''), (''text'', JString t)])"
| "content_block_value (ToolUse i n v) =
     JObject (obj_from [(''type'', JString ''tool_use''), (''id'', JString i), (''name'', JString n), (''input'', v)])"
| "content_block_value (ToolResult i c e) =
     JObject (obj_from [(''type'', JString ''tool_result''), (''tool_use_id'', JString i), (''content'', JString c),
       (''is_error'', JBool e)])"

definition message_item :: "nat \<times> message \<Rightarrow> json" where
  "message_item = (\<lambda>(n, m). JObject (obj_from [(''sequence_num'', JNumber (PosInt n)),
     (''role'', JString (role_to_str (msg_role m))), (''content'', JArray (map content_block_value (msg_content m)))]))"

text \<open>The page of a transcript: a limit and a position, both \<open>i64\<close>, the limit cast to \<open>usize\<close>.\<close>

definition effective_limit :: "int option \<Rightarrow> int" where
  "effective_limit limit = min (case limit of Some l \<Rightarrow> l | None \<Rightarrow> 50) 200"

definition page_of :: "int option \<Rightarrow> int option \<Rightarrow> 'a list \<Rightarrow> (nat \<times> 'a) list" where
  "page_of limit before xs =
     (let filtered = filter (\<lambda>(n, _). case before of Some b \<Rightarrow> int n < b | None \<Rightarrow> True) (enumerate 0 xs);
          start = length filtered - nat (effective_limit limit mod 2 ^ 64)
      in drop start filtered)"

definition list_messages ::
  "'q agent \<Rightarrow> instant \<Rightarrow> uuid \<Rightarrow> string \<Rightarrow> int option \<Rightarrow> int option \<Rightarrow> 'q handler" where
  "list_messages ag now i user_id limit before =
     limited now user_id
       (ask_agent (agent_load_messages ag user_id i)
         (\<lambda>msgs. reply 200 (JObject [(''messages'', JArray (map message_item (page_of limit before msgs)))]))
         fail_mapped)"

definition http_get_session :: "uuid \<Rightarrow> string \<Rightarrow> 'q handler" where
  "http_get_session i user_id =
     ask_agent (agent_get_session user_id i)
       (\<lambda>found. case found of
          Some ses \<Rightarrow> reply 200 (JObject (obj_from [(''session_id'', JString (ses_id ses)),
            (''user_id'', JString (ses_user_id ses)), (''status'', JString (status_to_str (ses_status ses)))]))
        | None \<Rightarrow> reply 404 (error_body ''session not found''))
       fail_mapped"

definition http_end_session :: "instant \<Rightarrow> uuid \<Rightarrow> string \<Rightarrow> 'q handler" where
  "http_end_session now i user_id =
     ask_agent (agent_end_session now user_id i) (\<lambda>_. reply 204 (JObject [])) fail_mapped"

end
