(* ===== verification/Agent_Isolation.thy ===== *)
theory Agent_Isolation
  imports Agent_Routing
begin

text \<open>
  What a turn and a resume leave alone: the rows and messages of every other session, and
  the owner of their own. \<open>around i\<close> is that part of the store; each operation on a session
  \<open>i\<close> keeps it. The end of a run is a status: \<open>status_in\<close> reads it.
\<close>

definition around :: "uuid \<Rightarrow> db \<Rightarrow> (string \<Rightarrow> bool) \<times> session_row list \<times> message_row list" where
  "around i db = (owned_by db i, filter (\<lambda>r. row_id r \<noteq> i) (db_sessions db),
     filter (\<lambda>m. mrow_session m \<noteq> i) (db_messages db))"

abbreviation around_world :: "uuid \<Rightarrow> 'q world \<Rightarrow> (string \<Rightarrow> bool) \<times> session_row list \<times> message_row list" where
  "around_world i w \<equiv> around i (w_db w)"

named_theorems around_intros \<open>operations on one session keep what is around it\<close>

lemmas around_pure [around_intros] = keeps_pure keeps_bind

lemma filter_other_rows:
  assumes "keeps_row f"
  shows "filter (\<lambda>r. row_id r \<noteq> i) (map (\<lambda>r. if row_id r = i then f r else r) rs) = filter (\<lambda>r. row_id r \<noteq> i) rs"
  using assms by (induction rs) (auto simp: keeps_row_def)

lemma around_update:
  assumes "keeps_row f" "\<And>r. row_user_id (f r) = row_user_id r"
  shows "around i (snd (update_row i f db)) = around i db"
proof -
  have "owned_by (snd (update_row i f db)) i = owned_by db i"
    by (rule ext) (rule owned_update [OF assms])
  then show ?thesis
    by (auto simp: around_def update_row_def filter_other_rows [OF assms(1)] split: option.split)
qed

lemma numbered_rows_session: "m \<in> set (numbered_rows cd now i n ms) \<Longrightarrow> mrow_session m = i"
  by (induction ms arbitrary: n) (auto simp: message_to_row_def)

lemma owned_by_cong: "db_sessions db' = db_sessions db \<Longrightarrow> db_fault db' = db_fault db \<Longrightarrow> owned_by db' = owned_by db"
  by (simp add: fun_eq_iff owned_by_def get_def query_def find_row_def)

lemma around_append: "around i (snd (append_messages cd now i ms db)) = around i db"
proof (cases "db_fault db = None \<and> has_session db i")
  case True
  let ?new = "numbered_rows cd now i (next_sequence db i) ms"
  have "filter (\<lambda>m. mrow_session m \<noteq> i) ?new = []"
    by (auto simp: filter_empty_conv dest: numbered_rows_session)
  moreover have "owned_by (db\<lparr>db_messages := db_messages db @ ?new\<rparr>) = owned_by db"
    by (rule owned_by_cong) simp_all
  ultimately show ?thesis using True by (simp add: append_messages_ok around_def)
next
  case False
  then show ?thesis using append_messages_err [of db i cd now ms] by auto
qed

lemma around_db [around_intros]:
  "keeps (around i) (get_session j)" "keeps (around i) (list_sessions u)"
  "keeps (around i) (manager_load_messages cd j)" "keeps (around i) (manager_get_skill_context j)"
  "keeps (around i) (manager_get_phase_context j)" "keeps (around i) (manager_get_interrupted j)"
  "keeps (around i) (assert_owner u j)"
  by (rule reads_keep)+

lemma around_updates [around_intros]:
  "keeps (around i) (end_session now i)" "keeps (around i) (manager_set_skill_context i c)"
  "keeps (around i) (manager_set_phase_context i c)" "keeps (around i) (manager_apply_phase_transition i a b)"
  "keeps (around i) (manager_set_interrupted i c)" "keeps (around i) (manager_update_status now i st)"
  "keeps (around i) (manager_append_turn cd now i um am)"
  by (simp_all add: keeps_def manager_defs update_status_def set_skill_context_def set_phase_opening_context_def
      apply_phase_transition_def set_interrupted_state_def append_turn_def around_append around_update keeps_row_def
      status_round_trip del: status_to_str.simps)

lemma around_db_op [around_intros]: "keeps (around i) m \<Longrightarrow> keeps (around_world i) (db_op m)"
  by (rule db_op_keeps_db)

lemma around_quiet: "keeps w_db m \<Longrightarrow> keeps (around_world i) m"
  by (simp add: keeps_def)

lemma around_world_ops [around_intros]:
  "keeps (around_world i) (on_cache f)" "keeps (around_world i) (draw_id ag)"
  "keeps (around_world i) (run_chosen ag st mk ms active)" "keeps (around_world i) (execute_directly ag ts cs)"
  "(\<And>w. w_db (h w) = w_db w) \<Longrightarrow> keeps (around_world i) (eff_mod h)"
  by (rule around_quiet, (rule on_cache_keeps draw_id_keeps run_chosen_keeps | simp add: keeps_def execute_directly_def eff_run))+

lemma get_cache_memory_around [around_intros]: "keeps (around_world i) (get_cache_memory ag now u j)"
  unfolding get_cache_memory_def by (auto split: option.split intro!: around_intros)

lemma prepare_around [around_intros]: "keeps (around_world i) (prepare ag now u i input)"
  unfolding prepare_def opening_turn_def resolve_skill_def Let_def
  by (auto split: option.split prod.split intro!: around_intros)

lemma handle_tool_interrupt_around [around_intros]: "keeps (around_world i) (handle_tool_interrupt ag now i intr sk)"
  unfolding handle_tool_interrupt_def by (intro around_intros)

lemma finish_around [around_intros]: "keeps (around_world i) (finish ag now u i p out)"
  unfolding finish_def update_cache_memory_def Let_def
  by (auto split: strategy_outcome.split intro!: around_intros)

lemma invoke_around: "keeps (around_world i) (invoke ag now later u i input)"
  unfolding invoke_def by (intro around_intros)

lemma agent_end_session_around: "keeps (around_world i) (agent_end_session now u i)"
  unfolding agent_end_session_def by (intro around_intros)

lemma resume_around: "keeps (around_world i) (resume ag now later u i a d)"
proof -
  have apply_t: "keeps (around_world i) (apply_transition ag i m t)" for m t
    unfolding apply_transition_def by (auto split: option.split intro!: around_intros)
  have gate: "keeps (around_world i) (resume_phase_gate ag i t d)" for t
    unfolding resume_phase_gate_def by (auto split: approval_decision.split intro!: around_intros apply_t)
  have "keeps (around_world i) (decided ag ts pending d)" for ts pending
    unfolding decided_def by (auto split: approval_decision.split list.split intro!: around_intros)
  then have call: "keeps (around_world i) (resume_tool_call_or_checkpoint ag later i st d history pending)" for st history pending
    unfolding resume_tool_call_or_checkpoint_def Let_def
    by (auto split: strategy_outcome.split intro!: around_intros)
  show ?thesis
    unfolding resume_def by (auto split: option.split interrupted_state.split intro!: around_intros gate call)
qed

lemma around_owned: "around i db' = around i db \<Longrightarrow> owned_by db' i u = owned_by db i u"
  by (simp add: around_def)

section \<open>The status a session is left in\<close>

definition status_in :: "'q world \<Rightarrow> uuid \<Rightarrow> string option" where
  "status_in w i = map_option row_status (find_row (w_db w) i)"

lemma update_status_status:
  assumes "owned_by (snd (update_status now i st db)) i u"
  shows "map_option row_status (find_row (snd (update_status now i st db)) i) = Some (status_to_str st)"
proof -
  have f: "keeps_row (\<lambda>r. r\<lparr>row_status := status_to_str st, row_updated_at := timestamp now\<rparr>)"
    unfolding keeps_row_def using status_round_trip [of st] by simp
  have live: "db_fault (snd (update_status now i st db)) = None" "has_session (snd (update_status now i st db)) i"
    using owned_live [OF assms] by auto
  have "db_fault db = None" using live(1) by (simp add: update_status_def update_row_fault)
  moreover from live(2) have "find_row (snd (update_status now i st db)) i \<noteq> None" by (simp add: find_row_None_iff)
  ultimately show ?thesis unfolding update_status_def by (auto simp: find_row_update [OF f])
qed

lemma ended_status:
  assumes "owned_by (w_db w) i u"
  shows "status_in (snd (agent_end_session now u i w)) i = Some (status_to_str Completed)"
proof -
  let ?db = "snd (update_status now i Completed (w_db w))"
  have own: "owned_by ?db i u"
    using assms around_owned [of i ?db "w_db w" u] around_updates(6) [of i now Completed]
    by (simp add: keeps_def manager_update_status_def)
  have "fst (update_status now i Completed (w_db w)) = Ok ()"
    unfolding update_status_def
    by (rule update_row_live(1)) (use owned_live [OF assms] in \<open>simp_all add: keeps_row_def status_from_str_def\<close>)
  then have ended: "end_session now i (w_db w) = (Ok (), ?db)" by (simp add: end_session_def prod_eq_iff)
  have "snd (agent_end_session now u i w) = w\<lparr>w_db := ?db, w_cache := cache_evict u i (w_cache w)\<rparr>"
    unfolding agent_end_session_def owner_check
    using assms by (simp add: eff_bind_def db_op_def ended on_cache_def eff_run)
  then show ?thesis using update_status_status [OF own] by (simp add: status_in_def)
qed

lemma interrupted_status:
  assumes "handle_tool_interrupt ag now i intr sk w = (Ok out, w')" "owned_by (w_db w') i u"
  shows "status_in w' i = Some (status_to_str Suspended)"
proof -
  have "\<exists>db. w_db w' = snd (update_status now i Suspended db)"
    using assms(1)
    by (auto simp: handle_tool_interrupt_def eff_bind_Ok_iff eff_run db_op_Ok_iff manager_defs) (metis snd_conv)
  then obtain db where "w_db w' = snd (update_status now i Suspended db)" by (elim exE)
  then show ?thesis using update_status_status [of now i Suspended db u] assms(2) by (simp add: status_in_def)
qed

text \<open>An interrupted turn ends in the handling of the interrupt its run raised.\<close>

lemma invoke_interrupted:
  assumes "invoke ag now later u i input w = (Ok (OutInterrupted a kind), w')"
  obtains p w1 intr w2 where "prepare ag now u i input w = (Ok p, w1)"
    "run_chosen ag (pr_strategy p) (invoke_context i p) (pr_messages p) (pr_active p) w1 = (Ok (Interrupted intr), w2)"
    "handle_tool_interrupt ag later i intr (pr_skill p) w2 = (Ok (OutInterrupted a kind), w')"
proof -
  have own: "owned_by (w_db w) i u" using assms by (auto simp: invoke_def owner_check split: if_splits)
  obtain p w1 out w2 where run: "prepare ag now u i input w = (Ok p, w1)"
      "run_chosen ag (pr_strategy p) (invoke_context i p) (pr_messages p) (pr_active p) w1 = (Ok out, w2)"
      "finish ag later u i p out w2 = (Ok (OutInterrupted a kind), w')"
    using assms own by (auto simp: invoke_def owner_check eff_bind_Ok_iff)
  from run(3) obtain intr where "out = Interrupted intr"
    by (cases out) (auto simp: finish_def Let_def eff_bind_Ok_iff eff_run)
  then show thesis using run that by (simp add: finish_def)
qed

section \<open>A resume that fails\<close>

lemma db_write_live:
  assumes "keeps_row f" "owned_by (w_db w) i u" "\<And>db. m db = update_row i f db"
  shows "\<exists>db'. db_op m w = (Ok (), w\<lparr>w_db := db'\<rparr>) \<and> db' = snd (update_row i f (w_db w))"
proof -
  have "fst (update_row i f (w_db w)) = Ok ()"
    using update_row_live(1) [OF assms(1)] owned_live [OF assms(2)] by blast
  then show ?thesis by (cases "update_row i f (w_db w)") (simp add: db_op_def assms(3))
qed

lemma interrupt_succeeds:
  assumes "kind_from_text (ag_json ag) (int_kind_json intr) = Ok kind" "owned_by (w_db w) i u"
  shows "\<exists>w'. handle_tool_interrupt ag now i intr sk w = (Ok (OutInterrupted (int_approval_id intr) kind), w')"
proof -
  let ?js = "Some (state_to_text (ag_json ag) (interrupt_state ag intr sk kind))"
  have f: "keeps_row (\<lambda>r. r\<lparr>row_interrupted := ?js\<rparr>)"
      "keeps_row (\<lambda>r. r\<lparr>row_status := status_to_str Suspended, row_updated_at := timestamp now\<rparr>)"
    by (simp_all add: keeps_row_def status_from_str_def)
  obtain db1 where one: "db_op (manager_set_interrupted i ?js) w = (Ok (), w\<lparr>w_db := db1\<rparr>)"
      "db1 = snd (update_row i (\<lambda>r. r\<lparr>row_interrupted := ?js\<rparr>) (w_db w))"
    using db_write_live [OF f(1) assms(2), of "manager_set_interrupted i ?js"]
    by (auto simp: manager_set_interrupted_def set_interrupted_state_def)
  have "owned_by db1 i u" using assms(2) owned_update [OF f(1), of i "w_db w" i u] by (simp add: one(2))
  then have "owned_by (w_db (w\<lparr>w_db := db1\<rparr>)) i u" by simp
  from db_write_live [OF f(2) this, of "manager_update_status now i Suspended"]
  have "\<exists>db2. db_op (manager_update_status now i Suspended) (w\<lparr>w_db := db1\<rparr>) = (Ok (), w\<lparr>w_db := db2\<rparr>)"
    by (auto simp: manager_update_status_def update_status_def)
  then show ?thesis
    using assms(1) one(1) by (auto simp: handle_tool_interrupt_def eff_bind_simps eff_bind_run eff_run)
qed

lemma interrupt_fails_early:
  assumes "handle_tool_interrupt ag now i intr sk w = (Err e, w')" "owned_by (w_db w) i u"
  shows "w' = w"
proof (cases "kind_from_text (ag_json ag) (int_kind_json intr)")
  case (Inl m)
  then show ?thesis using assms(1) by (simp add: handle_tool_interrupt_def eff_bind_simps)
next
  case (Inr kind)
  then show ?thesis using assms(1) interrupt_succeeds [OF Inr assms(2), of now sk] by simp
qed

lemma transition_fails_early:
  assumes "apply_transition ag i m t w = (Err e, w')" "owned_by (w_db w) i u"
  shows "w' = w"
proof -
  have f: "keeps_row (\<lambda>r. r\<lparr>row_skill_context := Some a, row_phase_context := Some b\<rparr>)" for a b
    by (simp add: keeps_row_def)
  have "\<exists>db'. db_op (manager_apply_phase_transition i a b) w = (Ok (), w\<lparr>w_db := db'\<rparr>)" for a b
    using db_write_live [OF f assms(2), of "manager_apply_phase_transition i a b"]
    by (auto simp: manager_apply_phase_transition_def apply_phase_transition_def)
  then show ?thesis
    using assms(1) unfolding apply_transition_def
    by (auto simp: eff_bind_simps skills_not_configured_def eff_run split: option.splits sum.splits)
       (metis Pair_inject sum.distinct(1))
qed

lemma decided_db: "keeps w_db (decided ag tools pending d)"
  unfolding decided_def
  by (auto split: approval_decision.split list.split intro!: keeps_pure keeps_bind simp: keeps_def execute_directly_def eff_run eff_bind_simps eff_bind_def)

lemma continued_fails_early:
  assumes "resume_tool_call_or_checkpoint ag later i st d history pending w = (Err e, w')" "owned_by (w_db w) i u"
  shows "w_db w' = w_db w"
  using assms(1) unfolding resume_tool_call_or_checkpoint_def
proof (cases rule: eff_bind_cases)
  case (failed e')
  then show ?thesis by (metis keepsD [OF decided_db])
next
  case obs: (went_on observation w1)
  have db1: "w_db w1 = w_db w" by (rule keepsD [OF decided_db obs(1)])
  let ?run = "run_chosen ag (strategy_for_resume ag (w_runs w1) (suspended_tools st))
     (resume_context i (resumed_skill ag st)) (history @ [text_message RoleUser observation]) (suspended_tools st)"
  have "eff_bind ?run (\<lambda>out. case out of Done response \<Rightarrow> eff_ok (OutDone response)
      | Interrupted intr \<Rightarrow> handle_tool_interrupt ag later i intr (resumed_skill ag st)) w1 = (Err e, w')"
    using obs(2) by (simp add: eff_bind_simps Let_def)
  then show ?thesis
  proof (cases rule: eff_bind_cases)
    case (failed e')
    then show ?thesis using db1 by (metis keepsD [OF run_chosen_keeps(1)])
  next
    case (went_on out w2)
    have db2: "w_db w2 = w_db w" using keepsD [OF run_chosen_keeps(1) went_on(1)] db1 by simp
    then have "owned_by (w_db w2) i u" using assms(2) by simp
    then show ?thesis
      using went_on(2) db2 interrupt_fails_early [of ag later i _ _ w2 e w']
      by (cases out) (auto simp: eff_run)
  qed
qed

lemma gate_fails_early:
  assumes "resume_phase_gate ag i t d w = (Err e, w')" "owned_by (w_db w) i u"
  shows "w' = w"
proof -
  have "eff_bind (eff_lift (map_err JsonFailed (transition_from_text (ag_json ag) t))) (\<lambda>transition.
          eff_seq (apply_transition ag i ''no skills configured'' transition)
            (eff_ok (OutDone (''Phase transition to '' @ pt_next_skill transition @ '' approved.'')))) w = (Err e, w')"
    using assms(1) by (auto simp: resume_phase_gate_def eff_run split: approval_decision.splits)
  then show ?thesis
    using transition_fails_early [OF _ assms(2)]
    by (auto simp: eff_bind_simps eff_run split: sum.splits elim!: eff_bind_cases)
qed

lemma reactivated_facts:
  assumes "owned_by (w_db w) i u"
  shows "owned_by (w_db (reactivated now i w)) i u" "status_in (reactivated now i w) i = Some (status_to_str Active)"
    "get_interrupted_state (w_db (reactivated now i w)) i = Ok None"
proof -
  let ?db = "snd (set_interrupted_state i None (w_db w))"
  have f: "keeps_row (\<lambda>r. r\<lparr>row_interrupted := None\<rparr>)"
    and g: "keeps_row (\<lambda>r. r\<lparr>row_status := status_to_str Active, row_updated_at := timestamp now\<rparr>)"
    by (simp_all add: keeps_row_def status_from_str_def)
  show own: "owned_by (w_db (reactivated now i w)) i u"
    using assms by (simp add: reactivated_def suspended_owned)
  show "status_in (reactivated now i w) i = Some (status_to_str Active)"
    using update_status_status [of now i Active ?db u] own by (simp add: status_in_def reactivated_def)
  note live = owned_live [OF own] owned_live [OF assms]
  then obtain r where "find_row (w_db w) i = Some r" using find_row_None_iff [of "w_db w" i] by auto
  then show "get_interrupted_state (w_db (reactivated now i w)) i = Ok None"
    using live by (simp add: reactivated_def get_interrupted_state_def column_def set_interrupted_state_def
        update_status_def find_row_update [OF f] find_row_update [OF g] update_row_fault del: status_to_str.simps)
qed

text \<open>
  A failed resume consumes the approval: once a resume has passed its checks (the approval
  id matches and the payload reads), any failure of the run that follows, be it the model, a
  panicking tool or a further interrupt that cannot be read, leaves the session active with no
  interrupt recorded, so the same request, or any other resume of the session, is answered with
  not found and the pending calls are lost.
\<close>

theorem failed_resume_consumes_the_approval:
  assumes "owned_by (w_db w) i u" "get_interrupted_state (w_db w) i = Ok (Some js)"
    and "state_from_text (ag_json ag) js = Ok st" "resolve_payload ag st = Ok resolved"
    and "resume ag now later u i (approval_id_str st) d w = (Err e, w')"
  shows "status_in w' i = Some (status_to_str Active) \<and> get_interrupted_state (w_db w') i = Ok None
    \<and> resume ag now2 later2 u i a2 d2 w' = (Err (SessionFailed (NotFound i)), w')"
proof -
  let ?w = "reactivated now i w"
  note facts = reactivated_facts [OF assms(1), of now]
  have run: "(case (st, resolved) of
        (PendingPhaseGate _ t, _) \<Rightarrow> resume_phase_gate ag i t d
      | (_, Some (history, pending)) \<Rightarrow> resume_tool_call_or_checkpoint ag later i st d history pending
      | (_, None) \<Rightarrow> eff_err Panicked) ?w = (Err e, w')"
    using resume_reads [OF assms(1-3), of now later "approval_id_str st" d] assms(4,5) by simp
  have db: "w_db w' = w_db ?w"
  proof (cases st)
    case (PendingPhaseGate a t)
    with run have "resume_phase_gate ag i t d ?w = (Err e, w')" by simp
    from gate_fails_early [OF this facts(1)] show ?thesis by simp
  qed (use run continued_fails_early [OF _ facts(1)] in \<open>auto simp: eff_run split: option.splits\<close>)
  then have own: "owned_by (w_db w') i u" and none: "get_interrupted_state (w_db w') i = Ok None"
    and st: "status_in w' i = Some (status_to_str Active)"
    using facts by (simp_all add: status_in_def)
  have "db_op (manager_get_interrupted i) w' = (Ok None, w')"
    by (simp add: db_op_def manager_read_defs eff_run none)
  then have "resume ag now2 later2 u i a2 d2 w' = (Err (SessionFailed (NotFound i)), w')"
    using own by (simp add: resume_def owner_check eff_bind_run eff_run)
  with none st show ?thesis by simp
qed

section \<open>On the sample agent\<close>

text \<open>The sample agent with its model out of reach.\<close>

definition sample_down :: "unit agent" where
  "sample_down = sample_agent\<lparr>ag_deps := \<lambda>_. \<lparr>sd_cycle = sample_cycle\<lparr>rc_llm := \<lambda>_ _ _. Err (MemoryErr ''down'')\<rparr>,
     sd_planner = sample_planner\<rparr>\<rparr>"

lemma failed_resume_consumes_the_approval_witness:
  "\<exists>e w'. resume sample_down 6 7 ''bob'' ''s1'' ''w'' Approved sample_suspended = (Err e, w')
    \<and> fst (resume sample_down 8 9 ''bob'' ''s1'' ''w'' Approved w') = Err (SessionFailed (NotFound ''s1''))"
proof -
  have json: "ag_json sample_down = ag_json sample_agent" by (simp add: sample_down_def)
  have "map_ok (\<lambda>_. ()) (fst (resume sample_down 6 7 ''bob'' ''s1'' ''w'' Approved sample_suspended))
      = Err (LlmFailed (MemoryErr ''down''))" by code_simp
  then obtain e w' where run: "resume sample_down 6 7 ''bob'' ''s1'' ''w'' Approved sample_suspended = (Err e, w')"
    by (cases "resume sample_down 6 7 ''bob'' ''s1'' ''w'' Approved sample_suspended") (auto split: sum.splits simp: map_ok_def)
  have "resolve_payload sample_down sample_state = Ok (Some ([text_message RoleUser ''hi''], sample_calls))" by code_simp
  from failed_resume_consumes_the_approval [OF sample_owned sample_interrupted(1)
      sample_interrupted(2) [folded json] this, unfolded sample_interrupted(3), OF run, of 8 9 "''w''" Approved]
  show ?thesis using run by auto
qed

end
