(* ===== verification/Aether.thy ===== *)
theory Aether
  imports Http_Routes Agent_Isolation Agent_Reach
begin

text \<open>
  The orchestrator's routes (\<open>avs-agent/src/http/aether.rs\<close>) and their envelopes
  (\<open>envelope.rs\<close>): one call creates a session and runs a turn in it, a second resumes the
  session when the turn was suspended. The theorems follow a session through both: after an
  invocation it is completed or suspended, a suspended one resumes where it stopped, and a
  failed resume leaves it active with its approval consumed.
\<close>

section \<open>Envelopes\<close>

datatype envelope_kind = EkInvoke | EkResult | EkError | EkSuspended | EkPing | EkPong

record aether_envelope =
  env_id :: uuid
  env_kind :: envelope_kind
  env_payload :: json
  env_metadata :: "(string \<times> string) list"

record suspend_payload =
  sp_session_id :: string
  sp_approval_id :: string
  sp_kind :: string
  sp_prompt :: string

datatype aether_decision = AApproved | ARejected "string option" | AModified json

record resume_request =
  rq_session_id :: string
  rq_approval_id :: string
  rq_decision :: aether_decision

text \<open>Their derived JSON.\<close>

fun envelope_kind_text :: "envelope_kind \<Rightarrow> string" where
  "envelope_kind_text EkInvoke = ''invoke''"
| "envelope_kind_text EkResult = ''result''"
| "envelope_kind_text EkError = ''error''"
| "envelope_kind_text EkSuspended = ''suspended''"
| "envelope_kind_text EkPing = ''ping''"
| "envelope_kind_text EkPong = ''pong''"

definition envelope_value :: "aether_envelope \<Rightarrow> json" where
  "envelope_value e = JObject (obj_from [(''id'', JString (env_id e)),
     (''kind'', JString (envelope_kind_text (env_kind e))), (''payload'', env_payload e),
     (''metadata'', JObject (obj_from (map (\<lambda>(k, v). (k, JString v)) (env_metadata e))))])"

definition suspend_payload_value :: "suspend_payload \<Rightarrow> json" where
  "suspend_payload_value p = JObject (obj_from [(''session_id'', JString (sp_session_id p)),
     (''approval_id'', JString (sp_approval_id p)), (''kind'', JString (sp_kind p)),
     (''prompt'', JString (sp_prompt p))])"

section \<open>Translations\<close>

abbreviation backtick :: string where "backtick \<equiv> [CHR 0x60]"

definition arrow :: string where
  "arrow = [CHR 0xE2, CHR 0x86, CHR 0x92]"

fun interrupt_to_kind_and_prompt :: "(json \<Rightarrow> string) \<Rightarrow> interrupt_kind \<Rightarrow> string \<times> string" where
  "interrupt_to_kind_and_prompt show_json (ToolApproval tool_name args) =
     (''tool_approval'', ''Approve tool call '' @ backtick @ tool_name @ backtick @ '' with args ''
        @ show_json args @ ''?'')"
| "interrupt_to_kind_and_prompt show_json (PhaseGate from_skill to_skill deliverable) =
     (''phase_gate'', ''Approve phase transition '' @ from_skill @ '' '' @ arrow @ '' '' @ to_skill
        @ '' (deliverable: '' @ deliverable @ '')?'')"
| "interrupt_to_kind_and_prompt show_json (SkillCheckpoint checkpoint_name payload) =
     (''skill_checkpoint'', ''Approve checkpoint '' @ backtick @ checkpoint_name @ backtick
        @ '' with payload '' @ show_json payload @ ''?'')"

fun map_decision :: "aether_decision \<Rightarrow> approval_decision" where
  "map_decision AApproved = Approved"
| "map_decision (ARejected reason) = Rejected (case reason of Some s \<Rightarrow> s | None \<Rightarrow> [])"
| "map_decision (AModified payload) = Modified payload"

definition suspension :: "(json \<Rightarrow> string) \<Rightarrow> uuid \<Rightarrow> uuid \<Rightarrow> interrupt_kind \<Rightarrow> suspend_payload" where
  "suspension show_json i approval_id kind =
     (case interrupt_to_kind_and_prompt show_json kind of (tag, prompt) \<Rightarrow>
        \<lparr>sp_session_id = i, sp_approval_id = approval_id, sp_kind = tag, sp_prompt = prompt\<rparr>)"

text \<open>The end of a run: an answered session is ended, whether that succeeds or not.\<close>

fun aether_finish ::
  "'q agent \<Rightarrow> instant \<Rightarrow> string \<Rightarrow> uuid \<Rightarrow> uuid \<Rightarrow> (string \<times> string) list \<Rightarrow> agent_output \<Rightarrow> 'q world \<Rightarrow>
   aether_envelope \<times> 'q world" where
  "aether_finish ag now owner i req_id metadata (OutDone text) w =
     (\<lparr>env_id = req_id, env_kind = EkResult, env_payload = JObject [(''output'', JString text)],
       env_metadata = metadata\<rparr>, snd (agent_end_session now owner i w))"
| "aether_finish ag now owner i req_id metadata (OutInterrupted approval_id kind) w =
     (\<lparr>env_id = req_id, env_kind = EkSuspended,
       env_payload = suspend_payload_value (suspension (ag_value_text ag) i approval_id kind),
       env_metadata = metadata\<rparr>, w)"

definition error_envelope :: "uuid \<Rightarrow> (string \<times> string) list \<Rightarrow> string \<Rightarrow> response" where
  "error_envelope req_id metadata m =
     reply 500 (envelope_value \<lparr>env_id = req_id, env_kind = EkError,
       env_payload = JObject [(''error'', JString m)], env_metadata = metadata\<rparr>)"

section \<open>Invoke\<close>

definition envelope_owner :: "aether_envelope \<Rightarrow> string" where
  "envelope_owner env = (case map_of (env_metadata env) ''user_id'' of Some u \<Rightarrow> u | None \<Rightarrow> ''aether'')"

definition envelope_input :: "aether_envelope \<Rightarrow> string" where
  "envelope_input env =
     (case as_str (json_index (env_payload env) ''input'') of
        Some s \<Rightarrow> s
      | None \<Rightarrow> str_or [] (json_index (env_payload env) ''output''))"

definition aether_run ::
  "'q agent \<Rightarrow> instant \<Rightarrow> instant \<Rightarrow> aether_envelope \<Rightarrow> uuid \<Rightarrow> 'q world \<Rightarrow> response \<times> 'q world" where
  "aether_run ag now later env i w =
     (let owner = envelope_owner env in
      case invoke ag now later owner i (envelope_input env) w of
        (Ok out, w') \<Rightarrow>
          (case aether_finish ag later owner i (env_id env) (env_metadata env) out w' of
             (resp, w'') \<Rightarrow> (reply 200 (envelope_value resp), w''))
      | (Err Panicked, w') \<Rightarrow> (Dropped, w')
      | (Err e, w') \<Rightarrow>
          (error_envelope (env_id env) (env_metadata env) (agent_failure_text e),
           snd (agent_end_session later owner i w')))"

definition aether_invoke :: "'q agent \<Rightarrow> instant \<Rightarrow> instant \<Rightarrow> aether_envelope \<Rightarrow> 'q handler" where
  "aether_invoke ag now later env = (\<lambda>s.
     if env_kind env \<noteq> EkInvoke then (reply 400 (error_body ''expected envelope kind: invoke''), s)
     else case agent_create_session ag now (envelope_owner env) (hs_world s) of
       (Err e, w) \<Rightarrow> (error_envelope (env_id env) (env_metadata env) (agent_failure_text e), s\<lparr>hs_world := w\<rparr>)
     | (Ok i, w) \<Rightarrow> (case aether_run ag now later env i w of (r, w') \<Rightarrow> (r, s\<lparr>hs_world := w'\<rparr>)))"

section \<open>Resume\<close>

text \<open>Reading the text of a UUID is a parameter.\<close>

fun resume_reply ::
  "'q agent \<Rightarrow> instant \<Rightarrow> string \<Rightarrow> uuid \<Rightarrow> (agent_failure + agent_output) \<times> 'q world \<Rightarrow> response \<times> 'q world" where
  "resume_reply ag later owner i (Ok out, w) =
     (case draw_id ag w of (_, w') \<Rightarrow>
        (case aether_finish ag later owner i (ag_ids ag (w_ids w)) [] out w' of
           (resp, w'') \<Rightarrow> (reply 200 (envelope_value resp), w'')))"
| "resume_reply ag later owner i (Err Panicked, w) = (Dropped, w)"
| "resume_reply ag later owner i (Err e, w) = (fail_mapped e, w)"

definition aether_resume ::
  "(string \<Rightarrow> uuid option) \<Rightarrow> 'q agent \<Rightarrow> instant \<Rightarrow> instant \<Rightarrow> resume_request \<Rightarrow> 'q handler" where
  "aether_resume parse_uuid ag now later req = (\<lambda>s.
     case parse_uuid (rq_session_id req) of
       None \<Rightarrow> (reply 400 (error_body ''invalid session_id''), s)
     | Some i \<Rightarrow>
         (case parse_uuid (rq_approval_id req) of
            None \<Rightarrow> (reply 400 (error_body ''invalid approval_id''), s)
          | Some approval_id \<Rightarrow>
              (case session_owner i (hs_world s) of
                 (Err e, w) \<Rightarrow> (fail_500 e, s\<lparr>hs_world := w\<rparr>)
               | (Ok None, w) \<Rightarrow> (reply 404 (error_body ''session not found''), s\<lparr>hs_world := w\<rparr>)
               | (Ok (Some owner), w) \<Rightarrow>
                   (case resume_reply ag later owner i
                       (resume ag now later owner i approval_id (map_decision (rq_decision req)) w) of
                      (r, w') \<Rightarrow> (r, s\<lparr>hs_world := w'\<rparr>)))))"

section \<open>A session through both routes\<close>

lemma created_session:
  assumes "agent_create_session ag now u w = (Ok i, w0)"
  shows "owned_by (w_db w0) i u" "i = ag_ids ag (w_ids w)"
    "snd (around_world i w0) = snd (around_world i w)"
proof -
  let ?r = "create_session_row now i u None"
  have i: "i = ag_ids ag (w_ids w)" and db: "create now i u (w_db w) = (Ok (new_session now i u), w_db w0)"
    using assms by (auto simp: agent_create_session_def draw_id_def eff_bind_Ok_iff db_op_Ok_iff create_session_def
        eff_run create_def new_session_def split: prod.splits sum.splits)
  show "i = ag_ids ag (w_ids w)" by (rule i)
  have fresh: "find_row (w_db w) i = None" and fault: "db_fault (w_db w) = None"
    and w0: "w_db w0 = (w_db w)\<lparr>db_sessions := db_sessions (w_db w) @ [?r]\<rparr>"
    using db by (auto simp: create_def insert_session_row_def create_session_row_def find_row_None_iff has_session_def
        split: option.splits if_splits)
  have "find_row (w_db w0) i = Some ?r"
    using fresh by (simp add: w0 find_row_create) (simp add: create_session_row_def)
  then show "owned_by (w_db w0) i u"
    using fault w0 by (simp add: owned_by_def get_def row_to_session_def create_session_row_def)
  show "snd (around_world i w0) = snd (around_world i w)"
    by (simp add: w0 around_def create_session_row_def)
qed

definition result_envelope :: "aether_envelope \<Rightarrow> string \<Rightarrow> aether_envelope" where
  "result_envelope env said = \<lparr>env_id = env_id env, env_kind = EkResult,
     env_payload = JObject [(''output'', JString said)], env_metadata = env_metadata env\<rparr>"

definition suspended_envelope :: "'q agent \<Rightarrow> aether_envelope \<Rightarrow> uuid \<Rightarrow> uuid \<Rightarrow> interrupt_kind \<Rightarrow> aether_envelope" where
  "suspended_envelope ag env i a kind = \<lparr>env_id = env_id env, env_kind = EkSuspended,
     env_payload = suspend_payload_value (suspension (ag_value_text ag) i a kind), env_metadata = env_metadata env\<rparr>"

lemma aether_run_cases:
  assumes "aether_run ag now later env i w = (r, w')"
  obtains (answered) said w1 where "invoke ag now later (envelope_owner env) i (envelope_input env) w = (Ok (OutDone said), w1)"
      "r = reply 200 (envelope_value (result_envelope env said))"
      "w' = snd (agent_end_session later (envelope_owner env) i w1)"
  | (suspended) a kind where
      "invoke ag now later (envelope_owner env) i (envelope_input env) w = (Ok (OutInterrupted a kind), w')"
      "r = reply 200 (envelope_value (suspended_envelope ag env i a kind))"
  | (failed) e w1 where "invoke ag now later (envelope_owner env) i (envelope_input env) w = (Err e, w1)" "e \<noteq> Panicked"
      "r = error_envelope (env_id env) (env_metadata env) (agent_failure_text e)"
      "w' = snd (agent_end_session later (envelope_owner env) i w1)"
  | (dropped) "invoke ag now later (envelope_owner env) i (envelope_input env) w = (Err Panicked, w')" "r = Dropped"
proof -
  obtain res w1 where run: "invoke ag now later (envelope_owner env) i (envelope_input env) w = (res, w1)" by force
  show thesis
  proof (cases res)
    case (Inl e)
    then show thesis using run assms failed dropped by (cases e) (simp_all add: aether_run_def Let_def)
  next
    case (Inr out)
    then show thesis
    proof (cases out)
      case (OutDone said)
      then show thesis
        using run assms Inr by (intro answered) (auto simp: aether_run_def Let_def result_envelope_def)
    next
      case (OutInterrupted a kind)
      then show thesis
        using run assms Inr by (intro suspended) (auto simp: aether_run_def Let_def suspended_envelope_def)
    qed
  qed
qed


lemma owner_found:
  assumes "owned_by (w_db w) i u"
  shows "session_owner i w = (Ok (Some u), w)"
  using assms by (auto simp: session_owner_def eff_bind_def db_op_def get_session_def eff_run owned_by_def)

lemma owned_transfer:
  assumes "owned_by db i u" "find_row db' i = find_row db i" "db_fault db' = None"
  shows "owned_by db' i u" "get_interrupted_state db' i = get_interrupted_state db i"
  using assms(2,3) owned_live [OF assms(1)] assms(1)
  by (simp_all add: owned_by_def get_def get_interrupted_state_def column_def)

text \<open>
  C7. What an orchestrated invocation suspends, the orchestrator can resume: when a run is
  interrupted, the reply carries the session and the approval id, and a resume request with
  just these, whatever happened to other sessions in between, continues that run as the
  session's owner, with the history, the pending calls and the decision it was given. Stated
  for texts the codecs read back.
\<close>

theorem aether_suspension_resumes:
  assumes "env_kind env = EkInvoke"
    and "agent_create_session ag now (envelope_owner env) (hs_world s) = (Ok i, w0)"
    and "prepare ag now (envelope_owner env) i (envelope_input env) w0 = (Ok p, w1)"
    and "run_chosen ag (pr_strategy p) (invoke_context i p) (pr_messages p) (pr_active p) w1 = (Ok (Interrupted intr), w2)"
    and "kind_from_text (ag_json ag) (int_kind_json intr) = Ok kind"
    and "st = interrupt_state ag intr (pr_skill p) kind"
    and "state_from_text (ag_json ag) (state_to_text (ag_json ag) st) = Ok st"
    and "history_from_text (ag_json ag) (history_to_text (ag_json ag) (int_history intr)) = Ok (int_history intr)"
    and "calls_from_text (ag_json ag) (calls_to_text (ag_json ag) (int_pending_calls intr)) = Ok (int_pending_calls intr)"
    and "calls_from_text (ag_json ag) ''[]'' = Ok []"
    and "aether_invoke ag now later env s = (r, s1)"
    and "find_row (w_db (hs_world s2)) i = find_row (w_db (hs_world s1)) i" "db_fault (w_db (hs_world s2)) = None"
    and "parse_uuid i = Some i" "parse_uuid (int_approval_id intr) = Some (int_approval_id intr)"
  shows "r = reply 200 (envelope_value (suspended_envelope ag env i (int_approval_id intr) kind))
    \<and> aether_resume parse_uuid ag now2 later2
        \<lparr>rq_session_id = i, rq_approval_id = int_approval_id intr, rq_decision = d\<rparr> s2
      = (case resume_reply ag later2 (envelope_owner env) i
           (resume_tool_call_or_checkpoint ag later2 i st (map_decision d) (int_history intr)
             (case kind of SkillCheckpoint _ _ \<Rightarrow> [] | _ \<Rightarrow> int_pending_calls intr) (reactivated now2 i (hs_world s2)))
         of (r', w') \<Rightarrow> (r', s2\<lparr>hs_world := w'\<rparr>))"
proof -
  let ?u = "envelope_owner env"
  note made = created_session [OF assms(2)]
  have "around_world i w2 = around_world i w0"
    using keepsD [OF prepare_around assms(3)] keepsD [OF around_world_ops(3) assms(4)] by simp
  then have "owned_by (w_db w2) i ?u" using around_owned made(1) by metis
  from interrupt_succeeds [OF assms(5) this, of later "pr_skill p"] obtain w'
    where h: "handle_tool_interrupt ag later i intr (pr_skill p) w2 = (Ok (OutInterrupted (int_approval_id intr) kind), w')"
    by (elim exE)
  have inv: "invoke ag now later ?u i (envelope_input env) w0 = (Ok (OutInterrupted (int_approval_id intr) kind), w')"
    using made(1) assms(3,4) h by (simp add: invoke_def owner_check eff_bind_run finish_def)
  have r: "r = reply 200 (envelope_value (suspended_envelope ag env i (int_approval_id intr) kind))" "hs_world s1 = w'"
    using assms(1,2,11) inv by (auto simp: aether_invoke_def aether_run_def Let_def suspended_envelope_def)
  have own: "owned_by (w_db w') i ?u"
    using around_owned [OF keepsD [OF invoke_around inv]] made(1) by simp
  note later_on = owned_transfer [OF own assms(12) [unfolded r(2)] assms(13)]
  have js: "get_interrupted_state (w_db (hs_world s2)) i = Ok (Some (state_to_text (ag_json ag) st))"
    using interrupt_recorded [OF h own] later_on(2) assms(6) by simp
  note readback = interrupt_resolves [OF assms(8-10), of "pr_skill p" kind, folded assms(6)]
  have "resume ag now2 later2 ?u i (int_approval_id intr) (map_decision d) (hs_world s2)
      = resume_tool_call_or_checkpoint ag later2 i st (map_decision d) (int_history intr)
          (case kind of SkillCheckpoint _ _ \<Rightarrow> [] | _ \<Rightarrow> int_pending_calls intr) (reactivated now2 i (hs_world s2))"
    using resume_tool_call [OF later_on(1) js assms(7) readback(1), of now2 later2 "map_decision d"] readback(2) by simp
  then show ?thesis
    using r(1) owner_found [OF later_on(1)] assms(14,15) by (simp add: aether_resume_def)
qed

section \<open>On the sample agent\<close>

text \<open>The agent whose model asks for a blocked tool, with a codec that reads its own state back.\<close>

definition sample_envelope :: aether_envelope where
  "sample_envelope = \<lparr>env_id = ''r'', env_kind = EkInvoke, env_payload = JObject [(''input'', JString ''hi'')],
     env_metadata = [(''user_id'', ''bob'')]\<rparr>"

definition sample_server :: "unit http" where
  "sample_server = \<lparr>hs_world = sample_world\<lparr>w_db := empty_db\<rparr>, hs_limiter = new_limiter 100 60\<rparr>"

definition sample_history :: "message list" where
  "sample_history = [text_message RoleSystem ''be brief'', text_message RoleUser ''hi'',
     \<lparr>msg_role = RoleAssistant, msg_content = [ToolUse ''a'' ''calc'' (JString ''a'')]\<rparr>,
     \<lparr>msg_role = RoleTool, msg_content = [ToolResult ''a'' [] False]\<rparr>]"

definition sample_gated_call :: tool_call where
  "sample_gated_call = \<lparr>call_id = ''b'', call_name = ''exec_command'', call_args = JNull\<rparr>"

definition sample_orchestrated :: "unit agent" where
  "sample_orchestrated = sample_asking\<lparr>ag_json := sample_agent_codec\<lparr>
     state_from_text := (\<lambda>_. Ok (PendingToolCall ''b'' ''kind'' ''h'' ''c'' [''calc''] None)),
     history_from_text := (\<lambda>_. Ok sample_history),
     calls_from_text := (\<lambda>s. Ok (if s = ''[]'' then [] else [sample_gated_call]))\<rparr>\<rparr>"

definition sample_made :: "unit world" where
  "sample_made = snd (agent_create_session sample_orchestrated 1 ''bob'' (hs_world sample_server))"

lemma sample_creates:
  "agent_create_session sample_orchestrated 1 (envelope_owner sample_envelope) (hs_world sample_server)
     = (Ok ''a'', sample_made)"
proof -
  have "envelope_owner sample_envelope = ''bob''" by code_simp
  moreover have "fst (agent_create_session sample_orchestrated 1 ''bob'' (hs_world sample_server)) = Ok ''a''" by code_simp
  ultimately show ?thesis by (simp add: sample_made_def prod_eq_iff)
qed


lemma ok_caseE:
  assumes "case r of (Ok x, w) \<Rightarrow> P x w | _ \<Rightarrow> False"
  obtains x w where "r = (Ok x, w)" "P x w"
  using assms by (cases r; cases "fst r") auto

lemma aether_suspension_resumes_witness:
  "let s = snd (aether_invoke sample_orchestrated 1 2 sample_envelope sample_server);
       st = PendingToolCall ''b'' ''kind'' ''h'' ''c'' [''calc''] None
   in fst (aether_resume Some sample_orchestrated 6 7
        \<lparr>rq_session_id = ''a'', rq_approval_id = ''b'', rq_decision = AApproved\<rparr> s)
      = fst (resume_reply sample_orchestrated 7 ''bob'' ''a'' (resume_tool_call_or_checkpoint sample_orchestrated 7 ''a'' st
          Approved sample_history [sample_gated_call] (reactivated 6 ''a'' (hs_world s))))"
proof -
  let ?A = "sample_orchestrated"
  let ?st = "PendingToolCall ''b'' ''kind'' ''h'' ''c'' [''calc''] None"
  let ?u = "envelope_owner sample_envelope"
  have "case prepare ?A 1 ?u ''a'' (envelope_input sample_envelope) sample_made of
      (Ok p, w1) \<Rightarrow> (case run_chosen ?A (pr_strategy p) (invoke_context ''a'' p) (pr_messages p) (pr_active p) w1 of
          (Ok (Interrupted intr), w2) \<Rightarrow> pr_skill p = None \<and> int_approval_id intr = ''b'' \<and> int_kind_json intr = ''kind''
            \<and> int_history intr = sample_history \<and> int_pending_calls intr = [sample_gated_call]
            \<and> int_active_tool_names intr = [''calc'']
        | _ \<Rightarrow> False) | _ \<Rightarrow> False" by code_simp
  then obtain p w1 where prep: "prepare ?A 1 ?u ''a'' (envelope_input sample_envelope) sample_made = (Ok p, w1)"
    and "case run_chosen ?A (pr_strategy p) (invoke_context ''a'' p) (pr_messages p) (pr_active p) w1 of
          (Ok (Interrupted intr), w2) \<Rightarrow> pr_skill p = None \<and> int_approval_id intr = ''b'' \<and> int_kind_json intr = ''kind''
            \<and> int_history intr = sample_history \<and> int_pending_calls intr = [sample_gated_call]
            \<and> int_active_tool_names intr = [''calc'']
        | _ \<Rightarrow> False" by (rule ok_caseE)
  from this(2) obtain intr w2 where ran: "run_chosen ?A (pr_strategy p) (invoke_context ''a'' p) (pr_messages p) (pr_active p) w1
      = (Ok (Interrupted intr), w2)"
    and intr: "pr_skill p = None" "int_approval_id intr = ''b''" "int_kind_json intr = ''kind''"
      "int_history intr = sample_history" "int_pending_calls intr = [sample_gated_call]"
      "int_active_tool_names intr = [''calc'']"
    by (elim ok_caseE) (auto split: strategy_outcome.splits)
  obtain r s where inv: "aether_invoke ?A 1 2 sample_envelope sample_server = (r, s)" by force
  have kind: "env_kind sample_envelope = EkInvoke" by (simp add: sample_envelope_def)
  have codec: "kind_from_text (ag_json ?A) (int_kind_json intr) = Ok (ToolApproval ''exec_command'' JNull)"
      "?st = interrupt_state ?A intr (pr_skill p) (ToolApproval ''exec_command'' JNull)"
      "state_from_text (ag_json ?A) (state_to_text (ag_json ?A) ?st) = Ok ?st"
      "history_from_text (ag_json ?A) (history_to_text (ag_json ?A) (int_history intr)) = Ok (int_history intr)"
      "calls_from_text (ag_json ?A) (calls_to_text (ag_json ?A) (int_pending_calls intr)) = Ok (int_pending_calls intr)"
      "calls_from_text (ag_json ?A) ''[]'' = Ok []"
    by (simp_all add: sample_orchestrated_def sample_asking_def sample_agent_def sample_agent_codec_def intr
        interrupt_state_def)
  have "db_fault (w_db (hs_world (snd (aether_invoke ?A 1 2 sample_envelope sample_server)))) = None" by code_simp
  then have fault: "db_fault (w_db (hs_world s)) = None" using inv by simp
  have "?u = ''bob''" by code_simp
  then show ?thesis
    using aether_suspension_resumes [OF kind sample_creates prep ran codec inv refl fault, of Some 6 7 AApproved] intr inv
    by (simp add: Let_def split: prod.splits)
qed

end
