(* ===== verification/Openapi.thy ===== *)
theory Openapi
  imports Json
begin

text \<open>
  The API document the server publishes (\<open>avs-agent/src/http/openapi.rs\<close>). \<open>obj\<close> is the
  \<open>json!\<close> object literal.
\<close>

abbreviation obj :: "(string \<times> json) list \<Rightarrow> json" where "obj kvs \<equiv> JObject (obj_from kvs)"

definition typed :: "string \<Rightarrow> json" where
  "typed t = obj [(''type'', JString t)]"

definition described :: "string \<Rightarrow> json" where
  "described t = obj [(''description'', JString t)]"

definition const_schema :: "string \<Rightarrow> json" where
  "const_schema t = obj [(''const'', JString t)]"

definition names :: "string list \<Rightarrow> json" where
  "names ns = JArray (map JString ns)"

definition object_schema :: "string list \<Rightarrow> (string \<times> json) list \<Rightarrow> json" where
  "object_schema required props =
     obj [(''type'', JString ''object''), (''required'', names required), (''properties'', obj props)]"

definition text_block_schema :: json where
  "text_block_schema = object_schema [''type'', ''text''] [(''type'', const_schema ''text''), (''text'', typed ''string'')]"

definition tool_use_block_schema :: json where
  "tool_use_block_schema = object_schema [''type'', ''id'', ''name'', ''input'']
     [(''type'', const_schema ''tool_use''), (''id'', typed ''string''), (''name'', typed ''string''), (''input'', obj [])]"

definition tool_result_block_schema :: json where
  "tool_result_block_schema = object_schema [''type'', ''tool_use_id'', ''content'', ''is_error'']
     [(''type'', const_schema ''tool_result''), (''tool_use_id'', typed ''string''), (''content'', typed ''string''),
      (''is_error'', typed ''boolean'')]"

definition content_schema :: json where
  "content_schema = obj [(''type'', JString ''array''),
     (''description'', JString (''Tagged content blocks. Breaking change from the pre-native-tool-calling flat-string shape ''
        @ ''(see docs/superpowers/specs/2026-07-28-native-tool-calling-design.md) '' @ em_dash
        @ '' this is an array of typed blocks, not a plain string.'')),
     (''items'', obj [(''oneOf'', JArray [text_block_schema, tool_use_block_schema, tool_result_block_schema])])]"

definition message_schema :: json where
  "message_schema = object_schema [''sequence_num'', ''role'', ''content'']
     [(''sequence_num'', typed ''integer''),
      (''role'', obj [(''type'', JString ''string''), (''enum'', names [''system'', ''user'', ''assistant'', ''tool''])]),
      (''content'', content_schema)]"

definition messages_response_schema :: json where
  "messages_response_schema = obj [(''type'', JString ''object''),
     (''properties'', obj [(''messages'', obj [(''type'', JString ''array''), (''items'', message_schema)])])]"

definition json_content :: "json \<Rightarrow> string \<times> json" where
  "json_content schema = (''content'', obj [(''application/json'', obj [(''schema'', schema)])])"

definition query_parameter :: "(string \<times> json) list \<Rightarrow> json" where
  "query_parameter fields = obj (fields @ [(''in'', JString ''query'')])"

definition get_messages_response :: json where
  "get_messages_response = obj [(''summary'', JString ''List messages (paginated)''),
     (''parameters'', JArray [
        query_parameter [(''name'', JString ''user_id''), (''required'', JBool True), (''schema'', typed ''string'')],
        query_parameter [(''name'', JString ''limit''),
          (''schema'', obj [(''type'', JString ''integer''), (''default'', JNumber (PosInt 50))])],
        query_parameter [(''name'', JString ''before''), (''schema'', typed ''integer''),
          (''description'', JString ''Return messages with sequence_num < before'')]]),
     (''responses'', obj [(''200'', obj [(''description'', JString ''messages array''),
        json_content messages_response_schema])])]"

definition operation :: "string \<Rightarrow> (string \<times> string) list \<Rightarrow> json" where
  "operation summary responses = obj [(''summary'', JString summary),
     (''responses'', obj (map (\<lambda>(code, d). (code, described d)) responses))]"

definition invoke_operation :: json where
  "invoke_operation = obj [(''summary'', JString ''Stateless invocation''),
     (''requestBody'', obj [(''required'', JBool True),
        json_content (object_schema [''user_id'', ''message'']
          [(''user_id'', typed ''string''), (''message'', typed ''string'')])]),
     (''responses'', obj [(''200'', described ''Agent reply''), (''400'', described ''Empty message''),
        (''429'', described ''Rate limited'')])]"

definition openapi_paths :: json where
  "openapi_paths = obj [
     (''/v1/health'', obj [(''get'', operation ''Health check'' [(''200'', ''healthy'')])]),
     (''/v1/ready'', obj [(''get'', operation ''Readiness probe'' [(''200'', ''ready'')])]),
     (''/v1/invoke'', obj [(''post'', invoke_operation)]),
     (''/v1/sessions'', obj [(''post'', operation ''Create session'' [(''201'', ''session_id'')])]),
     (''/v1/sessions/{session_id}/messages'', obj [(''post'', operation ''Send message'' [(''200'', ''reply'')]),
        (''get'', get_messages_response)])]"

definition openapi_document :: json where
  "openapi_document = obj [(''openapi'', JString ''3.1.0''),
     (''info'', obj [(''title'', JString ''AgentVerse HTTP API''), (''version'', JString ''1.0.0''),
        (''description'', JString ''Agent invocation and session management endpoints.'')]),
     (''paths'', openapi_paths)]"

end
