(* ===== verification/Http_Server.thy ===== *)
theory Http_Server
  imports Aether Openapi
begin

text \<open>
  The HTTP server (\<open>avs-agent/src/http/mod.rs\<close>, \<open>auth.rs\<close>, \<open>config.rs\<close>): the start-up check on
  the address it binds, the routes, and the layers around them. The layers apply outermost
  first: authentication, then CORS, then the route. The framework's reading of a request into
  a handler's arguments is the record \<open>extractors\<close> of parameters, each a rejection status or
  the arguments. The middleware's rejections carry no body.
\<close>

section \<open>Requests\<close>

datatype http_method = MGet | MHead | MPost | MDelete | MOptions | MOther

text \<open>The first Authorization header, when it is visible ASCII.\<close>

record request =
  rq_method :: http_method
  rq_path :: string
  rq_authorization :: "string option"
  rq_query :: string
  rq_body :: string

record extractors =
  ex_uuid :: "string \<Rightarrow> uuid option"
  ex_invoke :: "request \<Rightarrow> nat + string \<times> string"
  ex_create :: "request \<Rightarrow> nat + string"
  ex_send :: "request \<Rightarrow> nat + string \<times> string"
  ex_list :: "request \<Rightarrow> nat + string \<times> int option \<times> int option"
  ex_get_user :: "request \<Rightarrow> nat + string"
  ex_end_user :: "request \<Rightarrow> nat + string"
  ex_envelope :: "request \<Rightarrow> nat + aether_envelope"
  ex_resume :: "request \<Rightarrow> nat + resume_request"

section \<open>Configuration and start-up\<close>

record http_config =
  hc_host :: string
  hc_port :: nat

text \<open>\<open>str::parse::<u16>\<close>.\<close>

definition parse_u16 :: "string \<Rightarrow> nat option" where
  "parse_u16 s =
     (let ds = (case s of [] \<Rightarrow> [] | c # cs \<Rightarrow> if c = CHR ''+'' then cs else s);
          n = foldl (\<lambda>a c. a * 10 + (of_char c - 48)) 0 ds
      in if ds \<noteq> [] \<and> list_all (\<lambda>c. CHR ''0'' \<le> c \<and> c \<le> CHR ''9'') ds \<and> n < 2 ^ 16 then Some n else None)"

text \<open>The environment: a variable's text, when it is set.\<close>

type_synonym environment = "string \<Rightarrow> string option"

definition http_config_from_env :: "environment \<Rightarrow> http_config" where
  "http_config_from_env env =
     \<lparr>hc_host = (case env ''HOST'' of Some h \<Rightarrow> h | None \<Rightarrow> ''0.0.0.0''),
      hc_port = (case Option.bind (env ''PORT'') parse_u16 of Some p \<Rightarrow> p | None \<Rightarrow> 3000)\<rparr>"

definition api_key_configured :: "string option \<Rightarrow> bool" where
  "api_key_configured var = (case var of Some v \<Rightarrow> trim v \<noteq> [] | None \<Rightarrow> False)"

definition get_api_key :: "environment \<Rightarrow> string option" where
  "get_api_key env = Option.bind (env ''API_KEY'') (\<lambda>k. if trim k \<noteq> [] then Some k else None)"

text \<open>Reading an IP address is a parameter: whether it is a loopback one, when it parses.\<close>

definition is_loopback_host :: "(string \<Rightarrow> bool option) \<Rightarrow> string \<Rightarrow> bool" where
  "is_loopback_host parse_ip host \<longleftrightarrow>
     to_lowercase host = ''localhost'' \<or> (case parse_ip host of Some l \<Rightarrow> l | None \<Rightarrow> False)"

definition insecure_bind_text :: "string \<Rightarrow> string" where
  "insecure_bind_text host = ''refusing to serve HTTP on non-loopback address '' @ [CHR 0x27] @ host @ [CHR 0x27]
     @ '' without authentication. Set a non-empty API_KEY to require bearer-token auth on all routes, ''
     @ ''or set ALLOW_INSECURE=true to accept an unauthenticated server (local development only).''"

definition validate_bind_security ::
  "(string \<Rightarrow> bool option) \<Rightarrow> string \<Rightarrow> bool \<Rightarrow> bool \<Rightarrow> string + unit" where
  "validate_bind_security parse_ip host api_key_set allow_insecure =
     (if api_key_set \<or> allow_insecure \<or> is_loopback_host parse_ip host then Ok ()
      else Err (insecure_bind_text host))"

definition allow_insecure_set :: "environment \<Rightarrow> bool" where
  "allow_insecure_set env = (case env ''ALLOW_INSECURE'' of Some v \<Rightarrow> to_lowercase v = ''true'' | None \<Rightarrow> False)"

text \<open>The address to listen on, or the text of the start-up panic.\<close>

definition spawn_server :: "(string \<Rightarrow> bool option) \<Rightarrow> environment \<Rightarrow> string + string" where
  "spawn_server parse_ip env =
     (let cfg = http_config_from_env env in
      try_bind (validate_bind_security parse_ip (hc_host cfg) (api_key_configured (env ''API_KEY'')) (allow_insecure_set env))
        (\<lambda>_. Ok (hc_host cfg @ '':'' @ show_nat (hc_port cfg))))"

section \<open>Routes\<close>

datatype endpoint =
    EHealth | EReady | EInvoke | EAetherInvoke | EAetherResume | EOpenapi
  | ESessions | EMessages string | ESession string

definition common_routes :: "(string list \<times> endpoint) list" where
  "common_routes = [([''health''], EHealth), ([''ready''], EReady), ([''invoke''], EInvoke),
     ([''aether'', ''invoke''], EAetherInvoke), ([''aether'', ''resume''], EAetherResume)]"

fun session_route :: "string list \<Rightarrow> endpoint option" where
  "session_route [] = Some ESessions"
| "session_route [i] = (if i = [] then None else Some (ESession i))"
| "session_route [i, m] = (if i \<noteq> [] \<and> m = ''messages'' then Some (EMessages i) else None)"
| "session_route _ = None"

definition v1_route :: "string list \<Rightarrow> endpoint option" where
  "v1_route segs = (case map_of common_routes segs of
      Some e \<Rightarrow> Some e
    | None \<Rightarrow> (case segs of s # rest \<Rightarrow> if s = ''sessions'' then session_route rest else None | [] \<Rightarrow> None))"

definition unversioned_route :: "string list \<Rightarrow> endpoint option" where
  "unversioned_route segs = (if segs = [''openapi.json''] then Some EOpenapi else map_of common_routes segs)"

definition route_of :: "string \<Rightarrow> endpoint option" where
  "route_of path = (case split_on (\<lambda>c. c = CHR ''/'') path of
      front # segs \<Rightarrow>
        if front \<noteq> [] then None
        else (case segs of v # rest \<Rightarrow> if v = ''v1'' then v1_route rest else unversioned_route segs | [] \<Rightarrow> None)
    | [] \<Rightarrow> None)"

section \<open>Dispatch\<close>

definition extracted :: "nat + 'x \<Rightarrow> ('x \<Rightarrow> 'q handler) \<Rightarrow> 'q handler" where
  "extracted r h = (case r of Err status \<Rightarrow> answer (Response status None) | Ok x \<Rightarrow> h x)"

definition with_session :: "extractors \<Rightarrow> string \<Rightarrow> (uuid \<Rightarrow> 'q handler) \<Rightarrow> 'q handler" where
  "with_session ex seg h = (case ex_uuid ex seg of None \<Rightarrow> answer (Response 400 None) | Some i \<Rightarrow> h i)"

definition method_not_allowed :: "'q handler" where
  "method_not_allowed = answer (Response 405 None)"

text \<open>A HEAD request runs the GET handler and drops its body.\<close>

definition headed :: "http_method \<Rightarrow> 'q handler \<Rightarrow> 'q handler" where
  "headed m h = (\<lambda>s. case h s of
      (Response st b, s') \<Rightarrow> (Response st (if m = MHead then None else b), s')
    | (Dropped, s') \<Rightarrow> (Dropped, s'))"

definition on_get :: "http_method \<Rightarrow> 'q handler \<Rightarrow> 'q handler" where
  "on_get m h = (if m = MGet \<or> m = MHead then headed m h else method_not_allowed)"

definition on_post :: "http_method \<Rightarrow> 'q handler \<Rightarrow> 'q handler" where
  "on_post m h = (if m = MPost then h else method_not_allowed)"

fun dispatch ::
  "extractors \<Rightarrow> 'q agent \<Rightarrow> instant \<Rightarrow> instant \<Rightarrow> request \<Rightarrow> endpoint \<Rightarrow> 'q handler" where
  "dispatch ex ag now later rq EHealth = on_get (rq_method rq) health"
| "dispatch ex ag now later rq EReady = on_get (rq_method rq) ready"
| "dispatch ex ag now later rq EOpenapi = on_get (rq_method rq) (answer (reply 200 openapi_document))"
| "dispatch ex ag now later rq EInvoke =
     on_post (rq_method rq) (extracted (ex_invoke ex rq) (\<lambda>(u, m). http_invoke ag now u m))"
| "dispatch ex ag now later rq EAetherInvoke =
     on_post (rq_method rq) (extracted (ex_envelope ex rq) (aether_invoke ag now later))"
| "dispatch ex ag now later rq EAetherResume =
     on_post (rq_method rq) (extracted (ex_resume ex rq) (aether_resume (ex_uuid ex) ag now later))"
| "dispatch ex ag now later rq ESessions =
     on_post (rq_method rq) (extracted (ex_create ex rq) (http_create_session ag now))"
| "dispatch ex ag now later rq (EMessages seg) =
     (if rq_method rq = MPost
      then with_session ex seg (\<lambda>i. extracted (ex_send ex rq) (\<lambda>(u, m). send_message ag now later i u m))
      else on_get (rq_method rq)
        (with_session ex seg (\<lambda>i. extracted (ex_list ex rq) (\<lambda>(u, limit, before). list_messages ag now i u limit before))))"
| "dispatch ex ag now later rq (ESession seg) =
     (if rq_method rq = MDelete
      then with_session ex seg (\<lambda>i. extracted (ex_end_user ex rq) (http_end_session now i))
      else on_get (rq_method rq)
        (with_session ex seg (\<lambda>i. extracted (ex_get_user ex rq) (http_get_session i))))"

definition router :: "extractors \<Rightarrow> 'q agent \<Rightarrow> instant \<Rightarrow> instant \<Rightarrow> request \<Rightarrow> 'q handler" where
  "router ex ag now later rq = (case route_of (rq_path rq) of
      None \<Rightarrow> answer (Response 404 None)
    | Some e \<Rightarrow> dispatch ex ag now later rq e)"

section \<open>Layers\<close>

text \<open>The permissive CORS layer answers every OPTIONS request itself.\<close>

definition cors :: "request \<Rightarrow> 'q handler \<Rightarrow> 'q handler" where
  "cors rq h = (if rq_method rq = MOptions then answer (Response 200 None) else h)"

definition bearer_token :: "request \<Rightarrow> string option" where
  "bearer_token rq = Option.bind (rq_authorization rq) (\<lambda>h. map_option trim (strip_prefix ''Bearer '' h))"

definition auth_middleware :: "string option \<Rightarrow> request \<Rightarrow> 'q handler \<Rightarrow> 'q handler" where
  "auth_middleware api_key rq next =
     (case api_key of
        Some key \<Rightarrow> if bearer_token rq \<noteq> Some key then answer (Response 401 None) else next
      | None \<Rightarrow> next)"

definition serve ::
  "string option \<Rightarrow> extractors \<Rightarrow> 'q agent \<Rightarrow> instant \<Rightarrow> instant \<Rightarrow> request \<Rightarrow> 'q handler" where
  "serve api_key ex ag now later rq = auth_middleware api_key rq (cors rq (router ex ag now later rq))"

definition server_start :: "'q world \<Rightarrow> 'q http" where
  "server_start w = \<lparr>hs_world = w, hs_limiter = new_limiter 100 60\<rparr>"

section \<open>Authentication\<close>

lemma trim_end_idem [simp]: "trim_end (trim_end s) = trim_end s"
  by (simp add: trim_end_def)

lemma trim_start_of_trim: "trim_start (trim s) = trim s"
proof (cases "trim_start s")
  case Nil
  then show ?thesis by (simp only: trim_def) (simp add: trim_end_def trim_start_def)
next
  case (Cons c cs)
  then have c: "\<not> is_ws c" unfolding trim_start_def by (rule dropWhile_head)
  then have "trim s = c # rev (dropWhile is_ws (rev cs))"
    using Cons by (simp add: trim_def trim_end_def dropWhile_append3)
  then show ?thesis using c by (simp add: trim_start_def)
qed

lemma trim_idem [simp]: "trim (trim s) = trim s"
proof -
  have "trim_end (trim s) = trim s" unfolding trim_def by simp
  then show ?thesis by (simp add: trim_def [of "trim s"] trim_start_of_trim)
qed

lemma bearer_token_trimmed: "bearer_token rq = Some k \<Longrightarrow> trim k = k"
  by (auto simp: bearer_token_def bind_eq_Some_conv)

lemma rejected_run: "api_key = Some key \<Longrightarrow> bearer_token rq \<noteq> Some key \<Longrightarrow>
  serve api_key ex ag now later rq s = (Response 401 None, s)"
  by (simp add: serve_def auth_middleware_def answer_def)

text \<open>
  C11. A server on a public address is authenticated: when the start-up check lets a server
  bind an address that is not a loopback one and nobody has opted out, a key that is not blank
  is in force, and every request without exactly that bearer token, on any path and with any
  method, is answered with 401 and changes nothing: no session, no queue, no rate-limit count.
\<close>

theorem exposed_server_is_authenticated:
  assumes "spawn_server parse_ip env = Ok addr" "\<not> allow_insecure_set env"
    and "\<not> is_loopback_host parse_ip (hc_host (http_config_from_env env))"
  shows "\<exists>key. get_api_key env = Some key \<and> trim key \<noteq> [] \<and> (\<forall>rq s. bearer_token rq \<noteq> Some key \<longrightarrow>
    serve (get_api_key env) ex ag now later rq s = (Response 401 None, s))"
proof -
  have "api_key_configured (env ''API_KEY'')"
    using assms by (auto simp: spawn_server_def Let_def validate_bind_security_def split: if_splits)
  then obtain key where "get_api_key env = Some key" "trim key \<noteq> []"
    by (auto simp: api_key_configured_def get_api_key_def split: option.splits)
  then show ?thesis using rejected_run by blast
qed

text \<open>
  A padded key locks everyone out: a configured key that starts or ends with white space (a
  trailing line break from a secret file, say) passes the start-up check, and then no request
  at all is let through, as the token of a request is trimmed and the key is not.
\<close>

theorem padded_key_locks_everyone_out:
  assumes "env ''API_KEY'' = Some k" "trim k \<noteq> []" "trim k \<noteq> k"
  shows "api_key_configured (env ''API_KEY'') \<and>
    (\<forall>rq s. serve (get_api_key env) ex ag now later rq s = (Response 401 None, s))"
proof -
  have key: "get_api_key env = Some k" using assms by (simp add: get_api_key_def)
  have "bearer_token rq \<noteq> Some k" for rq using bearer_token_trimmed [of rq k] assms(3) by blast
  then have "serve (get_api_key env) ex ag now later rq s = (Response 401 None, s)" for rq s
    by (rule rejected_run [OF key])
  then show ?thesis using assms(1,2) by (simp add: api_key_configured_def)
qed

section \<open>Requests that only read\<close>

lemma ask_agent_world: "keeps f m \<Longrightarrow> f (hs_world (snd (ask_agent m ok err s))) = f (hs_world s)"
  by (auto simp: ask_agent_def keeps_def split: prod.split) (metis snd_conv)

lemma limited_world:
  assumes "\<And>s. f (hs_world (snd (h s))) = f (hs_world s)"
  shows "f (hs_world (snd (limited now u h s))) = f (hs_world s)"
  using assms by (auto simp: limited_def split: prod.split sum.split)

lemma keeps_whole_reads: "keeps (\<lambda>w. w) (agent_load_messages ag u i)" "keeps (\<lambda>w. w) (agent_get_session u i)"
  unfolding keeps_def agent_load_messages_def agent_get_session_def owner_check
  by (auto simp: db_op_def manager_read_defs eff_run)

lemma answer_run [simp]: "answer r s = (r, s)"
  by (simp add: answer_def)

lemma headed_state [simp]: "snd (headed m h s) = snd (h s)"
  by (auto simp: headed_def split: prod.split response.split)

lemma extracted_world:
  "(\<And>x s. f (hs_world (snd (h x s))) = f (hs_world s)) \<Longrightarrow> f (hs_world (snd (extracted r h s))) = f (hs_world s)"
  by (auto simp: extracted_def split: sum.split)

lemma with_session_world:
  "(\<And>i s. f (hs_world (snd (h i s))) = f (hs_world s)) \<Longrightarrow> f (hs_world (snd (with_session ex seg h s))) = f (hs_world s)"
  by (auto simp: with_session_def split: option.split)

lemma read_handlers:
  "hs_world (snd (list_messages ag now i u limit before s)) = hs_world s"
  "hs_world (snd (http_get_session i u s)) = hs_world s"
  unfolding list_messages_def http_get_session_def
  by (rule limited_world [where f = "\<lambda>w. w"] | rule ask_agent_world [where f = "\<lambda>w. w"] | rule keeps_whole_reads)+

text \<open>
  Reading is safe: a request with any method but POST and DELETE, on any path and with any
  credentials, leaves the agent's world exactly as it was: store, cache, queue, drawn ids,
  skills, long-term memory and started tools.
\<close>

theorem reading_requests_change_nothing:
  assumes "rq_method rq \<noteq> MPost" "rq_method rq \<noteq> MDelete"
  shows "hs_world (snd (serve key ex ag now later rq s)) = hs_world s"
proof -
  have "hs_world (snd (dispatch ex ag now later rq e s)) = hs_world s" for e
    using assms
    by (cases e) (auto simp: on_get_def on_post_def method_not_allowed_def health_def ready_def read_handlers
        intro!: with_session_world [where f = "\<lambda>w. w"] extracted_world [where f = "\<lambda>w. w"] split: prod.split)
  then show ?thesis
    by (auto simp: serve_def auth_middleware_def cors_def router_def split: option.split)
qed

section \<open>Sessions of other users\<close>

lemma limited_run:
  "limited now u h s = (case rate_check now u (hs_limiter s) of
     (Err e, l) \<Rightarrow> (reply 429 (error_body (guard_error_text e)), s\<lparr>hs_limiter := l\<rparr>)
   | (Ok _, l) \<Rightarrow> h (s\<lparr>hs_limiter := l\<rparr>))"
  by (simp add: limited_def split: prod.split sum.split)

lemma ask_agent_refused:
  assumes "m (hs_world s) = (Err (SessionFailed (NotFound i)), hs_world s)"
  shows "ask_agent m ok fail_mapped s = (reply 404 (error_body (agent_failure_text (SessionFailed (NotFound i)))), s)"
  using assms by (simp add: ask_agent_def fail_mapped_def)

text \<open>
  Another user's session looks like no session: sending to it, listing, reading or ending
  it over HTTP is refused by the rate limit (429) or for an empty message (400), or is answered
  with the 404 that an unknown session gets; the agent's world stays exactly as it was.
\<close>

theorem foreign_requests_are_refused:
  assumes "\<not> owned_by (w_db (hs_world s)) i u" "db_fault (w_db (hs_world s)) = None"
    and "h \<in> {send_message ag now later i u m, list_messages ag now i u limit before,
              http_get_session i u, http_end_session now i u}"
  shows "hs_world (snd (h s)) = hs_world s
    \<and> (fst (h s) = reply 404 (error_body (agent_failure_text (SessionFailed (NotFound i))))
      \<or> (\<exists>e. fst (h s) = reply 429 (error_body (guard_error_text e)))
      \<or> fst (h s) = reply 400 (error_body ''message must not be empty''))"
proof -
  let ?no = "reply 404 (error_body (agent_failure_text (SessionFailed (NotFound i))))"
  have refused: "invoke ag now later u i m w = (Err (SessionFailed (NotFound i)), w)"
      "agent_load_messages ag u i w = (Err (SessionFailed (NotFound i)), w)"
      "agent_get_session u i w = (Err (SessionFailed (NotFound i)), w)"
      "agent_end_session now u i w = (Err (SessionFailed (NotFound i)), w)"
    if "w = hs_world s" for w
    using assms(1,2) that
    by (simp_all add: invoke_def agent_get_session_def agent_end_session_def agent_load_messages_def owner_check refused_def)
  have asked: "ask_agent (invoke ag now later u i m) ok fail_mapped t = (?no, t)"
      "ask_agent (agent_load_messages ag u i) ok2 fail_mapped t = (?no, t)"
      "ask_agent (agent_get_session u i) ok3 fail_mapped t = (?no, t)"
      "ask_agent (agent_end_session now u i) ok4 fail_mapped t = (?no, t)"
    if "hs_world t = hs_world s" for t ok ok2 ok3 ok4
    by (rule ask_agent_refused, rule refused, rule that)+
  show ?thesis
    using assms(3)
    by (auto simp: send_message_def list_messages_def http_get_session_def http_end_session_def limited_run asked
        split: prod.split sum.split)
qed

section \<open>Every request keeps the world well-formed\<close>

lemma preserves_world_snd: "preserves (world_ok ag) m \<Longrightarrow> world_ok ag w \<Longrightarrow> world_ok ag (snd (m w))"
  by (rule preserves_snd)

lemma ask_agent_ok:
  "preserves (world_ok ag) m \<Longrightarrow> world_ok ag (hs_world s) \<Longrightarrow> world_ok ag (hs_world (snd (ask_agent m ok err s)))"
  using preserves_snd [of "world_ok ag" m "hs_world s"] by (auto simp: ask_agent_def split: prod.split)

lemma limited_ok:
  assumes "\<And>s. world_ok ag (hs_world s) \<Longrightarrow> world_ok ag (hs_world (snd (h s)))" "world_ok ag (hs_world s)"
  shows "world_ok ag (hs_world (snd (limited now u h s)))"
  using assms by (auto simp: limited_run split: prod.split sum.split)

lemma get_session_world: "preserves (world_ok ag) (agent_get_session u i)"
  unfolding agent_get_session_def by (intro world_intros)

lemma handlers_ok:
  assumes "world_ok ag (hs_world s)"
  shows "world_ok ag (hs_world (snd (http_invoke ag now u m s)))"
    "world_ok ag (hs_world (snd (http_create_session ag now u s)))"
    "world_ok ag (hs_world (snd (send_message ag now later i u m s)))"
    "world_ok ag (hs_world (snd (list_messages ag now i u limit before s)))"
    "world_ok ag (hs_world (snd (http_get_session i u s)))"
    "world_ok ag (hs_world (snd (http_end_session now i u s)))"
  unfolding http_invoke_def http_create_session_def send_message_def list_messages_def http_get_session_def
    http_end_session_def
  using assms
  by (auto intro!: limited_ok ask_agent_ok stateless_world session_ops_world invoke_world get_session_world
      split: if_splits)

lemma aether_finish_ok:
  "world_ok ag w \<Longrightarrow> world_ok ag (snd (aether_finish ag now u i rid md out w))"
  by (cases out) (auto intro: preserves_snd [OF session_ops_world(2)])

lemma aether_invoke_ok:
  assumes "world_ok ag (hs_world s)"
  shows "world_ok ag (hs_world (snd (aether_invoke ag now later env s)))"
proof -
  have run: "world_ok ag (snd (aether_run ag now later env i w))" if "world_ok ag w" for i w
  proof -
    obtain r w' where e: "aether_run ag now later env i w = (r, w')" by force
    have inv: "world_ok ag (snd (invoke ag now later (envelope_owner env) i (envelope_input env) w))"
      by (rule preserves_snd [OF invoke_world that])
    from e have "world_ok ag w'"
      by (cases rule: aether_run_cases)
         (use inv in \<open>auto intro!: preserves_snd [OF session_ops_world(2)]\<close>)
    then show ?thesis using e by simp
  qed
  have "world_ok ag (snd (agent_create_session ag now (envelope_owner env) (hs_world s)))"
    by (rule preserves_snd [OF session_ops_world(1) assms])
  then show ?thesis
    using assms run by (auto simp: aether_invoke_def split: prod.split sum.split) (metis snd_conv)+
qed

lemma session_owner_state: "snd (session_owner i w) = w"
  by (auto simp: session_owner_def eff_bind_def db_op_def get_session_def eff_run split: sum.split)

lemma aether_resume_ok:
  assumes "world_ok ag (hs_world s)"
  shows "world_ok ag (hs_world (snd (aether_resume pu ag now later req s)))"
proof -
  have reply: "world_ok ag (snd (resume_reply ag later u i (r, w)))" if "world_ok ag w" for u i r and w
  proof (cases r)
    case (Inl e)
    then show ?thesis using that by (cases e) simp_all
  next
    case (Inr out)
    have "world_ok ag (snd (draw_id ag w))" by (rule preserves_snd [OF untouched_world(1) that])
    then show ?thesis
      using Inr by (auto split: prod.split) (metis aether_finish_ok snd_conv)
  qed
  have "world_ok ag (snd (resume ag now later u i a d (hs_world s)))" for u i a d
    by (rule preserves_snd [OF resume_world assms])
  then have replied: "world_ok ag w'"
    if "resume_reply ag later u i (resume ag now later u i a d (hs_world s)) = (r, w')" for u i a d r w'
    using reply [of "snd (resume ag now later u i a d (hs_world s))" u i "fst (resume ag now later u i a d (hs_world s))"] that
    by simp
  have owner: "w = hs_world s" if "session_owner i (hs_world s) = (x, w)" for i x w
    using session_owner_state [of i "hs_world s"] that by simp
  show ?thesis
    using assms by (auto simp: aether_resume_def split: option.split prod.split sum.split dest!: owner dest: replied)
qed

lemma dispatch_ok:
  assumes "world_ok ag (hs_world s)"
  shows "world_ok ag (hs_world (snd (dispatch ex ag now later rq e s)))"
  using assms
  by (cases e) (auto simp: on_get_def on_post_def method_not_allowed_def health_def ready_def extracted_def
      with_session_def handlers_ok aether_invoke_ok aether_resume_ok split: sum.split option.split)

inductive reachable_server ::
  "string option \<Rightarrow> extractors \<Rightarrow> 'q agent \<Rightarrow> 'q http \<Rightarrow> bool" for key ex ag where
  server_started: "reachable_world ag w \<Longrightarrow> reachable_server key ex ag (server_start w)"
| server_request: "reachable_server key ex ag s \<Longrightarrow>
    reachable_server key ex ag (snd (serve key ex ag now later rq s))"

lemma reachable_server_ok: "reachable_server key ex ag s \<Longrightarrow> world_ok ag (hs_world s)"
proof (induction rule: reachable_server.induct)
  case (server_started w)
  then show ?case by (simp add: server_start_def world_ok_reachable)
next
  case (server_request s now later rq)
  then show ?case
    by (auto simp: serve_def auth_middleware_def cors_def router_def dispatch_ok split: option.split)
qed


section \<open>The page of a transcript\<close>

lemma filter_enumerate_below:
  "filter (\<lambda>(n, _). int n < b) (List.enumerate m xs) = List.enumerate m (take (nat (b - int m)) xs)"
proof (induction xs arbitrary: m)
  case (Cons x xs)
  show ?case
  proof (cases "int m < b")
    case True
    then have "nat (b - int m) = Suc (nat (b - int (Suc m)))" by simp
    then show ?thesis using Cons.IH [of "Suc m"] True by simp
  next
    case False
    then show ?thesis using Cons.IH [of "Suc m"] by simp
  qed
qed simp

lemma drop_enumerate: "drop k (List.enumerate 0 xs) = List.enumerate k (drop k xs)"
  by (cases "k \<le> length xs") (auto intro!: nth_equalityI simp: nth_enumerate_eq add.commute)

definition page_end :: "int option \<Rightarrow> 'a list \<Rightarrow> nat" where
  "page_end before xs = (case before of None \<Rightarrow> length xs | Some b \<Rightarrow> min (length xs) (nat b))"

lemma page_of_window:
  "page_of limit before xs =
     (let st = page_end before xs - nat (effective_limit limit mod 2 ^ 64)
      in List.enumerate st (drop st (take (page_end before xs) xs)))"
proof -
  have "filter (\<lambda>(n, _). case before of Some b \<Rightarrow> int n < b | None \<Rightarrow> True) (List.enumerate 0 xs)
      = List.enumerate 0 (take (page_end before xs) xs)"
    using filter_enumerate_below [of _ 0 xs] by (auto simp: page_end_def min_def split: option.split)
  then show ?thesis by (simp add: page_of_def Let_def drop_enumerate page_end_def min.commute split: option.split)
qed

text \<open>
  A page is the last stretch of the transcript before the given position: the messages in
  order, numbered by their place in the transcript, at most \<open>limit\<close> and at most 200 of them.
  That holds for a limit of zero or more; a negative limit escapes the cap and returns the
  transcript from its beginning.
\<close>

theorem page_is_the_window:
  assumes "- (2 ^ 63) \<le> l" "l < 2 ^ 63" "length xs < 2 ^ 63"
  shows "let e = page_end before xs; st = (if l < 0 then 0 else e - nat (min l 200)); p = page_of (Some l) before xs
    in p = List.enumerate st (drop st (take e xs)) \<and> (0 \<le> l \<longrightarrow> length p \<le> nat (min l 200))
      \<and> (l < 0 \<longrightarrow> length p = e)"
proof -
  let ?e = "page_end before xs"
  have e: "?e \<le> length xs" by (simp add: page_end_def split: option.split)
  have "?e - nat (effective_limit (Some l) mod 2 ^ 64) = (if l < 0 then 0 else ?e - nat (min l 200))"
  proof (cases "l < 0")
    case True
    have "l mod 2 ^ 64 = (l + 2 ^ 64) mod 2 ^ 64" by simp
    also have "\<dots> = l + 2 ^ 64" using True assms(1) by (intro mod_pos_pos_trivial) simp_all
    finally have "effective_limit (Some l) mod 2 ^ 64 = l + 2 ^ 64" using True by (simp add: effective_limit_def)
    then show ?thesis using True assms(1,3) e by simp
  next
    case False
    then have "effective_limit (Some l) mod 2 ^ 64 = min l 200"
      by (simp add: effective_limit_def mod_pos_pos_trivial)
    then show ?thesis using False by simp
  qed
  then show ?thesis using e by (auto simp: page_of_window Let_def) arith
qed

section \<open>The published document\<close>

text \<open>The members a schema requires and a value has, the blocks it lists, the texts it allows.\<close>

definition required_members :: "json \<Rightarrow> string set" where
  "required_members schema = (case json_index schema ''required'' of JArray ns \<Rightarrow> str_or [] ` set ns | _ \<Rightarrow> {})"

definition members :: "json \<Rightarrow> string set" where
  "members v = (case v of JObject kvs \<Rightarrow> fst ` set kvs | _ \<Rightarrow> {})"

definition property_of :: "json \<Rightarrow> string \<Rightarrow> json" where
  "property_of schema k = json_index (json_index schema ''properties'') k"

lemmas schema_defs = required_members_def members_def property_of_def object_schema_def json_index_def json_get_def names_def
  str_or_def text_block_schema_def tool_use_block_schema_def tool_result_block_schema_def typed_def const_schema_def

lemma obj_from_keys: "fst ` set (obj_from kvs) = fst ` set kvs"
proof (induction kvs)
  case (Cons kv kvs)
  then show ?case using keys_obj_insert [of "fst kv" "snd kv" "obj_from kvs"] by (cases kv) simp
qed simp

lemma block_follows:
  "\<exists>schema \<in> {text_block_schema, tool_use_block_schema, tool_result_block_schema}.
    members (content_block_value b) = required_members schema
    \<and> json_index (content_block_value b) ''type'' = json_index (property_of schema ''type'') ''const''"
  by (cases b) (simp_all add: schema_defs obj_from_keys keys_obj_insert insert_commute)

text \<open>
  The messages the server lists have the form the published document gives: each item has
  exactly the required members, its role is one of the listed texts and each content block has
  exactly the members, and the type, of one of the listed block schemas.
\<close>

theorem listed_messages_follow_the_document:
  "members (message_item (n, m)) = required_members message_schema
    \<and> (\<exists>roles. json_index (property_of message_schema ''role'') ''enum'' = JArray roles
        \<and> json_index (message_item (n, m)) ''role'' \<in> set roles)
    \<and> (\<exists>schemas. json_index (json_index (property_of message_schema ''content'') ''items'') ''oneOf'' = JArray schemas
        \<and> json_index (message_item (n, m)) ''content'' = JArray (map content_block_value (msg_content m))
        \<and> list_all (\<lambda>b. \<exists>schema \<in> set schemas. members (content_block_value b) = required_members schema
            \<and> json_index (content_block_value b) ''type'' = json_index (property_of schema ''type'') ''const'')
          (msg_content m))"
proof -
  have "members (message_item (n, m)) = required_members message_schema"
    by (simp add: message_item_def message_schema_def schema_defs obj_from_keys keys_obj_insert insert_commute)
  moreover have "\<exists>roles. json_index (property_of message_schema ''role'') ''enum'' = JArray roles
        \<and> json_index (message_item (n, m)) ''role'' \<in> set roles"
    by (cases "msg_role m") (simp_all add: message_item_def message_schema_def schema_defs)
  moreover have "json_index (json_index (property_of message_schema ''content'') ''items'') ''oneOf''
        = JArray [text_block_schema, tool_use_block_schema, tool_result_block_schema]"
    by (simp add: message_schema_def content_schema_def property_of_def object_schema_def json_index_def json_get_def)
  moreover have "json_index (message_item (n, m)) ''content'' = JArray (map content_block_value (msg_content m))"
    by (simp add: message_item_def json_index_def json_get_def)
  ultimately show ?thesis using block_follows by (simp add: list_all_iff)
qed

section \<open>On the sample server\<close>

definition sample_extractors :: extractors where
  "sample_extractors = \<lparr>ex_uuid = Some, ex_invoke = (\<lambda>rq. Ok (''bob'', rq_body rq)), ex_create = (\<lambda>_. Ok ''bob''),
     ex_send = (\<lambda>rq. Ok (''bob'', rq_body rq)), ex_list = (\<lambda>_. Ok (''bob'', None, None)), ex_get_user = (\<lambda>_. Ok ''bob''),
     ex_end_user = (\<lambda>_. Ok ''bob''), ex_envelope = (\<lambda>_. Err 422), ex_resume = (\<lambda>_. Err 422)\<rparr>"

definition sample_environment :: environment where
  "sample_environment = (\<lambda>k. if k = ''API_KEY'' then Some ''secret'' else None)"

definition sample_http_request :: "http_method \<Rightarrow> string \<Rightarrow> string option \<Rightarrow> request" where
  "sample_http_request m path auth = \<lparr>rq_method = m, rq_path = path, rq_authorization = auth, rq_query = [], rq_body = ''hi''\<rparr>"

lemma exposed_server_is_authenticated_witness:
  "serve (get_api_key sample_environment) sample_extractors sample_agent 0 1
     (sample_http_request MPost ''/v1/sessions'' (Some ''Bearer guess'')) sample_server = (Response 401 None, sample_server)"
proof -
  have start: "spawn_server (\<lambda>_. Some False) sample_environment = Ok ''0.0.0.0:3000''"
      "\<not> allow_insecure_set sample_environment"
      "\<not> is_loopback_host (\<lambda>_. Some False) (hc_host (http_config_from_env sample_environment))"
      "get_api_key sample_environment = Some ''secret''"
      "bearer_token (sample_http_request MPost ''/v1/sessions'' (Some ''Bearer guess'')) \<noteq> Some ''secret''"
    by code_simp+
  show ?thesis
    using exposed_server_is_authenticated [OF start(1-3), of sample_extractors sample_agent 0 1] start(4,5) by auto
qed

lemma padded_key_locks_everyone_out_witness:
  "serve (Some (''secret'' @ newline)) sample_extractors sample_agent 0 1
     (sample_http_request MGet ''/v1/health'' (Some (''Bearer secret'' @ newline))) sample_server = (Response 401 None, sample_server)"
proof -
  let ?env = "\<lambda>k. if k = ''API_KEY'' then Some (''secret'' @ newline) else None"
  have key: "?env ''API_KEY'' = Some (''secret'' @ newline)" "trim (''secret'' @ newline) \<noteq> []"
      "trim (''secret'' @ newline) \<noteq> ''secret'' @ newline" "get_api_key ?env = Some (''secret'' @ newline)"
    by code_simp+
  show ?thesis
    using padded_key_locks_everyone_out [of ?env, OF key(1-3), of sample_extractors sample_agent 0 1] key(4) by simp
qed

lemma reading_requests_change_nothing_witness:
  "hs_world (snd (serve None sample_extractors sample_agent 0 1
     (sample_http_request MGet ''/v1/sessions/s1/messages'' None) sample_server)) = hs_world sample_server"
  by (rule reading_requests_change_nothing) (simp_all add: sample_http_request_def)

lemma foreign_requests_are_refused_witness:
  "hs_world (snd (http_end_session 5 ''s1'' ''ada'' (sample_server\<lparr>hs_world := sample_world\<rparr>))) = sample_world"
proof -
  let ?s = "sample_server\<lparr>hs_world := sample_world\<rparr>"
  have foreign: "\<not> owned_by (w_db (hs_world ?s)) ''s1'' ''ada''" "db_fault (w_db (hs_world ?s)) = None"
    using sample_foreign by (simp, simp add: sample_world_def sample_db_def sample_eval)
  show ?thesis
    using foreign_requests_are_refused [OF foreign, of "http_end_session 5 ''s1'' ''ada''" sample_agent 5 6] by simp
qed


lemma page_is_the_window_witness:
  "length (page_of (Some (- 1)) None (replicate 300 ''m'')) = 300 \<and> length (page_of (Some 300) None (replicate 300 ''m'')) \<le> 200"
  using page_is_the_window [of "- 1" "replicate 300 ''m''" None] page_is_the_window [of 300 "replicate 300 ''m''" None]
  by (simp add: Let_def page_end_def)

end
