(* ===== verification/Pg_Store.thy ===== *)
theory Pg_Store
  imports Session_Store
begin

text \<open>
  The PostgreSQL session store (\<open>avs-memory-pgvector/src/session_store.rs\<close> and
  \<open>session_store_maintenance.rs\<close>): the statements of each method on the same two tables as
  the SQLite store. An append is a transaction of several statements; this theory has it as
  its statements (\<open>pg_open\<close>, \<open>tx_select\<close>, \<open>tx_insert\<close>, \<open>tx_commit\<close>) and as the whole run
  when no other transaction is open. \<open>Pg_Concurrency\<close> interleaves them. The texts of the
  server's errors are parameters (\<open>pg_texts\<close>). The migration of a legacy table is at the end.
\<close>

section \<open>Sessions\<close>

definition pg_role_to_str :: "message_role \<Rightarrow> string" where
  "pg_role_to_str r = (case r of RoleUser \<Rightarrow> ''user'' | RoleAssistant \<Rightarrow> ''assistant'' | RoleSystem \<Rightarrow> ''system''
     | RoleTool \<Rightarrow> ''tool'')"

definition pg_str_to_role :: "string \<Rightarrow> session_memory_error + message_role" where
  "pg_str_to_role r =
     (if r = ''user'' then Ok RoleUser
      else if r = ''assistant'' then Ok RoleAssistant
      else if r = ''system'' then Ok RoleSystem
      else if r = ''tool'' then Ok RoleTool
      else Err (Database (''corrupt message row: unknown role '' @ [CHR 0x27] @ r @ [CHR 0x27])))"

definition pg_encode_content :: "content_codec \<Rightarrow> content_block list \<Rightarrow> string" where
  "pg_encode_content cd bs = content_to_text cd bs"

definition pg_decode_content :: "content_codec \<Rightarrow> string \<Rightarrow> content_block list" where
  "pg_decode_content cd raw = (case content_from_text cd raw of Some bs \<Rightarrow> bs | None \<Rightarrow> [Text raw])"

record pg_texts =
  pg_unique_text :: string
  pg_key_text :: string
  pg_reference_text :: string
  pg_no_row_text :: string

text \<open>An INSERT into the sessions table; the columns it does not name take their defaults.\<close>

definition pg_insert_session :: "pg_texts \<Rightarrow> session_row \<Rightarrow> db \<Rightarrow> (session_memory_error + unit) \<times> db" where
  "pg_insert_session tx r db =
     (case db_fault db of
        Some e \<Rightarrow> (Err (Database e), db)
      | None \<Rightarrow>
          if \<exists>r' \<in> set (db_sessions db). row_id r' = row_id r then (Err (Database (pg_key_text tx)), db)
          else (Ok (), db\<lparr>db_sessions := db_sessions db @ [r]\<rparr>))"

definition pg_session_row :: "instant \<Rightarrow> uuid \<Rightarrow> string \<Rightarrow> session_row" where
  "pg_session_row now i user_id =
     \<lparr>row_id = i, row_user_id = user_id, row_status = status_to_str Active,
      row_created_at = timestamp now, row_updated_at = timestamp now, row_watermark = 0,
      row_skill_context = None, row_phase_context = None, row_interrupted = None\<rparr>"

definition pg_create :: "pg_texts \<Rightarrow> instant \<Rightarrow> uuid \<Rightarrow> string \<Rightarrow> db \<Rightarrow> (session_memory_error + session) \<times> db" where
  "pg_create tx now i user_id db =
     (case pg_insert_session tx (pg_session_row now i user_id) db of
        (Err e, db') \<Rightarrow> (Err e, db')
      | (Ok _, db') \<Rightarrow> (Ok (new_session now i user_id), db'))"

definition pg_create_with_skill_context ::
  "pg_texts \<Rightarrow> instant \<Rightarrow> uuid \<Rightarrow> string \<Rightarrow> string \<Rightarrow> db \<Rightarrow> (session_memory_error + session) \<times> db" where
  "pg_create_with_skill_context tx now i user_id ctx db =
     (case pg_insert_session tx ((pg_session_row now i user_id)\<lparr>row_skill_context := Some ctx\<rparr>) db of
        (Err e, db') \<Rightarrow> (Err e, db')
      | (Ok _, db') \<Rightarrow> (Ok (new_session now i user_id), db'))"

definition pg_row_to_session :: "session_row \<Rightarrow> session" where
  "pg_row_to_session r =
     \<lparr>ses_id = row_id r, ses_user_id = row_user_id r,
      ses_status = (case status_from_str (row_status r) of Ok st \<Rightarrow> st | Err _ \<Rightarrow> Active),
      ses_created_at = from_timestamp (row_created_at r), ses_updated_at = from_timestamp (row_updated_at r)\<rparr>"

definition pg_get :: "db \<Rightarrow> uuid \<Rightarrow> session_memory_error + session option" where
  "pg_get db i = query db (Ok (map_option pg_row_to_session (find_row db i)))"

text \<open>An UPDATE of one row, where no row affected means not found.\<close>

definition pg_update :: "uuid \<Rightarrow> (session_row \<Rightarrow> session_row) \<Rightarrow> db \<Rightarrow> (session_memory_error + unit) \<times> db" where
  "pg_update i f db =
     (case db_fault db of
        Some e \<Rightarrow> (Err (Database e), db)
      | None \<Rightarrow>
          let affected = filter (\<lambda>r. row_id r = i) (db_sessions db);
              db' = db\<lparr>db_sessions := map (\<lambda>r. if row_id r = i then f r else r) (db_sessions db)\<rparr>
          in (if affected = [] then Err (NotFound i) else Ok (), db'))"

definition pg_update_status :: "instant \<Rightarrow> uuid \<Rightarrow> session_status \<Rightarrow> db \<Rightarrow> (session_memory_error + unit) \<times> db" where
  "pg_update_status now i st =
     pg_update i (\<lambda>r. r\<lparr>row_status := status_to_str st, row_updated_at := timestamp now\<rparr>)"

definition pg_list_by_user :: "db \<Rightarrow> string \<Rightarrow> session_memory_error + session list" where
  "pg_list_by_user db user_id =
     query db (Ok (map pg_row_to_session
       (sort_key (\<lambda>r. - row_created_at r) (filter (\<lambda>r. row_user_id r = user_id) (db_sessions db)))))"

section \<open>An append, statement by statement\<close>

text \<open>A transaction that appends: its session, when it began, the messages it was given and
  those still to insert, the next sequence number once selected, and the rows inserted but not
  committed.\<close>

record pg_tx =
  tx_session :: uuid
  tx_now :: instant
  tx_given :: "message list"
  tx_todo :: "message list"
  tx_next :: "int option"
  tx_rows :: "message_row list"

definition pg_open :: "instant \<Rightarrow> uuid \<Rightarrow> message list \<Rightarrow> db \<Rightarrow> session_memory_error + pg_tx" where
  "pg_open now i ms db =
     (case pg_get db i of
        Err e \<Rightarrow> Err e
      | Ok None \<Rightarrow> Err (NotFound i)
      | Ok (Some _) \<Rightarrow> Ok \<lparr>tx_session = i, tx_now = now, tx_given = ms, tx_todo = ms, tx_next = None, tx_rows = []\<rparr>)"

definition tx_select :: "db \<Rightarrow> pg_tx \<Rightarrow> pg_tx" where
  "tx_select db t = t\<lparr>tx_next := Some (next_sequence db (tx_session t))\<rparr>"

definition pg_message_row :: "content_codec \<Rightarrow> instant \<Rightarrow> uuid \<Rightarrow> int \<Rightarrow> message \<Rightarrow> message_row" where
  "pg_message_row cd now i n m =
     \<lparr>mrow_session = i, mrow_role = pg_role_to_str (msg_role m), mrow_content = pg_encode_content cd (msg_content m),
      mrow_seq = n, mrow_created_at = timestamp now\<rparr>"

definition has_key :: "message_row list \<Rightarrow> uuid \<Rightarrow> int \<Rightarrow> bool" where
  "has_key rows i n \<longleftrightarrow> (\<exists>m \<in> set rows. mrow_session m = i \<and> mrow_seq m = n)"

text \<open>An INSERT into the messages table. Where the table has its UNIQUE constraint, a key that
  is committed or the transaction's own fails, a key another open transaction has inserted
  makes it wait (\<open>held\<close>); then the reference to the session is checked.\<close>

datatype insert_result = Waiting | Refused string | Inserted pg_tx

definition tx_insert ::
  "pg_texts \<Rightarrow> content_codec \<Rightarrow> bool \<Rightarrow> db \<Rightarrow> bool \<Rightarrow> pg_tx \<Rightarrow> int \<Rightarrow> message \<Rightarrow> message list \<Rightarrow> insert_result" where
  "tx_insert tx cd unique db held t n m ms =
     (let i = tx_session t in
      if unique \<and> (has_key (db_messages db) i n \<or> has_key (tx_rows t) i n) then Refused (pg_unique_text tx)
      else if unique \<and> held then Waiting
      else if \<not> has_session db i then Refused (pg_reference_text tx)
      else Inserted (t\<lparr>tx_todo := ms, tx_next := Some (n + 1),
             tx_rows := tx_rows t @ [pg_message_row cd (tx_now t) i n m]\<rparr>))"

definition tx_commit :: "pg_tx \<Rightarrow> db \<Rightarrow> db" where
  "tx_commit t db = db\<lparr>db_messages := db_messages db @ tx_rows t\<rparr>"

text \<open>The inserts and the commit, with no other transaction open.\<close>

fun tx_run_alone :: "pg_texts \<Rightarrow> content_codec \<Rightarrow> db \<Rightarrow> message list \<Rightarrow> int \<Rightarrow> pg_tx \<Rightarrow> (session_memory_error + unit) \<times> db" where
  "tx_run_alone tx cd db [] n t = (Ok (), tx_commit t db)"
| "tx_run_alone tx cd db (m # ms) n t =
     (case tx_insert tx cd True db False t n m ms of
        Inserted t' \<Rightarrow> tx_run_alone tx cd db ms (n + 1) t'
      | Refused e \<Rightarrow> (Err (Database e), db)
      | Waiting \<Rightarrow> (Err (Database (pg_unique_text tx)), db))"

definition pg_append_messages ::
  "pg_texts \<Rightarrow> content_codec \<Rightarrow> instant \<Rightarrow> uuid \<Rightarrow> message list \<Rightarrow> db \<Rightarrow> (session_memory_error + unit) \<times> db" where
  "pg_append_messages tx cd now i ms db =
     (case pg_open now i ms db of
        Err e \<Rightarrow> (Err e, db)
      | Ok t \<Rightarrow> tx_run_alone tx cd db ms (next_sequence db i) (tx_select db t))"

definition pg_append_message ::
  "pg_texts \<Rightarrow> content_codec \<Rightarrow> instant \<Rightarrow> uuid \<Rightarrow> message \<Rightarrow> db \<Rightarrow> (session_memory_error + unit) \<times> db" where
  "pg_append_message tx cd now i m = pg_append_messages tx cd now i [m]"

definition pg_append_turn ::
  "pg_texts \<Rightarrow> content_codec \<Rightarrow> instant \<Rightarrow> uuid \<Rightarrow> message \<Rightarrow> message \<Rightarrow> db \<Rightarrow> (session_memory_error + unit) \<times> db" where
  "pg_append_turn tx cd now i user_message assistant_message =
     pg_append_messages tx cd now i [user_message, assistant_message]"

definition pg_row_to_message :: "content_codec \<Rightarrow> message_row \<Rightarrow> session_memory_error + message" where
  "pg_row_to_message cd m =
     map_ok (\<lambda>r. \<lparr>msg_role = r, msg_content = pg_decode_content cd (mrow_content m)\<rparr>) (pg_str_to_role (mrow_role m))"

definition pg_load_messages :: "content_codec \<Rightarrow> db \<Rightarrow> uuid \<Rightarrow> session_memory_error + message list" where
  "pg_load_messages cd db i = query db (collect_results (map (pg_row_to_message cd) (rows_of db i)))"

section \<open>Watermark and retention\<close>

definition pg_get_watermark :: "pg_texts \<Rightarrow> db \<Rightarrow> uuid \<Rightarrow> session_memory_error + int" where
  "pg_get_watermark tx db i =
     query db (case find_row db i of Some r \<Rightarrow> Ok (row_watermark r) | None \<Rightarrow> Err (Database (pg_no_row_text tx)))"

definition pg_advance_watermark :: "uuid \<Rightarrow> int \<Rightarrow> db \<Rightarrow> (session_memory_error + unit) \<times> db" where
  "pg_advance_watermark i w = pg_update i (\<lambda>r. r\<lparr>row_watermark := max (row_watermark r) w\<rparr>)"

definition pg_load_messages_above_watermark ::
  "pg_texts \<Rightarrow> content_codec \<Rightarrow> db \<Rightarrow> uuid \<Rightarrow> session_memory_error + (int \<times> message) list" where
  "pg_load_messages_above_watermark tx cd db i =
     try_bind (pg_get_watermark tx db i) (\<lambda>wm.
       collect_results (map (\<lambda>m. map_ok (Pair (mrow_seq m)) (pg_row_to_message cd m))
         (filter (\<lambda>m. wm < mrow_seq m) (rows_of db i))))"

definition pg_cleanup_expired_messages ::
  "pg_texts \<Rightarrow> uuid \<Rightarrow> int \<Rightarrow> int \<Rightarrow> db \<Rightarrow> (session_memory_error + nat) \<times> db" where
  "pg_cleanup_expired_messages tx i cutoff_ts watermark db =
     (if watermark = 0 then (Ok 0, db)
      else case pg_get_watermark tx db i of
        Err e \<Rightarrow> (Err e, db)
      | Ok stored_wm \<Rightarrow>
          let effective = min watermark stored_wm;
              gone = (\<lambda>m. mrow_session m = i \<and> mrow_created_at m < cutoff_ts \<and> mrow_seq m \<le> effective)
          in if effective = 0 then (Ok 0, db)
             else (Ok (length (filter gone (db_messages db))),
                   db\<lparr>db_messages := filter (\<lambda>m. \<not> gone m) (db_messages db)\<rparr>))"

text \<open>A DELETE from the sessions table cascades to the messages.\<close>

definition pg_delete_cascade :: "(session_row \<Rightarrow> bool) \<Rightarrow> db \<Rightarrow> db" where
  "pg_delete_cascade P db =
     db\<lparr>db_sessions := filter (\<lambda>r. \<not> P r) (db_sessions db),
        db_messages := filter (\<lambda>m. \<not> (\<exists>r \<in> set (db_sessions db). P r \<and> row_id r = mrow_session m)) (db_messages db)\<rparr>"

definition pg_delete_ended_sessions_before :: "int \<Rightarrow> db \<Rightarrow> (session_memory_error + nat) \<times> db" where
  "pg_delete_ended_sessions_before cutoff_ts db =
     (let P = (\<lambda>r. row_status r \<noteq> ''active'' \<and> row_updated_at r < cutoff_ts) in
      case db_fault db of
        Some e \<Rightarrow> (Err (Database e), db)
      | None \<Rightarrow> (Ok (length (filter P (db_sessions db))), pg_delete_cascade P db))"

definition pg_delete_session :: "uuid \<Rightarrow> db \<Rightarrow> (session_memory_error + unit) \<times> db" where
  "pg_delete_session i db =
     (case db_fault db of
        Some e \<Rightarrow> (Err (Database e), db)
      | None \<Rightarrow> (Ok (), pg_delete_cascade (\<lambda>r. row_id r = i) db))"

definition pg_list_sessions_needing_maintenance :: "instant \<Rightarrow> db \<Rightarrow> session_memory_error + session list" where
  "pg_list_sessions_needing_maintenance now db =
     query db (Ok (map pg_row_to_session (sort_key row_updated_at
       (filter (\<lambda>r. \<exists>m \<in> set (db_messages db). mrow_session m = row_id r
            \<and> (mrow_seq m > row_watermark r \<or> (mrow_seq m \<le> row_watermark r \<and> mrow_created_at m < timestamp now)))
          (db_sessions db)))))"

section \<open>Skill, phase and interrupt columns\<close>

definition pg_column :: "(session_row \<Rightarrow> string option) \<Rightarrow> db \<Rightarrow> uuid \<Rightarrow> session_memory_error + string option" where
  "pg_column f db i =
     query db (case map_option f (find_row db i) of None \<Rightarrow> Err (NotFound i) | Some v \<Rightarrow> Ok v)"

definition pg_set_skill_context :: "uuid \<Rightarrow> string option \<Rightarrow> db \<Rightarrow> (session_memory_error + unit) \<times> db" where
  "pg_set_skill_context i ctx = pg_update i (\<lambda>r. r\<lparr>row_skill_context := ctx\<rparr>)"

definition pg_get_skill_context :: "db \<Rightarrow> uuid \<Rightarrow> session_memory_error + string option" where
  "pg_get_skill_context = pg_column row_skill_context"

definition pg_set_phase_opening_context :: "uuid \<Rightarrow> string option \<Rightarrow> db \<Rightarrow> (session_memory_error + unit) \<times> db" where
  "pg_set_phase_opening_context i ctx = pg_update i (\<lambda>r. r\<lparr>row_phase_context := ctx\<rparr>)"

definition pg_get_phase_opening_context :: "db \<Rightarrow> uuid \<Rightarrow> session_memory_error + string option" where
  "pg_get_phase_opening_context = pg_column row_phase_context"

definition pg_apply_phase_transition :: "uuid \<Rightarrow> string \<Rightarrow> string \<Rightarrow> db \<Rightarrow> (session_memory_error + unit) \<times> db" where
  "pg_apply_phase_transition i skill_ctx_json phase_ctx =
     pg_update i (\<lambda>r. r\<lparr>row_skill_context := Some skill_ctx_json, row_phase_context := Some phase_ctx\<rparr>)"

definition pg_set_interrupted_state :: "uuid \<Rightarrow> string option \<Rightarrow> db \<Rightarrow> (session_memory_error + unit) \<times> db" where
  "pg_set_interrupted_state i state_json = pg_update i (\<lambda>r. r\<lparr>row_interrupted := state_json\<rparr>)"

definition pg_get_interrupted_state :: "db \<Rightarrow> uuid \<Rightarrow> session_memory_error + string option" where
  "pg_get_interrupted_state = pg_column row_interrupted"

section \<open>The same contract as the SQLite store\<close>

lemma pg_codes [simp]:
  "pg_role_to_str = role_to_str" "pg_str_to_role = str_to_role" "pg_encode_content = encode_content"
  "pg_decode_content = decode_content" "pg_row_to_session = row_to_session" "pg_row_to_message = row_to_message"
  "pg_message_row = message_to_row"
  by (auto simp: fun_eq_iff pg_role_to_str_def pg_str_to_role_def str_to_role_def pg_encode_content_def encode_content_def
      pg_decode_content_def decode_content_def pg_row_to_session_def row_to_session_def pg_row_to_message_def
      row_to_message_def pg_message_row_def message_to_row_def split: message_role.split)

lemma pg_update_eq: "pg_update i f db = update_row i f db"
proof -
  have "map (\<lambda>r. if row_id r = i then f r else r) rs = rs" if "filter (\<lambda>r. row_id r = i) rs = []" for rs
    using that by (induction rs) (auto split: if_splits)
  then show ?thesis
    by (auto simp: pg_update_def update_row_def Let_def filter_empty_conv split: option.split)
qed

lemma pg_delete_cascade_eq: "pg_delete_cascade P db = delete_rows P db"
proof -
  have "filter (\<lambda>m. \<not> (\<exists>r \<in> set (db_sessions db). P r \<and> row_id r = mrow_session m)) (db_messages db)
      = filter (\<lambda>m. mrow_session m \<notin> row_id ` set (filter P (db_sessions db))) (db_messages db)"
    by (rule filter_cong) (auto simp: image_iff)
  then show ?thesis by (simp only: pg_delete_cascade_def delete_rows_def Let_def)
qed

lemma pg_append_alone:
  assumes "has_session db (tx_session t)" "tx_session t = i" "tx_now t = now"
    and "\<And>m. m \<in> set (db_messages db @ tx_rows t) \<Longrightarrow> mrow_session m = i \<Longrightarrow> mrow_seq m < n"
  shows "tx_run_alone tx cd db ms n t
    = (Ok (), db\<lparr>db_messages := db_messages db @ tx_rows t @ numbered_rows cd now i n ms\<rparr>)"
  using assms
proof (induction ms arbitrary: n t)
  case (Cons m ms)
  let ?t = "t\<lparr>tx_todo := ms, tx_next := Some (n + 1), tx_rows := tx_rows t @ [message_to_row cd now i n m]\<rparr>"
  have "\<not> has_key (db_messages db) i n" "\<not> has_key (tx_rows t) i n"
    using Cons.prems(4) by (fastforce simp: has_key_def)+
  then have one: "tx_insert tx cd True db False t n m ms = Inserted ?t"
    using Cons.prems(1-3) by (simp add: tx_insert_def Let_def has_key_def)
  have below: "mrow_seq x < n + 1" if "x \<in> set (db_messages db @ tx_rows ?t)" "mrow_session x = i" for x
  proof (cases "x = message_to_row cd now i n m")
    case True
    then show ?thesis by (simp add: message_to_row_def)
  next
    case False
    then show ?thesis using that Cons.prems(4) [of x] by auto
  qed
  have "tx_run_alone tx cd db ms (n + 1) ?t
      = (Ok (), db\<lparr>db_messages := db_messages db @ tx_rows ?t @ numbered_rows cd now i (n + 1) ms\<rparr>)"
    by (rule Cons.IH) (use Cons.prems(1-3) below in simp_all)
  then show ?case using one by simp
qed (simp add: tx_commit_def)

lemma pg_get_eq: "pg_get = get"
  by (simp add: fun_eq_iff pg_get_def get_def)

lemma pg_append_eq: "pg_append_messages tx cd now i ms db = append_messages cd now i ms db"
proof (cases "db_fault db = None \<and> has_session db i")
  case True
  let ?t = "\<lparr>tx_session = i, tx_now = now, tx_given = ms, tx_todo = ms, tx_next = Some (next_sequence db i), tx_rows = []\<rparr>"
  obtain ses where "get db i = Ok (Some ses)" using True has_session_get by blast
  then have "pg_append_messages tx cd now i ms db = tx_run_alone tx cd db ms (next_sequence db i) ?t"
    by (simp add: pg_append_messages_def pg_open_def pg_get_eq tx_select_def)
  also have "\<dots> = (Ok (), db\<lparr>db_messages := db_messages db @ numbered_rows cd now i (next_sequence db i) ms\<rparr>)"
    using pg_append_alone [of db ?t i now "next_sequence db i" tx cd ms] True max_sequence_upper [of _ db i]
    by (force simp: next_sequence_def)
  finally show ?thesis using True by (simp add: append_messages_ok)
next
  case False
  then have "\<nexists>ses. get db i = Ok (Some ses)" using has_session_get by (cases "db_fault db") (auto simp: get_def)
  then show ?thesis
    by (auto simp: pg_append_messages_def append_messages_def pg_open_def pg_get_eq split: sum.split option.split)
qed

text \<open>Results and the errors' texts set aside.\<close>

definition blank_text :: "session_memory_error + 'a \<Rightarrow> session_memory_error + 'a" where
  "blank_text r = map_err (\<lambda>e. case e of Database _ \<Rightarrow> Database [] | NotFound i \<Rightarrow> NotFound i) r"

lemma blank_text_bind: "blank_text a = blank_text b \<Longrightarrow> blank_text (try_bind a f) = blank_text (try_bind b f)"
  by (cases a; cases b) (auto simp: blank_text_def split: session_memory_error.splits)

lemma pg_insert_blank:
  "blank_text (fst (pg_insert_session tx r db)) = blank_text (fst (insert_session_row r db))"
  "snd (pg_insert_session tx r db) = snd (insert_session_row r db)"
  by (auto simp: pg_insert_session_def insert_session_row_def blank_text_def split: option.split)

lemma pg_insert_fresh: "\<not> has_session db (row_id r) \<Longrightarrow> pg_insert_session tx r db = insert_session_row r db"
  by (auto simp: pg_insert_session_def insert_session_row_def has_session_def image_iff split: option.split)

lemma pg_watermark_blank: "blank_text (pg_get_watermark tx db i) = blank_text (get_watermark db i)"
  by (auto simp: pg_get_watermark_def get_watermark_def query_def blank_text_def split: option.split)

lemma pg_rows: "pg_session_row now i u = create_session_row now i u None"
  "(create_session_row now i u None)\<lparr>row_skill_context := Some ctx\<rparr> = create_session_row now i u (Some ctx)"
  by (simp_all add: pg_session_row_def create_session_row_def)

text \<open>The two methods that report a text of the server, by their outcome on success.\<close>

definition made :: "session_memory_error + unit \<Rightarrow> 'a \<Rightarrow> session_memory_error + 'a" where
  "made r x = map_ok (\<lambda>_. x) r"

lemma blank_made: "blank_text r = blank_text r' \<Longrightarrow> blank_text (made r x) = blank_text (made r' x)"
  by (cases r; cases r') (auto simp: made_def blank_text_def split: session_memory_error.splits)

lemma pg_create_made:
  "pg_create tx now i u db = (made (fst (pg_insert_session tx (create_session_row now i u None) db)) (new_session now i u),
     snd (pg_insert_session tx (create_session_row now i u None) db))"
  "pg_create_with_skill_context tx now i u ctx db =
    (made (fst (pg_insert_session tx (create_session_row now i u (Some ctx)) db)) (new_session now i u),
     snd (pg_insert_session tx (create_session_row now i u (Some ctx)) db))"
  "create now i u db = (made (fst (insert_session_row (create_session_row now i u None) db)) (new_session now i u),
     snd (insert_session_row (create_session_row now i u None) db))"
  "create_with_skill_context now i u ctx db =
    (made (fst (insert_session_row (create_session_row now i u (Some ctx)) db)) (new_session now i u),
     snd (insert_session_row (create_session_row now i u (Some ctx)) db))"
  by (auto simp: pg_create_def pg_create_with_skill_context_def create_def create_with_skill_context_def pg_rows made_def
      split: prod.split sum.split)

lemma cleanup_blank:
  "blank_text (fst (pg_cleanup_expired_messages tx i c w db)) = blank_text (fst (cleanup_expired_messages i c w db))"
  "snd (pg_cleanup_expired_messages tx i c w db) = snd (cleanup_expired_messages i c w db)"
  using pg_watermark_blank [of tx db i]
  by (auto simp: pg_cleanup_expired_messages_def cleanup_expired_messages_def expired_row_def [abs_def] Let_def blank_text_def
      split: sum.splits session_memory_error.splits)

lemma pg_create_blank:
  "blank_text (fst (pg_create tx now i u db)) = blank_text (fst (create now i u db))"
  "snd (pg_create tx now i u db) = snd (create now i u db)"
  "blank_text (fst (pg_create_with_skill_context tx now i u ctx db))
     = blank_text (fst (create_with_skill_context now i u ctx db))"
  "snd (pg_create_with_skill_context tx now i u ctx db) = snd (create_with_skill_context now i u ctx db)"
  unfolding pg_create_made fst_conv snd_conv by (rule blank_made pg_insert_blank)+

lemma pg_above_blank:
  "blank_text (pg_load_messages_above_watermark tx cd db i) = blank_text (load_messages_above_watermark cd db i)"
  unfolding pg_load_messages_above_watermark_def load_messages_above_watermark_def pg_codes
  by (rule blank_text_bind) (rule pg_watermark_blank)

lemma pg_updates:
  "pg_update_status = update_status" "pg_advance_watermark = advance_watermark"
  "pg_set_skill_context = set_skill_context" "pg_set_phase_opening_context = set_phase_opening_context"
  "pg_apply_phase_transition = apply_phase_transition" "pg_set_interrupted_state = set_interrupted_state"
  by (simp_all add: fun_eq_iff pg_update_eq pg_update_status_def update_status_def pg_advance_watermark_def
      advance_watermark_def pg_set_skill_context_def set_skill_context_def pg_set_phase_opening_context_def
      set_phase_opening_context_def pg_apply_phase_transition_def apply_phase_transition_def
      pg_set_interrupted_state_def set_interrupted_state_def)

lemma pg_column_eq: "pg_column f = column f"
  by (auto simp: fun_eq_iff pg_column_def column_def query_def split: option.split)

lemma pg_columns:
  "pg_get_skill_context = get_skill_context" "pg_get_phase_opening_context = get_phase_opening_context"
  "pg_get_interrupted_state = get_interrupted_state"
  by (simp_all add: fun_eq_iff pg_column_eq pg_get_skill_context_def get_skill_context_def pg_get_phase_opening_context_def
      get_phase_opening_context_def pg_get_interrupted_state_def get_interrupted_state_def)

lemma pg_reads:
  "pg_list_by_user = list_by_user"
  "pg_list_sessions_needing_maintenance = list_sessions_needing_maintenance"
  by (simp_all add: fun_eq_iff pg_list_by_user_def list_by_user_def pg_list_sessions_needing_maintenance_def
      list_sessions_needing_maintenance_def needs_maintenance_def [abs_def])

lemma pg_delete_ended: "pg_delete_ended_sessions_before = delete_ended_sessions_before"
  by (auto simp: fun_eq_iff pg_delete_ended_sessions_before_def delete_ended_sessions_before_def pg_delete_cascade_eq
      Let_def split: option.split)

lemma pg_equal_ops:
  "pg_append_turn tx = append_turn" "pg_append_message tx = append_message" "pg_load_messages = load_messages"
  "pg_delete_session = delete_session"
  by (auto simp: fun_eq_iff pg_append_turn_def append_turn_def pg_append_message_def append_message_def pg_append_eq
      pg_load_messages_def load_messages_def pg_delete_session_def delete_session_def pg_delete_cascade_eq
      split: option.split)


section \<open>The contract of a session memory, kept by this store too\<close>

lemma pg_contract:
  assumes "store_inv db \<and> db_fault db = None" "pg_get db i = Ok None"
  shows "pg_create tx now i u db = create now i u db"
proof -
  have "\<not> has_session db i"
    using assms has_session_get [of db i] by (auto simp: pg_get_eq)
  then have "pg_insert_session tx (create_session_row now i u None) db = insert_session_row (create_session_row now i u None) db"
    by (intro pg_insert_fresh) (simp add: create_session_row_def)
  then show ?thesis by (simp add: pg_create_made)
qed

interpretation postgres: session_memory "pg_create tx" pg_get "pg_append_turn tx cd" "pg_load_messages cd" pg_delete_session
  "\<lambda>db. store_inv db \<and> db_fault db = None" "storable cd" for tx :: pg_texts and cd :: content_codec
  by unfold_locales
     (use pg_contract create_contract append_turn_contract delete_session_contract in
       \<open>simp_all add: pg_get_eq pg_equal_ops\<close>)

end
