(* ===== verification/Pg_Concurrency.thy ===== *)
theory Pg_Concurrency
  imports Pg_Store
begin

text \<open>
  Concurrent appends in the PostgreSQL store, at the statements' granularity and the isolation
  level of the code, READ COMMITTED: a statement sees what is committed before it, an INSERT
  whose key another open transaction holds waits for it. A client runs the check of the
  session, the SELECT of the next sequence number, one INSERT per message and the COMMIT; the
  first failing statement ends the transaction and its rows. Creations, updates and deletions
  of sessions are statements of their own; a deletion waits for the transactions that hold
  rows of the session. Clean-up is left out: it may lower the next sequence number (see
  \<open>turn_after_prune_is_never_consolidated\<close>).

  \<open>conc\<close> is the committed database and the open transactions by client, with, for the
  theorems, the appends in the order they committed and the session ids used so far, as a
  fresh UUID is never one of those.
\<close>

section \<open>The steps\<close>

record conc =
  cc_db :: db
  cc_open :: "(nat \<times> pg_tx) list"
  cc_log :: "(uuid \<times> message list) list"
  cc_used :: "uuid set"

definition conc_start :: conc where
  "conc_start = \<lparr>cc_db = empty_db, cc_open = [], cc_log = [], cc_used = {}\<rparr>"

definition cc_txs :: "conc \<Rightarrow> nat \<Rightarrow> pg_tx option" where
  "cc_txs s c = map_of (cc_open s) c"

definition set_tx :: "nat \<Rightarrow> pg_tx option \<Rightarrow> conc \<Rightarrow> conc" where
  "set_tx c t s = (let others = filter (\<lambda>(d, _). d \<noteq> c) (cc_open s)
     in s\<lparr>cc_open := (case t of Some x \<Rightarrow> (c, x) # others | None \<Rightarrow> others)\<rparr>)"

text \<open>Another client's transaction holds the key; a transaction holds rows of the session.\<close>

definition held_elsewhere :: "conc \<Rightarrow> nat \<Rightarrow> uuid \<Rightarrow> int \<Rightarrow> bool" where
  "held_elsewhere s c i n \<longleftrightarrow>
     (\<exists>d \<in> fst ` set (cc_open s). d \<noteq> c \<and> (case cc_txs s d of Some t \<Rightarrow> has_key (tx_rows t) i n | None \<Rightarrow> False))"

definition holds_rows :: "conc \<Rightarrow> uuid \<Rightarrow> bool" where
  "holds_rows s i \<longleftrightarrow> (\<exists>c \<in> fst ` set (cc_open s). case cc_txs s c of
     Some t \<Rightarrow> tx_session t = i \<and> tx_rows t \<noteq> [] | None \<Rightarrow> False)"

definition try_insert :: "pg_texts \<Rightarrow> content_codec \<Rightarrow> bool \<Rightarrow> conc \<Rightarrow> nat \<Rightarrow> pg_tx \<Rightarrow> int \<Rightarrow> message \<Rightarrow> message list \<Rightarrow> insert_result" where
  "try_insert tx cd unique s c t n m ms =
     tx_insert tx cd unique (cc_db s) (held_elsewhere s c (tx_session t) n) t n m ms"

inductive pg_step :: "pg_texts \<Rightarrow> content_codec \<Rightarrow> bool \<Rightarrow> conc \<Rightarrow> conc \<Rightarrow> bool" for tx cd unique where
  do_open: "cc_txs s c = None \<Longrightarrow> ms = [m] \<or> ms = [um, am] \<Longrightarrow> pg_open now i ms (cc_db s) = Ok t \<Longrightarrow>
    pg_step tx cd unique s (set_tx c (Some t) s)"
| do_select: "cc_txs s c = Some t \<Longrightarrow> tx_next t = None \<Longrightarrow>
    pg_step tx cd unique s (set_tx c (Some (tx_select (cc_db s) t)) s)"
| do_insert: "cc_txs s c = Some t \<Longrightarrow> tx_next t = Some n \<Longrightarrow> tx_todo t = m # ms \<Longrightarrow>
    try_insert tx cd unique s c t n m ms = Inserted t' \<Longrightarrow> pg_step tx cd unique s (set_tx c (Some t') s)"
| do_refuse: "cc_txs s c = Some t \<Longrightarrow> tx_next t = Some n \<Longrightarrow> tx_todo t = m # ms \<Longrightarrow>
    try_insert tx cd unique s c t n m ms = Refused e \<Longrightarrow> pg_step tx cd unique s (set_tx c None s)"
| do_commit: "cc_txs s c = Some t \<Longrightarrow> tx_next t \<noteq> None \<Longrightarrow> tx_todo t = [] \<Longrightarrow>
    pg_step tx cd unique s ((set_tx c None s)\<lparr>cc_db := tx_commit t (cc_db s),
      cc_log := cc_log s @ [(tx_session t, tx_given t)]\<rparr>)"
| do_abort: "cc_txs s c = Some t \<Longrightarrow> pg_step tx cd unique s (set_tx c None s)"
| do_create: "i \<notin> cc_used s \<Longrightarrow>
    pg_step tx cd unique s (s\<lparr>cc_db := snd (pg_create tx now i u (cc_db s)), cc_used := insert i (cc_used s)\<rparr>)"
| do_update: "keeps_row f \<Longrightarrow> pg_step tx cd unique s (s\<lparr>cc_db := snd (pg_update i f (cc_db s))\<rparr>)"
| do_delete: "db' = pg_delete_cascade P (cc_db s) \<Longrightarrow>
    (\<forall>r. r \<in> set (db_sessions (cc_db s)) \<longrightarrow> P r \<longrightarrow> \<not> holds_rows s (row_id r)) \<Longrightarrow>
    pg_step tx cd unique s (s\<lparr>cc_db := db', cc_log := filter (\<lambda>(i, _). has_session db' i) (cc_log s)\<rparr>)"

inductive reachable_conc :: "pg_texts \<Rightarrow> content_codec \<Rightarrow> bool \<Rightarrow> conc \<Rightarrow> bool" for tx cd unique where
  conc_starts: "reachable_conc tx cd unique conc_start"
| conc_steps: "reachable_conc tx cd unique s \<Longrightarrow> pg_step tx cd unique s s' \<Longrightarrow> reachable_conc tx cd unique s'"

inductive_cases pg_stepE: "pg_step tx cd unique s s'"

text \<open>Looking a transaction up.\<close>

lemma cc_txs_frame [simp]:
  "cc_txs (s\<lparr>cc_db := db\<rparr>) = cc_txs s" "cc_txs (s\<lparr>cc_log := l\<rparr>) = cc_txs s" "cc_txs (s\<lparr>cc_used := us\<rparr>) = cc_txs s"
  "cc_txs conc_start = (\<lambda>_. None)"
  by (simp_all add: fun_eq_iff cc_txs_def conc_start_def)

lemma open_client: "cc_txs s c = Some t \<Longrightarrow> c \<in> fst ` set (cc_open s)"
  by (force simp: cc_txs_def dest: map_of_SomeD)

lemma held_elsewhere_iff:
  "held_elsewhere s c i n \<longleftrightarrow> (\<exists>d t. d \<noteq> c \<and> cc_txs s d = Some t \<and> has_key (tx_rows t) i n)"
  unfolding held_elsewhere_def using open_client by (fastforce split: option.splits)

lemma holds_rows_iff: "holds_rows s i \<longleftrightarrow> (\<exists>c t. cc_txs s c = Some t \<and> tx_session t = i \<and> tx_rows t \<noteq> [])"
  unfolding holds_rows_def using open_client by (fastforce split: option.splits)

section \<open>The invariant\<close>

definition own :: "db \<Rightarrow> uuid \<Rightarrow> message_row list" where
  "own db i = filter (\<lambda>m. mrow_session m = i) (db_messages db)"

definition row_text :: "message_row \<Rightarrow> string \<times> string" where
  "row_text r = (mrow_role r, mrow_content r)"

definition stored_text :: "content_codec \<Rightarrow> message \<Rightarrow> string \<times> string" where
  "stored_text cd m = (role_to_str (msg_role m), encode_content cd (msg_content m))"

definition committed :: "conc \<Rightarrow> uuid \<Rightarrow> message list" where
  "committed s i = concat (map snd (filter (\<lambda>(j, _). j = i) (cc_log s)))"

text \<open>Committed rows of a session are numbered from 1 in the order they were committed.\<close>

definition contiguous :: "db \<Rightarrow> bool" where
  "contiguous db \<longleftrightarrow> distinct (map row_id (db_sessions db)) \<and> db_fault db = None
    \<and> (\<forall>m \<in> set (db_messages db). has_session db (mrow_session m))
    \<and> (\<forall>i. map mrow_seq (own db i) = map int [1..<Suc (length (own db i))])"

text \<open>How far a transaction is: what it has inserted, and the number it started from.\<close>

definition tx_at :: "content_codec \<Rightarrow> db \<Rightarrow> pg_tx \<Rightarrow> message list \<Rightarrow> nat \<Rightarrow> bool" where
  "tx_at cd db t put start \<longleftrightarrow> tx_given t = put @ tx_todo t \<and> tx_given t \<noteq> []
    \<and> (case tx_next t of
         None \<Rightarrow> put = [] \<and> tx_rows t = []
       | Some n \<Rightarrow> n = int (start + length put)
           \<and> tx_rows t = numbered_rows cd (tx_now t) (tx_session t) (int start) put
           \<and> (has_session db (tx_session t) \<longrightarrow> 1 \<le> start \<and> start \<le> Suc (length (own db (tx_session t)))))
    \<and> (put \<noteq> [] \<longrightarrow> has_session db (tx_session t) \<and> start = Suc (length (own db (tx_session t))))"

definition conc_inv :: "content_codec \<Rightarrow> conc \<Rightarrow> bool" where
  "conc_inv cd s \<longleftrightarrow> contiguous (cc_db s)
    \<and> (\<forall>i. has_session (cc_db s) i \<longrightarrow> i \<in> cc_used s)
    \<and> (\<forall>c t. cc_txs s c = Some t \<longrightarrow> tx_session t \<in> cc_used s \<and> (\<exists>put start. tx_at cd (cc_db s) t put start))
    \<and> (\<forall>c d t u. cc_txs s c = Some t \<longrightarrow> cc_txs s d = Some u \<longrightarrow> c \<noteq> d \<longrightarrow> tx_session t = tx_session u \<longrightarrow>
         tx_rows t = [] \<or> tx_rows u = [])
    \<and> (\<forall>i ms. (i, ms) \<in> set (cc_log s) \<longrightarrow> has_session (cc_db s) i)
    \<and> (\<forall>i. map row_text (own (cc_db s) i) = map (stored_text cd) (committed s i))"

lemma contiguous_next:
  assumes "contiguous db"
  shows "next_sequence db i = int (Suc (length (own db i)))"
    "has_key (db_messages db) i n \<longleftrightarrow> 1 \<le> n \<and> n \<le> int (length (own db i))"
proof -
  have seqs: "map mrow_seq (own db i) = map int [1..<Suc (length (own db i))]"
    using assms by (simp add: contiguous_def)
  show key: "has_key (db_messages db) i n \<longleftrightarrow> 1 \<le> n \<and> n \<le> int (length (own db i))" for n
  proof -
    have "has_key (db_messages db) i n \<longleftrightarrow> n \<in> set (map mrow_seq (own db i))"
      by (auto simp: has_key_def own_def)
    also have "\<dots> \<longleftrightarrow> 1 \<le> n \<and> n \<le> int (length (own db i))"
      unfolding seqs by (auto simp: image_int_atLeastLessThan simp del: upt_Suc)
    finally show ?thesis .
  qed
  show "next_sequence db i = int (Suc (length (own db i)))"
  proof (cases "own db i")
    case Nil
    then show ?thesis by (simp add: next_sequence_def max_sequence_def own_def)
  next
    case (Cons r rs)
    let ?s = "map mrow_seq (filter (\<lambda>m. mrow_session m = i) (db_messages db))"
    obtain a as where s: "?s = a # as" using Cons by (simp add: own_def)
    have mem: "max_sequence db i \<in> set ?s"
      unfolding max_sequence_def s using max_fold_in [of as a] by simp
    have "int (length (own db i)) \<in> set ?s"
      using key [of "int (length (own db i))"] Cons by (force simp: has_key_def)
    then have "int (length (own db i)) \<le> max_sequence db i"
      unfolding max_sequence_def s using max_fold_upper [of _ a as] by simp
    moreover have "max_sequence db i \<le> int (length (own db i))"
      using mem key [of "max_sequence db i"] by (auto simp: has_key_def)
    ultimately show ?thesis by (simp add: next_sequence_def)
  qed
qed

section \<open>Every step keeps the invariant\<close>

lemma set_tx_simps [simp]:
  "cc_db (set_tx c t s) = cc_db s" "cc_log (set_tx c t s) = cc_log s" "cc_used (set_tx c t s) = cc_used s"
  "cc_txs (set_tx c t s) d = (if d = c then t else cc_txs s d)" "committed (set_tx c t s) = committed s"
proof -
  have "map_of (filter (\<lambda>(d, _). d \<noteq> c) xs) d = (if d = c then None else map_of xs d)" for xs :: "(nat \<times> pg_tx) list"
    by (induction xs) auto
  then show "cc_txs (set_tx c t s) d = (if d = c then t else cc_txs s d)"
    by (auto simp: set_tx_def Let_def cc_txs_def split: option.split)
qed (simp_all add: set_tx_def Let_def committed_def fun_eq_iff split: option.split)

lemma numbered_rows_snoc:
  "numbered_rows cd now i n (ms @ [m]) = numbered_rows cd now i n ms @ [message_to_row cd now i (n + int (length ms)) m]"
  by (induction ms arbitrary: n) (simp_all add: algebra_simps)

lemma numbered_rows_length [simp]: "length (numbered_rows cd now i n ms) = length ms"
  by (induction ms arbitrary: n) simp_all

lemma numbered_rows_Nil_iff: "numbered_rows cd now i n ms = [] \<longleftrightarrow> ms = []"
  by (cases ms) simp_all

lemma tx_at_rows:
  assumes "tx_at cd db t put start"
  shows "tx_rows t = [] \<longleftrightarrow> put = []"
  using assms by (auto simp: tx_at_def numbered_rows_Nil_iff split: option.splits)

lemma numbered_rows_first: "ms \<noteq> [] \<Longrightarrow> has_key (numbered_rows cd now i n ms) i n"
  by (cases ms) (auto simp: has_key_def message_to_row_def)

lemma tx_at_db:
  assumes "tx_at cd db t put start"
    and "has_session db' (tx_session t) \<Longrightarrow>
      has_session db (tx_session t) \<and> length (own db (tx_session t)) \<le> length (own db' (tx_session t))"
    and "tx_rows t \<noteq> [] \<Longrightarrow> has_session db' (tx_session t) \<and> length (own db' (tx_session t)) = length (own db (tx_session t))"
  shows "tx_at cd db' t put start"
  using assms(1) assms(2,3) unfolding tx_at_rows [OF assms(1)]
  by (auto simp: tx_at_def split: option.splits)

lemma conc_inv_txD:
  assumes "conc_inv cd s" "cc_txs s c = Some t"
  obtains put start where "tx_at cd (cc_db s) t put start" "tx_session t \<in> cc_used s"
  using assms unfolding conc_inv_def by blast

lemma conc_inv_drop:
  assumes "conc_inv cd s"
  shows "conc_inv cd (set_tx c None s)"
  using assms unfolding conc_inv_def set_tx_simps by (auto split: if_splits)

lemma conc_inv_put:
  assumes "conc_inv cd s" "tx_session t \<in> cc_used s" "tx_at cd (cc_db s) t put start"
    and "\<And>d u. d \<noteq> c \<Longrightarrow> cc_txs s d = Some u \<Longrightarrow> tx_session u = tx_session t \<Longrightarrow> tx_rows t = [] \<or> tx_rows u = []"
  shows "conc_inv cd (set_tx c (Some t) s)"
proof -
  have "tx_rows a = [] \<or> tx_rows b = []"
    if "cc_txs (set_tx c (Some t) s) d = Some a" "cc_txs (set_tx c (Some t) s) e = Some b" "d \<noteq> e"
      "tx_session a = tx_session b" for a b d e
    using that assms(1) assms(4) [of d a] assms(4) [of e b] unfolding conc_inv_def by (auto split: if_splits)
  moreover have "tx_session a \<in> cc_used s \<and> (\<exists>put start. tx_at cd (cc_db s) a put start)"
    if "cc_txs (set_tx c (Some t) s) d = Some a" for d a
    using that assms(1-3) unfolding conc_inv_def by (auto split: if_splits)
  ultimately show ?thesis using assms(1) unfolding conc_inv_def by simp
qed

text \<open>An insert goes through only from the next free number, with no other rows of the session open.\<close>

lemma insert_goes_through:
  assumes inv: "conc_inv cd s" and t: "cc_txs s c = Some t" "tx_next t = Some n" "tx_todo t = m # ms"
    and ins: "try_insert tx cd True s c t n m ms = Inserted t'"
  shows "conc_inv cd (set_tx c (Some t') s)"
proof -
  let ?i = "tx_session t"
  let ?L = "length (own (cc_db s) ?i)"
  have cont: "contiguous (cc_db s)" using inv by (simp add: conc_inv_def)
  obtain put start where at: "tx_at cd (cc_db s) t put start" and used: "?i \<in> cc_used s"
    by (rule conc_inv_txD [OF inv t(1)])
  have n: "n = int (start + length put)" using at t(2) by (simp add: tx_at_def)
  have free: "\<not> has_key (db_messages (cc_db s)) ?i n" "\<not> held_elsewhere s c ?i n" "has_session (cc_db s) ?i"
    and t': "t' = t\<lparr>tx_todo := ms, tx_next := Some (n + 1), tx_rows := tx_rows t @ [message_to_row cd (tx_now t) ?i n m]\<rparr>"
    using ins by (auto simp: try_insert_def tx_insert_def Let_def split: if_splits)
  have start: "start = Suc ?L"
  proof (cases "put = []")
    case True
    then have "1 \<le> start" "start \<le> Suc ?L" using at t(2) free(3) by (auto simp: tx_at_def)
    then show ?thesis using free(1) n True by (simp add: contiguous_next(2) [OF cont])
  qed (use at in \<open>simp add: tx_at_def\<close>)
  have "tx_at cd (cc_db s) t' (put @ [m]) start"
    using at t(2,3) n free(3) start
    by (auto simp: tx_at_def t' numbered_rows_snoc algebra_simps)
  moreover have "tx_rows u = []" if u: "d \<noteq> c" "cc_txs s d = Some u" "tx_session u = ?i" for d u
  proof (rule ccontr)
    assume rows: "tx_rows u \<noteq> []"
    obtain put' start' where at': "tx_at cd (cc_db s) u put' start'" by (rule conc_inv_txD [OF inv u(2)])
    have "put' \<noteq> []" "start' = Suc ?L" "tx_rows u = numbered_rows cd (tx_now u) ?i (int start') put'"
      using at' rows tx_at_rows [OF at'] u(3) by (auto simp: tx_at_def split: option.splits)
    then have key: "has_key (tx_rows u) ?i (int (Suc ?L))" using numbered_rows_first by metis
    have "tx_rows t = []" using inv t(1) u rows unfolding conc_inv_def by metis
    then have "put = []" using tx_at_rows [OF at] by simp
    then have "n = int (Suc ?L)" using n start by simp
    then show False using free(2) key u(1,2) by (auto simp: held_elsewhere_iff)
  qed
  ultimately show ?thesis using used by (intro conc_inv_put [OF inv]) (auto simp: t')
qed

lemma own_commit: "own (tx_commit t db) i = own db i @ filter (\<lambda>m. mrow_session m = i) (tx_rows t)"
  by (simp add: own_def tx_commit_def)

lemma numbered_rows_text: "map row_text (numbered_rows cd now i n ms) = map (stored_text cd) ms"
  by (induction ms arbitrary: n) (auto simp: row_text_def stored_text_def message_to_row_def)

lemma numbered_rows_seqs: "map mrow_seq (numbered_rows cd now i (int k) ms) = map int [k..<k + length ms]"
proof (induction ms arbitrary: k)
  case (Cons m ms)
  have "[k..<k + length (m # ms)] = k # [Suc k..<Suc k + length ms]" by (subst upt_conv_Cons) simp_all
  then show ?case using Cons [of "Suc k"] by (simp add: message_to_row_def add.commute del: upt_Suc)
qed simp

lemma numbered_rows_own: "filter (\<lambda>m. mrow_session m = j) (numbered_rows cd now i n ms) = (if i = j then numbered_rows cd now i n ms else [])"
  by (induction ms arbitrary: n) (auto simp: message_to_row_def)

lemma commit_goes_through:
  assumes inv: "conc_inv cd s" and t: "cc_txs s c = Some t" "tx_next t \<noteq> None" "tx_todo t = []"
  shows "conc_inv cd ((set_tx c None s)\<lparr>cc_db := tx_commit t (cc_db s), cc_log := cc_log s @ [(tx_session t, tx_given t)]\<rparr>)"
proof -
  let ?i = "tx_session t" and ?db = "tx_commit t (cc_db s)"
  let ?s = "(set_tx c None s)\<lparr>cc_db := ?db, cc_log := cc_log s @ [(?i, tx_given t)]\<rparr>"
  obtain put start where at: "tx_at cd (cc_db s) t put start" by (rule conc_inv_txD [OF inv t(1)])
  have all: "tx_given t = put" "put \<noteq> []" "has_session (cc_db s) ?i" "start = Suc (length (own (cc_db s) ?i))"
    and rows: "tx_rows t = numbered_rows cd (tx_now t) ?i (int start) put"
    using at t(2,3) by (auto simp: tx_at_def)
  have has: "has_session ?db j = has_session (cc_db s) j" for j by (simp add: has_session_def tx_commit_def)
  have own: "own ?db j = own (cc_db s) j @ (if j = ?i then tx_rows t else [])" for j
    by (simp add: own_commit rows numbered_rows_own)
  have seqs: "map mrow_seq (tx_rows t) = map int [Suc (length (own (cc_db s) ?i))..<Suc (length (own (cc_db s) ?i)) + length put]"
      "length (tx_rows t) = length put"
    unfolding rows all(4) [symmetric] by (rule numbered_rows_seqs, simp)
  have "map mrow_seq (own ?db j) = map int [1..<Suc (length (own ?db j))]" for j
  proof -
    have old: "map mrow_seq (own (cc_db s) j) = map int [1..<Suc (length (own (cc_db s) j))]"
      using inv by (simp add: conc_inv_def contiguous_def)
    then show ?thesis
      using upt_add_eq_append [of 1 "Suc (length (own (cc_db s) j))" "length put"]
      by (auto simp: own seqs simp del: upt_Suc)
  qed
  moreover have "\<forall>m \<in> set (db_messages ?db). has_session (cc_db s) (mrow_session m)"
    using inv all(3) by (auto simp: conc_inv_def contiguous_def tx_commit_def rows dest: numbered_rows_mem)
  ultimately have "contiguous ?db"
    using inv by (simp add: conc_inv_def contiguous_def has) (simp add: tx_commit_def)
  moreover have "tx_session u \<in> cc_used s \<and> (\<exists>put start. tx_at cd ?db u put start)"
    if u: "cc_txs ?s d = Some u" for d u
  proof -
    have d: "d \<noteq> c" "cc_txs s d = Some u" using u by (auto split: if_splits)
    obtain put' start' where at': "tx_at cd (cc_db s) u put' start'" "tx_session u \<in> cc_used s"
      by (rule conc_inv_txD [OF inv d(2)])
    have "tx_session u = ?i \<Longrightarrow> tx_rows u = []"
      using inv t(1) d all(2) tx_at_rows [OF at] unfolding conc_inv_def by metis
    then have "tx_at cd ?db u put' start'"
      by (intro tx_at_db [OF at'(1)]) (auto simp: has own, use at'(1) in \<open>auto simp: tx_at_def tx_at_rows [OF at'(1)]\<close>)
    then show ?thesis using at'(2) by blast
  qed
  moreover have "map row_text (own ?db j) = map (stored_text cd) (committed ?s j)" for j
    using inv by (auto simp: conc_inv_def own committed_def rows numbered_rows_text all(1))
  ultimately show ?thesis
    using inv all(3) unfolding conc_inv_def by (auto simp: has split: if_splits)
qed

text \<open>Statements on the sessions table: the messages of the sessions that stay are as they were.\<close>

lemma conc_inv_db:
  assumes inv: "conc_inv cd s" and "contiguous db'" "cc_used s \<subseteq> used"
    and has: "\<And>i. has_session db' i \<Longrightarrow> i \<in> used"
    and kept: "\<And>i. has_session db' i \<Longrightarrow> i \<in> cc_used s \<Longrightarrow> has_session (cc_db s) i \<and> own db' i = own (cc_db s) i"
    and gone: "\<And>i. \<not> has_session db' i \<Longrightarrow> own db' i = []"
    and new: "\<And>i. i \<notin> cc_used s \<Longrightarrow> own db' i = []"
    and held: "\<And>i. holds_rows s i \<Longrightarrow> has_session db' i"
  shows "conc_inv cd (s\<lparr>cc_db := db', cc_used := used, cc_log := filter (\<lambda>(i, _). has_session db' i) (cc_log s)\<rparr>)"
proof -
  let ?s = "s\<lparr>cc_db := db', cc_used := used, cc_log := filter (\<lambda>(i, _). has_session db' i) (cc_log s)\<rparr>"
  have "tx_session t \<in> used \<and> (\<exists>put start. tx_at cd db' t put start)" if t: "cc_txs s c = Some t" for c t
  proof -
    obtain put start where at: "tx_at cd (cc_db s) t put start" and used: "tx_session t \<in> cc_used s"
      by (rule conc_inv_txD [OF inv t])
    have "has_session db' (tx_session t)" if "tx_rows t \<noteq> []"
      using that t by (intro held) (unfold holds_rows_iff, blast)
    then have "tx_at cd db' t put start"
      by (intro tx_at_db [OF at]) (use kept [OF _ used] in auto)
    then show ?thesis using used assms(3) by blast
  qed
  moreover have "committed ?s i = (if has_session db' i then committed s i else [])" for i
    unfolding committed_def by (auto simp: filter_filter split_def intro!: arg_cong [where f = concat] arg_cong [where f = "map snd"]
        filter_cong filter_False)
  moreover have "own db' i = (if has_session db' i then own (cc_db s) i else [])" for i
  proof (cases "i \<in> cc_used s")
    case False
    then have "\<not> has_session (cc_db s) i" using inv by (auto simp: conc_inv_def)
    then have "own (cc_db s) i = []"
      using inv by (auto simp: conc_inv_def contiguous_def own_def filter_empty_conv)
    then show ?thesis using new [OF False] by simp
  qed (use kept gone in auto)
  ultimately show ?thesis
    using inv assms(2) has unfolding conc_inv_def by auto
qed


lemma create_goes_through:
  assumes inv: "conc_inv cd s" and "i \<notin> cc_used s"
  shows "conc_inv cd (s\<lparr>cc_db := snd (pg_create tx now i u (cc_db s)), cc_used := insert i (cc_used s)\<rparr>)"
proof -
  have fresh: "\<not> has_session (cc_db s) i" and cont: "contiguous (cc_db s)"
    using inv assms(2) by (auto simp: conc_inv_def)
  define db' where "db' = snd (pg_create tx now i u (cc_db s))"
  have db': "db' = (cc_db s)\<lparr>db_sessions := db_sessions (cc_db s) @ [create_session_row now i u None]\<rparr>"
    using fresh cont
    by (auto simp: db'_def pg_create_made pg_insert_session_def contiguous_def has_session_def create_session_row_def image_iff
        split: option.split)
  have has: "has_session db' j \<longleftrightarrow> j = i \<or> has_session (cc_db s) j" for j
    by (auto simp: db' has_session_def create_session_row_def)
  have own: "own db' j = own (cc_db s) j" for j by (simp add: db' own_def)
  have none: "own (cc_db s) j = []" if "\<not> has_session (cc_db s) j" for j
    using cont that by (auto simp: contiguous_def own_def filter_empty_conv)
  have log: "filter (\<lambda>(j, _). has_session db' j) (cc_log s) = cc_log s"
    using inv by (auto simp: conc_inv_def has filter_id_conv)
  have held: "has_session db' j" if "holds_rows s j" for j
  proof -
    obtain c t where t: "cc_txs s c = Some t" "tx_session t = j" "tx_rows t \<noteq> []" using \<open>holds_rows s j\<close> by (auto simp: holds_rows_iff)
    obtain put start where at: "tx_at cd (cc_db s) t put start" by (rule conc_inv_txD [OF inv t(1)])
    then have "put \<noteq> []" using t(3) tx_at_rows by blast
    then show ?thesis using at t(2) by (simp add: tx_at_def has)
  qed
  have "conc_inv cd (s\<lparr>cc_db := db', cc_used := insert i (cc_used s), cc_log := filter (\<lambda>(i, _). has_session db' i) (cc_log s)\<rparr>)"
  proof (rule conc_inv_db [OF inv])
    show "contiguous db'"
      using cont fresh by (auto simp: contiguous_def has own) (auto simp: db' has_session_def create_session_row_def)
    show "has_session db' j \<Longrightarrow> j \<in> insert i (cc_used s)" for j using inv by (auto simp: has conc_inv_def)
    show "has_session db' j \<Longrightarrow> j \<in> cc_used s \<Longrightarrow> has_session (cc_db s) j \<and> own db' j = own (cc_db s) j" for j
      using assms(2) by (auto simp: has own)
    show "\<not> has_session db' j \<Longrightarrow> own db' j = []" for j using none by (simp add: has own)
    show "j \<notin> cc_used s \<Longrightarrow> own db' j = []" for j using inv none by (auto simp: own conc_inv_def)
  qed (use held in auto)
  then show ?thesis by (simp add: db'_def [symmetric] log)
qed

lemma update_goes_through:
  assumes inv: "conc_inv cd s" and f: "keeps_row f"
  shows "conc_inv cd (s\<lparr>cc_db := snd (pg_update i f (cc_db s))\<rparr>)"
proof -
  let ?db = "snd (pg_update i f (cc_db s))"
  have msgs: "db_messages ?db = db_messages (cc_db s)" and fault: "db_fault ?db = db_fault (cc_db s)"
    by (auto simp: pg_update_eq update_row_def split: option.split)
  have ids: "map row_id (db_sessions ?db) = map row_id (db_sessions (cc_db s))"
    using map_row_id_update [OF f] by (auto simp: pg_update_eq update_row_def split: option.split simp del: map_map)
  have has: "has_session ?db j = has_session (cc_db s) j" for j
    using arg_cong [OF ids, of set] by (simp add: has_session_def)
  have own: "own ?db j = own (cc_db s) j" for j by (simp add: own_def msgs)
  have at: "tx_at cd ?db t put start = tx_at cd (cc_db s) t put start" for t put start
    by (auto simp: tx_at_def has own split: option.split)
  show ?thesis
    using inv by (simp add: conc_inv_def contiguous_def has own at fault msgs ids committed_def)
qed

lemma delete_goes_through:
  assumes inv: "conc_inv cd s" and db': "db' = pg_delete_cascade P (cc_db s)"
    and free: "\<And>r. r \<in> set (db_sessions (cc_db s)) \<Longrightarrow> P r \<Longrightarrow> \<not> holds_rows s (row_id r)"
  shows "conc_inv cd (s\<lparr>cc_db := db', cc_log := filter (\<lambda>(i, _). has_session db' i) (cc_log s)\<rparr>)"
proof -
  have cont: "contiguous (cc_db s)" using inv by (simp add: conc_inv_def)
  then have uniq: "r = r'" if "r \<in> set (db_sessions (cc_db s))" "r' \<in> set (db_sessions (cc_db s))" "row_id r = row_id r'" for r r'
    using that by (simp add: contiguous_def distinct_map inj_on_def)
  have has: "has_session db' i \<longleftrightarrow> (\<exists>r \<in> set (db_sessions (cc_db s)). row_id r = i \<and> \<not> P r)" for i
    by (auto simp: db' pg_delete_cascade_def has_session_def)
  have own: "own db' i = (if has_session db' i then own (cc_db s) i else [])" for i
  proof (cases "has_session db' i")
    case True
    then have "\<not> (\<exists>r \<in> set (db_sessions (cc_db s)). P r \<and> row_id r = i)" using uniq by (auto simp: has)
    then show ?thesis
      using True by (auto simp: own_def db' pg_delete_cascade_def filter_filter intro!: filter_cong)
  next
    case False
    have "m \<notin> set (db_messages db')" if "mrow_session m = i" for m
      using cont False that by (fastforce simp: contiguous_def has db' pg_delete_cascade_def has_session_def)
    then show ?thesis using False by (auto simp: own_def filter_empty_conv)
  qed
  have sub: "has_session db' i \<Longrightarrow> has_session (cc_db s) i" for i unfolding has by (auto simp: has_session_def)
  have dist: "distinct (map row_id (db_sessions db'))" "db_fault db' = None"
    using cont by (auto simp: contiguous_def db' pg_delete_cascade_def distinct_map inj_on_def)
  have "has_session db' (mrow_session m)" if "m \<in> set (db_messages db')" for m
  proof (rule ccontr)
    assume "\<not> has_session db' (mrow_session m)"
    then have "own db' (mrow_session m) = []" by (simp add: own)
    then show False using that by (auto simp: own_def filter_empty_conv)
  qed
  then have "contiguous db'"
    using cont dist by (auto simp: contiguous_def own simp del: upt_Suc)
  moreover have "has_session db' i" if h: "holds_rows s i" for i
  proof -
    obtain c t where t: "cc_txs s c = Some t" "tx_session t = i" "tx_rows t \<noteq> []" using h unfolding holds_rows_iff by blast
    obtain put start where at: "tx_at cd (cc_db s) t put start" by (rule conc_inv_txD [OF inv t(1)])
    then have "put \<noteq> []" using t(3) tx_at_rows by blast
    then have "has_session (cc_db s) i" using at t(2) by (simp add: tx_at_def)
    then obtain r where "r \<in> set (db_sessions (cc_db s))" "row_id r = i" by (auto simp: has_session_def)
    then show ?thesis using free h by (auto simp: has)
  qed
  moreover have "own db' i = []" if "i \<notin> cc_used s" for i
    using inv that sub [of i] by (auto simp: own conc_inv_def)
  moreover have "i \<in> cc_used s" if "has_session db' i" for i
    using inv sub [OF that] by (simp add: conc_inv_def)
  ultimately show ?thesis
    using conc_inv_db [OF inv, of db' "cc_used s"] own sub by simp
qed

lemma conc_inv_start: "conc_inv cd conc_start"
  unfolding conc_inv_def cc_txs_frame
  by (simp add: conc_start_def contiguous_def empty_db_def own_def has_session_def committed_def)

lemma open_at:
  assumes "pg_open now i ms db = Ok t" "ms \<noteq> []"
  shows "tx_at cd db t [] 0" "tx_session t = i" "has_session db i" "tx_rows t = []"
proof -
  obtain ses where "get db i = Ok (Some ses)" using assms(1) by (auto simp: pg_open_def pg_get_eq split: sum.splits option.splits)
  then have "find_row db i \<noteq> None" by (auto simp: get_def query_def split: option.splits)
  then show "has_session db i" by (simp add: find_row_None_iff)
qed (use assms in \<open>auto simp: pg_open_def tx_at_def split: sum.splits option.splits\<close>)

lemma conc_inv_step:
  assumes "pg_step tx cd True s s'" and inv: "conc_inv cd s"
  shows "conc_inv cd s'"
  using assms(1)
proof cases
  case (do_open c ms m um am now i t)
  then have "ms \<noteq> []" by auto
  note at = open_at [OF do_open(4) this]
  have "tx_session t \<in> cc_used s" using at(2,3) inv by (simp add: conc_inv_def)
  then show ?thesis unfolding do_open(1) by (rule conc_inv_put [OF inv _ at(1)]) (simp add: at(4))
next
  case (do_select c t)
  obtain put start where at: "tx_at cd (cc_db s) t put start" and used: "tx_session t \<in> cc_used s"
    by (rule conc_inv_txD [OF inv do_select(2)])
  have cont: "contiguous (cc_db s)" using inv by (simp add: conc_inv_def)
  have "tx_at cd (cc_db s) (tx_select (cc_db s) t) [] (Suc (length (own (cc_db s) (tx_session t))))"
    using at do_select(3) by (auto simp: tx_at_def tx_select_def contiguous_next(1) [OF cont])
  moreover have "tx_rows (tx_select (cc_db s) t) = []" using at do_select(3) by (simp add: tx_at_def tx_select_def)
  ultimately show ?thesis
    unfolding do_select(1) using used by (intro conc_inv_put [OF inv]) (auto simp: tx_select_def)
next
  case (do_insert c t n m ms t')
  then show ?thesis using insert_goes_through [OF inv] by simp
next
  case (do_commit c t)
  then show ?thesis using commit_goes_through [OF inv] by simp
next
  case (do_create i now u)
  then show ?thesis using create_goes_through [OF inv] by simp
next
  case (do_delete db' P)
  then show ?thesis using delete_goes_through [OF inv] by simp
qed (use conc_inv_drop [OF inv] update_goes_through [OF inv] in auto)

lemma conc_inv_reachable: "reachable_conc tx cd True s \<Longrightarrow> conc_inv cd s"
  by (induction rule: reachable_conc.induct) (auto intro: conc_inv_start conc_inv_step)

section \<open>What concurrent appends guarantee\<close>

lemma rows_of_own: "contiguous db \<Longrightarrow> rows_of db i = own db i"
proof -
  assume "contiguous db"
  then have "map mrow_seq (own db i) = map int [1..<Suc (length (own db i))]" by (simp add: contiguous_def)
  then have "sorted (map mrow_seq (own db i))" by (simp add: sorted_map strict_sorted_iff del: upt_Suc)
  then show "rows_of db i = own db i" by (simp add: rows_of_def own_def [symmetric] sort_key_id_if_sorted)
qed

lemma row_text_message:
  "row_text r = stored_text cd m \<Longrightarrow> storable cd m \<Longrightarrow> row_to_message cd r = Ok m"
  by (simp add: row_text_def stored_text_def row_to_message_def storable_def decode_content_def encode_content_def)


text \<open>
  C22. An append fails exactly when it was overtaken: an INSERT that does not wait is refused
  just when the session is gone, or when it is the first of its transaction and another append
  to the session has committed since its number was selected. Nothing retries it, so of two
  concurrent turns of a session one is lost, with a database error after its run.
\<close>

theorem append_fails_exactly_when_overtaken:
  assumes "reachable_conc tx cd True s" "cc_txs s c = Some t" "tx_next t = Some n" "tx_todo t = m # ms"
    and "try_insert tx cd True s c t n m ms \<noteq> Waiting"
  shows "(\<exists>e. try_insert tx cd True s c t n m ms = Refused e) \<longleftrightarrow>
    \<not> has_session (cc_db s) (tx_session t) \<or> tx_rows t = [] \<and> n \<noteq> next_sequence (cc_db s) (tx_session t)"
proof -
  let ?i = "tx_session t" and ?L = "length (own (cc_db s) (tx_session t))"
  have inv: "conc_inv cd s" by (rule conc_inv_reachable [OF assms(1)])
  then have cont: "contiguous (cc_db s)" by (simp add: conc_inv_def)
  obtain put start where at: "tx_at cd (cc_db s) t put start" by (rule conc_inv_txD [OF inv assms(2)])
  have n: "n = int (start + length put)" and rows: "tx_rows t = numbered_rows cd (tx_now t) ?i (int start) put"
    using at assms(3) by (simp_all add: tx_at_def)
  have mine: "\<not> has_key (tx_rows t) ?i n"
    by (auto simp: rows n has_key_def dest: numbered_rows_mem)
  have waits: "has_key (db_messages (cc_db s)) ?i n \<or> \<not> held_elsewhere s c ?i n"
    using assms(5) mine by (auto simp: try_insert_def tx_insert_def Let_def split: if_splits)
  have refused: "(\<exists>e. try_insert tx cd True s c t n m ms = Refused e)
      \<longleftrightarrow> has_key (db_messages (cc_db s)) ?i n \<or> \<not> has_session (cc_db s) ?i"
    using waits mine by (auto simp: try_insert_def tx_insert_def Let_def)
  show ?thesis
  proof (cases "has_session (cc_db s) ?i")
    case True
    have "has_key (db_messages (cc_db s)) ?i n \<longleftrightarrow> tx_rows t = [] \<and> n \<noteq> next_sequence (cc_db s) ?i"
      using at assms(3) True unfolding tx_at_rows [OF at] contiguous_next [OF cont] n
      by (cases "put = []") (auto simp: tx_at_def)
    then show ?thesis using refused True by blast
  qed (use refused in blast)
qed

text \<open>A transaction can go on: it has still to select, can commit, or its next INSERT does not wait.\<close>

definition can_go_on :: "pg_texts \<Rightarrow> content_codec \<Rightarrow> conc \<Rightarrow> nat \<Rightarrow> pg_tx \<Rightarrow> bool" where
  "can_go_on tx cd s c t = (case (tx_next t, tx_todo t) of
     (Some n, m # ms) \<Rightarrow> try_insert tx cd True s c t n m ms \<noteq> Waiting | _ \<Rightarrow> True)"

text \<open>
  C23. Appends never deadlock: whenever some transaction is open, one of the open ones can take
  its next step; a transaction that waits waits for one that can.
\<close>

theorem appends_never_deadlock:
  assumes "reachable_conc tx cd True s" "cc_txs s c = Some t"
  shows "\<exists>d u. cc_txs s d = Some u \<and> can_go_on tx cd s d u \<and> (d = c \<or> tx_session u = tx_session t)"
proof (cases "can_go_on tx cd s c t")
  case True
  then show ?thesis using assms(2) by blast
next
  case False
  then obtain n m ms where w: "tx_next t = Some n" "tx_todo t = m # ms" "try_insert tx cd True s c t n m ms = Waiting"
    by (auto simp: can_go_on_def split: option.splits list.splits)
  have inv: "conc_inv cd s" by (rule conc_inv_reachable [OF assms(1)])
  have "held_elsewhere s c (tx_session t) n"
    using w(3) by (auto simp: try_insert_def tx_insert_def Let_def split: if_splits)
  then obtain d u where u: "d \<noteq> c" "cc_txs s d = Some u" "has_key (tx_rows u) (tx_session t) n"
    by (auto simp: held_elsewhere_iff)
  obtain put start where at: "tx_at cd (cc_db s) u put start" by (rule conc_inv_txD [OF inv u(2)])
  have rows: "tx_rows u \<noteq> []" using u(3) by (auto simp: has_key_def)
  have same: "tx_session u = tx_session t"
    using at u(3) by (auto simp: tx_at_def has_key_def dest: numbered_rows_mem split: option.splits)
  have "\<not> held_elsewhere s d (tx_session u) k" for k
  proof
    assume "held_elsewhere s d (tx_session u) k"
    then obtain e v where v: "e \<noteq> d" "cc_txs s e = Some v" "has_key (tx_rows v) (tx_session u) k"
      by (auto simp: held_elsewhere_iff)
    obtain put' start' where at': "tx_at cd (cc_db s) v put' start'" by (rule conc_inv_txD [OF inv v(2)])
    have "tx_session v = tx_session u" "tx_rows v \<noteq> []"
      using at' v(3) by (auto simp: tx_at_def has_key_def dest: numbered_rows_mem split: option.splits)
    then show False using inv u(2) v(1,2) rows unfolding conc_inv_def by metis
  qed
  then have "can_go_on tx cd s d u"
    by (auto simp: can_go_on_def try_insert_def tx_insert_def Let_def split: option.split list.split)
  then show ?thesis using u(2) same by blast
qed

section \<open>Sample runs\<close>

text \<open>A schedule: what a client does next, done when it can be.\<close>

datatype command = Create uuid string | Open nat uuid message message | Select nat | Insert nat | Commit nat

fun perform :: "pg_texts \<Rightarrow> content_codec \<Rightarrow> bool \<Rightarrow> conc \<Rightarrow> command \<Rightarrow> conc" where
  "perform tx cd unique s (Create i u) = (if i \<in> cc_used s then s else
     s\<lparr>cc_db := snd (pg_create tx 0 i u (cc_db s)), cc_used := insert i (cc_used s)\<rparr>)"
| "perform tx cd unique s (Open c i um am) = (case cc_txs s c of
     Some _ \<Rightarrow> s | None \<Rightarrow> (case pg_open 0 i [um, am] (cc_db s) of Err _ \<Rightarrow> s | Ok t \<Rightarrow> set_tx c (Some t) s))"
| "perform tx cd unique s (Select c) = (case cc_txs s c of
     None \<Rightarrow> s | Some t \<Rightarrow> if tx_next t = None then set_tx c (Some (tx_select (cc_db s) t)) s else s)"
| "perform tx cd unique s (Insert c) = (case cc_txs s c of
     None \<Rightarrow> s
   | Some t \<Rightarrow> (case (tx_next t, tx_todo t) of
        (Some n, m # ms) \<Rightarrow> (case try_insert tx cd unique s c t n m ms of
            Inserted t' \<Rightarrow> set_tx c (Some t') s | Refused _ \<Rightarrow> set_tx c None s | Waiting \<Rightarrow> s)
      | _ \<Rightarrow> s))"
| "perform tx cd unique s (Commit c) = (case cc_txs s c of
     None \<Rightarrow> s
   | Some t \<Rightarrow> if tx_next t \<noteq> None \<and> tx_todo t = []
       then (set_tx c None s)\<lparr>cc_db := tx_commit t (cc_db s), cc_log := cc_log s @ [(tx_session t, tx_given t)]\<rparr>
       else s)"

lemma perform_reachable:
  assumes "reachable_conc tx cd unique s"
  shows "reachable_conc tx cd unique (perform tx cd unique s cmd)"
  using assms
  by (cases cmd) (auto intro: conc_steps pg_step.intros split: option.split sum.split list.split insert_result.split)

lemma schedule_reachable: "reachable_conc tx cd unique (foldl (perform tx cd unique) conc_start cmds)"
proof -
  have "reachable_conc tx cd unique s \<Longrightarrow> reachable_conc tx cd unique (foldl (perform tx cd unique) s cmds)" for s
    by (induction cmds arbitrary: s) (auto intro: perform_reachable)
  then show ?thesis by (simp add: conc_starts)
qed

definition sample_texts :: pg_texts where
  "sample_texts = \<lparr>pg_unique_text = ''duplicate'', pg_key_text = ''key'', pg_reference_text = ''reference'',
     pg_no_row_text = ''no row''\<rparr>"

text \<open>Two clients append a turn to one session; the second has selected its number before the first commits.\<close>

definition contended :: "command list" where
  "contended = [Create ''a'' ''bob'', Open 0 ''a'' (text_message RoleUser ''p'') (text_message RoleAssistant ''q''),
     Open 1 ''a'' (text_message RoleUser ''r'') (text_message RoleAssistant ''s''), Select 0, Select 1,
     Insert 0, Insert 0, Commit 0]"

definition raced :: conc where
  "raced = foldl (perform sample_texts sample_codec True) conc_start contended"

lemma raced_reachable: "reachable_conc sample_texts sample_codec True raced"
  unfolding raced_def by (rule schedule_reachable)


lemma raced_loser:
  "\<exists>t ms. cc_txs raced 1 = Some t \<and> tx_next t = Some 1 \<and> tx_todo t = text_message RoleUser ''r'' # ms
    \<and> tx_rows t = [] \<and> tx_session t = ''a'' \<and> next_sequence (cc_db raced) ''a'' = 3
    \<and> try_insert sample_texts sample_codec True raced 1 t 1 (text_message RoleUser ''r'') ms \<noteq> Waiting"
proof -
  have "case cc_txs raced 1 of None \<Rightarrow> False | Some t \<Rightarrow> (case tx_todo t of [] \<Rightarrow> False | m # ms \<Rightarrow>
      tx_next t = Some 1 \<and> m = text_message RoleUser ''r'' \<and> tx_rows t = [] \<and> tx_session t = ''a''
      \<and> next_sequence (cc_db raced) ''a'' = 3
      \<and> try_insert sample_texts sample_codec True raced 1 t 1 m ms \<noteq> Waiting)" by code_simp
  then show ?thesis by (auto split: option.splits list.splits)
qed

lemma append_fails_exactly_when_overtaken_witness:
  "\<exists>t m ms e. cc_txs raced 1 = Some t \<and> try_insert sample_texts sample_codec True raced 1 t 1 m ms = Refused e"
proof -
  obtain t ms where t: "cc_txs raced 1 = Some t" "tx_next t = Some 1" "tx_todo t = text_message RoleUser ''r'' # ms"
      "try_insert sample_texts sample_codec True raced 1 t 1 (text_message RoleUser ''r'') ms \<noteq> Waiting"
    and lost: "tx_rows t = []" "tx_session t = ''a''" "next_sequence (cc_db raced) ''a'' = 3"
    using raced_loser by blast
  show ?thesis using append_fails_exactly_when_overtaken [OF raced_reachable t] t(1) lost by auto
qed

lemma appends_never_deadlock_witness:
  "\<exists>d u. cc_txs raced d = Some u \<and> can_go_on sample_texts sample_codec raced d u"
proof -
  obtain t where "cc_txs raced 1 = Some t" using raced_loser by blast
  from appends_never_deadlock [OF raced_reachable this] show ?thesis by blast
qed

end
