(* ===== verification/Pg_Migration.thy ===== *)
theory Pg_Migration
  imports Pg_Concurrency
begin

text \<open>
  The migration the PostgreSQL store runs when it is opened (\<open>migrate\<close> of
  \<open>avs-memory-pgvector/src/session_store.rs\<close>): absent tables are created, absent columns are
  added, and a messages table that predates sequence numbers has its rows numbered within
  their session in the order of their ids. A schema is the columns of the two tables, where
  they exist, and whether the messages table has its UNIQUE constraint. Indexes are left out.
\<close>

record pg_schema =
  sessions_columns :: "string list option"
  messages_columns :: "string list option"
  messages_unique :: bool

text \<open>A row of the messages table with its serial id; before the migration its sequence
  number means nothing.\<close>

type_synonym pg_rows = "(nat \<times> message_row) list"

definition create_sessions_table :: "pg_schema \<Rightarrow> pg_schema" where
  "create_sessions_table sch = (case sessions_columns sch of
     None \<Rightarrow> sch\<lparr>sessions_columns := Some [''id'', ''user_id'', ''status'', ''created_at'', ''updated_at'']\<rparr>
   | Some _ \<Rightarrow> sch)"

definition create_messages_table :: "pg_schema \<Rightarrow> pg_schema" where
  "create_messages_table sch = (case messages_columns sch of
     None \<Rightarrow> sch\<lparr>messages_columns :=
         Some [''id'', ''session_id'', ''role'', ''content'', ''sequence_num'', ''created_at''], messages_unique := True\<rparr>
   | Some _ \<Rightarrow> sch)"

definition has_column :: "string list option \<Rightarrow> string \<Rightarrow> bool" where
  "has_column cols c = (case cols of Some cs \<Rightarrow> c \<in> set cs | None \<Rightarrow> False)"

definition add_column :: "string \<Rightarrow> string list option \<Rightarrow> string list option" where
  "add_column c cols = (if has_column cols c then cols else map_option (\<lambda>cs. cs @ [c]) cols)"

text \<open>\<open>ROW_NUMBER() OVER (PARTITION BY session_id ORDER BY id)\<close>.\<close>

definition row_number :: "pg_rows \<Rightarrow> nat \<times> message_row \<Rightarrow> nat" where
  "row_number rows r =
     length (filter (\<lambda>r'. mrow_session (snd r') = mrow_session (snd r) \<and> fst r' \<le> fst r) rows)"

definition number_rows :: "pg_rows \<Rightarrow> pg_rows" where
  "number_rows rows = map (\<lambda>r. (fst r, (snd r)\<lparr>mrow_seq := int (row_number rows r)\<rparr>)) rows"

definition migrate_messages :: "pg_schema \<times> pg_rows \<Rightarrow> pg_schema \<times> pg_rows" where
  "migrate_messages = (\<lambda>(sch, rows).
     if has_column (messages_columns sch) ''sequence_num'' then (sch, rows)
     else (sch\<lparr>messages_columns := add_column ''sequence_num'' (messages_columns sch)\<rparr>, number_rows rows))"

definition added_columns :: "string list" where
  "added_columns = [''consolidation_watermark'', ''skill_context_json'', ''phase_opening_context'', ''interrupted_state'']"

definition pg_migrate :: "pg_schema \<times> pg_rows \<Rightarrow> pg_schema \<times> pg_rows" where
  "pg_migrate = (\<lambda>(sch, rows).
     case migrate_messages (create_messages_table (create_sessions_table sch), rows) of
       (sch', rows') \<Rightarrow> (sch'\<lparr>sessions_columns := fold add_column added_columns (sessions_columns sch')\<rparr>, rows'))"

section \<open>What it keeps\<close>

definition session_rows :: "pg_rows \<Rightarrow> uuid \<Rightarrow> pg_rows" where
  "session_rows rows i = sort_key fst (filter (\<lambda>r. mrow_session (snd r) = i) rows)"

lemma sort_key_distinct_unique:
  assumes "mset ys = mset xs" "distinct (map f xs)" "sorted (map f ys)"
  shows "sort_key f xs = ys"
proof (rule properties_for_sort_key [OF assms(1) _ assms(3)])
  fix k
  assume k: "k \<in> set ys"
  have "mset (map f ys) = mset (map f xs)" using assms(1) by simp
  then have dist: "distinct (map f ys)" using assms(2) mset_eq_imp_distinct_iff by blast
  have one: "filter (\<lambda>x. f k = f x) zs = [k]" if "k \<in> set zs" "distinct (map f zs)" for zs
  proof -
    have "\<exists>us vs. zs = us @ k # vs" by (rule split_list [OF that(1)])
    then obtain us vs where zs: "zs = us @ k # vs" by blast
    then have "\<forall>x \<in> set us \<union> set vs. f k \<noteq> f x" using that(2) by force
    then show ?thesis by (simp add: zs filter_empty_conv)
  qed
  show "filter (\<lambda>x. f k = f x) ys = filter (\<lambda>x. f k = f x) xs"
    using one [OF k dist] one [of xs] assms(1,2) k by (metis mset_eq_setD)
qed

lemma rank_in_sorted:
  fixes ys :: pg_rows
  assumes "sorted_wrt (<) (map fst ys)" "k < length ys"
  shows "length (filter (\<lambda>r. fst r \<le> fst (ys ! k)) ys) = Suc k"
  using assms
proof (induction ys arbitrary: k)
  case (Cons y ys)
  show ?case
  proof (cases k)
    case 0
    have "filter (\<lambda>r. fst r \<le> fst y) ys = []" using Cons.prems(1) by (intro filter_False) (simp add: not_le)
    then show ?thesis using 0 by simp
  next
    case (Suc j)
    then have "fst y \<le> fst (ys ! j)" using Cons.prems by (auto simp: less_imp_le)
    then show ?thesis using Suc Cons by simp
  qed
qed simp

lemma numbered_in_order:
  assumes "distinct (map fst rows)"
  shows "map (row_number rows) (session_rows rows i) = [1..<Suc (length (session_rows rows i))]"
proof (rule nth_equalityI)
  let ?xs = "filter (\<lambda>r. mrow_session (snd r) = i) rows" and ?ys = "session_rows rows i"
  have ms: "mset ?ys = mset ?xs" by (simp add: session_rows_def)
  have "distinct (map fst ?xs)" using assms by (simp add: distinct_map_filter)
  moreover have "mset (map fst ?ys) = mset (map fst ?xs)" using ms by simp
  ultimately have "distinct (map fst ?ys)" using mset_eq_imp_distinct_iff by blast
  then have strict: "sorted_wrt (<) (map fst ?ys)"
    by (simp add: strict_sorted_iff session_rows_def)
  fix k
  assume "k < length (map (row_number rows) ?ys)"
  then have k: "k < length ?ys" by simp
  have "?ys ! k \<in> set ?xs" using nth_mem [OF k] mset_eq_setD [OF ms] by simp
  then have "mrow_session (snd (?ys ! k)) = i" by simp
  then have "row_number rows (?ys ! k) = length (filter (\<lambda>r. fst r \<le> fst (?ys ! k)) ?xs)"
    by (simp add: row_number_def filter_filter conj_commute)
  also have "\<dots> = length (filter (\<lambda>r. fst r \<le> fst (?ys ! k)) ?ys)"
    using ms by (metis mset_filter size_mset)
  also have "\<dots> = Suc k" by (rule rank_in_sorted [OF strict k])
  finally show "map (row_number rows) ?ys ! k = [1..<Suc (length ?ys)] ! k"
    using k by (simp del: upt_Suc)
qed (simp del: upt_Suc)


text \<open>
  A migrated table has no uniqueness constraint: the migration that numbers the rows of an
  old messages table does not add the constraint a new table is created with, and without it
  two concurrent turns of one session both commit with the same numbers and are read back
  interleaved, the second question before the first answer.
\<close>

theorem migrated_table_interleaves_turns:
  "messages_unique (fst (pg_migrate (sch\<lparr>messages_columns := Some cols\<rparr>, rows))) = messages_unique sch
    \<and> (\<exists>s. reachable_conc sample_texts sample_codec False s
        \<and> pg_load_messages sample_codec (cc_db s) ''a'' = Ok [text_message RoleUser ''p'', text_message RoleUser ''r'',
            text_message RoleAssistant ''q'', text_message RoleAssistant ''s''])"
proof
  show "messages_unique (fst (pg_migrate (sch\<lparr>messages_columns := Some cols\<rparr>, rows))) = messages_unique sch"
    by (auto simp: pg_migrate_def migrate_messages_def create_messages_table_def create_sessions_table_def
        split: option.splits prod.splits if_splits)
next
  let ?s = "foldl (perform sample_texts sample_codec False) conc_start (contended @ [Insert 1, Insert 1, Commit 1])"
  have "pg_load_messages sample_codec (cc_db ?s) ''a'' = Ok [text_message RoleUser ''p'', text_message RoleUser ''r'',
      text_message RoleAssistant ''q'', text_message RoleAssistant ''s'']" by code_simp
  then show "\<exists>s. reachable_conc sample_texts sample_codec False s
        \<and> pg_load_messages sample_codec (cc_db s) ''a'' = Ok [text_message RoleUser ''p'', text_message RoleUser ''r'',
            text_message RoleAssistant ''q'', text_message RoleAssistant ''s'']"
    using schedule_reachable by blast
qed

section \<open>On a small old table\<close>


end
