(* ===== verification/Mcp.thy ===== *)
theory Mcp
  imports Tool_Registry
begin

text \<open>
  The Model Context Protocol (\<open>avs-mcp/src\<close>): the client over Streamable HTTP
  (\<open>client.rs\<close>), the server over a tool registry (\<open>server.rs\<close>), the adapter that makes a
  remote tool a tool of a registry (\<open>adapter.rs\<close>, \<open>catalog.rs\<close>), the configuration with its
  expansion of environment variables (\<open>config.rs\<close>) and the loader (\<open>loader.rs\<close>). The client
  over the pipes of a child process is in \<open>Mcp_Stdio\<close>.

  Printing and parsing JSON text (\<open>serde_json\<close>), posting a request (\<open>reqwest\<close>), parsing a URL
  and the header names are parameters.
\<close>

datatype mcp_error =
    McpConnection string
  | McpInitialization string
  | McpProtocol string
  | McpParse string
  | McpToolCall string
  | McpConfig string

fun mcp_error_text :: "mcp_error \<Rightarrow> string" where
  "mcp_error_text (McpConnection m) = ''Connection error: '' @ m"
| "mcp_error_text (McpInitialization m) = ''Initialization failed: '' @ m"
| "mcp_error_text (McpProtocol m) = ''Protocol error: '' @ m"
| "mcp_error_text (McpParse m) = ''Parse error: '' @ m"
| "mcp_error_text (McpToolCall m) = ''Tool call error: '' @ m"
| "mcp_error_text (McpConfig m) = ''Config error: '' @ m"

record json_text =
  jt_print :: "json \<Rightarrow> string"
  jt_parse :: "string \<Rightarrow> string + json"

section \<open>The client\<close>

definition rpc_request :: "uuid \<Rightarrow> string \<Rightarrow> json option \<Rightarrow> json" where
  "rpc_request i method params = JObject (obj_from
     ([(''jsonrpc'', JString ''2.0''), (''id'', JString i), (''method'', JString method)]
      @ (case params of Some p \<Rightarrow> [(''params'', p)] | None \<Rightarrow> [])))"

text \<open>Posting a body: no connection, or the content type and what reading the body gives.\<close>

type_synonym http_post = "string \<Rightarrow> string + string \<times> (string + string)"

definition contains_str :: "string \<Rightarrow> string \<Rightarrow> bool" where
  "contains_str p s \<longleftrightarrow> find_str p s \<noteq> None"

definition sse_data :: "string \<Rightarrow> mcp_error + string" where
  "sse_data text = (case List.find (starts_with ''data: '') (lines text) of
     None \<Rightarrow> Err (McpParse ''No SSE data line'') | Some l \<Rightarrow> Ok (drop 6 l))"

definition http_send :: "json_text \<Rightarrow> http_post \<Rightarrow> json \<Rightarrow> mcp_error + json" where
  "http_send jt post req =
     (case post (jt_print jt req) of
        Err e \<Rightarrow> Err (McpConnection e)
      | Ok (ct, body) \<Rightarrow>
          if contains_str ''text/event-stream'' ct
          then try_bind (map_err McpParse body) (\<lambda>text.
                 try_bind (sse_data text) (\<lambda>d. map_err McpParse (jt_parse jt d)))
          else map_err McpParse (try_bind body (jt_parse jt)))"

definition http_notify :: "json_text \<Rightarrow> http_post \<Rightarrow> json \<Rightarrow> mcp_error + unit" where
  "http_notify jt post notif = (case post (jt_print jt notif) of Err e \<Rightarrow> Err (McpConnection e) | Ok _ \<Rightarrow> Ok ())"

text \<open>A client: how it sends a request and a notification at a tick of the world, and the ids
  it draws.\<close>

record mcp_client =
  cl_send :: "nat \<Rightarrow> json \<Rightarrow> mcp_error + json"
  cl_notify :: "nat \<Rightarrow> json \<Rightarrow> mcp_error + unit"
  cl_ids :: "nat \<Rightarrow> uuid"

definition http_client :: "json_text \<Rightarrow> (nat \<Rightarrow> http_post) \<Rightarrow> (nat \<Rightarrow> uuid) \<Rightarrow> mcp_client" where
  "http_client jt post ids =
     \<lparr>cl_send = (\<lambda>tick. http_send jt (post tick)), cl_notify = (\<lambda>tick. http_notify jt (post tick)), cl_ids = ids\<rparr>"

definition initialize_request :: "string \<Rightarrow> uuid \<Rightarrow> json" where
  "initialize_request version i = rpc_request i ''initialize'' (Some (JObject (obj_from
     [(''protocolVersion'', JString ''2025-03-26''), (''capabilities'', JObject []),
      (''clientInfo'', JObject (obj_from [(''name'', JString ''agentverse''), (''version'', JString version)]))])))"

definition initialized_notification :: json where
  "initialized_notification = JObject (obj_from
     [(''jsonrpc'', JString ''2.0''), (''method'', JString ''notifications/initialized''), (''params'', JObject [])])"

definition mcp_initialize :: "string \<Rightarrow> mcp_client \<Rightarrow> nat \<Rightarrow> mcp_error + unit" where
  "mcp_initialize version cl tick =
     try_bind (cl_send cl tick (initialize_request version (cl_ids cl tick))) (\<lambda>resp.
       case json_get ''error'' resp of
         Some err \<Rightarrow> Err (McpInitialization (str_or ''unknown'' (json_index err ''message'')))
       | None \<Rightarrow> cl_notify cl tick initialized_notification)"

record mcp_tool_info =
  mi_name :: string
  mi_description :: string
  mi_input_schema :: json

definition tool_info_of :: "json \<Rightarrow> mcp_tool_info" where
  "tool_info_of t = \<lparr>mi_name = str_or [] (json_index t ''name''),
     mi_description = str_or [] (json_index t ''description''), mi_input_schema = json_index t ''inputSchema''\<rparr>"

definition list_tools :: "mcp_client \<Rightarrow> nat \<Rightarrow> mcp_error + mcp_tool_info list" where
  "list_tools cl tick =
     try_bind (cl_send cl tick (rpc_request (cl_ids cl tick) ''tools/list'' (Some (JObject [])))) (\<lambda>resp.
       case json_get ''error'' resp of
         Some err \<Rightarrow> Err (McpProtocol (str_or [] (json_index err ''message'')))
       | None \<Rightarrow>
           (case as_array (json_index (json_index resp ''result'') ''tools'') of
              None \<Rightarrow> Err (McpParse ''No tools array'')
            | Some ts \<Rightarrow> Ok (map tool_info_of ts)))"

definition call_request :: "uuid \<Rightarrow> string \<Rightarrow> json \<Rightarrow> json" where
  "call_request i name args = rpc_request i ''tools/call''
     (Some (JObject (obj_from [(''name'', JString name), (''arguments'', args)])))"

text \<open>What \<open>call_tool\<close> makes of a reply.\<close>

definition call_result :: "json \<Rightarrow> mcp_error + json" where
  "call_result resp =
     (case json_get ''error'' resp of
        Some err \<Rightarrow> Err (McpToolCall (str_or [] (json_index err ''message'')))
      | None \<Rightarrow>
          (case as_array (json_index (json_index resp ''result'') ''content'') of
             None \<Rightarrow> Err (McpParse ''No content array'')
           | Some content \<Rightarrow>
               (case List.map_filter (\<lambda>c. as_str (json_index c ''text'')) content of
                  [] \<Rightarrow> Err (McpParse ''No text content'')
                | t # _ \<Rightarrow> Ok (JString t))))"

definition call_tool :: "mcp_client \<Rightarrow> nat \<Rightarrow> string \<Rightarrow> json \<Rightarrow> mcp_error + json" where
  "call_tool cl tick name args = try_bind (cl_send cl tick (call_request (cl_ids cl tick) name args)) call_result"

section \<open>The adapter and the catalog\<close>

definition mcp_adapter :: "mcp_client \<Rightarrow> mcp_tool_info \<Rightarrow> tool" where
  "mcp_adapter cl info =
     \<lparr>tl_name = mi_name info, tl_description = mi_description info,
      tl_schema = erased_schema (mi_name info) (mi_description info) (mi_input_schema info),
      tl_exec = (\<lambda>tick args. Returns (map_err (\<lambda>e. Execution (mcp_error_text e)) (call_tool cl tick (mi_name info) args)))\<rparr>"

definition mcp_options :: tool_options where
  "mcp_options = default_options\<lparr>opt_category := Some ''mcp''\<rparr>"

definition populate :: "mcp_client \<Rightarrow> nat \<Rightarrow> tool_registry \<Rightarrow> (mcp_error + nat) \<times> tool_registry" where
  "populate cl tick reg =
     (case list_tools cl tick of
        Err e \<Rightarrow> (Err e, reg)
      | Ok infos \<Rightarrow> (Ok (length infos),
          fold (\<lambda>info. register_erased (mcp_adapter cl info) mcp_options) infos reg))"

section \<open>The server\<close>

definition rpc_result :: "json \<Rightarrow> json \<Rightarrow> json" where
  "rpc_result i r = JObject (obj_from [(''jsonrpc'', JString ''2.0''), (''id'', i), (''result'', r)])"

definition rpc_error :: "json \<Rightarrow> int \<Rightarrow> string \<Rightarrow> json" where
  "rpc_error i code m = JObject (obj_from [(''jsonrpc'', JString ''2.0''), (''id'', i),
     (''error'', JObject (obj_from [(''code'', JNumber (NegInt code)), (''message'', JString m)]))])"

definition listed_tool :: "json \<Rightarrow> json" where
  "listed_tool s = JObject (obj_from [(''name'', json_index s ''name''),
     (''description'', json_index s ''description''), (''inputSchema'', json_index s ''input_schema'')])"

definition text_content :: "string \<Rightarrow> json" where
  "text_content t = JObject (obj_from [(''content'',
     JArray [JObject (obj_from [(''type'', JString ''text''), (''text'', JString t)])])])"

text \<open>The handler: a status with a body, or nothing where a tool panics in it.\<close>

definition handle_mcp :: "json_text \<Rightarrow> string \<Rightarrow> tool_registry \<Rightarrow> nat \<Rightarrow> json \<Rightarrow> (nat \<times> json) option" where
  "handle_mcp jt version reg tick body =
     (let method = str_or [] (json_index body ''method''); i = json_index body ''id'' in
      if method = ''initialize'' then
        Some (200, rpc_result i (JObject (obj_from
          [(''protocolVersion'', JString ''2025-03-26''), (''capabilities'', JObject (obj_from [(''tools'', JObject [])])),
           (''serverInfo'', JObject (obj_from [(''name'', JString ''agentverse''), (''version'', JString version)]))])))
      else if method = ''notifications/initialized'' then Some (204, JNull)
      else if method = ''tools/list'' then
        Some (200, rpc_result i (JObject (obj_from [(''tools'', JArray (map listed_tool
          (filter (\<lambda>s. as_str (json_index s ''name'') \<noteq> Some ''find_tools'') (all_schemas reg))))])))
      else if method = ''tools/call'' then
        (let params = json_index body ''params'' in
         case execute reg tick (str_or [] (json_index params ''name'')) (json_index params ''arguments'') of
           Panics \<Rightarrow> None
         | Returns (Ok v) \<Rightarrow> Some (200, rpc_result i (text_content (jt_print jt v)))
         | Returns (Err e) \<Rightarrow> Some (200, rpc_error i (-32000) (tool_error_text e)))
      else Some (200, rpc_error i (-32601) (''Method not found: '' @ method)))"

text \<open>The server behind a POST: a body that is no JSON is rejected before the handler, and a
  handler that panics closes the connection.\<close>

definition serve_post :: "json_text \<Rightarrow> string \<Rightarrow> string \<Rightarrow> tool_registry \<Rightarrow> nat \<Rightarrow> http_post" where
  "serve_post jt version gone reg tick body =
     (case jt_parse jt body of
        Err e \<Rightarrow> Ok (''text/plain; charset=utf-8'', Ok e)
      | Ok v \<Rightarrow>
          (case handle_mcp jt version reg tick v of
             None \<Rightarrow> Err gone
           | Some (_, r) \<Rightarrow> Ok (''application/json'', Ok (jt_print jt r))))"

section \<open>The configuration\<close>

datatype transport_kind = Stdio | StreamableHttp

record mcp_server_config =
  mc_name :: string
  mc_transport :: transport_kind
  mc_command :: "string option"
  mc_args :: "string list option"
  mc_env :: "(string \<times> string) list option"
  mc_url :: "string option"
  mc_headers :: "(string \<times> string) list option"

datatype mcp_transport =
    StdioTransport (st_command: string) (st_args: "string list") (st_env: "(string \<times> string) list")
  | HttpTransport (ht_endpoint: string) (ht_headers: "(string \<times> string) list")

definition open_brace :: string where "open_brace = ''${''"

definition unclosed_text :: "string \<Rightarrow> string" where
  "unclosed_text s = ''Unclosed '' @ quoted open_brace @ '' in: '' @ s"

definition undefined_text :: "string \<Rightarrow> string" where
  "undefined_text v = ''Undefined env var: ${'' @ v @ ''}''"

lemma find_open_brace: "find_str open_brace t = Some n \<Longrightarrow> n + 2 \<le> length t"
  using find_str_SomeD [of open_brace t n] by (auto simp: open_brace_def starts_with_iff dest: arg_cong [of _ _ length])

text \<open>The loop of \<open>expand_env\<close>: the text so far and the index from which it is still to scan.\<close>

function expand_loop :: "(string \<Rightarrow> string option) \<Rightarrow> string \<Rightarrow> string \<Rightarrow> nat \<Rightarrow> mcp_error + string" where
  "expand_loop env s result i =
     (case find_str open_brace (drop i result) of
        None \<Rightarrow> Ok result
      | Some start \<Rightarrow>
          let abs_start = i + start; rest = drop (abs_start + 2) result in
          (case find_str ''}'' rest of
             None \<Rightarrow> Err (McpConfig (unclosed_text s))
           | Some e \<Rightarrow>
               (case env (take e rest) of
                  None \<Rightarrow> Err (McpConfig (undefined_text (take e rest)))
                | Some value \<Rightarrow>
                    expand_loop env s (take abs_start result @ value @ drop (abs_start + 2 + e + 1) result)
                      (abs_start + length value))))"
  by pat_completeness auto

termination
proof (relation "measure (\<lambda>(env, s, result, i). length result - i)")
  fix env and s :: string and i and w :: string and e abs_start start and result :: string
  assume "find_str open_brace (drop i result) = Some start" "abs_start = i + start"
  then show "((env, s, take abs_start result @ w @ drop (abs_start + 2 + e + 1) result, abs_start + length w), (env, s, result, i))
      \<in> measure (\<lambda>(env, s, result, i). length result - i)"
    by (auto dest: find_open_brace)
qed simp

declare expand_loop.simps [simp del]

definition expand_env :: "(string \<Rightarrow> string option) \<Rightarrow> string \<Rightarrow> mcp_error + string" where
  "expand_env env s = expand_loop env s s 0"

definition expand_pairs :: "(string \<Rightarrow> string option) \<Rightarrow> (string \<times> string) list \<Rightarrow> mcp_error + (string \<times> string) list" where
  "expand_pairs env kvs = collect_results (map (\<lambda>(k, v). map_ok (Pair k) (expand_env env v)) kvs)"

text \<open>What \<open>reqwest\<close> parses: a URL, a header name, a header value.\<close>

record http_parsers =
  hp_url :: "string \<Rightarrow> string + string"
  hp_name :: "string \<Rightarrow> string + string"
  hp_value :: "string \<Rightarrow> string + string"

definition header_entry :: "http_parsers \<Rightarrow> (string \<Rightarrow> string option) \<Rightarrow> string \<times> string \<Rightarrow> mcp_error + string \<times> string" where
  "header_entry hp env = (\<lambda>(k, v).
     try_bind (map_err McpConfig (hp_name hp k)) (\<lambda>name.
       try_bind (expand_env env v) (\<lambda>w. map_ok (Pair name) (map_err McpConfig (hp_value hp w)))))"

definition into_transport :: "http_parsers \<Rightarrow> (string \<Rightarrow> string option) \<Rightarrow> mcp_server_config \<Rightarrow> mcp_error + mcp_transport" where
  "into_transport hp env c =
     (case mc_transport c of
        Stdio \<Rightarrow>
          (case mc_command c of
             None \<Rightarrow> Err (McpConfig (mc_name c @ '': stdio requires '' @ quoted ''command''))
           | Some command \<Rightarrow>
               try_bind (collect_results (map (expand_env env) (case mc_args c of Some xs \<Rightarrow> xs | None \<Rightarrow> []))) (\<lambda>args.
               try_bind (expand_pairs env (case mc_env c of Some kvs \<Rightarrow> kvs | None \<Rightarrow> [])) (\<lambda>vars.
               map_ok (\<lambda>cmd. StdioTransport cmd args vars) (expand_env env command))))
      | StreamableHttp \<Rightarrow>
          (case mc_url c of
             None \<Rightarrow> Err (McpConfig (mc_name c @ '': streamable_http requires '' @ quoted ''url''))
           | Some u \<Rightarrow>
               try_bind (expand_env env u) (\<lambda>u'.
               try_bind (map_err (\<lambda>e. McpConfig (''Invalid URL: '' @ e)) (hp_url hp u')) (\<lambda>endpoint.
               map_ok (\<lambda>hs. HttpTransport endpoint (fold (\<lambda>(k, v). assoc_put k v) hs []))
                 (collect_results (map (header_entry hp env) (case mc_headers c of Some kvs \<Rightarrow> kvs | None \<Rightarrow> [])))))))"

section \<open>The loader\<close>

text \<open>Opening a transport (spawning the child, building the HTTP client) is a parameter; the
  handshake, the listing and the registrations are the code's. Each request is one tick.\<close>

definition mcp_connect ::
  "string \<Rightarrow> (mcp_transport \<Rightarrow> mcp_error + mcp_client) \<Rightarrow> nat \<Rightarrow> mcp_transport \<Rightarrow> mcp_error + mcp_client" where
  "mcp_connect version open_client tick t =
     try_bind (open_client t) (\<lambda>cl. map_ok (\<lambda>_. cl) (mcp_initialize version cl tick))"

fun mcp_load ::
  "http_parsers \<Rightarrow> (string \<Rightarrow> string option) \<Rightarrow> string \<Rightarrow> (mcp_transport \<Rightarrow> mcp_error + mcp_client) \<Rightarrow> nat \<Rightarrow>
   mcp_server_config list \<Rightarrow> nat \<Rightarrow> tool_registry \<Rightarrow> (mcp_error + nat) \<times> tool_registry" where
  "mcp_load hp env version open_client tick [] sofar reg = (Ok sofar, reg)"
| "mcp_load hp env version open_client tick (c # cs) sofar reg =
     (case try_bind (into_transport hp env c) (mcp_connect version open_client tick) of
        Err e \<Rightarrow> (Err e, reg)
      | Ok cl \<Rightarrow>
          (case populate cl (tick + 1) reg of
             (Err e, reg') \<Rightarrow> (Err e, reg')
           | (Ok n, reg') \<Rightarrow> mcp_load hp env version open_client (tick + 2) cs (sofar + n) reg'))"

section \<open>Expansion is a single pass\<close>

text \<open>A text as literal pieces and references, up to an unclosed one.\<close>

datatype piece = Literal string | Reference string | Unclosed

function pieces :: "string \<Rightarrow> piece list" where
  "pieces s = (case find_str open_brace s of
     None \<Rightarrow> [Literal s]
   | Some n \<Rightarrow> Literal (take n s) #
       (case find_str ''}'' (drop (n + 2) s) of
          None \<Rightarrow> [Unclosed]
        | Some e \<Rightarrow> Reference (take e (drop (n + 2) s)) # pieces (drop (n + 2 + e + 1) s)))"
  by pat_completeness auto

termination
  by (relation "measure length") (auto dest: find_open_brace)

declare pieces.simps [simp del]

fun piece_text :: "(string \<Rightarrow> string option) \<Rightarrow> string \<Rightarrow> piece \<Rightarrow> mcp_error + string" where
  "piece_text env s (Literal t) = Ok t"
| "piece_text env s (Reference v) = (case env v of None \<Rightarrow> Err (McpConfig (undefined_text v)) | Some w \<Rightarrow> Ok w)"
| "piece_text env s Unclosed = Err (McpConfig (unclosed_text s))"

lemma expand_loop_pieces:
  "expand_loop env s (pre @ t) (length pre)
    = map_ok (\<lambda>ws. pre @ concat ws) (collect_results (map (piece_text env s) (pieces t)))"
proof (induction t arbitrary: pre rule: pieces.induct)
  case (1 t)
  show ?case
  proof (cases "find_str open_brace t")
    case None
    then show ?thesis by (simp add: expand_loop.simps [of env s "pre @ t"] pieces.simps [of t])
  next
    case (Some n)
    note n = this
    let ?rest = "drop (n + 2) t"
    have rest: "drop (length pre + n + 2) (pre @ t) = ?rest" by simp
    show ?thesis
    proof (cases "find_str ''}'' ?rest")
      case None
      then show ?thesis using n
        by (simp add: expand_loop.simps [of env s "pre @ t"] pieces.simps [of t] Let_def rest [simplified])
    next
      case (Some e)
      show ?thesis
      proof (cases "env (take e ?rest)")
        case None
        then show ?thesis using n Some
          by (simp add: expand_loop.simps [of env s "pre @ t"] pieces.simps [of t] Let_def rest [simplified])
      next
        case (Some w)
        have "n \<le> length t" using find_open_brace [OF n] by simp
        then have "length (pre @ take n t @ w) = length pre + n + length w" by simp
        then have "expand_loop env s (pre @ t) (length pre)
            = expand_loop env s ((pre @ take n t @ w) @ drop (n + 2 + e + 1) t) (length (pre @ take n t @ w))"
          using n Some \<open>find_str ''}'' ?rest = Some e\<close>
          by (simp add: expand_loop.simps [of env s "pre @ t"] Let_def rest [simplified] numeral_3_eq_3 add.assoc)
        also have "\<dots> = map_ok (\<lambda>ws. (pre @ take n t @ w) @ concat ws)
            (collect_results (map (piece_text env s) (pieces (drop (n + 2 + e + 1) t))))"
          by (rule "1.IH" [OF n \<open>find_str ''}'' ?rest = Some e\<close>])
        finally show ?thesis using n Some \<open>find_str ''}'' ?rest = Some e\<close>
          by (cases "collect_results (map (piece_text env s) (pieces (drop (n + 2 + e + 1) t)))")
            (simp_all add: pieces.simps [of t] Let_def)
      qed
    qed
  qed
qed

text \<open>
  C36. The expansion of environment variables in the configuration is a single left-to-right
  pass: the text is cut into literal pieces and references once, each reference is replaced by
  its variable's value as it stands (a value that itself contains a reference is not expanded
  again, nor can it complete one), and the first reference that is undefined, or not closed,
  is the error. The loop that rewrites the text in place always ends.
\<close>

theorem expansion_is_a_single_pass:
  "expand_env env s = map_ok concat (collect_results (map (piece_text env s) (pieces s)))"
  using expand_loop_pieces [of env s "[]" s] by (simp add: expand_env_def)

section \<open>A remote tool and its original\<close>

lemma obj_get_from: "obj_get k (obj_from kvs) = map_of kvs k"
  by (induction kvs rule: obj_from.induct) auto

definition self_described :: "tool \<Rightarrow> bool" where
  "self_described t \<longleftrightarrow> tl_schema t = erased_schema (tl_name t) (tl_description t) (json_index (tl_schema t) ''input_schema'')"

definition well_described :: "tool_registry \<Rightarrow> bool" where
  "well_described reg \<longleftrightarrow> distinct (map fst (reg_tools reg))
     \<and> (\<forall>(n, t, opts) \<in> set (reg_tools reg). tl_name t = n \<and> self_described t)"

definition reads_back :: "json_text \<Rightarrow> json \<Rightarrow> bool" where
  "reads_back jt v \<longleftrightarrow> jt_parse jt (jt_print jt v) = Ok v"

lemma self_described_erased: "self_described (erase_tool n d inp from_value ex)" "self_described (mcp_adapter cl info)"
  by (simp_all add: self_described_def erase_tool_def mcp_adapter_def erased_schema_def obj_get_from del: obj_from.simps)

lemma well_described_put:
  assumes "well_described reg" "self_described t"
  shows "well_described (reg\<lparr>reg_tools := assoc_put (tl_name t) (t, opts) (reg_tools reg), reg_index := ix\<rparr>)"
proof -
  have "set (assoc_put k v xs) \<subseteq> insert (k, v) (set xs)" for k :: string and v and xs :: "(string \<times> tool \<times> tool_options) list"
    by (induction k v xs rule: assoc_put.induct) auto
  then show ?thesis using assms distinct_assoc_put by (fastforce simp: well_described_def)
qed

text \<open>A client connected to the server over a registry.\<close>

definition server_client :: "json_text \<Rightarrow> string \<Rightarrow> string \<Rightarrow> tool_registry \<Rightarrow> (nat \<Rightarrow> uuid) \<Rightarrow> mcp_client" where
  "server_client jt version gone reg ids = http_client jt (serve_post jt version gone reg) ids"

lemma not_event_stream: "\<not> contains_str ''text/event-stream'' ''application/json''"
  by code_simp

lemma send_served:
  assumes "reads_back jt req"
  shows "cl_send (server_client jt version gone reg ids) tick req
    = (case handle_mcp jt version reg tick req of
         None \<Rightarrow> Err (McpConnection gone)
       | Some (st, r) \<Rightarrow> map_err McpParse (jt_parse jt (jt_print jt r)))"
  using assms not_event_stream
  by (simp add: server_client_def http_client_def http_send_def serve_post_def reads_back_def split: option.split prod.split)

lemma request_fields:
  "json_index (rpc_request i m p) ''method'' = JString m"
  "json_index (rpc_request i m p) ''id'' = JString i"
  "json_index (rpc_request i m (Some x)) ''params'' = x"
  by (simp_all add: rpc_request_def obj_get_from del: obj_from.simps split: option.split)

lemma reply_fields:
  "json_get ''error'' (rpc_result i r) = None" "json_index (rpc_result i r) ''result'' = r"
  "json_get ''error'' (rpc_error i c m) = Some (JObject (obj_from [(''code'', JNumber (NegInt c)), (''message'', JString m)]))"
  by (simp_all add: rpc_result_def rpc_error_def obj_get_from del: obj_from.simps)

definition list_request :: "uuid \<Rightarrow> json" where
  "list_request i = rpc_request i ''tools/list'' (Some (JObject []))"

definition list_reply :: "uuid \<Rightarrow> tool_registry \<Rightarrow> json" where
  "list_reply i reg = rpc_result (JString i) (JObject (obj_from [(''tools'', JArray (map listed_tool
     (filter (\<lambda>s. as_str (json_index s ''name'') \<noteq> Some ''find_tools'') (all_schemas reg))))]))"

definition info_of :: "tool \<Rightarrow> mcp_tool_info" where
  "info_of t = \<lparr>mi_name = tl_name t, mi_description = tl_description t,
     mi_input_schema = json_index (tl_schema t) ''input_schema''\<rparr>"

definition offered :: "tool_registry \<Rightarrow> tool list" where
  "offered reg = filter (\<lambda>t. tl_name t \<noteq> ''find_tools'') (map (\<lambda>(_, t, _). t) (reg_tools reg))"

lemma self_described_fields:
  assumes "self_described t"
  shows "json_index (tl_schema t) ''name'' = JString (tl_name t)"
    "json_index (tl_schema t) ''description'' = JString (tl_description t)"
proof -
  obtain inp where "tl_schema t = erased_schema (tl_name t) (tl_description t) inp"
    using assms by (auto simp: self_described_def)
  then show "json_index (tl_schema t) ''name'' = JString (tl_name t)"
    "json_index (tl_schema t) ''description'' = JString (tl_description t)"
    by (simp_all add: erased_schema_def obj_get_from del: obj_from.simps)
qed

lemma listed_info: "self_described t \<Longrightarrow> tool_info_of (listed_tool (tl_schema t)) = info_of t"
  using self_described_fields [of t]
  by (simp add: tool_info_of_def listed_tool_def info_of_def obj_get_from str_or_def del: obj_from.simps)

lemma adapter_schema: "self_described t \<Longrightarrow> tl_schema (mcp_adapter cl (info_of t)) = tl_schema t"
  by (simp add: self_described_def mcp_adapter_def info_of_def)

lemma list_tools_served:
  assumes "well_described reg" "reads_back jt (list_request (ids tick))" "reads_back jt (list_reply (ids tick) reg)"
  shows "list_tools (server_client jt version gone reg ids) tick = Ok (map info_of (offered reg))"
proof -
  let ?cl = "server_client jt version gone reg ids"
  have ids: "cl_ids ?cl = ids" by (simp add: server_client_def http_client_def)
  let ?ts = "map (\<lambda>(_, t, _). t) (reg_tools reg)"
  have desc: "t \<in> set ?ts \<Longrightarrow> self_described t" for t
    using assms(1) by (auto simp: well_described_def)
  have "handle_mcp jt version reg tick (list_request (ids tick)) = Some (200, list_reply (ids tick) reg)"
    by (simp add: handle_mcp_def Let_def list_request_def list_reply_def request_fields str_or_def)
  then have sent: "cl_send ?cl tick (list_request (ids tick)) = Ok (list_reply (ids tick) reg)"
    using assms(2,3) by (simp add: send_served reads_back_def)
  have gen: "map tool_info_of (map listed_tool (filter (\<lambda>s. as_str (json_index s ''name'') \<noteq> Some ''find_tools'')
      (map tl_schema ts))) = map info_of (filter (\<lambda>t. tl_name t \<noteq> ''find_tools'') ts)"
    if "\<And>t. t \<in> set ts \<Longrightarrow> self_described t" for ts
    using that by (induction ts) (simp_all add: listed_info self_described_fields)
  have schemas: "all_schemas reg = map tl_schema ?ts" by (simp add: all_schemas_def comp_def case_prod_unfold)
  have "map tool_info_of (map listed_tool
      (filter (\<lambda>s. as_str (json_index s ''name'') \<noteq> Some ''find_tools'') (all_schemas reg))) = map info_of (offered reg)"
    unfolding schemas offered_def by (rule gen [of ?ts]) (rule desc)
  then show ?thesis
    by (simp add: list_tools_def ids list_request_def [symmetric] sent)
      (simp add: list_reply_def reply_fields obj_get_from del: obj_from.simps)
qed

lemma find_tool_populated:
  assumes "distinct (map mi_name infos)"
  shows "find_tool (fold (\<lambda>info. register_erased (mcp_adapter cl info) mcp_options) infos reg) n
    = (case List.find (\<lambda>info. mi_name info = n) infos of Some info \<Rightarrow> Some (mcp_adapter cl info) | None \<Rightarrow> find_tool reg n)"
  using assms
proof (induction infos arbitrary: reg)
  case (Cons info infos)
  have "List.find (\<lambda>x. mi_name x = mi_name info) infos = None" using Cons.prems by (fastforce simp: find_None_iff image_iff)
  then show ?case using Cons by (auto simp: find_tool_def register_erased_def mcp_adapter_def split: option.split)
qed simp

definition entry_tool :: "string \<times> tool \<times> tool_options \<Rightarrow> tool" where
  "entry_tool e = fst (snd e)"

lemma find_entry:
  assumes "\<forall>e \<in> set es. tl_name (entry_tool e) = fst e"
  shows "List.find (\<lambda>info. mi_name info = n) (map info_of (filter (\<lambda>t. tl_name t \<noteq> m) (map entry_tool es)))
      = (if n = m then None else map_option (\<lambda>e. info_of (fst e)) (map_of es n))"
  using assms
proof (induction es)
  case (Cons e es)
  then show ?case by (cases e) (auto simp: info_of_def entry_tool_def)
qed simp

lemma offered_find:
  assumes "well_described reg"
  shows "distinct (map mi_name (map info_of (offered reg)))"
    "List.find (\<lambda>info. mi_name info = n) (map info_of (offered reg))
      = (if n = ''find_tools'' then None else map_option info_of (find_tool reg n))"
proof -
  let ?ts = "map entry_tool (reg_tools reg)"
  have entries: "offered reg = filter (\<lambda>t. tl_name t \<noteq> ''find_tools'') ?ts"
    by (simp add: offered_def entry_tool_def [abs_def] case_prod_unfold)
  have keyed: "\<forall>e \<in> set (reg_tools reg). tl_name (entry_tool e) = fst e" and dist: "distinct (map fst (reg_tools reg))"
    using assms by (force simp: well_described_def entry_tool_def)+
  have names: "map tl_name ?ts = map fst (reg_tools reg)" using keyed by simp
  have "distinct (map tl_name ?ts)" unfolding names by (rule dist)
  then have "distinct (map tl_name (offered reg))" unfolding entries by (rule distinct_map_filter)
  then show "distinct (map mi_name (map info_of (offered reg)))" by (simp add: comp_def info_of_def)
  show "List.find (\<lambda>info. mi_name info = n) (map info_of (offered reg))
      = (if n = ''find_tools'' then None else map_option info_of (find_tool reg n))"
    unfolding entries find_entry [OF keyed] by (simp add: find_tool_def option.map_comp comp_def)
qed

lemma call_served:
  assumes "reads_back jt (call_request (ids tick) name args)"
    and "\<And>st r. handle_mcp jt version reg tick (call_request (ids tick) name args) = Some (st, r) \<Longrightarrow> reads_back jt r"
  shows "call_tool (server_client jt version gone reg ids) tick name args
    = (case execute reg tick name args of
         Panics \<Rightarrow> Err (McpConnection gone)
       | Returns (Ok v) \<Rightarrow> Ok (JString (jt_print jt v))
       | Returns (Err e) \<Rightarrow> Err (McpToolCall (tool_error_text e)))"
proof -
  let ?cl = "server_client jt version gone reg ids" and ?req = "call_request (ids tick) name args"
  have ids: "cl_ids ?cl = ids" by (simp add: server_client_def http_client_def)
  have fields: "json_index ?req ''method'' = JString ''tools/call''" "json_index ?req ''id'' = JString (ids tick)"
    "json_index (json_index ?req ''params'') ''name'' = JString name"
    "json_index (json_index ?req ''params'') ''arguments'' = args"
    by (simp_all add: call_request_def request_fields obj_get_from del: obj_from.simps)
  let ?r = "handle_mcp jt version reg tick ?req"
  have handled: "?r = (case execute reg tick name args of
        Panics \<Rightarrow> None
      | Returns (Ok v) \<Rightarrow> Some (200, rpc_result (JString (ids tick)) (text_content (jt_print jt v)))
      | Returns (Err e) \<Rightarrow> Some (200, rpc_error (JString (ids tick)) (-32000) (tool_error_text e)))"
    by (simp add: handle_mcp_def Let_def fields str_or_def)
  have sent: "cl_send ?cl tick ?req = (case ?r of None \<Rightarrow> Err (McpConnection gone) | Some (st, r) \<Rightarrow> Ok r)"
    using assms by (auto simp: send_served reads_back_def split: option.split)
  show ?thesis
    by (simp add: call_tool_def ids sent handled split: tool_run.split sum.split)
      (simp add: call_result_def reply_fields text_content_def str_or_def List.map_filter_def obj_get_from del: obj_from.simps)
qed

lemma execute_found: "find_tool reg name = Some t \<Longrightarrow> execute reg tick name args = tl_exec t tick args"
  by (simp add: execute_def)

text \<open>
  C8. A remote tool stands for its original. A registry populated from a server over another
  registry gets one tool for each tool that registry has, its search tool apart, under the
  same name with the same description and schema; it keeps its other tools, and a tool of its
  own with one of these names is replaced. Running such a tool gives the text of what the
  original gives, or an execution error with the original's error in it; a panic of the
  original is a connection error. The messages exchanged are assumed to survive printing and
  parsing.
\<close>

theorem remote_tool_stands_for_its_original:
  assumes "well_described reg" "cl = server_client jt version gone reg ids"
    and "reads_back jt (list_request (ids t0))" "reads_back jt (list_reply (ids t0) reg)"
    and "populate cl t0 own = (r, own')"
  shows "r = Ok (length (offered reg))
    \<and> (\<forall>n. n = ''find_tools'' \<or> find_tool reg n = None \<longrightarrow> find_tool own' n = find_tool own n)
    \<and> (\<forall>n t. find_tool reg n = Some t \<longrightarrow> n \<noteq> ''find_tools'' \<longrightarrow>
        (\<exists>t'. find_tool own' n = Some t' \<and> tl_name t' = tl_name t \<and> tl_description t' = tl_description t
          \<and> tl_schema t' = tl_schema t
          \<and> (\<forall>tick args. reads_back jt (call_request (ids tick) n args) \<longrightarrow>
              (\<forall>st a. handle_mcp jt version reg tick (call_request (ids tick) n args) = Some (st, a) \<longrightarrow> reads_back jt a) \<longrightarrow>
              tl_exec t' tick args = Returns (case tl_exec t tick args of
                Panics \<Rightarrow> Err (Execution (''Connection error: '' @ gone))
              | Returns (Ok v) \<Rightarrow> Ok (JString (jt_print jt v))
              | Returns (Err e) \<Rightarrow> Err (Execution (''Tool call error: '' @ tool_error_text e))))))"
proof -
  have pop: "r = Ok (length (offered reg))"
    "own' = fold (\<lambda>info. register_erased (mcp_adapter cl info) mcp_options) (map info_of (offered reg)) own"
    using assms(5) list_tools_served [of reg jt ids t0, OF assms(1,3,4)] by (simp_all add: populate_def assms(2))
  have found: "find_tool own' n = (if n = ''find_tools'' then find_tool own n
      else case find_tool reg n of Some t \<Rightarrow> Some (mcp_adapter cl (info_of t)) | None \<Rightarrow> find_tool own n)" for n
    unfolding pop(2) find_tool_populated [OF offered_find(1) [OF assms(1)]] offered_find(2) [OF assms(1)]
    by (simp split: option.split)
  have "tl_exec (mcp_adapter cl (info_of t)) tick args = Returns (case tl_exec t tick args of
                Panics \<Rightarrow> Err (Execution (''Connection error: '' @ gone))
              | Returns (Ok v) \<Rightarrow> Ok (JString (jt_print jt v))
              | Returns (Err e) \<Rightarrow> Err (Execution (''Tool call error: '' @ tool_error_text e)))"
    if "find_tool reg n = Some t" "tl_name t = n" "reads_back jt (call_request (ids tick) n args)"
      "\<forall>st a. handle_mcp jt version reg tick (call_request (ids tick) n args) = Some (st, a) \<longrightarrow> reads_back jt a"
    for n t tick args
    using call_served [of jt ids tick n args version reg gone] that assms(2) execute_found [OF that(1)]
    by (simp add: mcp_adapter_def info_of_def split: tool_run.split sum.split)
  moreover have "tl_name t = n \<and> self_described t" if "find_tool reg n = Some t" for n t
    using assms(1) that by (fastforce simp: well_described_def find_tool_def dest: map_of_SomeD)
  moreover have "tl_name (mcp_adapter cl (info_of t)) = tl_name t" "tl_description (mcp_adapter cl (info_of t)) = tl_description t" for t
    by (simp_all add: mcp_adapter_def info_of_def)
  ultimately show ?thesis using pop(1) adapter_schema by (auto simp: found)
qed

section \<open>Samples\<close>

definition sample_served :: tool_registry where
  "sample_served = register (sample_tool ''adds'') empty_registry"

definition sample_table :: "(string \<times> json) list" where
  "sample_table = [(''q'', list_request ''1''), (''r'', list_reply ''1'' sample_served),
     (''c'', call_request ''1'' ''calc'' JNull), (''a'', rpc_result (JString ''1'') (text_content []))]"

definition sample_json :: json_text where
  "sample_json = \<lparr>jt_print = (\<lambda>v. case List.find (\<lambda>e. snd e = v) sample_table of Some e \<Rightarrow> fst e | None \<Rightarrow> []),
     jt_parse = (\<lambda>s. case map_of sample_table s of Some v \<Rightarrow> Ok v | None \<Rightarrow> Err ''no JSON'')\<rparr>"

definition sample_remote :: mcp_client where
  "sample_remote = server_client sample_json ''1.0'' ''closed'' sample_served (\<lambda>_. ''1'')"

lemma sample_reads_back:
  "reads_back sample_json (list_request ''1'')" "reads_back sample_json (list_reply ''1'' sample_served)"
  "reads_back sample_json (call_request ''1'' ''calc'' JNull)"
  "reads_back sample_json (rpc_result (JString ''1'') (text_content []))"
  "handle_mcp sample_json ''1.0'' sample_served 0 (call_request ''1'' ''calc'' JNull)
    = Some (200, rpc_result (JString ''1'') (text_content []))"
  by code_simp+

lemma sample_served_found:
  "find_tool sample_served ''calc'' = Some (sample_tool ''adds'')" "well_described sample_served"
  "tl_exec (sample_tool ''adds'') 0 JNull = Returns (Ok JNull)" "jt_print sample_json JNull = []"
proof -
  have "self_described (sample_tool ''adds'')" unfolding sample_tool_def by (rule self_described_erased)
  moreover have "well_described empty_registry" by (simp add: well_described_def)
  ultimately show "well_described sample_served"
    unfolding sample_served_def register_def register_with_options_def by (intro well_described_put)
  have "tl_name (sample_tool ''adds'') = ''calc''" by (simp add: sample_tool_def erase_tool_def)
  then show "find_tool sample_served ''calc'' = Some (sample_tool ''adds'')"
    by (simp add: sample_served_def register_def register_with_options_def find_tool_def)
  show "tl_exec (sample_tool ''adds'') 0 JNull = Returns (Ok JNull)"
    by (simp add: sample_tool_def erase_tool_def execute_raw_def)
  show "jt_print sample_json JNull = []"
    by (simp add: sample_json_def sample_table_def list_request_def list_reply_def call_request_def rpc_request_def
        rpc_result_def del: obj_from.simps)
qed

lemma remote_tool_stands_for_its_original_witness:
  "\<exists>t'. find_tool (snd (populate sample_remote 0 empty_registry)) ''calc'' = Some t'
    \<and> tl_exec t' 0 JNull = Returns (Ok (JString []))"
proof -
  let ?t = "sample_tool ''adds''"
  have other: "''calc'' \<noteq> ''find_tools''" by simp
  obtain t' where t': "find_tool (snd (populate sample_remote 0 empty_registry)) ''calc'' = Some t'"
    and runs: "reads_back sample_json (call_request ''1'' ''calc'' JNull) \<longrightarrow>
      (\<forall>st a. handle_mcp sample_json ''1.0'' sample_served 0 (call_request ''1'' ''calc'' JNull) = Some (st, a)
        \<longrightarrow> reads_back sample_json a) \<longrightarrow>
      tl_exec t' 0 JNull = Returns (case tl_exec ?t 0 JNull of
          Panics \<Rightarrow> Err (Execution (''Connection error: '' @ ''closed''))
        | Returns (Ok v) \<Rightarrow> Ok (JString (jt_print sample_json v))
        | Returns (Err e) \<Rightarrow> Err (Execution (''Tool call error: '' @ tool_error_text e)))"
    using remote_tool_stands_for_its_original [OF sample_served_found(2) sample_remote_def sample_reads_back(1,2) surjective_pairing,
        THEN conjunct2, THEN conjunct2, THEN spec, THEN spec, THEN mp, OF sample_served_found(1), THEN mp, OF other]
    by blast
  have "reads_back sample_json a"
    if "handle_mcp sample_json ''1.0'' sample_served 0 (call_request ''1'' ''calc'' JNull) = Some (st, a)" for st a
    using that unfolding sample_reads_back(5) using sample_reads_back(4) by blast
  then have "tl_exec t' 0 JNull = Returns (Ok (JString []))"
    using runs sample_reads_back(3) unfolding sample_served_found(3) by (simp add: sample_served_found(4))
  then show ?thesis using t' by blast
qed

end
