(* ===== verification/Mcp_Stdio.thy ===== *)
theory Mcp_Stdio
  imports Mcp
begin

text \<open>
  The client of the Model Context Protocol over the pipes of a child process
  (\<open>InnerClient::Stdio\<close> of \<open>avs-mcp/src/client.rs\<close>). A call locks the child's input, writes
  its request as a line and lets the lock go; then it locks the output, reads one line and
  takes it for its reply: the id of the reply is not looked at. Calls of one client run
  concurrently (the tools of a batch do), so a state of the pipes steps by a write, by the
  child answering the next request, by a read, or by a call being dropped between its write
  and its read. The child answers the requests in their order, one line each.
\<close>

text \<open>A call in flight: who makes it, as which request of all, and the request. A finished
  call has its reply too. \<open>io_written\<close> are all requests ever written, \<open>io_dropped\<close> the numbers
  of those whose call was dropped.\<close>

record stdio =
  io_stdin :: "json list"
  io_stdout :: "string list"
  io_waiting :: "(nat \<times> nat \<times> json) list"
  io_written :: "json list"
  io_dropped :: "nat list"
  io_done :: "(nat \<times> nat \<times> json \<times> (mcp_error + json)) list"

definition stdio_start :: stdio where
  "stdio_start = \<lparr>io_stdin = [], io_stdout = [], io_waiting = [], io_written = [], io_dropped = [], io_done = []\<rparr>"

definition stdio_write :: "nat \<Rightarrow> json \<Rightarrow> stdio \<Rightarrow> stdio" where
  "stdio_write c req s = s\<lparr>io_stdin := io_stdin s @ [req],
     io_waiting := io_waiting s @ [(c, length (io_written s), req)], io_written := io_written s @ [req]\<rparr>"

definition stdio_answer :: "(json \<Rightarrow> string) \<Rightarrow> stdio \<Rightarrow> stdio" where
  "stdio_answer answer s = (case io_stdin s of
     [] \<Rightarrow> s | req # rest \<Rightarrow> s\<lparr>io_stdin := rest, io_stdout := io_stdout s @ [answer req]\<rparr>)"

definition read_reply :: "json_text \<Rightarrow> string \<Rightarrow> mcp_error + json" where
  "read_reply jt line = map_err McpParse (jt_parse jt (trim line))"

text \<open>A read by one of the waiting calls, where the output has a line.\<close>

definition stdio_read :: "json_text \<Rightarrow> nat \<times> nat \<times> json \<Rightarrow> stdio \<Rightarrow> stdio" where
  "stdio_read jt w s = (case io_stdout s of
     [] \<Rightarrow> s
   | line # rest \<Rightarrow> s\<lparr>io_stdout := rest, io_waiting := remove1 w (io_waiting s),
       io_done := io_done s @ [(fst w, fst (snd w), snd (snd w), read_reply jt line)]\<rparr>)"

definition stdio_drop :: "nat \<times> nat \<times> json \<Rightarrow> stdio \<Rightarrow> stdio" where
  "stdio_drop w s = s\<lparr>io_waiting := remove1 w (io_waiting s), io_dropped := io_dropped s @ [fst (snd w)]\<rparr>"

text \<open>The answer of the child to a request is a parameter. Where calls may not overlap, a
  call writes only when no other is in flight.\<close>

inductive stdio_step :: "json_text \<Rightarrow> (json \<Rightarrow> string) \<Rightarrow> bool \<Rightarrow> stdio \<Rightarrow> stdio \<Rightarrow> bool" for jt answer overlap where
  do_write: "overlap \<or> io_waiting s = [] \<Longrightarrow> stdio_step jt answer overlap s (stdio_write c req s)"
| do_answer: "stdio_step jt answer overlap s (stdio_answer answer s)"
| do_read: "w \<in> set (io_waiting s) \<Longrightarrow> stdio_step jt answer overlap s (stdio_read jt w s)"
| do_drop: "w \<in> set (io_waiting s) \<Longrightarrow> stdio_step jt answer overlap s (stdio_drop w s)"

inductive reachable_stdio :: "json_text \<Rightarrow> (json \<Rightarrow> string) \<Rightarrow> bool \<Rightarrow> stdio \<Rightarrow> bool" for jt answer overlap where
  io_start: "reachable_stdio jt answer overlap stdio_start"
| io_step: "reachable_stdio jt answer overlap s \<Longrightarrow> stdio_step jt answer overlap s s' \<Longrightarrow> reachable_stdio jt answer overlap s'"

lemmas stdio_ops = stdio_write_def stdio_answer_def stdio_read_def stdio_drop_def

section \<open>Replies follow the writes\<close>

definition reply_of :: "nat \<times> nat \<times> json \<times> (mcp_error + json) \<Rightarrow> mcp_error + json" where
  "reply_of d = snd (snd (snd d))"

definition in_order :: "json_text \<Rightarrow> (json \<Rightarrow> string) \<Rightarrow> stdio \<Rightarrow> bool" where
  "in_order jt answer s \<longleftrightarrow>
     map reply_of (io_done s) @ map (read_reply jt) (io_stdout s) @ map (\<lambda>q. read_reply jt (answer q)) (io_stdin s)
     = map (\<lambda>q. read_reply jt (answer q)) (io_written s)"

lemma in_order_step: "stdio_step jt answer overlap s s' \<Longrightarrow> in_order jt answer s \<Longrightarrow> in_order jt answer s'"
  by (induction rule: stdio_step.induct) (auto simp: in_order_def stdio_ops reply_of_def split: list.split)

lemma in_order_reachable: "reachable_stdio jt answer overlap s \<Longrightarrow> in_order jt answer s"
proof (induction rule: reachable_stdio.induct)
  case (io_step s s')
  then show ?case using in_order_step by blast
qed (simp add: in_order_def stdio_start_def)

lemma reply_at:
  assumes "reachable_stdio jt answer overlap s" "k < length (io_done s)"
  shows "k < length (io_written s) \<and> reply_of (io_done s ! k) = read_reply jt (answer (io_written s ! k))"
proof -
  have eq: "map reply_of (io_done s) @ map (read_reply jt) (io_stdout s) @ map (\<lambda>q. read_reply jt (answer q)) (io_stdin s)
     = map (\<lambda>q. read_reply jt (answer q)) (io_written s)"
    using in_order_reachable [OF assms(1)] by (simp add: in_order_def)
  have len: "k < length (io_written s)" using arg_cong [OF eq, of length] assms(2) by simp
  show ?thesis using len arg_cong [OF eq, of "\<lambda>xs. xs ! k"] assms(2) by (simp add: nth_append)
qed

section \<open>Calls that do not overlap\<close>

definition dropped_before :: "stdio \<Rightarrow> nat \<Rightarrow> nat" where
  "dropped_before s j = length (filter (\<lambda>d. d < j) (io_dropped s))"

definition numbered :: "stdio \<Rightarrow> nat \<Rightarrow> bool" where
  "numbered s n \<longleftrightarrow> (\<forall>k < length (io_done s). case io_done s ! k of (c, j, req, r) \<Rightarrow>
     j < n \<and> req = io_written s ! j \<and> k + dropped_before s j = j)"

definition alone_inv :: "stdio \<Rightarrow> bool" where
  "alone_inv s \<longleftrightarrow>
     length (io_written s) = length (io_done s) + length (io_waiting s) + length (io_dropped s)
     \<and> (io_waiting s = [] \<or> (\<exists>c req. io_waiting s = [(c, length (io_written s) - 1, req)] \<and> io_written s \<noteq> []
          \<and> req = io_written s ! (length (io_written s) - 1)))
     \<and> (\<forall>d \<in> set (io_dropped s). d < length (io_written s) - length (io_waiting s))
     \<and> numbered s (length (io_written s) - length (io_waiting s))"

lemma alone_inv_single:
  assumes "length (io_written s) = Suc n" "io_waiting s = [(c, n, io_written s ! n)]"
    "length (io_done s) + length (io_dropped s) = n" "\<forall>d \<in> set (io_dropped s). d < n" "numbered s n"
  shows "alone_inv s"
proof -
  have "io_written s \<noteq> []" using assms(1) by auto
  then show ?thesis using assms(3-5) by (simp add: alone_inv_def assms(1,2))
qed

lemma alone_inv_write:
  assumes "alone_inv s" "io_waiting s = []"
  shows "alone_inv (stdio_write c req s)"
proof -
  obtain n where n: "length (io_written s) = n" by simp
  have inv: "length (io_done s) + length (io_dropped s) = n" "\<forall>d \<in> set (io_dropped s). d < n" "numbered s n"
    using assms(1) unfolding alone_inv_def assms(2) n list.size add_0_right diff_zero by argo+
  let ?s = "stdio_write c req s"
  have s': "io_written ?s = io_written s @ [req]" "io_waiting ?s = [(c, n, req)]" "io_done ?s = io_done s"
    "io_dropped ?s = io_dropped s" "dropped_before ?s = dropped_before s"
    using assms(2) n by (simp_all add: stdio_write_def dropped_before_def fun_eq_iff)
  have "(io_written s @ [req]) ! n = req" using n by (simp add: nth_append)
  moreover have "numbered ?s n"
    using inv(3) n unfolding numbered_def s' by (fastforce simp: nth_append split: prod.splits)
  ultimately show ?thesis using inv n by (intro alone_inv_single [of _ n c]) (simp_all add: s')
qed

lemma alone_inv_waiting:
  assumes "alone_inv s" "w \<in> set (io_waiting s)"
  obtains c n where "w = (c, n, io_written s ! n)" "io_waiting s = [w]" "length (io_written s) = Suc n"
    "n = length (io_done s) + length (io_dropped s)" "\<forall>d \<in> set (io_dropped s). d < n" "numbered s n"
proof -
  obtain c where w: "io_waiting s = [(c, length (io_written s) - 1, io_written s ! (length (io_written s) - 1))]"
    "io_written s \<noteq> []" using assms unfolding alone_inv_def by (metis list.set_cases list.distinct(1))
  then obtain n where n: "length (io_written s) = Suc n" by (cases "length (io_written s)") simp_all
  then have one: "io_waiting s = [(c, n, io_written s ! n)]" "length (io_written s) - length (io_waiting s) = n"
    using w(1) by simp_all
  have inv: "length (io_written s) = length (io_done s) + length (io_waiting s) + length (io_dropped s)"
    "\<forall>d \<in> set (io_dropped s). d < length (io_written s) - length (io_waiting s)"
    "numbered s (length (io_written s) - length (io_waiting s))"
    using assms(1) unfolding alone_inv_def by blast+
  show thesis
  proof (rule that [of c n])
    show "w = (c, n, io_written s ! n)" "io_waiting s = [w]" using assms(2) by (simp_all add: one(1))
    show "n = length (io_done s) + length (io_dropped s)" using inv(1) n by (simp add: one(1))
    show "\<forall>d \<in> set (io_dropped s). d < n" "numbered s n" using inv(2,3) unfolding one(2) .
  qed (rule n)
qed

lemma alone_inv_answer: "alone_inv (stdio_answer answer s) = alone_inv s"
  by (simp only: alone_inv_def numbered_def stdio_answer_def dropped_before_def) (simp split: list.split)

lemma alone_inv_idle:
  assumes "io_waiting s = []" "length (io_written s) = length (io_done s) + length (io_dropped s)"
    "\<forall>d \<in> set (io_dropped s). d < length (io_written s)" "numbered s (length (io_written s))"
  shows "alone_inv s"
  using assms by (simp add: alone_inv_def)

lemma alone_inv_read:
  assumes "alone_inv s" "w \<in> set (io_waiting s)"
  shows "alone_inv (stdio_read jt w s)"
proof (cases "io_stdout s")
  case (Cons line rest)
  obtain c n where w: "w = (c, n, io_written s ! n)" "io_waiting s = [w]" "length (io_written s) = Suc n"
    and n: "n = length (io_done s) + length (io_dropped s)" "\<forall>d \<in> set (io_dropped s). d < n" "numbered s n"
    by (rule alone_inv_waiting [OF assms])
  let ?s = "stdio_read jt w s"
  have s': "io_written ?s = io_written s" "io_waiting ?s = []" "io_dropped ?s = io_dropped s"
    "io_done ?s = io_done s @ [(c, n, io_written s ! n, read_reply jt line)]" "dropped_before ?s = dropped_before s"
    using Cons w(1,2) by (simp_all add: stdio_read_def dropped_before_def fun_eq_iff)
  have "filter (\<lambda>d. d < n) (io_dropped s) = io_dropped s" using n(2) by (simp add: filter_id_conv)
  then have all: "n = length (io_done s) + dropped_before s n" using n(1) by (simp add: dropped_before_def)
  have "numbered ?s (Suc n)"
    unfolding numbered_def
  proof (intro allI impI)
    fix k
    assume k: "k < length (io_done ?s)"
    show "case io_done ?s ! k of (c, j, req, r) \<Rightarrow> j < Suc n \<and> req = io_written ?s ! j \<and> k + dropped_before ?s j = j"
    proof (cases "k < length (io_done s)")
      case True
      then show ?thesis using n(3) by (fastforce simp: s' nth_append numbered_def)
    next
      case False
      then have "k = length (io_done s)" using k s' by simp
      then show ?thesis using all by (simp add: s')
    qed
  qed
  then show ?thesis using w(3) n s' by (intro alone_inv_idle) (simp_all add: less_SucI)
qed (use assms in \<open>simp add: stdio_read_def\<close>)

lemma alone_inv_drop:
  assumes "alone_inv s" "w \<in> set (io_waiting s)"
  shows "alone_inv (stdio_drop w s)"
proof -
  obtain c n where w: "w = (c, n, io_written s ! n)" "io_waiting s = [w]" "length (io_written s) = Suc n"
    and n: "n = length (io_done s) + length (io_dropped s)" "\<forall>d \<in> set (io_dropped s). d < n" "numbered s n"
    by (rule alone_inv_waiting [OF assms])
  let ?s = "stdio_drop w s"
  have s': "io_written ?s = io_written s" "io_waiting ?s = []" "io_done ?s = io_done s" "io_dropped ?s = io_dropped s @ [n]"
    using w(1,2) by (simp_all add: stdio_drop_def)
  have "dropped_before ?s j = dropped_before s j" if "j < n" for j
    using that by (simp add: dropped_before_def s')
  then have "numbered ?s (Suc n)" using n(3) unfolding numbered_def s' by (fastforce split: prod.splits)
  then show ?thesis using w(3) n s' by (intro alone_inv_idle) (auto simp: less_SucI)
qed

lemma alone_inv_reachable: "reachable_stdio jt answer False s \<Longrightarrow> alone_inv s"
proof (induction rule: reachable_stdio.induct)
  case (io_step s s')
  from io_step.hyps(2) io_step.IH show ?case
    by cases (auto simp: alone_inv_answer intro: alone_inv_write alone_inv_read alone_inv_drop)
qed (simp add: alone_inv_def numbered_def stdio_start_def)


section \<open>Calls that overlap\<close>

text \<open>
  Overlapping calls can take each other's replies: of two calls of one client in flight
  together (the calls of a batch run so), with no call dropped, each can return the other's
  reply as its own.
\<close>

theorem overlapping_calls_swap_replies:
  "\<exists>s. reachable_stdio jt answer True s \<and> io_dropped s = [] \<and> io_waiting s = []
    \<and> io_done s = [(1, 1, b, read_reply jt (answer a)), (0, 0, a, read_reply jt (answer b))]"
proof -
  let ?s1 = "stdio_write 1 b (stdio_write 0 a stdio_start)"
  let ?s2 = "stdio_answer answer (stdio_answer answer ?s1)"
  let ?s3 = "stdio_read jt (0, 0, a) (stdio_read jt (1, 1, b) ?s2)"
  have "reachable_stdio jt answer True ?s2"
    by (intro io_step [OF _ do_answer] io_step [OF _ do_write] io_start) simp_all
  moreover have "(1, 1, b) \<in> set (io_waiting ?s2)" "(0, 0, a) \<in> set (io_waiting (stdio_read jt (1, 1, b) ?s2))"
    by (simp_all add: stdio_ops stdio_start_def)
  ultimately have "reachable_stdio jt answer True ?s3" by (intro io_step [OF _ do_read])
  moreover have "io_dropped ?s3 = [] \<and> io_waiting ?s3 = []
    \<and> io_done ?s3 = [(1, 1, b, read_reply jt (answer a)), (0, 0, a, read_reply jt (answer b))]"
    by (simp add: stdio_ops stdio_start_def)
  ultimately show ?thesis by blast
qed

section \<open>A sample\<close>

definition sample_child :: "json \<Rightarrow> string" where
  "sample_child q = (if q = JNull then ''q'' else ''c'')"

definition sample_queued :: stdio where
  "sample_queued = stdio_write 1 (JBool True) (stdio_drop (0, 0, JNull) (stdio_write 0 JNull stdio_start))"

definition sample_pipes :: stdio where
  "sample_pipes = stdio_read sample_json (1, 1, JBool True) (stdio_answer sample_child sample_queued)"

lemma sample_queued_fields:
  "io_waiting sample_queued = [(1, 1, JBool True)]" "io_stdin sample_queued = [JNull, JBool True]"
  "io_written sample_queued = [JNull, JBool True]" "io_dropped sample_queued = [0]" "io_done sample_queued = []"
  "io_stdout sample_queued = []"
  by (simp_all add: sample_queued_def stdio_write_def stdio_drop_def stdio_start_def)

lemma sample_queued_reachable: "reachable_stdio sample_json sample_child False sample_queued"
proof -
  let ?s1 = "stdio_write 0 JNull stdio_start"
  have "reachable_stdio sample_json sample_child False ?s1"
    by (rule io_step [OF io_start do_write]) (simp add: stdio_start_def)
  then have "reachable_stdio sample_json sample_child False (stdio_drop (0, 0, JNull) ?s1)"
    by (rule io_step [OF _ do_drop]) (simp add: stdio_write_def stdio_start_def)
  then show ?thesis
    unfolding sample_queued_def by (rule io_step [OF _ do_write]) (simp add: stdio_drop_def stdio_write_def stdio_start_def)
qed

lemma sample_pipes_reachable: "reachable_stdio sample_json sample_child False sample_pipes"
proof -
  have "reachable_stdio sample_json sample_child False (stdio_answer sample_child sample_queued)"
    by (rule io_step [OF sample_queued_reachable do_answer])
  then show ?thesis
    unfolding sample_pipes_def by (rule io_step [OF _ do_read]) (simp add: stdio_answer_def sample_queued_fields)
qed

lemma sample_pipes_done: "io_done sample_pipes = [(1, 1, JBool True, read_reply sample_json (sample_child JNull))]"
  by (simp add: sample_pipes_def stdio_read_def stdio_answer_def sample_queued_fields)


end
