(* ===== verification/Integration.thy ===== *)
theory Integration
  imports Json Effects
begin

text \<open>
  The connectors to outside platforms (\<open>avs-integration/src\<close>): the event exchanged
  (\<open>event.rs\<close>), the GitHub and Slack connectors with their webhooks (\<open>github.rs\<close>,
  \<open>slack.rs\<close>), the console and the WhatsApp stub, the trait objects that hold them
  (\<open>connector.rs\<close>), the configuration and the loop that receives, handles and sends
  (\<open>config.rs\<close>, \<open>runtime.rs\<close>).

  The keyed hash (\<open>hmac\<close>, in hexadecimal), parsing JSON, the platforms' answers to a post
  and the handler of events are parameters.
\<close>

section \<open>Events and connectors\<close>

record event =
  ev_id :: uuid
  ev_conversation :: string
  ev_user :: string
  ev_text :: string
  ev_metadata :: "(string \<times> string) list"

datatype connector_error = Connection string | Auth string | Platform string | Eof

datatype integration_error = InputError connector_error | OutputError string connector_error | IntegrationConfigError string

datatype connector =
    SlackConnector (bot_token: string) (signing_secret: string) (sl_port: nat)
  | GithubConnector (gh_token: string) (webhook_secret: string) (gh_port: nat)
  | WhatsAppConnector (wa_api_key: string) (wa_phone_number_id: string)
  | ConsoleConnector

fun connector_name :: "connector \<Rightarrow> string" where
  "connector_name (SlackConnector _ _ _) = ''slack''"
| "connector_name (GithubConnector _ _ _) = ''github''"
| "connector_name (WhatsAppConnector _ _) = ''whatsapp''"
| "connector_name ConsoleConnector = ''console''"

text \<open>A trait object holds a connector itself or, where it serves as input and output, a
  shared pointer to one. Starting is spawning the listener; the implementation of the trait
  for a shared pointer forwards the name and leaves \<open>start\<close> to the default, which does
  nothing. The state is the connectors whose listeners run.\<close>

datatype handle = Owned connector | Shared connector

fun held :: "handle \<Rightarrow> connector" where
  "held (Owned c) = c"
| "held (Shared c) = c"

definition default_start :: "connector list \<Rightarrow> (connector_error + unit) \<times> connector list" where
  "default_start = eff_ok ()"

fun start_connector :: "connector \<Rightarrow> connector list \<Rightarrow> (connector_error + unit) \<times> connector list" where
  "start_connector (SlackConnector t s p) listening = (Ok (), listening @ [SlackConnector t s p])"
| "start_connector (GithubConnector t s p) listening = (Ok (), listening @ [GithubConnector t s p])"
| "start_connector (WhatsAppConnector k n) listening = default_start listening"
| "start_connector ConsoleConnector listening = default_start listening"

fun start_handle :: "handle \<Rightarrow> connector list \<Rightarrow> (connector_error + unit) \<times> connector list" where
  "start_handle (Owned c) listening = start_connector c listening"
| "start_handle (Shared c) listening = default_start listening"

section \<open>The webhooks\<close>

text \<open>A request that arrives: its headers as far as they are text, and its body.\<close>

record webhook_request =
  wr_header :: "string \<Rightarrow> string option"
  wr_body :: string

record webhook_env =
  we_hmac :: "string \<Rightarrow> string \<Rightarrow> string"
  we_parse :: "string \<Rightarrow> string + json"
  we_uuid :: "webhook_request \<Rightarrow> uuid"

text \<open>The outcome of a webhook: the status of a refusal, or the body of the answer and the
  event it puts into the channel.\<close>

type_synonym hook_result = "nat + json \<times> event option"

definition hook_ok :: json where "hook_ok = JObject [(''ok'', JBool True)]"

definition verify_github_signature :: "webhook_env \<Rightarrow> string \<Rightarrow> webhook_request \<Rightarrow> nat + unit" where
  "verify_github_signature we secret rq =
     (case wr_header rq ''X-Hub-Signature-256'' of
        None \<Rightarrow> Err 401
      | Some sig \<Rightarrow> if ''sha256='' @ we_hmac we secret (wr_body rq) = sig then Ok () else Err 401)"

definition conversation_id_of :: "string \<Rightarrow> nat \<Rightarrow> string" where
  "conversation_id_of repo number = repo @ ''#'' @ show_nat number"

definition github_event :: "uuid \<Rightarrow> string \<Rightarrow> json \<Rightarrow> event option" where
  "github_event i event_type payload =
     (let repo = str_or [] (json_index (json_index payload ''repository'') ''full_name'');
          user = str_or [] (json_index (json_index payload ''sender'') ''login'');
          number_in = (\<lambda>k. case as_u64 (json_index (json_index payload k) ''number'') of Some n \<Rightarrow> n | None \<Rightarrow> 0) in
      if event_type = ''issue_comment'' \<or> event_type = ''issues'' then
        Some \<lparr>ev_id = i, ev_conversation = conversation_id_of repo (number_in ''issue''), ev_user = user,
          ev_text = (case as_str (json_index (json_index payload ''comment'') ''body'') of
             Some t \<Rightarrow> t | None \<Rightarrow> str_or [] (json_index (json_index payload ''issue'') ''body'')),
          ev_metadata = [(''event_type'', event_type)]\<rparr>
      else if event_type = ''pull_request'' then
        Some \<lparr>ev_id = i, ev_conversation = conversation_id_of repo (number_in ''pull_request''), ev_user = user,
          ev_text = str_or [] (json_index (json_index payload ''pull_request'') ''body''),
          ev_metadata = [(''event_type'', ''pull_request'')]\<rparr>
      else None)"

definition github_event_handler :: "webhook_env \<Rightarrow> string \<Rightarrow> webhook_request \<Rightarrow> hook_result" where
  "github_event_handler we secret rq =
     try_bind (verify_github_signature we secret rq) (\<lambda>_.
     try_bind (map_err (\<lambda>_. 400) (we_parse we (wr_body rq))) (\<lambda>payload.
       Ok (hook_ok, github_event (we_uuid we rq)
         (case wr_header rq ''X-GitHub-Event'' of Some t \<Rightarrow> t | None \<Rightarrow> []) payload)))"

definition verify_slack_signature :: "webhook_env \<Rightarrow> string \<Rightarrow> webhook_request \<Rightarrow> nat + unit" where
  "verify_slack_signature we secret rq =
     (case (wr_header rq ''X-Slack-Request-Timestamp'', wr_header rq ''X-Slack-Signature'') of
        (Some ts, Some sig) \<Rightarrow>
          if ''v0='' @ we_hmac we secret (''v0:'' @ ts @ '':'' @ wr_body rq) = sig then Ok () else Err 401
      | _ \<Rightarrow> Err 401)"

definition slack_event :: "uuid \<Rightarrow> json \<Rightarrow> event option" where
  "slack_event i payload =
     (case json_get ''event'' payload of
        None \<Rightarrow> None
      | Some e \<Rightarrow>
          if json_index e ''type'' = JString ''message'' \<and> json_get ''bot_id'' e = None then
            Some \<lparr>ev_id = i, ev_conversation = str_or [] (json_index e ''channel''),
              ev_user = str_or [] (json_index e ''user''), ev_text = str_or [] (json_index e ''text''), ev_metadata = []\<rparr>
          else None)"

definition slack_event_handler :: "webhook_env \<Rightarrow> string \<Rightarrow> webhook_request \<Rightarrow> hook_result" where
  "slack_event_handler we secret rq =
     try_bind (verify_slack_signature we secret rq) (\<lambda>_.
     try_bind (map_err (\<lambda>_. 400) (we_parse we (wr_body rq))) (\<lambda>payload.
       if json_index payload ''type'' = JString ''url_verification''
       then Ok (JObject [(''challenge'', json_index payload ''challenge'')], None)
       else Ok (hook_ok, slack_event (we_uuid we rq) payload)))"

text \<open>A request arriving at a connector's port: no connection where its listener does not run.\<close>

definition webhook_of :: "webhook_env \<Rightarrow> connector \<Rightarrow> webhook_request \<Rightarrow> hook_result" where
  "webhook_of we c rq = (case c of
     GithubConnector _ secret _ \<Rightarrow> github_event_handler we secret rq
   | SlackConnector _ secret _ \<Rightarrow> slack_event_handler we secret rq
   | _ \<Rightarrow> Err 404)"

definition arrive :: "webhook_env \<Rightarrow> connector list \<Rightarrow> connector \<Rightarrow> webhook_request \<Rightarrow> hook_result option" where
  "arrive we listening c rq = (if c \<in> set listening then Some (webhook_of we c rq) else None)"

section \<open>Sending\<close>

text \<open>What an output connector does with an event: a post to its platform, a line on the
  console, or an error before either.\<close>

datatype action =
    Post (post_url: string) (post_token: string) (post_body: json)
  | PrintLine string

definition rsplit_hash :: "string \<Rightarrow> (string \<times> string) option" where
  "rsplit_hash s = (if CHR 0x23 \<in> set s
     then Some (rev (tl (dropWhile (\<lambda>c. c \<noteq> CHR 0x23) (rev s))), rev (takeWhile (\<lambda>c. c \<noteq> CHR 0x23) (rev s)))
     else None)"

definition parse_conversation_id :: "string \<Rightarrow> connector_error + string \<times> string" where
  "parse_conversation_id i = (case rsplit_hash i of
     Some p \<Rightarrow> Ok p
   | None \<Rightarrow> Err (Platform (''invalid conversation_id '' @ quoted i @ '': expected '' @ quoted ''owner/repo#number'')))"

definition comments_url :: "string \<Rightarrow> string \<Rightarrow> string" where
  "comments_url repo number = ''https://api.github.com/repos/'' @ repo @ ''/issues/'' @ number @ ''/comments''"

fun send_action :: "connector \<Rightarrow> event \<Rightarrow> connector_error + action" where
  "send_action (GithubConnector token _ _) e =
     map_ok (\<lambda>(repo, number). Post (comments_url repo number) token (JObject [(''body'', JString (ev_text e))]))
       (parse_conversation_id (ev_conversation e))"
| "send_action (SlackConnector token _ _) e =
     Ok (Post ''https://slack.com/api/chat.postMessage'' token
       (JObject (obj_from [(''channel'', JString (ev_conversation e)), (''text'', JString (ev_text e))])))"
| "send_action (WhatsAppConnector _ _) e = Err (Connection ''WhatsAppConnector is not yet implemented'')"
| "send_action ConsoleConnector e = Ok (PrintLine (ev_text e @ newline))"

section \<open>The configuration\<close>

record slack_config =
  slc_port :: nat
  slc_bot_token_env :: string
  slc_signing_secret_env :: string

record github_config =
  ghc_port :: nat
  ghc_token_env :: string
  ghc_webhook_secret_env :: string

record whatsapp_config =
  wac_api_key_env :: string
  wac_phone_number_id_env :: string

record integration_config =
  ic_input :: string
  ic_outputs :: "string list"
  ic_slack :: "slack_config option"
  ic_github :: "github_config option"
  ic_whatsapp :: "whatsapp_config option"

record runtime =
  rt_input :: handle
  rt_outputs :: "handle list"

definition console_runtime :: runtime where
  "console_runtime = \<lparr>rt_input = Shared ConsoleConnector, rt_outputs = [Shared ConsoleConnector]\<rparr>"

definition env_value :: "(string \<Rightarrow> string option) \<Rightarrow> string \<Rightarrow> integration_error + string" where
  "env_value env v = (case env v of Some x \<Rightarrow> Ok x | None \<Rightarrow> Err (IntegrationConfigError (''env var '' @ v @ '' not set'')))"

definition build_optional ::
  "(string \<Rightarrow> string option) \<Rightarrow> string \<Rightarrow> (string \<times> string \<times> (string \<Rightarrow> string \<Rightarrow> connector)) option \<Rightarrow>
   integration_error + (string \<times> connector) list" where
  "build_optional env name section = (case section of
     None \<Rightarrow> Ok []
   | Some (a, b, build) \<Rightarrow> try_bind (env_value env a) (\<lambda>x. map_ok (\<lambda>y. [(name, build x y)]) (env_value env b)))"

definition build_connectors :: "(string \<Rightarrow> string option) \<Rightarrow> integration_config \<Rightarrow> integration_error + (string \<times> connector) list" where
  "build_connectors env c =
     try_bind (build_optional env ''slack''
       (map_option (\<lambda>s. (slc_bot_token_env s, slc_signing_secret_env s, \<lambda>t x. SlackConnector t x (slc_port s))) (ic_slack c))) (\<lambda>sl.
     try_bind (build_optional env ''github''
       (map_option (\<lambda>g. (ghc_token_env g, ghc_webhook_secret_env g, \<lambda>t x. GithubConnector t x (ghc_port g))) (ic_github c))) (\<lambda>gh.
     map_ok (\<lambda>wa. sl @ gh @ wa) (build_optional env ''whatsapp''
       (map_option (\<lambda>w. (wac_api_key_env w, wac_phone_number_id_env w, WhatsAppConnector)) (ic_whatsapp c)))))"

definition not_found_text :: "string \<Rightarrow> string \<Rightarrow> string" where
  "not_found_text role name = role @ '' '' @ quoted name @ '' not found '' @ em_dash @ '' add a [connector.'' @ name @ ''] section''"

definition pick_connector :: "(string \<times> connector) list \<Rightarrow> string \<Rightarrow> string \<Rightarrow> integration_error + handle" where
  "pick_connector built role name = (case map_of built name of
     Some c \<Rightarrow> Ok (Shared c) | None \<Rightarrow> Err (IntegrationConfigError (not_found_text role name)))"

definition from_parsed_config :: "(string \<Rightarrow> string option) \<Rightarrow> integration_config \<Rightarrow> integration_error + runtime" where
  "from_parsed_config env c =
     try_bind (build_connectors env c) (\<lambda>built.
     try_bind (pick_connector built ''input'' (ic_input c)) (\<lambda>input.
     map_ok (\<lambda>outputs. \<lparr>rt_input = input, rt_outputs = outputs\<rparr>)
       (collect_results (map (pick_connector built ''output'') (ic_outputs c)))))"

text \<open>Reading the file: its text, nothing where it does not exist, or another error.\<close>

datatype config_file = FileText string | NoFile | FileError string

definition from_config ::
  "(string \<Rightarrow> string option) \<Rightarrow> (string \<Rightarrow> string + integration_config) \<Rightarrow> config_file \<Rightarrow> integration_error + runtime" where
  "from_config env parse_toml f = (case f of
     FileText content \<Rightarrow> try_bind (map_err IntegrationConfigError (parse_toml content)) (from_parsed_config env)
   | NoFile \<Rightarrow> Ok console_runtime
   | FileError e \<Rightarrow> Err (IntegrationConfigError e))"

section \<open>The loop\<close>

text \<open>The state of a run: what the handler keeps, the connectors that listen, and the attempts
  to send, each with its connector, the event and whether it succeeded. Whether a post succeeds
  is a parameter.\<close>

record 's run_state =
  rs_handler :: 's
  rs_listening :: "connector list"
  rs_sent :: "(handle \<times> event \<times> (connector_error + unit)) list"

definition send_event :: "(action \<Rightarrow> connector_error + unit) \<Rightarrow> handle \<Rightarrow> event \<Rightarrow> connector_error + unit" where
  "send_event perform h e = try_bind (send_action (held h) e) perform"

definition send_all ::
  "(action \<Rightarrow> connector_error + unit) \<Rightarrow> handle list \<Rightarrow> event \<Rightarrow> 's run_state \<Rightarrow> 's run_state" where
  "send_all perform outputs e s =
     fold (\<lambda>h s. s\<lparr>rs_sent := rs_sent s @ [(h, e, send_event perform h e)]\<rparr>) outputs s"

definition handle_event ::
  "(event \<Rightarrow> 's \<Rightarrow> (string + event) \<times> 's) \<Rightarrow> (action \<Rightarrow> connector_error + unit) \<Rightarrow> handle list \<Rightarrow> event \<Rightarrow>
   's run_state \<Rightarrow> 's run_state" where
  "handle_event handler perform outputs e s =
     (case handler e (rs_handler s) of
        (Err _, x) \<Rightarrow> s\<lparr>rs_handler := x\<rparr>
      | (Ok response, x) \<Rightarrow> send_all perform outputs response (s\<lparr>rs_handler := x\<rparr>))"

text \<open>The loop over what \<open>receive\<close> gives; where it gives nothing more, the loop waits.\<close>

datatype run_end = Returned "integration_error + unit" | Waits

fun run_loop ::
  "(event \<Rightarrow> 's \<Rightarrow> (string + event) \<times> 's) \<Rightarrow> (action \<Rightarrow> connector_error + unit) \<Rightarrow> handle list \<Rightarrow>
   (connector_error + event) list \<Rightarrow> 's run_state \<Rightarrow> run_end \<times> 's run_state" where
  "run_loop handler perform outputs [] s = (Waits, s)"
| "run_loop handler perform outputs (Ok e # rs) s =
     run_loop handler perform outputs rs (handle_event handler perform outputs e s)"
| "run_loop handler perform outputs (Err Eof # rs) s = (Returned (Ok ()), s)"
| "run_loop handler perform outputs (Err x # rs) s = (Returned (Err (InputError x)), s)"

text \<open>What the input connector receives: a line of the console at a time until the end or a
  blank one, the events its webhooks put into its channel, or the stub's error.\<close>

fun console_events :: "(string \<Rightarrow> uuid) \<Rightarrow> string list \<Rightarrow> (connector_error + event) list" where
  "console_events new_id [] = [Err Eof]"
| "console_events new_id (line # ls) =
     (if trim line = [] then [Err Eof]
      else Ok \<lparr>ev_id = new_id line, ev_conversation = ''console'', ev_user = ''user'', ev_text = trim line, ev_metadata = []\<rparr>
        # console_events new_id ls)"

definition received ::
  "webhook_env \<Rightarrow> (string \<Rightarrow> uuid) \<Rightarrow> connector list \<Rightarrow> connector \<Rightarrow> string list \<Rightarrow> webhook_request list \<Rightarrow>
   (connector_error + event) list" where
  "received we new_id listening c ls rqs = (case c of
     ConsoleConnector \<Rightarrow> console_events new_id ls
   | WhatsAppConnector _ _ \<Rightarrow> [Err (Connection ''WhatsAppConnector is not yet implemented'')]
   | _ \<Rightarrow> List.map_filter (\<lambda>rq. case arrive we listening c rq of Some (Ok (_, Some e)) \<Rightarrow> Some (Ok e) | _ \<Rightarrow> None) rqs)"

text \<open>A run: start the input connector, then the loop over the typed lines or the requests
  that arrive while it runs.\<close>

definition run_runtime ::
  "webhook_env \<Rightarrow> (string \<Rightarrow> uuid) \<Rightarrow> (event \<Rightarrow> 's \<Rightarrow> (string + event) \<times> 's) \<Rightarrow> (action \<Rightarrow> connector_error + unit) \<Rightarrow>
   string list \<Rightarrow> webhook_request list \<Rightarrow> runtime \<Rightarrow> 's run_state \<Rightarrow> run_end \<times> 's run_state" where
  "run_runtime we new_id handler perform ls rqs rt s =
     (case start_handle (rt_input rt) (rs_listening s) of
        (Err e, listening) \<Rightarrow> (Returned (Err (InputError e)), s\<lparr>rs_listening := listening\<rparr>)
      | (Ok _, listening) \<Rightarrow>
          run_loop handler perform (rt_outputs rt) (received we new_id listening (held (rt_input rt)) ls rqs)
            (s\<lparr>rs_listening := listening\<rparr>))"

section \<open>What gets in\<close>

text \<open>
  C13. Only signed requests get in: a webhook puts an event into the channel only where the
  request carries the keyed hash, under the connector's secret, of its body (for Slack, of its
  time stamp and body, and then only for a message that is not a bot's).
\<close>

theorem only_signed_webhooks_become_events:
  assumes "arrive we listening c rq = Some (Ok (a, Some e))"
  shows "c \<in> set listening \<and> (case c of
      GithubConnector _ secret _ \<Rightarrow>
        wr_header rq ''X-Hub-Signature-256'' = Some (''sha256='' @ we_hmac we secret (wr_body rq))
    | SlackConnector _ secret _ \<Rightarrow>
        (\<exists>ts payload m. wr_header rq ''X-Slack-Request-Timestamp'' = Some ts
          \<and> wr_header rq ''X-Slack-Signature'' = Some (''v0='' @ we_hmac we secret (''v0:'' @ ts @ '':'' @ wr_body rq))
          \<and> we_parse we (wr_body rq) = Ok payload \<and> json_get ''event'' payload = Some m \<and> json_get ''bot_id'' m = None)
    | _ \<Rightarrow> False)"
proof -
  have "c \<in> set listening" and hook: "webhook_of we c rq = Ok (a, Some e)"
    using assms by (auto simp: arrive_def split: if_splits)
  moreover have "case c of
      GithubConnector _ secret _ \<Rightarrow>
        wr_header rq ''X-Hub-Signature-256'' = Some (''sha256='' @ we_hmac we secret (wr_body rq))
    | SlackConnector _ secret _ \<Rightarrow>
        (\<exists>ts payload m. wr_header rq ''X-Slack-Request-Timestamp'' = Some ts
          \<and> wr_header rq ''X-Slack-Signature'' = Some (''v0='' @ we_hmac we secret (''v0:'' @ ts @ '':'' @ wr_body rq))
          \<and> we_parse we (wr_body rq) = Ok payload \<and> json_get ''event'' payload = Some m \<and> json_get ''bot_id'' m = None)
    | _ \<Rightarrow> False"
    using hook by (cases c) (auto simp: webhook_of_def github_event_handler_def slack_event_handler_def verify_github_signature_def
        verify_slack_signature_def slack_event_def try_bind_Ok_iff map_err_Ok split: option.splits if_splits sum.splits)
  ultimately show ?thesis by blast
qed

section \<open>Starting\<close>

lemma configured_handles:
  assumes "from_parsed_config env c = Ok rt"
  shows "\<exists>k. rt_input rt = Shared k \<and> k \<noteq> ConsoleConnector"
proof -
  obtain built where built: "build_connectors env c = Ok built" and "pick_connector built ''input'' (ic_input c) = Ok (rt_input rt)"
    using assms by (auto simp: from_parsed_config_def try_bind_Ok_iff map_ok_Ok)
  then obtain k where k: "map_of built (ic_input c) = Some k" "rt_input rt = Shared k"
    by (auto simp: pick_connector_def split: option.splits)
  have "k \<noteq> ConsoleConnector"
    using built map_of_SomeD [OF k(1)]
    by (auto simp: build_connectors_def build_optional_def try_bind_Ok_iff map_ok_Ok split: option.splits)
  then show ?thesis using k by blast
qed

text \<open>
  C15. A configured webhook connector never listens: a runtime built from a configuration whose
  input is Slack or GitHub holds it behind a shared pointer, whose \<open>start\<close> is the default one.
  Started where nothing listens, it waits for ever and nothing happens, whatever requests are
  sent to its port.
\<close>

theorem configured_webhooks_never_listen:
  assumes "from_parsed_config env c = Ok rt" "held (rt_input rt) = SlackConnector t x p \<or> held (rt_input rt) = GithubConnector t x p"
    and "rs_listening s = []"
  shows "run_runtime we new_id handler perform ls rqs rt s = (Waits, s)"
proof -
  obtain k where k: "rt_input rt = Shared k" using configured_handles [OF assms(1)] by blast
  have "received we new_id [] k ls rqs = []"
    using assms(2) by (auto simp: k received_def arrive_def List.map_filter_def)
  then show ?thesis using assms(3) by (simp add: run_runtime_def k default_start_def eff_ok_def)
qed

section \<open>The loop\<close>

fun answers :: "(event \<Rightarrow> 's \<Rightarrow> (string + event) \<times> 's) \<Rightarrow> event list \<Rightarrow> 's \<Rightarrow> event list \<times> 's" where
  "answers handler [] x = ([], x)"
| "answers handler (e # es) x =
     (case handler e x of
        (Err _, y) \<Rightarrow> answers handler es y
      | (Ok response, y) \<Rightarrow> (case answers handler es y of (rs, z) \<Rightarrow> (response # rs, z)))"

definition attempts ::
  "(action \<Rightarrow> connector_error + unit) \<Rightarrow> handle list \<Rightarrow> event list \<Rightarrow> (handle \<times> event \<times> (connector_error + unit)) list" where
  "attempts perform outputs rs = concat (map (\<lambda>r. map (\<lambda>h. (h, r, send_event perform h r)) outputs) rs)"

lemma send_all_run:
  "send_all perform outputs e s = s\<lparr>rs_sent := rs_sent s @ map (\<lambda>h. (h, e, send_event perform h e)) outputs\<rparr>"
proof -
  have "fold (\<lambda>h s. s\<lparr>rs_sent := rs_sent s @ [(h, e, send_event perform h e)]\<rparr>) hs s
      = s\<lparr>rs_sent := rs_sent s @ map (\<lambda>h. (h, e, send_event perform h e)) hs\<rparr>" for hs s
    by (induction hs arbitrary: s) simp_all
  then show ?thesis by (simp add: send_all_def)
qed

lemma run_loop_answers:
  "run_loop handler perform outputs (map Ok es @ rest) s
    = run_loop handler perform outputs rest (s\<lparr>rs_handler := snd (answers handler es (rs_handler s)),
        rs_sent := rs_sent s @ attempts perform outputs (fst (answers handler es (rs_handler s)))\<rparr>)"
proof (induction es arbitrary: s)
  case (Cons e es)
  then show ?case
    by (simp add: handle_event_def send_all_run attempts_def case_prod_unfold split: prod.split sum.split)
qed (simp add: attempts_def)

text \<open>
  C14. The loop handles every event once and sends every answer everywhere: over the events that
  are received before the input ends, the handler runs once on each, in order; each of its
  answers is sent once to every output, in order, whatever other handlings and sends fail;
  the loop then returns without error where the input ended, and with the input's error
  otherwise. What comes after is not read.
\<close>

theorem loop_answers_every_event:
  "run_loop handler perform outputs (map Ok es @ Err x # rest) s
    = (Returned (if x = Eof then Ok () else Err (InputError x)),
       s\<lparr>rs_handler := snd (answers handler es (rs_handler s)),
         rs_sent := rs_sent s @ attempts perform outputs (fst (answers handler es (rs_handler s)))\<rparr>)"
  unfolding run_loop_answers by (cases x) simp_all

section \<open>Replies on GitHub\<close>

lemma show_nat_no_hash: "CHR 0x23 \<notin> set (show_nat n)"
  by (induction n rule: show_nat.induct)
    (subst show_nat.simps, auto dest!: arg_cong [of _ _ "of_char :: char \<Rightarrow> nat"])

lemma rsplit_conversation: "rsplit_hash (conversation_id_of repo n) = Some (repo, show_nat n)"
proof -
  have hash: "\<forall>c \<in> set (rev (show_nat n)). c \<noteq> CHR 0x23" using show_nat_no_hash [of n] by auto
  have "takeWhile (\<lambda>c. c \<noteq> CHR 0x23) (rev (show_nat n) @ CHR 0x23 # rev repo) = rev (show_nat n)"
    "dropWhile (\<lambda>c. c \<noteq> CHR 0x23) (rev (show_nat n) @ CHR 0x23 # rev repo) = CHR 0x23 # rev repo"
    using hash by (simp_all add: takeWhile_append dropWhile_append)
  then show ?thesis by (simp add: rsplit_hash_def conversation_id_of_def)
qed

text \<open>
  A reply reaches its issue: the event made from an issue, a comment or a pull request names a
  conversation that the connector, sending, splits into the repository and number of the
  payload again, whatever characters the repository's name has; so an answer that keeps the
  conversation is posted as a comment there.
\<close>

theorem github_reply_reaches_its_issue:
  assumes "github_event i kind payload = Some e"
  shows "\<exists>n. send_action (GithubConnector token secret port) (e\<lparr>ev_text := reply\<rparr>)
      = Ok (Post (comments_url (str_or [] (json_index (json_index payload ''repository'') ''full_name'')) (show_nat n))
          token (JObject [(''body'', JString reply)]))
    \<and> n = (case as_u64 (json_index (json_index payload (if kind = ''pull_request'' then ''pull_request'' else ''issue'')) ''number'') of
        Some m \<Rightarrow> m | None \<Rightarrow> 0)"
proof -
  let ?repo = "str_or [] (json_index (json_index payload ''repository'') ''full_name'')"
  let ?n = "case as_u64 (json_index (json_index payload (if kind = ''pull_request'' then ''pull_request'' else ''issue'')) ''number'') of
        Some m \<Rightarrow> m | None \<Rightarrow> 0"
  have "ev_conversation e = conversation_id_of ?repo ?n"
    using assms by (auto simp: github_event_def Let_def split: if_splits)
  then show ?thesis by (simp add: parse_conversation_id_def rsplit_conversation)
qed

section \<open>The connector's own comments\<close>

text \<open>A delivery GitHub makes for a comment: a signed \<open>issue_comment\<close> request whose payload
  names the repository, the issue and the comment's text, whoever wrote it.\<close>

definition comment_payload :: "string \<Rightarrow> nat \<Rightarrow> string \<Rightarrow> string \<Rightarrow> json" where
  "comment_payload repo n login comment = JObject (obj_from
     [(''repository'', JObject [(''full_name'', JString repo)]), (''issue'', JObject [(''number'', JNumber (PosInt n))]),
      (''sender'', JObject [(''login'', JString login)]), (''comment'', JObject [(''body'', JString comment)])])"

definition delivers_comments :: "webhook_env \<Rightarrow> string \<Rightarrow> string \<Rightarrow> nat \<Rightarrow> string \<Rightarrow> (string \<Rightarrow> webhook_request) \<Rightarrow> bool" where
  "delivers_comments we secret repo n login deliver \<longleftrightarrow> (\<forall>comment.
     wr_header (deliver comment) ''X-GitHub-Event'' = Some ''issue_comment''
     \<and> wr_header (deliver comment) ''X-Hub-Signature-256'' = Some (''sha256='' @ we_hmac we secret (wr_body (deliver comment)))
     \<and> we_parse we (wr_body (deliver comment)) = Ok (comment_payload repo n login comment))"

text \<open>Comments answered by comments, each delivered back: where each is posted.\<close>

fun comment_rounds :: "webhook_env \<Rightarrow> connector \<Rightarrow> (string \<Rightarrow> webhook_request) \<Rightarrow> (string \<Rightarrow> string) \<Rightarrow> nat \<Rightarrow> string \<Rightarrow> string list" where
  "comment_rounds we c deliver reply 0 comment = []"
| "comment_rounds we c deliver reply (Suc k) comment =
     (case arrive we [c] c (deliver comment) of
        Some (Ok (_, Some e)) \<Rightarrow>
          (case send_action c (e\<lparr>ev_text := reply (ev_text e)\<rparr>) of
             Ok (Post url _ (JObject [(''body'', JString posted)])) \<Rightarrow>
               url # comment_rounds we c deliver reply k posted
           | _ \<Rightarrow> [])
      | _ \<Rightarrow> [])"

lemma own_comment_event:
  assumes "delivers_comments we secret repo n login deliver"
  shows "\<exists>e a. arrive we [GithubConnector token secret port] (GithubConnector token secret port) (deliver comment) = Some (Ok (a, Some e))
    \<and> ev_conversation e = conversation_id_of repo n \<and> ev_text e = comment"
proof -
  have "wr_header (deliver comment) ''X-GitHub-Event'' = Some ''issue_comment''"
    "wr_header (deliver comment) ''X-Hub-Signature-256'' = Some (''sha256='' @ we_hmac we secret (wr_body (deliver comment)))"
    "we_parse we (wr_body (deliver comment)) = Ok (comment_payload repo n login comment)"
    using assms by (simp_all add: delivers_comments_def)
  then show ?thesis
    by (simp add: arrive_def webhook_of_def github_event_handler_def verify_github_signature_def github_event_def Let_def
        comment_payload_def str_or_def)
qed

text \<open>
  The GitHub connector answers its own comments: nothing tells a comment the connector posted
  from a user's, so with GitHub delivering every comment of the issue a single comment is
  followed by as many of the connector's own, on the same issue, as one cares to wait for. (The
  Slack connector leaves the messages of bots alone.)
\<close>

theorem github_connector_answers_itself:
  assumes "delivers_comments we secret repo n login deliver"
  shows "comment_rounds we (GithubConnector token secret port) deliver reply k comment
    = replicate k (comments_url repo (show_nat n))"
proof (induction k arbitrary: comment)
  case (Suc k)
  let ?c = "GithubConnector token secret port"
  obtain e a where e: "arrive we [?c] ?c (deliver comment) = Some (Ok (a, Some e))" "ev_conversation e = conversation_id_of repo n"
    using own_comment_event [OF assms] by blast
  have "send_action ?c (e\<lparr>ev_text := reply (ev_text e)\<rparr>)
      = Ok (Post (comments_url repo (show_nat n)) token (JObject [(''body'', JString (reply (ev_text e)))]))"
    by (simp add: parse_conversation_id_def e(2) rsplit_conversation)
  then show ?case using e(1) Suc.IH by simp
qed simp

section \<open>Samples\<close>

definition sample_hooks :: webhook_env where
  "sample_hooks = \<lparr>we_hmac = (\<lambda>secret body. secret @ body), we_parse = (\<lambda>s. Ok (comment_payload ''o/r'' 7 ''bot'' s)),
     we_uuid = (\<lambda>rq. ''e'' @ wr_body rq)\<rparr>"

definition sample_delivery :: "string \<Rightarrow> webhook_request" where
  "sample_delivery comment = \<lparr>wr_header = (\<lambda>h. if h = ''X-GitHub-Event'' then Some ''issue_comment''
     else if h = ''X-Hub-Signature-256'' then Some (''sha256=s'' @ comment) else None), wr_body = comment\<rparr>"

definition sample_github :: connector where
  "sample_github = GithubConnector ''t'' ''s'' 80"

lemma github_connector_answers_itself_witness:
  "comment_rounds sample_hooks sample_github sample_delivery (\<lambda>t. ''re '' @ t) 2 ''hello''
    = [comments_url ''o/r'' ''7'', comments_url ''o/r'' ''7'']"
proof -
  have "delivers_comments sample_hooks ''s'' ''o/r'' 7 ''bot'' sample_delivery"
    by (simp add: delivers_comments_def sample_hooks_def sample_delivery_def)
  moreover have "show_nat 7 = ''7''" by code_simp
  ultimately show ?thesis
    using github_connector_answers_itself [of sample_hooks "''s''" "''o/r''" 7 "''bot''" sample_delivery "''t''" 80 "\<lambda>t. ''re '' @ t" 2 "''hello''"]
    by (simp add: sample_github_def numeral_2_eq_2)
qed

lemma only_signed_webhooks_become_events_witness:
  "wr_header (sample_delivery ''hi'') ''X-Hub-Signature-256'' = Some (''sha256='' @ we_hmac sample_hooks ''s'' (wr_body (sample_delivery ''hi'')))"
proof -
  obtain a e where "arrive sample_hooks [sample_github] sample_github (sample_delivery ''hi'') = Some (Ok (a, Some e))"
    by (simp add: sample_github_def sample_hooks_def sample_delivery_def arrive_def webhook_of_def github_event_handler_def
        verify_github_signature_def github_event_def Let_def)
  from only_signed_webhooks_become_events [OF this] show ?thesis by (simp add: sample_github_def)
qed

definition sample_integration :: integration_config where
  "sample_integration = \<lparr>ic_input = ''github'', ic_outputs = [''github''], ic_slack = None,
     ic_github = Some \<lparr>ghc_port = 80, ghc_token_env = ''T'', ghc_webhook_secret_env = ''S''\<rparr>, ic_whatsapp = None\<rparr>"

lemma configured_webhooks_never_listen_witness:
  "run_runtime sample_hooks (\<lambda>l. l) (\<lambda>e s. (Ok e, Suc s)) (\<lambda>_. Ok ()) [] [sample_delivery ''hi'']
     \<lparr>rt_input = Shared sample_github, rt_outputs = [Shared sample_github]\<rparr> \<lparr>rs_handler = 0, rs_listening = [], rs_sent = []\<rparr>
   = (Waits, \<lparr>rs_handler = 0, rs_listening = [], rs_sent = []\<rparr>)"
proof (rule configured_webhooks_never_listen)
  show "from_parsed_config (\<lambda>v. if v = ''T'' then Some ''t'' else Some ''s'') sample_integration
      = Ok \<lparr>rt_input = Shared sample_github, rt_outputs = [Shared sample_github]\<rparr>"
    by code_simp
qed (simp_all add: sample_github_def)

lemma github_reply_reaches_its_issue_witness:
  "send_action sample_github ((the (github_event ''i'' ''issues'' (comment_payload ''o/r'' 7 ''u'' ''x'')))\<lparr>ev_text := ''done''\<rparr>)
    = Ok (Post (comments_url ''o/r'' ''7'') ''t'' (JObject [(''body'', JString ''done'')]))"
proof -
  obtain e where e: "github_event ''i'' ''issues'' (comment_payload ''o/r'' 7 ''u'' ''x'') = Some e"
    by (simp add: github_event_def Let_def)
  have "show_nat 7 = ''7''" by code_simp
  then show ?thesis
    using github_reply_reaches_its_issue [OF e, of "''t''" "''s''" 80 "''done''"] e
    by (simp add: sample_github_def comment_payload_def str_or_def)
qed

end
