(* ===== verification/Longterm.thy ===== *)
theory Longterm
  imports Json "HOL-Library.Multiset"
begin

text \<open>
  Long-term memory (\<open>avs-memory/src/longterm\<close>): records, embedders and their table
  (\<open>embedder.rs\<close>, \<open>embedder_openai.rs\<close>, \<open>embedder_gemini.rs\<close>), vector stores (\<open>vector.rs\<close>,
  \<open>avs-memory-pgvector/src/backend.rs\<close>, \<open>avs-memory-lancedb/src/backend.rs\<close>) and the memory
  made of an embedder and a store (\<open>adapter.rs\<close>).

  A single-precision number is a value of a type \<open>'f\<close> whose order is the one of \<open>total_cmp\<close>;
  its arithmetic is a parameter (\<open>float_ops\<close>), as are the distance of two vectors, posting a
  request and reading the reply's JSON.
\<close>

section \<open>Records\<close>

datatype memory_error = Summarization string | Storage string | Retrieval string | Embedding string

record 'f float_ops =
  fo_zero :: 'f
  fo_one :: 'f
  fo_is_nan :: "'f \<Rightarrow> bool"
  fo_less :: "'f \<Rightarrow> 'f \<Rightarrow> bool"
  fo_of_int :: "int \<Rightarrow> 'f"
  fo_add :: "'f \<Rightarrow> 'f \<Rightarrow> 'f"
  fo_mul :: "'f \<Rightarrow> 'f \<Rightarrow> 'f"
  fo_div :: "'f \<Rightarrow> 'f \<Rightarrow> 'f"
  fo_half_power :: "'f \<Rightarrow> 'f"

record 'f longterm_entry =
  lr_content :: string
  lr_importance :: 'f
  lr_created_at :: instant

definition clamp_float :: "'f float_ops \<Rightarrow> 'f \<Rightarrow> 'f \<Rightarrow> 'f \<Rightarrow> 'f" where
  "clamp_float fo lo hi x = (if fo_less fo x lo then lo else if fo_less fo hi x then hi else x)"

definition longterm_entry_now :: "'f float_ops \<Rightarrow> instant \<Rightarrow> string \<Rightarrow> 'f \<Rightarrow> 'f longterm_entry" where
  "longterm_entry_now fo now content importance =
     \<lparr>lr_content = content,
      lr_importance = (if fo_is_nan fo importance then fo_zero fo else clamp_float fo (fo_zero fo) (fo_one fo) importance),
      lr_created_at = now\<rparr>"

record 'f vector_record =
  vr_user :: string
  vr_content :: string
  vr_embedding :: "'f list"
  vr_importance :: 'f
  vr_created_at :: instant

record 'f vector_hit =
  vh_content :: string
  vh_relevance :: 'f
  vh_importance :: 'f
  vh_created_at :: instant

record 'f scored_memory =
  sm_content :: string
  sm_score :: 'f
  sm_created_at :: instant

text \<open>\<open>sort_by(|a, b| f(b).total_cmp(&f(a)))\<close>: descending, and stable.\<close>

definition sort_descending :: "('a \<Rightarrow> 'f::linorder) \<Rightarrow> 'a list \<Rightarrow> 'a list" where
  "sort_descending f xs = rev (sort_key f (rev xs))"

section \<open>Embedders\<close>

type_synonym 'f embed = "string list \<Rightarrow> memory_error + 'f list list"

record embed_request =
  eq_url :: string
  eq_bearer :: "string option"
  eq_body :: json

text \<open>A failed post: its text, and its text without the URL. A response: the status as it is
  displayed, whether it is a success, and reading the body.\<close>

record post_failure =
  pf_text :: string
  pf_text_without_url :: string

record embed_response =
  es_status :: string
  es_success :: bool
  es_body :: "post_failure + string"

type_synonym embed_post = "embed_request \<Rightarrow> post_failure + embed_response"

definition expected_count_text :: "nat \<Rightarrow> nat \<Rightarrow> string" where
  "expected_count_text n m = ''expected '' @ show_nat n @ '' embeddings, got '' @ show_nat m"

definition expected_dimensions_text :: "nat \<Rightarrow> nat \<Rightarrow> string" where
  "expected_dimensions_text n m = ''expected '' @ show_nat n @ '' dimensions, got '' @ show_nat m"

text \<open>The body of a successful response.\<close>

definition response_body :: "(post_failure \<Rightarrow> string) \<Rightarrow> embed_post \<Rightarrow> embed_request \<Rightarrow> memory_error + string" where
  "response_body show_failure post rq =
     (case post rq of
        Err e \<Rightarrow> Err (Embedding (show_failure e))
      | Ok r \<Rightarrow> try_bind (map_err (\<lambda>e. Embedding (show_failure e)) (es_body r)) (\<lambda>body.
          if es_success r then Ok body else Err (Embedding (es_status r @ '': '' @ body))))"

definition check_dimensions :: "nat \<Rightarrow> 'f list list \<Rightarrow> memory_error + 'f list list" where
  "check_dimensions dims vs = (case List.find (\<lambda>v. length v \<noteq> dims) vs of
     Some v \<Rightarrow> Err (Embedding (expected_dimensions_text dims (length v))) | None \<Rightarrow> Ok vs)"

record openai_embedder =
  oe_base_url :: string
  oe_api_key :: string
  oe_model_name :: string
  oe_dimensions :: nat

definition index_gap_text :: "nat \<Rightarrow> nat \<Rightarrow> string" where
  "index_gap_text n i = ''response indices are not exactly 0..'' @ show_nat n
     @ '' (duplicate or gap at index '' @ show_nat i @ '')''"

definition check_indices :: "nat \<Rightarrow> (nat \<times> 'f list) list \<Rightarrow> memory_error + (nat \<times> 'f list) list" where
  "check_indices n ds = (case List.find (\<lambda>(expected, d). fst d \<noteq> expected) (List.enumerate 0 ds) of
     Some (_, d) \<Rightarrow> Err (Embedding (index_gap_text n (fst d))) | None \<Rightarrow> Ok ds)"

definition openai_embed :: "embed_post \<Rightarrow> (string \<Rightarrow> string + (nat \<times> 'f list) list) \<Rightarrow> openai_embedder \<Rightarrow> 'f embed" where
  "openai_embed post parse e ts =
     (if ts = [] then Ok []
      else try_bind (response_body pf_text post \<lparr>eq_url = oe_base_url e @ ''/embeddings'',
             eq_bearer = (if oe_api_key e = [] then None else Some (oe_api_key e)),
             eq_body = JObject (obj_from [(''model'', JString (oe_model_name e)), (''input'', JArray (map JString ts))])\<rparr>) (\<lambda>body.
           try_bind (map_err (\<lambda>m. Embedding (''invalid response body: '' @ m)) (parse body)) (\<lambda>parsed.
           let ds = sort_key fst parsed in
           if length ds \<noteq> length ts then Err (Embedding (expected_count_text (length ts) (length ds)))
           else try_bind (check_indices (length ts) ds) (\<lambda>ds. check_dimensions (oe_dimensions e) (map snd ds)))))"

record gemini_embedder =
  ge_base_url :: string
  ge_api_key :: string
  ge_model_name :: string
  ge_dimensions :: nat

definition gemini_embed :: "embed_post \<Rightarrow> (string \<Rightarrow> string + 'f list list) \<Rightarrow> gemini_embedder \<Rightarrow> 'f embed" where
  "gemini_embed post parse e ts =
     (if ts = [] then Ok []
      else try_bind (response_body pf_text_without_url post
             \<lparr>eq_url = ge_base_url e @ ''/v1beta/models/'' @ ge_model_name e @ '':batchEmbedContents?key='' @ ge_api_key e,
              eq_bearer = None,
              eq_body = JObject [(''requests'', JArray (map (\<lambda>t. JObject (obj_from
                 [(''model'', JString (''models/'' @ ge_model_name e)),
                  (''content'', JObject [(''parts'', JArray [JObject [(''text'', JString t)]])])])) ts))]\<rparr>) (\<lambda>body.
           try_bind (map_err (\<lambda>m. Embedding (''invalid response body: '' @ m)) (parse body)) (\<lambda>vs.
           if length vs \<noteq> length ts then Err (Embedding (expected_count_text (length ts) (length vs)))
           else check_dimensions (ge_dimensions e) vs)))"

text \<open>The table of embedder factories; a built embedder is one of the two, or a caller's own.\<close>

type_synonym embed_settings = "(string \<times> string) list"

datatype 'e built_embedder = OpenAiEmbedder openai_embedder | GeminiEmbedder gemini_embedder | CustomEmbedder 'e

type_synonym 'e embedder_factory = "embed_settings \<Rightarrow> memory_error + 'e built_embedder"

definition require_embed_setting :: "embed_settings \<Rightarrow> string \<Rightarrow> string \<Rightarrow> memory_error + string" where
  "require_embed_setting settings key provider =
     (case map_of settings key of
        Some v \<Rightarrow> if v \<noteq> [] then Ok v
                  else Err (Embedding (''missing required setting '' @ quoted key @ '' for provider '' @ quoted provider))
      | None \<Rightarrow> Err (Embedding (''missing required setting '' @ quoted key @ '' for provider '' @ quoted provider)))"

definition require_dimensions :: "(string \<Rightarrow> nat option) \<Rightarrow> embed_settings \<Rightarrow> string \<Rightarrow> memory_error + nat" where
  "require_dimensions parse_usize settings provider =
     try_bind (require_embed_setting settings ''dimensions'' provider) (\<lambda>raw.
       case parse_usize raw of Some n \<Rightarrow> Ok n
       | None \<Rightarrow> Err (Embedding (''invalid '' @ quoted ''dimensions'' @ '' setting for provider '' @ quoted provider @ '': '' @ raw)))"

definition setting_base_url :: "embed_settings \<Rightarrow> string option" where
  "setting_base_url settings = (case map_of settings ''base_url'' of
     Some u \<Rightarrow> if u \<noteq> [] then Some u else None | None \<Rightarrow> None)"

definition openai_embedder_factory :: "(string \<Rightarrow> nat option) \<Rightarrow> 'e embedder_factory" where
  "openai_embedder_factory parse_usize settings =
     try_bind (require_embed_setting settings ''model_name'' ''openai'') (\<lambda>model.
     try_bind (require_dimensions parse_usize settings ''openai'') (\<lambda>dims.
     let base = setting_base_url settings;
         key = (case map_of settings ''api_key'' of Some k \<Rightarrow> k | None \<Rightarrow> []) in
     if key = [] \<and> base = None
     then Err (Embedding (''missing required setting '' @ quoted ''api_key'' @ '' for provider '' @ quoted ''openai''))
     else Ok (OpenAiEmbedder \<lparr>oe_base_url = (case base of Some u \<Rightarrow> u | None \<Rightarrow> ''https://api.openai.com/v1''),
            oe_api_key = key, oe_model_name = model, oe_dimensions = dims\<rparr>)))"

definition gemini_embedder_factory :: "(string \<Rightarrow> nat option) \<Rightarrow> 'e embedder_factory" where
  "gemini_embedder_factory parse_usize settings =
     try_bind (require_embed_setting settings ''model_name'' ''gemini'') (\<lambda>model.
     try_bind (require_embed_setting settings ''api_key'' ''gemini'') (\<lambda>key.
     map_ok (\<lambda>dims. GeminiEmbedder
         \<lparr>ge_base_url = (case setting_base_url settings of Some u \<Rightarrow> u | None \<Rightarrow> ''https://generativelanguage.googleapis.com''),
          ge_api_key = key, ge_model_name = model, ge_dimensions = dims\<rparr>)
       (require_dimensions parse_usize settings ''gemini'')))"

type_synonym 'e embedder_registry = "(string \<times> 'e embedder_factory) list"

definition register_embedder :: "string \<Rightarrow> 'e embedder_factory \<Rightarrow> 'e embedder_registry \<Rightarrow> 'e embedder_registry" where
  "register_embedder name f reg = assoc_put name f reg"

definition builtin_embedders :: "(string \<Rightarrow> nat option) \<Rightarrow> 'e embedder_registry" where
  "builtin_embedders parse_usize =
     register_embedder ''gemini'' (gemini_embedder_factory parse_usize)
       (register_embedder ''openai'' (openai_embedder_factory parse_usize) [])"

definition build_embedder :: "'e embedder_registry \<Rightarrow> string \<Rightarrow> embed_settings \<Rightarrow> memory_error + 'e built_embedder" where
  "build_embedder reg name settings =
     (case map_of reg name of None \<Rightarrow> Err (Embedding (''unknown embedder provider: '' @ name)) | Some f \<Rightarrow> f settings)"

section \<open>What an embedder promises\<close>

locale embedder =
  fixes emb :: "string list \<Rightarrow> memory_error + 'f list list" and dims :: nat
  assumes one_per_text: "emb ts = Ok vs \<Longrightarrow> length vs = length ts"
    and of_dimensions: "emb ts = Ok vs \<Longrightarrow> v \<in> set vs \<Longrightarrow> length v = dims"
begin

lemma single: "emb [t] = Ok vs \<Longrightarrow> \<exists>v. vs = [v] \<and> length v = dims"
  using one_per_text [of "[t]" vs] of_dimensions [of "[t]" vs] by (cases vs) auto

end

lemma check_dimensions_Ok: "check_dimensions dims vs = Ok ws \<longleftrightarrow> ws = vs \<and> (\<forall>v \<in> set vs. length v = dims)"
  by (auto simp: check_dimensions_def find_None_iff find_Some_iff split: option.splits)

lemma indices_exact: "(\<forall>i < length ds. fst (ds ! i) = i) \<longleftrightarrow> map fst ds = [0..<length ds]"
proof
  assume "\<forall>i < length ds. fst (ds ! i) = i"
  then show "map fst ds = [0..<length ds]" by (intro nth_equalityI) simp_all
next
  assume eq: "map fst ds = [0..<length ds]"
  have "fst (ds ! i) = i" if "i < length ds" for i
    using that arg_cong [OF eq, of "\<lambda>xs. xs ! i"] by simp
  then show "\<forall>i < length ds. fst (ds ! i) = i" by blast
qed

lemma check_indices_Ok: "check_indices n ds = Ok es \<longleftrightarrow> es = ds \<and> map fst ds = [0..<length ds]"
proof (cases "List.find (\<lambda>(expected, d). fst d \<noteq> expected) (List.enumerate 0 ds)")
  case None
  then have "\<forall>x \<in> set (List.enumerate 0 ds). \<not> (\<lambda>(expected, d). fst d \<noteq> expected) x" unfolding find_None_iff by blast
  moreover have "(i, ds ! i) \<in> set (List.enumerate 0 ds)" if "i < length ds" for i
    using that by (simp add: in_set_enumerate_eq)
  ultimately have "\<forall>i < length ds. fst (ds ! i) = i" by fastforce
  then show ?thesis using None unfolding indices_exact by (auto simp: check_indices_def)
next
  case (Some x)
  then obtain k where "k < length ds" "(\<lambda>(expected, d). fst d \<noteq> expected) (List.enumerate 0 ds ! k)"
    by (auto simp: find_Some_iff)
  then have "\<not> (\<forall>i < length ds. fst (ds ! i) = i)" by (auto simp: nth_enumerate_eq)
  then show ?thesis using Some unfolding indices_exact by (cases x) (simp add: check_indices_def)
qed

lemma openai_embed_Ok:
  assumes "openai_embed post parse e ts = Ok vs"
  shows "length vs = length ts \<and> (\<forall>v \<in> set vs. length v = oe_dimensions e)
    \<and> (ts \<noteq> [] \<longrightarrow> (\<exists>body parsed. parse body = Ok parsed \<and> (\<forall>k < length ts. (k, vs ! k) \<in> set parsed)))"
proof (cases "ts = []")
  case False
  obtain body parsed where parsed: "parse body = Ok parsed" "length (sort_key fst parsed) = length ts"
    "check_indices (length ts) (sort_key fst parsed) = Ok (sort_key fst parsed)"
    "check_dimensions (oe_dimensions e) (map snd (sort_key fst parsed)) = Ok vs"
    using assms False
    by (auto simp: openai_embed_def Let_def try_bind_Ok_iff check_indices_Ok map_err_Ok simp del: obj_from.simps split: if_splits)
  then have vs: "vs = map snd (sort_key fst parsed)" "\<forall>v \<in> set vs. length v = oe_dimensions e"
    and idx: "map fst (sort_key fst parsed) = [0..<length ts]"
    by (simp_all add: check_dimensions_Ok check_indices_Ok)
  have "(k, vs ! k) \<in> set parsed" if "k < length ts" for k
  proof -
    have "sort_key fst parsed ! k \<in> set (sort_key fst parsed)" using that parsed(2) by (intro nth_mem) simp
    moreover have "fst (sort_key fst parsed ! k) = k"
      using that parsed(2) arg_cong [OF idx, of "\<lambda>xs. xs ! k"] by simp
    moreover have "snd (sort_key fst parsed ! k) = vs ! k" using that parsed(2) vs(1) by simp
    ultimately show ?thesis by (metis prod.collapse set_sort)
  qed
  then show ?thesis using vs parsed by auto
qed (use assms in \<open>simp add: openai_embed_def\<close>)

lemma gemini_embed_Ok:
  assumes "gemini_embed post parse e ts = Ok vs"
  shows "length vs = length ts \<and> (\<forall>v \<in> set vs. length v = ge_dimensions e)"
  using assms by (auto simp: gemini_embed_def try_bind_Ok_iff check_dimensions_Ok map_err_Ok simp del: obj_from.simps split: if_splits)

interpretation openai: embedder "openai_embed post parse e" "oe_dimensions e" for post parse e
  by unfold_locales (use openai_embed_Ok in blast)+

interpretation gemini: embedder "gemini_embed post parse e" "ge_dimensions e" for post parse e
  by unfold_locales (use gemini_embed_Ok in blast)+

section \<open>Vector stores\<close>

text \<open>What a store of vectors promises: a store adds to what the record's user owns and
  leaves the searches of other users as they were; a search gives at most as many hits as
  asked, each of a record the user owns.\<close>

type_synonym owned_record = "string \<times> instant"

locale vector_store =
  fixes store :: "'f::linorder vector_record \<Rightarrow> 's \<Rightarrow> (memory_error + unit) \<times> 's"
    and search :: "string \<Rightarrow> 'f list \<Rightarrow> nat \<Rightarrow> 's \<Rightarrow> memory_error + 'f vector_hit list"
    and owned :: "string \<Rightarrow> 's \<Rightarrow> owned_record set"
  assumes search_bounded: "search u v k s = Ok hs \<Longrightarrow> length hs \<le> k"
    and search_owned: "search u v k s = Ok hs \<Longrightarrow> h \<in> set hs \<Longrightarrow> (vh_content h, vh_created_at h) \<in> owned u s"
    and store_other: "u \<noteq> vr_user r \<Longrightarrow> search u v k (snd (store r s)) = search u v k s"
    and store_owned: "owned u (snd (store r s)) \<subseteq>
      owned u s \<union> (if u = vr_user r then {(vr_content r, vr_created_at r)} else {})"
begin

lemma store_others: "\<forall>r \<in> set rs. vr_user r \<noteq> u \<Longrightarrow> search u v k (fold (\<lambda>r s. snd (store r s)) rs s) = search u v k s"
  by (induction rs arbitrary: s) (auto simp: store_other)

end

definition relevance_of :: "'f float_ops \<Rightarrow> 'f \<Rightarrow> 'f" where
  "relevance_of fo d = fo_div fo (fo_one fo) (fo_add fo (fo_one fo) d)"

text \<open>The PostgreSQL table, where every statement may fail; the distance is a double, read as
  a single.\<close>

record 'f pg_memory =
  pm_rows :: "'f vector_record list"
  pm_fault :: "string option"

definition pgvector_store :: "'f vector_record \<Rightarrow> 'f pg_memory \<Rightarrow> (memory_error + unit) \<times> 'f pg_memory" where
  "pgvector_store r s = (case pm_fault s of
     Some e \<Rightarrow> (Err (Storage e), s) | None \<Rightarrow> (Ok (), s\<lparr>pm_rows := pm_rows s @ [r]\<rparr>))"

record ('f, 'd) pg_distance =
  pd_distance :: "'f list \<Rightarrow> 'f list \<Rightarrow> 'd"
  pd_single :: "'d \<Rightarrow> 'f"
  pd_negative_limit :: string

definition pgvector_search ::
  "'f float_ops \<Rightarrow> ('f, 'd::linorder) pg_distance \<Rightarrow> string \<Rightarrow> 'f list \<Rightarrow> nat \<Rightarrow> 'f pg_memory \<Rightarrow> memory_error + 'f vector_hit list" where
  "pgvector_search fo pd u v k s = (case pm_fault s of
     Some e \<Rightarrow> Err (Retrieval e)
   | None \<Rightarrow>
       if 2 ^ 63 \<le> k then Err (Retrieval (pd_negative_limit pd))
       else Ok (map (\<lambda>r. \<lparr>vh_content = vr_content r,
                vh_relevance = relevance_of fo (pd_single pd (pd_distance pd (vr_embedding r) v)),
                vh_importance = vr_importance r, vh_created_at = vr_created_at r\<rparr>)
             (take k (sort_key (\<lambda>r. pd_distance pd (vr_embedding r) v) (filter (\<lambda>r. vr_user r = u) (pm_rows s))))))"

definition pgvector_purge_old :: "instant \<Rightarrow> 'f pg_memory \<Rightarrow> (memory_error + nat) \<times> 'f pg_memory" where
  "pgvector_purge_old before s = (case pm_fault s of
     Some e \<Rightarrow> (Err (Storage e), s)
   | None \<Rightarrow> (Ok (length (filter (\<lambda>r. vr_created_at r < before) (pm_rows s))),
       s\<lparr>pm_rows := filter (\<lambda>r. \<not> vr_created_at r < before) (pm_rows s)\<rparr>))"

text \<open>The LanceDB table. The user is compared through a filter, a text with the user in it as
  a literal; reading the literal is the database's, by the rule of SQL that two quotes stand for
  one. The nearest rows come back in an order of the database's.\<close>

definition quote_char :: char where "quote_char = CHR 0x27"

definition double_quotes :: "string \<Rightarrow> string" where
  "double_quotes u = concat (map (\<lambda>c. if c = quote_char then [quote_char, quote_char] else [c]) u)"

definition user_filter :: "string \<Rightarrow> string" where
  "user_filter u = ''user_id = '' @ quoted (double_quotes u)"

fun read_literal :: "string \<Rightarrow> (string \<times> string) option" where
  "read_literal [] = None"
| "read_literal (c # s) =
     (if c = quote_char then (case s of
          d # s' \<Rightarrow> if d = quote_char then map_option (\<lambda>(t, rest). (quote_char # t, rest)) (read_literal s') else Some ([], s)
        | [] \<Rightarrow> Some ([], []))
      else map_option (\<lambda>(t, rest). (c # t, rest)) (read_literal s))"

definition filter_user :: "string \<Rightarrow> string option" where
  "filter_user f = (case strip_prefix (''user_id = '' @ [quote_char]) f of
     None \<Rightarrow> None
   | Some s \<Rightarrow> (case read_literal s of Some (u, []) \<Rightarrow> Some u | _ \<Rightarrow> None))"

record 'f lance_memory =
  lm_rows :: "'f vector_record list"
  lm_dimensions :: nat
  lm_fault :: "string option"

definition lance_dimensions_text :: "nat \<Rightarrow> nat \<Rightarrow> string" where
  "lance_dimensions_text got expected = ''embedding has '' @ show_nat got @ '' dimensions, expected '' @ show_nat expected"

definition lance_store :: "'f vector_record \<Rightarrow> 'f lance_memory \<Rightarrow> (memory_error + unit) \<times> 'f lance_memory" where
  "lance_store r s =
     (if length (vr_embedding r) \<noteq> lm_dimensions s
      then (Err (Storage (lance_dimensions_text (length (vr_embedding r)) (lm_dimensions s))), s)
      else case lm_fault s of
        Some e \<Rightarrow> (Err (Storage e), s) | None \<Rightarrow> (Ok (), s\<lparr>lm_rows := lm_rows s @ [r]\<rparr>))"

text \<open>A search scans the table, as no index is made: the admitted rows with the least distance
  first, at most \<open>k\<close>. Their hits are then sorted by relevance.\<close>

definition lance_search ::
  "'f::linorder float_ops \<Rightarrow> ('f list \<Rightarrow> 'f list \<Rightarrow> 'f) \<Rightarrow> string \<Rightarrow> 'f list \<Rightarrow> nat \<Rightarrow> 'f lance_memory \<Rightarrow>
   memory_error + 'f vector_hit list" where
  "lance_search fo dist u v k s = (case lm_fault s of
     Some e \<Rightarrow> Err (Retrieval e)
   | None \<Rightarrow> Ok (take k (sort_descending vh_relevance (map (\<lambda>r. \<lparr>vh_content = vr_content r,
         vh_relevance = relevance_of fo (dist (vr_embedding r) v), vh_importance = vr_importance r,
         vh_created_at = vr_created_at r\<rparr>)
       (take k (sort_key (\<lambda>r. dist (vr_embedding r) v)
         (filter (\<lambda>r. filter_user (user_filter u) = Some (vr_user r)) (lm_rows s))))))))"

definition noop_store :: "'f vector_record \<Rightarrow> 's \<Rightarrow> (memory_error + unit) \<times> 's" where
  "noop_store r s = (Ok (), s)"

definition noop_search :: "string \<Rightarrow> 'f list \<Rightarrow> nat \<Rightarrow> 's \<Rightarrow> memory_error + 'f vector_hit list" where
  "noop_search u v k s = Ok []"

lemma read_double_quotes: "read_literal (double_quotes u @ [quote_char]) = Some (u, [])"
  by (induction u) (auto simp: double_quotes_def)

lemma filter_user_exact: "filter_user (user_filter u) = Some u"
proof -
  have "user_filter u = (''user_id = '' @ [quote_char]) @ double_quotes u @ [quote_char]"
    by (simp add: user_filter_def quoted_def quote_char_def)
  then show ?thesis by (simp only: filter_user_def strip_prefix_append option.case read_double_quotes prod.case list.case)
qed

text \<open>
  A user's name cannot leave its filter: the filter text the LanceDB store makes for a user is
  read back as exactly that user, whatever quotes the name has.
\<close>

theorem user_filter_is_exact: "filter_user (user_filter u) = Some u"
  by (rule filter_user_exact)

definition owned_pairs :: "string \<Rightarrow> 'f vector_record list \<Rightarrow> owned_record set" where
  "owned_pairs u rows = (\<lambda>r. (vr_content r, vr_created_at r)) ` {r \<in> set rows. vr_user r = u}"

interpretation pgvector: vector_store pgvector_store "pgvector_search fo pd" "\<lambda>u s. owned_pairs u (pm_rows s)" for fo pd
  by unfold_locales
    (auto simp: pgvector_search_def pgvector_store_def owned_pairs_def split: option.splits if_splits dest!: in_set_takeD)

lemma set_sort_descending [simp]: "set (sort_descending f xs) = set xs"
  by (simp add: sort_descending_def)

interpretation lance: vector_store lance_store "lance_search fo dist" "\<lambda>u s. owned_pairs u (lm_rows s)" for fo dist
  by unfold_locales
    (auto simp: lance_search_def lance_store_def owned_pairs_def filter_user_exact split: option.splits if_splits dest!: in_set_takeD)

interpretation noop: vector_store noop_store noop_search "\<lambda>u s. {}"
  by unfold_locales (auto simp: noop_store_def noop_search_def)

section \<open>The memory over an embedder and a store\<close>

record 'f score_weights =
  sw_recency :: 'f
  sw_importance :: 'f
  sw_relevance :: 'f
  sw_half_life :: int

definition default_weights :: "'f float_ops \<Rightarrow> 'f score_weights" where
  "default_weights fo = \<lparr>sw_recency = fo_div fo (fo_one fo) (fo_of_int fo 4), sw_importance = fo_div fo (fo_one fo) (fo_of_int fo 4),
     sw_relevance = fo_div fo (fo_one fo) (fo_of_int fo 2), sw_half_life = 7 * 86400 * 1000000000\<rparr>"

text \<open>The whole seconds of a duration, towards zero.\<close>

definition num_seconds :: "int \<Rightarrow> int" where
  "num_seconds d = (if 0 \<le> d then d div 1000000000 else - (- d div 1000000000))"

definition first_vector :: "memory_error + 'f list list \<Rightarrow> memory_error + 'f list" where
  "first_vector r = try_bind r (\<lambda>vs. case vs of v # _ \<Rightarrow> Ok v | [] \<Rightarrow> Err (Embedding ''embedder returned no vectors''))"

definition ltm_write ::
  "'f embed \<Rightarrow> ('f vector_record \<Rightarrow> 's \<Rightarrow> (memory_error + unit) \<times> 's) \<Rightarrow> string \<Rightarrow> 'f longterm_entry \<Rightarrow> 's \<Rightarrow>
   (memory_error + unit) \<times> 's" where
  "ltm_write emb store user_id r s = (case first_vector (emb [lr_content r]) of
     Err e \<Rightarrow> (Err e, s)
   | Ok v \<Rightarrow> store \<lparr>vr_user = user_id, vr_content = lr_content r, vr_embedding = v, vr_importance = lr_importance r,
         vr_created_at = lr_created_at r\<rparr> s)"

definition hit_score :: "'f float_ops \<Rightarrow> 'f score_weights \<Rightarrow> instant \<Rightarrow> 'f vector_hit \<Rightarrow> 'f" where
  "hit_score fo w now h =
     (let age_seconds = fo_of_int fo (num_seconds (now - vh_created_at h));
          recency = fo_half_power fo (fo_div fo age_seconds (fo_of_int fo (num_seconds (sw_half_life w))))
      in fo_add fo (fo_add fo (fo_mul fo (sw_recency w) recency) (fo_mul fo (sw_importance w) (vh_importance h)))
           (fo_mul fo (sw_relevance w) (vh_relevance h)))"

definition scored_hit :: "'f float_ops \<Rightarrow> 'f score_weights \<Rightarrow> instant \<Rightarrow> 'f vector_hit \<Rightarrow> 'f scored_memory" where
  "scored_hit fo w now h = \<lparr>sm_content = vh_content h, sm_score = hit_score fo w now h, sm_created_at = vh_created_at h\<rparr>"

definition ltm_retrieve ::
  "'f::linorder float_ops \<Rightarrow> 'f score_weights \<Rightarrow> 'f embed \<Rightarrow> (string \<Rightarrow> 'f list \<Rightarrow> nat \<Rightarrow> 's \<Rightarrow> memory_error + 'f vector_hit list) \<Rightarrow>
   instant \<Rightarrow> string \<Rightarrow> string \<Rightarrow> nat \<Rightarrow> 's \<Rightarrow> memory_error + 'f scored_memory list" where
  "ltm_retrieve fo w emb search now user_id qtext top_k s =
     try_bind (first_vector (emb [qtext])) (\<lambda>v.
       map_ok (\<lambda>hits. take top_k (sort_descending sm_score (map (scored_hit fo w now) hits)))
         (search user_id v (top_k * 4 mod 2 ^ 64) s))"

section \<open>What a retrieval gives\<close>

text \<open>The \<open>k\<close> highest of some candidates by a score, in descending order.\<close>

definition best_of :: "('a \<Rightarrow> 'f::linorder) \<Rightarrow> nat \<Rightarrow> 'a list \<Rightarrow> 'a list \<Rightarrow> bool" where
  "best_of f k cs xs \<longleftrightarrow> length xs = min k (length cs) \<and> sorted_wrt (\<lambda>x y. f y \<le> f x) xs
     \<and> (\<exists>rest. mset cs = mset xs + mset rest \<and> (\<forall>x \<in> set xs. \<forall>y \<in> set rest. f y \<le> f x))"

lemma sorted_sort_descending: "sorted_wrt (\<lambda>x y. f y \<le> f x) (sort_descending f xs)"
proof -
  have "sorted (map f (sort_key f (rev xs)))" by simp
  then show ?thesis by (simp add: sort_descending_def sorted_wrt_rev sorted_wrt_map)
qed

lemma best_of_take: "best_of f k cs (take k (sort_descending f cs))"
proof -
  let ?xs = "sort_descending f cs"
  have perm: "mset ?xs = mset cs" by (simp add: sort_descending_def)
  have len: "length ?xs = length cs" using arg_cong [OF perm, of size] by simp
  have sorted: "sorted_wrt (\<lambda>x y. f y \<le> f x) (take k ?xs @ drop k ?xs)" by (simp add: sorted_sort_descending)
  have "mset cs = mset (take k ?xs) + mset (drop k ?xs)" using perm by (metis append_take_drop_id mset_append)
  moreover have "sorted_wrt (\<lambda>x y. f y \<le> f x) (take k ?xs)" "\<forall>x \<in> set (take k ?xs). \<forall>y \<in> set (drop k ?xs). f y \<le> f x"
    using sorted unfolding sorted_wrt_append by blast+
  ultimately show ?thesis using len by (auto simp: best_of_def)
qed

context vector_store
begin

lemma retrieve_best:
  assumes "ltm_retrieve fo w emb search now u qtext k s = Ok ms"
  shows "\<exists>v hits. search u v (k * 4 mod 2 ^ 64) s = Ok hits \<and> length hits \<le> k * 4
    \<and> best_of sm_score k (map (scored_hit fo w now) hits) ms
    \<and> (\<forall>m \<in> set ms. (sm_content m, sm_created_at m) \<in> owned u s)"
proof -
  obtain v hits where hits: "search u v (k * 4 mod 2 ^ 64) s = Ok hits"
    and ms: "ms = take k (sort_descending sm_score (map (scored_hit fo w now) hits))"
    using assms by (auto simp: ltm_retrieve_def try_bind_Ok_iff map_ok_Ok)
  have "length hits \<le> k * 4" using search_bounded [OF hits] mod_less_eq_dividend [of "k * 4" "2 ^ 64"] by linarith
  moreover have "(sm_content m, sm_created_at m) \<in> owned u s" if "m \<in> set ms" for m
    using that search_owned [OF hits] by (auto simp: ms scored_hit_def dest!: in_set_takeD)
  moreover have "best_of sm_score k (map (scored_hit fo w now) hits) ms" unfolding ms by (rule best_of_take)
  ultimately show ?thesis using hits by blast
qed

lemma retrieve_after_other:
  assumes "u \<noteq> u'"
  shows "ltm_retrieve fo w emb search now u qtext k (snd (ltm_write other_emb store u' r s))
    = ltm_retrieve fo w emb search now u qtext k s"
  using store_other [of u] assms by (simp add: ltm_retrieve_def ltm_write_def split: sum.split)

end

section \<open>Properties\<close>

text \<open>
  Retrieved memories are the best of the user's own. Over either store a retrieval of \<open>k\<close>
  memories gives, in descending order of score, the \<open>k\<close> highest scored of at most \<open>4 * k\<close>
  hits of the store's search for the user, and each is the text and time of a record stored for
  that user.
\<close>

theorem retrieved_memories_are_the_best_of_ones_own:
  "(ltm_retrieve fo w emb (pgvector_search fo pd) now u qtext k s = Ok ms \<longrightarrow>
     (\<exists>v hits. pgvector_search fo pd u v (k * 4 mod 2 ^ 64) s = Ok hits \<and> length hits \<le> k * 4
        \<and> best_of sm_score k (map (scored_hit fo w now) hits) ms)
     \<and> (\<forall>m \<in> set ms. (sm_content m, sm_created_at m) \<in> owned_pairs u (pm_rows s)))
   \<and> (ltm_retrieve fo w emb (lance_search fo dist) now u qtext k s' = Ok ms' \<longrightarrow>
     (\<exists>v hits. lance_search fo dist u v (k * 4 mod 2 ^ 64) s' = Ok hits \<and> length hits \<le> k * 4
        \<and> best_of sm_score k (map (scored_hit fo w now) hits) ms')
     \<and> (\<forall>m \<in> set ms'. (sm_content m, sm_created_at m) \<in> owned_pairs u (lm_rows s')))"
proof (intro conjI impI)
  assume r: "ltm_retrieve fo w emb (pgvector_search fo pd) now u qtext k s = Ok ms"
  from pgvector.retrieve_best [OF r]
  show "\<exists>v hits. pgvector_search fo pd u v (k * 4 mod 2 ^ 64) s = Ok hits \<and> length hits \<le> k * 4
        \<and> best_of sm_score k (map (scored_hit fo w now) hits) ms"
    "\<forall>m \<in> set ms. (sm_content m, sm_created_at m) \<in> owned_pairs u (pm_rows s)" by blast+
next
  assume r: "ltm_retrieve fo w emb (lance_search fo dist) now u qtext k s' = Ok ms'"
  from lance.retrieve_best [OF r]
  show "\<exists>v hits. lance_search fo dist u v (k * 4 mod 2 ^ 64) s' = Ok hits \<and> length hits \<le> k * 4
        \<and> best_of sm_score k (map (scored_hit fo w now) hits) ms'"
    "\<forall>m \<in> set ms'. (sm_content m, sm_created_at m) \<in> owned_pairs u (lm_rows s')" by blast+
qed


text \<open>
  Embeddings belong to their texts: what the OpenAI embedder returns for a batch has one vector
  per text, each of the configured dimension, and the vector at a place is the one the response
  gives under that place's index, in whatever order the response lists them; a response with a
  missing or repeated index is an error. So writing and retrieving through it never see an
  empty batch.
\<close>

theorem embeddings_belong_to_their_texts:
  assumes "openai_embed post parse e ts = Ok vs"
  shows "length vs = length ts \<and> (\<forall>v \<in> set vs. length v = oe_dimensions e)
    \<and> (ts \<noteq> [] \<longrightarrow> (\<exists>body parsed. parse body = Ok parsed \<and> (\<forall>k < length ts. (k, vs ! k) \<in> set parsed)))
    \<and> openai_embed post parse e [t] \<noteq> Ok []"
  using openai_embed_Ok [OF assms] openai.single [of post parse e t "[]"] by auto

section \<open>Samples\<close>

definition sample_floats :: "int float_ops" where
  "sample_floats = \<lparr>fo_zero = 0, fo_one = 1, fo_is_nan = (\<lambda>_. False), fo_less = (<), fo_of_int = (\<lambda>i. i),
     fo_add = (+), fo_mul = (*), fo_div = (div), fo_half_power = (\<lambda>_. 0)\<rparr>"

definition sample_embed :: "int embed" where
  "sample_embed ts = Ok (map (\<lambda>t. [int (length t)]) ts)"

definition sample_distance :: "(int, int) pg_distance" where
  "sample_distance = \<lparr>pd_distance = (\<lambda>v w. \<bar>hd v - hd w\<bar>), pd_single = (\<lambda>d. d), pd_negative_limit = ''negative''\<rparr>"

definition sample_weights :: "int score_weights" where
  "sample_weights = \<lparr>sw_recency = 0, sw_importance = 1, sw_relevance = 1, sw_half_life = 1000000000\<rparr>"

definition remembered :: "string \<Rightarrow> string \<Rightarrow> int \<Rightarrow> int pg_memory \<Rightarrow> int pg_memory" where
  "remembered u t importance s =
     snd (ltm_write sample_embed pgvector_store u \<lparr>lr_content = t, lr_importance = importance, lr_created_at = 0\<rparr> s)"

definition sample_memory :: "int pg_memory" where
  "sample_memory = remembered ''bob'' ''x'' 9 (remembered ''ada'' ''yy'' 2 (remembered ''ada'' ''z'' 1 \<lparr>pm_rows = [], pm_fault = None\<rparr>))"

lemma sample_rows:
  "pm_rows sample_memory =
    [\<lparr>vr_user = ''ada'', vr_content = ''z'', vr_embedding = [1], vr_importance = 1, vr_created_at = 0\<rparr>,
     \<lparr>vr_user = ''ada'', vr_content = ''yy'', vr_embedding = [2], vr_importance = 2, vr_created_at = 0\<rparr>,
     \<lparr>vr_user = ''bob'', vr_content = ''x'', vr_embedding = [1], vr_importance = 9, vr_created_at = 0\<rparr>]"
  "pm_fault sample_memory = None"
  by (simp_all add: sample_memory_def remembered_def ltm_write_def first_vector_def sample_embed_def pgvector_store_def)

lemma sample_retrieved:
  "ltm_retrieve sample_floats sample_weights sample_embed (pgvector_search sample_floats sample_distance) 0 ''ada'' ''q'' 1 sample_memory
    = Ok [\<lparr>sm_content = ''z'', sm_score = 2, sm_created_at = 0\<rparr>]"
  by (simp add: ltm_retrieve_def first_vector_def sample_embed_def pgvector_search_def sample_rows sample_distance_def
      sort_descending_def scored_hit_def hit_score_def relevance_of_def sample_floats_def sample_weights_def num_seconds_def Let_def)

lemma retrieved_memories_are_the_best_of_ones_own_witness:
  "(''z'', 0) \<in> owned_pairs ''ada'' (pm_rows sample_memory)"
proof -
  let ?ms = "[\<lparr>sm_content = ''z'', sm_score = 2, sm_created_at = 0\<rparr>] :: int scored_memory list"
  have "\<forall>m \<in> set ?ms. (sm_content m, sm_created_at m) \<in> owned_pairs ''ada'' (pm_rows sample_memory)"
    by (rule retrieved_memories_are_the_best_of_ones_own [THEN conjunct1, THEN mp, THEN conjunct2, OF sample_retrieved])
  then show ?thesis by simp
qed


definition sample_openai :: openai_embedder where
  "sample_openai = \<lparr>oe_base_url = ''u'', oe_api_key = [], oe_model_name = ''m'', oe_dimensions = 1\<rparr>"

definition sample_embed_post :: embed_post where
  "sample_embed_post rq = Ok \<lparr>es_status = ''200 OK'', es_success = True, es_body = Ok ''b''\<rparr>"

lemma embeddings_belong_to_their_texts_witness:
  "openai_embed sample_embed_post (\<lambda>_. Ok [(1, [7::int]), (0, [5])]) sample_openai [''a'', ''b''] = Ok [[5], [7]]
    \<and> openai_embed sample_embed_post (\<lambda>_. Ok [(1, [7::int]), (0, [5])]) sample_openai [''c''] \<noteq> Ok []"
proof -
  have ok: "openai_embed sample_embed_post (\<lambda>_. Ok [(1, [7::int]), (0, [5])]) sample_openai [''a'', ''b''] = Ok [[5], [7]]"
    by code_simp
  from embeddings_belong_to_their_texts [OF this] ok show ?thesis by blast
qed

end
