(* ===== verification/Conformance.thy ===== *)
theory Conformance
  imports Pg_Store Effects
begin

text \<open>
  The conformance suite of the session store (\<open>avs-test-utils/src/session_conformance.rs\<close>): a
  generic program over the trait \<open>SessionMemory\<close> that every backend has to pass. \<open>store_ops\<close> is
  the trait without the phase columns. A run threads the store and the number of calls made so far;
  call number \<open>n\<close> happens at \<open>clk n\<close>, and an identifier drawn by it is \<open>ids n\<close>. An \<open>expect\<close> that
  fails is a panic with its text, an assertion that does not hold a panic with a label.
\<close>

record 's store_ops =
  so_create :: "instant \<Rightarrow> uuid \<Rightarrow> string \<Rightarrow> 's \<Rightarrow> (session_memory_error + session) \<times> 's"
  so_get :: "uuid \<Rightarrow> 's \<Rightarrow> session_memory_error + session option"
  so_update_status :: "instant \<Rightarrow> uuid \<Rightarrow> session_status \<Rightarrow> 's \<Rightarrow> (session_memory_error + unit) \<times> 's"
  so_list_by_user :: "string \<Rightarrow> 's \<Rightarrow> session_memory_error + session list"
  so_append_message :: "instant \<Rightarrow> uuid \<Rightarrow> message \<Rightarrow> 's \<Rightarrow> (session_memory_error + unit) \<times> 's"
  so_append_turn :: "instant \<Rightarrow> uuid \<Rightarrow> message \<Rightarrow> message \<Rightarrow> 's \<Rightarrow> (session_memory_error + unit) \<times> 's"
  so_load_messages :: "uuid \<Rightarrow> 's \<Rightarrow> session_memory_error + message list"
  so_get_watermark :: "uuid \<Rightarrow> 's \<Rightarrow> session_memory_error + int"
  so_advance_watermark :: "uuid \<Rightarrow> int \<Rightarrow> 's \<Rightarrow> (session_memory_error + unit) \<times> 's"
  so_load_above :: "uuid \<Rightarrow> 's \<Rightarrow> session_memory_error + (int \<times> message) list"
  so_needing_maintenance :: "instant \<Rightarrow> 's \<Rightarrow> session_memory_error + session list"
  so_cleanup_expired :: "uuid \<Rightarrow> int \<Rightarrow> int \<Rightarrow> 's \<Rightarrow> (session_memory_error + nat) \<times> 's"
  so_delete_ended :: "int \<Rightarrow> 's \<Rightarrow> (session_memory_error + nat) \<times> 's"
  so_delete_session :: "uuid \<Rightarrow> 's \<Rightarrow> (session_memory_error + unit) \<times> 's"
  so_set_skill_context :: "uuid \<Rightarrow> string option \<Rightarrow> 's \<Rightarrow> (session_memory_error + unit) \<times> 's"
  so_get_skill_context :: "uuid \<Rightarrow> 's \<Rightarrow> session_memory_error + string option"
  so_set_interrupted :: "uuid \<Rightarrow> string option \<Rightarrow> 's \<Rightarrow> (session_memory_error + unit) \<times> 's"
  so_get_interrupted :: "uuid \<Rightarrow> 's \<Rightarrow> session_memory_error + string option"

definition sqlite_ops :: "content_codec \<Rightarrow> db store_ops" where
  "sqlite_ops cd =
     \<lparr>so_create = create, so_get = (\<lambda>i db. get db i), so_update_status = update_status,
      so_list_by_user = (\<lambda>u db. list_by_user db u), so_append_message = append_message cd, so_append_turn = append_turn cd,
      so_load_messages = (\<lambda>i db. load_messages cd db i), so_get_watermark = (\<lambda>i db. get_watermark db i),
      so_advance_watermark = advance_watermark,
      so_load_above = (\<lambda>i db. load_messages_above_watermark cd db i),
      so_needing_maintenance = list_sessions_needing_maintenance,
      so_cleanup_expired = cleanup_expired_messages, so_delete_ended = delete_ended_sessions_before, so_delete_session = delete_session,
      so_set_skill_context = set_skill_context, so_get_skill_context = (\<lambda>i db. get_skill_context db i),
      so_set_interrupted = set_interrupted_state, so_get_interrupted = (\<lambda>i db. get_interrupted_state db i)\<rparr>"

definition postgres_ops :: "pg_texts \<Rightarrow> content_codec \<Rightarrow> db store_ops" where
  "postgres_ops tx cd =
     \<lparr>so_create = pg_create tx, so_get = (\<lambda>i db. pg_get db i), so_update_status = pg_update_status,
      so_list_by_user = (\<lambda>u db. pg_list_by_user db u), so_append_message = pg_append_message tx cd,
      so_append_turn = pg_append_turn tx cd,
      so_load_messages = (\<lambda>i db. pg_load_messages cd db i), so_get_watermark = (\<lambda>i db. pg_get_watermark tx db i),
      so_advance_watermark = pg_advance_watermark,
      so_load_above = (\<lambda>i db. pg_load_messages_above_watermark tx cd db i),
      so_needing_maintenance = pg_list_sessions_needing_maintenance,
      so_cleanup_expired = pg_cleanup_expired_messages tx, so_delete_ended = pg_delete_ended_sessions_before, so_delete_session = pg_delete_session,
      so_set_skill_context = pg_set_skill_context, so_get_skill_context = (\<lambda>i db. pg_get_skill_context db i),
      so_set_interrupted = pg_set_interrupted_state, so_get_interrupted = (\<lambda>i db. pg_get_interrupted_state db i)\<rparr>"

section \<open>The suite\<close>

type_synonym ('s, 'a) check = "('s \<times> nat, string, 'a) eff"

text \<open>
  A call of the store followed by \<open>expect\<close>; the text of the store's error is left out of the
  panic. \<open>asks\<close> is a call that only reads.
\<close>

definition expect ::
  "(nat \<Rightarrow> instant) \<Rightarrow> string \<Rightarrow> (instant \<Rightarrow> 's \<Rightarrow> (session_memory_error + 'a) \<times> 's) \<Rightarrow> ('s, 'a) check" where
  "expect clk label f = (\<lambda>(s, n). case f (clk n) s of
       (Ok x, s') \<Rightarrow> (Ok x, (s', Suc n)) | (Err _, s') \<Rightarrow> (Err label, (s', Suc n)))"

definition asks :: "('s \<Rightarrow> session_memory_error + 'a) \<Rightarrow> instant \<Rightarrow> 's \<Rightarrow> (session_memory_error + 'a) \<times> 's" where
  "asks f now s = (f s, s)"

definition assert_that :: "bool \<Rightarrow> string \<Rightarrow> ('s, unit) check" where
  "assert_that b label = (if b then eff_ok () else eff_err label)"

definition new_id :: "(nat \<Rightarrow> uuid) \<Rightarrow> ('s, uuid) check" where
  "new_id ids = eff_get (\<lambda>(s, n). ids n)"

definition utc_now :: "(nat \<Rightarrow> instant) \<Rightarrow> ('s, instant) check" where
  "utc_now clk = (\<lambda>(s, n). (Ok (clk n), (s, Suc n)))"

text \<open>\<open>session exists\<close>: the second \<open>expect\<close>, on the option.\<close>

definition some_or :: "string \<Rightarrow> 'a option \<Rightarrow> ('s, 'a) check" where
  "some_or label r = (case r of Some x \<Rightarrow> eff_ok x | None \<Rightarrow> eff_err label)"

definition created :: "'s store_ops \<Rightarrow> (nat \<Rightarrow> instant) \<Rightarrow> (nat \<Rightarrow> uuid) \<Rightarrow> string \<Rightarrow> string \<Rightarrow> ('s, uuid) check" where
  "created ops clk ids label user =
     eff_bind (new_id ids) (\<lambda>i.
     eff_bind (expect clk label (\<lambda>now. so_create ops now i user)) (\<lambda>session. eff_ok (ses_id session)))"

definition exchanged :: "'s store_ops \<Rightarrow> (nat \<Rightarrow> instant) \<Rightarrow> string \<Rightarrow> uuid \<Rightarrow> string \<Rightarrow> string \<Rightarrow> ('s, unit) check" where
  "exchanged ops clk label i question reply =
     expect clk label (\<lambda>now. so_append_turn ops now i (text_message RoleUser question) (text_message RoleAssistant reply))"

definition check_create :: "'s store_ops \<Rightarrow> (nat \<Rightarrow> instant) \<Rightarrow> (nat \<Rightarrow> uuid) \<Rightarrow> ('s, uuid) check" where
  "check_create ops clk ids =
     eff_bind (created ops clk ids ''create'' ''alice'') (\<lambda>i.
     eff_bind (expect clk ''get'' (asks (so_get ops i))) (\<lambda>r.
     eff_bind (some_or ''session exists'' r) (\<lambda>fetched.
     eff_seq (assert_that (ses_user_id fetched = ''alice'') ''fetched.user_id'')
     (eff_bind (new_id ids) (\<lambda>other.
      eff_bind (expect clk ''get unknown'' (asks (so_get ops other))) (\<lambda>r.
      eff_seq (assert_that (r = None) ''unknown is none'') (eff_ok i)))))))"

definition check_order :: "'s store_ops \<Rightarrow> (nat \<Rightarrow> instant) \<Rightarrow> uuid \<Rightarrow> ('s, unit) check" where
  "check_order ops clk i =
     eff_seq (exchanged ops clk ''append_turn'' i ''hi'' ''hello'')
     (eff_bind (expect clk ''load'' (asks (so_load_messages ops i))) (\<lambda>msgs.
      eff_seq (assert_that (length msgs = 2) ''msgs.len()'')
      (eff_seq (assert_that (message_as_text (msgs ! 0) = ''hi'') ''msgs[0].as_text()'')
      (eff_seq (assert_that (msg_role (msgs ! 0) = RoleUser) ''msgs[0].role'')
      (eff_seq (assert_that (message_as_text (msgs ! 1) = ''hello'') ''msgs[1].as_text()'')
       (assert_that (msg_role (msgs ! 1) = RoleAssistant) ''msgs[1].role''))))))"

definition check_watermark :: "'s store_ops \<Rightarrow> (nat \<Rightarrow> instant) \<Rightarrow> uuid \<Rightarrow> ('s, unit) check" where
  "check_watermark ops clk i =
     eff_bind (expect clk ''above watermark'' (asks (so_load_above ops i))) (\<lambda>above.
     eff_seq (assert_that (length above = 2) ''all messages start above the watermark'')
     (eff_bind (some_or ''non-empty'' (if above = [] then None else Some (last above))) (\<lambda>l.
      eff_seq (expect clk ''advance'' (\<lambda>_. so_advance_watermark ops i (fst l)))
      (eff_bind (expect clk ''watermark'' (asks (so_get_watermark ops i))) (\<lambda>wm.
       eff_seq (assert_that (wm = fst l) ''get_watermark'')
       (eff_bind (expect clk ''above after advance'' (asks (so_load_above ops i))) (\<lambda>rest.
        assert_that (rest = []) ''above after advance is empty'')))))))"

definition skill_json :: string where \<open>skill_json = ''{"skill":"x"}''\<close>

definition state_json :: string where \<open>state_json = ''{"s":1}''\<close>

definition check_columns :: "'s store_ops \<Rightarrow> (nat \<Rightarrow> instant) \<Rightarrow> uuid \<Rightarrow> ('s, unit) check" where
  "check_columns ops clk i =
     eff_seq (expect clk ''set ctx'' (\<lambda>_. so_set_skill_context ops i (Some skill_json)))
     (eff_bind (expect clk ''get ctx'' (asks (so_get_skill_context ops i))) (\<lambda>c.
      eff_seq (assert_that (c = Some skill_json) ''skill context'')
      (eff_seq (expect clk ''clear ctx'' (\<lambda>_. so_set_skill_context ops i None))
      (eff_bind (expect clk ''get ctx 2'' (asks (so_get_skill_context ops i))) (\<lambda>c.
       eff_seq (assert_that (c = None) ''skill context cleared'')
       (eff_seq (expect clk ''set interrupted'' (\<lambda>_. so_set_interrupted ops i (Some state_json)))
       (eff_bind (expect clk ''get interrupted'' (asks (so_get_interrupted ops i))) (\<lambda>c.
        eff_seq (assert_that (c = Some state_json) ''interrupted state'')
        (eff_seq (expect clk ''status'' (\<lambda>now. so_update_status ops now i Suspended))
        (eff_bind (expect clk ''get after status'' (asks (so_get ops i))) (\<lambda>r.
         eff_bind (some_or ''session exists after status'' r) (\<lambda>after.
         assert_that (ses_status after = Suspended) ''after.status''))))))))))))"

definition check_listing :: "'s store_ops \<Rightarrow> (nat \<Rightarrow> instant) \<Rightarrow> uuid \<Rightarrow> ('s, unit) check" where
  "check_listing ops clk i =
     eff_bind (expect clk ''list alice'' (asks (so_list_by_user ops ''alice''))) (\<lambda>sessions.
     eff_seq (assert_that (\<exists>s \<in> set sessions. ses_id s = i) ''alice has it'')
     (eff_bind (expect clk ''list bob'' (asks (so_list_by_user ops ''bob''))) (\<lambda>sessions.
      assert_that (sessions = []) ''bob has none'')))"

definition check_pending :: "'s store_ops \<Rightarrow> (nat \<Rightarrow> instant) \<Rightarrow> (nat \<Rightarrow> uuid) \<Rightarrow> ('s, unit) check" where
  "check_pending ops clk ids =
     eff_bind (created ops clk ids ''create ended session'' ''carol'') (\<lambda>i.
     eff_seq (exchanged ops clk ''append_turn for ended session'' i ''pending'' ''reply'')
     (eff_seq (expect clk ''end the session while it still has unconsolidated messages'' (\<lambda>now. so_update_status ops now i Completed))
     (eff_bind (expect clk ''list needing maintenance'' (\<lambda>now. asks (so_needing_maintenance ops now) now)) (\<lambda>needing.
      assert_that (\<exists>s \<in> set needing. ses_id s = i) ''an ended session must still be visible''))))"

definition relisted :: string where "relisted = ''a drained session is listed again''"

definition check_drained :: "'s store_ops \<Rightarrow> (nat \<Rightarrow> instant) \<Rightarrow> (nat \<Rightarrow> uuid) \<Rightarrow> ('s, unit) check" where
  "check_drained ops clk ids =
     eff_bind (created ops clk ids ''create drained session'' ''dave'') (\<lambda>i.
     eff_seq (exchanged ops clk ''append_turn for drained session'' i ''hi'' ''hello'')
     (eff_bind (expect clk ''load above watermark'' (asks (so_load_above ops i))) (\<lambda>above.
      eff_bind (some_or ''has messages'' (if above = [] then None else Some (last above))) (\<lambda>l.
      eff_seq (expect clk ''advance watermark to fully consolidate'' (\<lambda>_. so_advance_watermark ops i (fst l)))
      (eff_bind (expect clk ''list needing maintenance 2'' (\<lambda>now. asks (so_needing_maintenance ops now) now)) (\<lambda>needing.
       assert_that (\<not> (\<exists>s \<in> set needing. ses_id s = i)) relisted))))))"

definition check_delete :: "'s store_ops \<Rightarrow> (nat \<Rightarrow> instant) \<Rightarrow> (nat \<Rightarrow> uuid) \<Rightarrow> ('s, unit) check" where
  "check_delete ops clk ids =
     eff_bind (created ops clk ids ''create session to delete'' ''erin'') (\<lambda>i.
     eff_seq (exchanged ops clk ''append_turn before delete'' i ''will be deleted'' ''ok'')
     (eff_seq (expect clk ''delete_session'' (\<lambda>_. so_delete_session ops i))
     (eff_bind (expect clk ''get after delete'' (asks (so_get ops i))) (\<lambda>r.
      eff_seq (assert_that (r = None) ''session must be gone'')
      (eff_bind (expect clk ''load_messages after delete'' (asks (so_load_messages ops i))) (\<lambda>ms.
       assert_that (ms = []) ''messages must be cascade-deleted''))))))"

definition check_ended :: "'s store_ops \<Rightarrow> (nat \<Rightarrow> instant) \<Rightarrow> (nat \<Rightarrow> uuid) \<Rightarrow> ('s, unit) check" where
  "check_ended ops clk ids =
     eff_bind (created ops clk ids ''create old ended session'' ''frank'') (\<lambda>old.
     eff_seq (expect clk ''end old session'' (\<lambda>now. so_update_status ops now old Completed))
     (eff_bind (created ops clk ids ''create still-active session'' ''grace'') (\<lambda>active.
      eff_bind (created ops clk ids ''create recently-ended session'' ''henry'') (\<lambda>recent.
      eff_seq (expect clk ''end recently-ended session'' (\<lambda>now. so_update_status ops now recent Completed))
      (eff_bind (utc_now clk) (\<lambda>now.
       eff_bind (expect clk ''delete_ended_sessions_before'' (\<lambda>_. so_delete_ended ops (timestamp now + 86400))) (\<lambda>k.
       eff_seq (assert_that (2 \<le> k) ''both ended sessions should be deleted'')
       (eff_bind (expect clk ''get old_ended'' (asks (so_get ops old))) (\<lambda>r.
        eff_seq (assert_that (r = None) ''old ended session must be deleted'')
        (eff_bind (expect clk ''get recently_ended'' (asks (so_get ops recent))) (\<lambda>r.
         eff_seq (assert_that (r = None) ''recently-ended session must be deleted too'')
         (eff_bind (expect clk ''get still_active'' (asks (so_get ops active))) (\<lambda>r.
          assert_that (r \<noteq> None) ''an active session must NEVER be deleted'')))))))))))))"

definition check_recent :: "'s store_ops \<Rightarrow> (nat \<Rightarrow> instant) \<Rightarrow> (nat \<Rightarrow> uuid) \<Rightarrow> ('s, unit) check" where
  "check_recent ops clk ids =
     eff_bind (created ops clk ids ''create another ended session'' ''iris'') (\<lambda>i.
     eff_seq (expect clk ''end session'' (\<lambda>now. so_update_status ops now i Completed))
     (eff_bind (utc_now clk) (\<lambda>now.
      eff_seq (expect clk ''delete_ended_sessions_before with a past cutoff''
        (\<lambda>_. so_delete_ended ops (timestamp now - 86400)))
      (eff_bind (expect clk ''get ended_but_recent'' (asks (so_get ops i))) (\<lambda>r.
       assert_that (r \<noteq> None) ''a session ended just now must survive'')))))"

definition run_conformance_suite :: "'s store_ops \<Rightarrow> (nat \<Rightarrow> instant) \<Rightarrow> (nat \<Rightarrow> uuid) \<Rightarrow> ('s, unit) check" where
  "run_conformance_suite ops clk ids =
     eff_bind (check_create ops clk ids) (\<lambda>i.
     eff_seq (check_order ops clk i)
     (eff_seq (check_watermark ops clk i)
     (eff_seq (check_columns ops clk i)
     (eff_seq (check_listing ops clk i)
     (eff_seq (check_pending ops clk ids)
     (eff_seq (check_drained ops clk ids)
     (eff_seq (check_delete ops clk ids)
     (eff_seq (check_ended ops clk ids)
      (check_recent ops clk ids)))))))))"

section \<open>One suite for both stores\<close>

lemma expect_blank:
  assumes "\<And>now s. blank_text (fst (f now s)) = blank_text (fst (g now s)) \<and> snd (f now s) = snd (g now s)"
  shows "expect clk label f = expect clk label g"
proof
  fix x :: "'a \<times> nat"
  obtain s n where "x = (s, n)" by fastforce
  then show "expect clk label f x = expect clk label g x"
    using assms [of "clk n" s]
    by (cases "f (clk n) s"; cases "g (clk n) s")
      (auto simp: expect_def blank_text_def map_err_def split: sum.splits session_memory_error.splits)
qed

lemma suite_calls_agree:
  "expect clk l (\<lambda>now. so_create (postgres_ops tx cd) now i u) = expect clk l (\<lambda>now. so_create (sqlite_ops cd) now i u)"
  "expect clk l (asks (so_get_watermark (postgres_ops tx cd) i)) = expect clk l (asks (so_get_watermark (sqlite_ops cd) i))"
  "expect clk l (asks (so_load_above (postgres_ops tx cd) i)) = expect clk l (asks (so_load_above (sqlite_ops cd) i))"
  by (rule expect_blank; simp add: postgres_ops_def sqlite_ops_def asks_def pg_create_blank pg_watermark_blank
      pg_above_blank)+

lemma suite_ops_agree:
  "so_get (postgres_ops tx cd) = so_get (sqlite_ops cd)"
  "so_update_status (postgres_ops tx cd) = so_update_status (sqlite_ops cd)"
  "so_list_by_user (postgres_ops tx cd) = so_list_by_user (sqlite_ops cd)"
  "so_append_turn (postgres_ops tx cd) = so_append_turn (sqlite_ops cd)"
  "so_load_messages (postgres_ops tx cd) = so_load_messages (sqlite_ops cd)"
  "so_advance_watermark (postgres_ops tx cd) = so_advance_watermark (sqlite_ops cd)"
  "so_needing_maintenance (postgres_ops tx cd) = so_needing_maintenance (sqlite_ops cd)"
  "so_delete_ended (postgres_ops tx cd) = so_delete_ended (sqlite_ops cd)"
  "so_delete_session (postgres_ops tx cd) = so_delete_session (sqlite_ops cd)"
  "so_set_skill_context (postgres_ops tx cd) = so_set_skill_context (sqlite_ops cd)"
  "so_get_skill_context (postgres_ops tx cd) = so_get_skill_context (sqlite_ops cd)"
  "so_set_interrupted (postgres_ops tx cd) = so_set_interrupted (sqlite_ops cd)"
  "so_get_interrupted (postgres_ops tx cd) = so_get_interrupted (sqlite_ops cd)"
  by (simp_all add: postgres_ops_def sqlite_ops_def pg_updates pg_columns pg_reads pg_delete_ended pg_equal_ops pg_get_eq)

lemma suites_agree: "run_conformance_suite (postgres_ops tx cd) = run_conformance_suite (sqlite_ops cd)"
  by (intro ext) (simp only: run_conformance_suite_def check_create_def check_order_def check_watermark_def check_columns_def
      check_listing_def check_pending_def check_drained_def check_delete_def check_ended_def check_recent_def
      created_def exchanged_def suite_calls_agree suite_ops_agree)

section \<open>What the operations do to rows and transcripts\<close>

text \<open>
  The state of a well-formed store as two functions: the row of each session and the messages
  of each session in order.
\<close>

definition sees :: "db \<Rightarrow> (uuid \<Rightarrow> session_row option) \<Rightarrow> (uuid \<Rightarrow> message_row list) \<Rightarrow> bool" where
  "sees db fr ms \<longleftrightarrow> store_inv db \<and> db_fault db = None \<and> find_row db = fr \<and> rows_of db = ms"

lemma sees_no_session: "sees db fr ms \<Longrightarrow> fr i = None \<Longrightarrow> ms i = []"
  by (force simp: sees_def rows_of_empty_iff store_inv_def find_row_None_iff has_session_def)

lemma sees_member:
  assumes "sees db fr ms"
  shows "r \<in> set (db_sessions db) \<longleftrightarrow> fr (row_id r) = Some r"
  using assms find_row_eqI [of db r "row_id r"] find_row_SomeD [of db "row_id r" r] by (auto simp: sees_def)

lemma sees_create:
  assumes "sees db fr ms" "fr i = None"
  shows "\<exists>db'. create now i u db = (Ok (new_session now i u), db')
    \<and> sees db' (fr(i \<mapsto> create_session_row now i u None)) ms"
proof -
  let ?r = "create_session_row now i u None"
  let ?db = "db\<lparr>db_sessions := db_sessions db @ [?r]\<rparr>"
  have [simp]: "row_id ?r = i" by (simp add: create_session_row_def)
  have db: "store_inv db" "db_fault db = None" "find_row db = fr" "rows_of db = ms" using assms(1) by (auto simp: sees_def)
  have "\<not> has_session db i" using assms(2) db(3) find_row_None_iff [of db i] by auto
  then have cr: "create now i u db = (Ok (new_session now i u), ?db)"
    using db(2) by (auto simp: create_def insert_session_row_def has_session_def image_iff)
  have "store_inv ?db" using store_inv_create(1) [OF db(1), of now i u] cr by simp
  moreover have "find_row ?db = fr(i \<mapsto> ?r)"
    using assms(2) db(3) by (auto simp: fun_eq_iff find_row_create split: option.split)
  moreover have "rows_of ?db = ms" using db(4) by (auto simp: rows_of_def fun_eq_iff)
  ultimately show ?thesis using cr db(2) by (auto simp: sees_def)
qed

lemma sees_append:
  assumes "sees db fr ms" "fr i = Some r" "ms i = []"
  shows "\<exists>db'. append_turn cd now i um am db = (Ok (), db')
    \<and> sees db' fr (ms(i := numbered_rows cd now i 1 [um, am]))"
proof -
  have db: "store_inv db" "db_fault db = None" "find_row db = fr" "rows_of db = ms" using assms(1) by (auto simp: sees_def)
  have "has_session db i" using assms(2) db(3) find_row_None_iff [of db i] by auto
  then have ap: "append_turn cd now i um am db
      = (Ok (), db\<lparr>db_messages := db_messages db @ numbered_rows cd now i (next_sequence db i) [um, am]\<rparr>)"
    using db(2) by (simp add: append_turn_def append_messages_ok)
  have "next_sequence db i = 1" using assms(3) db(4) by (intro rows_of_pruned) auto
  moreover have "store_inv (snd (append_turn cd now i um am db))"
    using db(1) by (auto simp: append_turn_def intro: inv_intros)
  ultimately show ?thesis
    using ap db assms(3) rows_of_append [of db cd now i "[um, am]"] by (auto simp: sees_def fun_eq_iff find_row_def)
qed

lemma sees_update:
  assumes "sees db fr ms" "fr i = Some r" "keeps_row f" "store_inv (snd (update_row i f db))"
  shows "\<exists>db'. update_row i f db = (Ok (), db') \<and> sees db' (fr(i \<mapsto> f r)) ms"
proof -
  have db: "store_inv db" "db_fault db = None" "find_row db = fr" "rows_of db = ms" using assms(1) by (auto simp: sees_def)
  have "has_session db i" using assms(2) db(3) find_row_None_iff [of db i] by auto
  then have "\<exists>r \<in> set (db_sessions db). row_id r = i" by (auto simp: has_session_def)
  then have up: "fst (update_row i f db) = Ok ()" "db_messages (snd (update_row i f db)) = db_messages db"
      "db_fault (snd (update_row i f db)) = None"
    using db(2) by (auto simp: update_row_def)
  have "find_row (snd (update_row i f db)) = fr(i \<mapsto> f r)"
    using find_row_update [OF assms(3), of i db] db(2,3) assms(2) by (auto simp: fun_eq_iff)
  moreover have "rows_of (snd (update_row i f db)) = ms" using db(4) up(2) by (auto simp: rows_of_def fun_eq_iff)
  ultimately show ?thesis
    using up(1,3) assms(4) by (intro exI [of _ "snd (update_row i f db)"]) (auto simp: sees_def prod_eq_iff)
qed

lemma sees_delete:
  assumes "sees db fr ms"
  shows "\<exists>db'. delete_session i db = (Ok (), db') \<and> sees db' (fr(i := None)) (ms(i := []))"
  using assms
  by (auto simp: sees_def delete_session_def store_inv_delete_rows find_row_delete rows_of_delete fun_eq_iff)
     (simp add: delete_rows_def Let_def)

text \<open>
  Running a check from a state it sees: \<open>gives m Q fr ms n\<close> says that \<open>m\<close>, run from call \<open>n\<close> on
  a store with rows \<open>fr\<close> and transcripts \<open>ms\<close>, ends with a result, rows, transcripts and a
  count for which \<open>Q\<close> holds.
\<close>

definition gives ::
  "(db, 'a) check \<Rightarrow> (string + 'a \<Rightarrow> (uuid \<Rightarrow> session_row option) \<Rightarrow> (uuid \<Rightarrow> message_row list) \<Rightarrow> nat \<Rightarrow> bool)
    \<Rightarrow> (uuid \<Rightarrow> session_row option) \<Rightarrow> (uuid \<Rightarrow> message_row list) \<Rightarrow> nat \<Rightarrow> bool" where
  "gives m Q fr ms n \<longleftrightarrow> (\<forall>db. sees db fr ms \<longrightarrow>
     (\<exists>r db' fr' ms' n'. m (db, n) = (r, (db', n')) \<and> sees db' fr' ms' \<and> Q r fr' ms' n'))"

named_theorems wp \<open>what a check gives\<close>

lemma gives_bind [wp]:
  "gives m (\<lambda>r fr ms n. case r of Ok x \<Rightarrow> gives (f x) Q fr ms n | Err e \<Rightarrow> Q (Err e) fr ms n) fr ms n
    \<Longrightarrow> gives (eff_bind m f) Q fr ms n"
  unfolding gives_def eff_bind_def by (fastforce split: sum.splits)

lemma gives_pure [wp]:
  "Q (Ok x) fr ms n \<Longrightarrow> gives (eff_ok x) Q fr ms n"
  "Qi (Ok (ids n)) fr ms n \<Longrightarrow> gives (new_id ids) Qi fr ms n"
  "Qt (Ok (clk n)) fr ms (Suc n) \<Longrightarrow> gives (utc_now clk) Qt fr ms n"
  "Qu (if b then Ok () else Err l) fr ms n \<Longrightarrow> gives (assert_that b l) Qu fr ms n"
  "Qo (case v of Some y \<Rightarrow> Ok y | None \<Rightarrow> Err l) fr ms n \<Longrightarrow> gives (some_or l v) Qo fr ms n"
  unfolding gives_def new_id_def utc_now_def assert_that_def some_or_def
  by (force simp: eff_simps split: option.split)+

lemma gives_expect:
  assumes "\<And>db. sees db fr ms \<Longrightarrow> \<exists>x db' fr' ms'. f (clk n) db = (Ok x, db') \<and> sees db' fr' ms' \<and> Q (Ok x) fr' ms' (Suc n)"
  shows "gives (expect clk l f) Q fr ms n"
  unfolding gives_def expect_def using assms by fastforce

lemma gives_asks:
  assumes "\<And>db. sees db fr ms \<Longrightarrow> \<exists>x. f db = Ok x \<and> Q (Ok x) fr ms (Suc n)"
  shows "gives (expect clk l (asks f)) Q fr ms n"
  by (rule gives_expect) (use assms in \<open>fastforce simp: asks_def\<close>)

lemma gives_reads [wp]:
  "Qg (Ok (map_option row_to_session (fr i))) fr ms (Suc n) \<Longrightarrow> gives (expect clk l (asks (so_get (sqlite_ops cd) i))) Qg fr ms n"
  "collect_results (map (row_to_message cd) (ms i)) = Ok xs \<Longrightarrow> Qm (Ok xs) fr ms (Suc n)
    \<Longrightarrow> gives (expect clk l (asks (so_load_messages (sqlite_ops cd) i))) Qm fr ms n"
  "fr i = Some r \<Longrightarrow> Qw (Ok (row_watermark r)) fr ms (Suc n)
    \<Longrightarrow> gives (expect clk l (asks (so_get_watermark (sqlite_ops cd) i))) Qw fr ms n"
  "fr i = Some r \<Longrightarrow>
    collect_results (map (\<lambda>m. map_ok (Pair (mrow_seq m)) (row_to_message cd m)) (filter (\<lambda>m. row_watermark r < mrow_seq m) (ms i))) = Ok ys
    \<Longrightarrow> Qa (Ok ys) fr ms (Suc n) \<Longrightarrow> gives (expect clk l (asks (so_load_above (sqlite_ops cd) i))) Qa fr ms n"
  "fr i = Some r \<Longrightarrow> Qc (Ok (row_skill_context r)) fr ms (Suc n)
    \<Longrightarrow> gives (expect clk l (asks (so_get_skill_context (sqlite_ops cd) i))) Qc fr ms n"
  "fr i = Some r \<Longrightarrow> Qj (Ok (row_interrupted r)) fr ms (Suc n)
    \<Longrightarrow> gives (expect clk l (asks (so_get_interrupted (sqlite_ops cd) i))) Qj fr ms n"
  by (rule gives_asks; auto simp: sqlite_ops_def sees_def get_def load_messages_def get_watermark_def
      load_messages_above_watermark_def get_skill_context_def get_interrupted_state_def column_def)+

lemma gives_create [wp]:
  assumes "fr i = None" "Q (Ok (new_session (clk n) i u)) (fr(i \<mapsto> create_session_row (clk n) i u None)) ms (Suc n)"
  shows "gives (expect clk l (\<lambda>now. so_create (sqlite_ops cd) now i u)) Q fr ms n"
proof (rule gives_expect)
  fix db assume "sees db fr ms"
  from sees_create [OF this assms(1)] assms(2)
  show "\<exists>x db' fr' ms'. so_create (sqlite_ops cd) (clk n) i u db = (Ok x, db') \<and> sees db' fr' ms' \<and> Q (Ok x) fr' ms' (Suc n)"
    unfolding sqlite_ops_def by (simp, blast)
qed

lemma gives_append [wp]:
  assumes "fr i = Some r" "ms i = []" "Q (Ok ()) fr (ms(i := numbered_rows cd (clk n) i 1 [um, am])) (Suc n)"
  shows "gives (expect clk l (\<lambda>now. so_append_turn (sqlite_ops cd) now i um am)) Q fr ms n"
proof (rule gives_expect)
  fix db assume "sees db fr ms"
  from sees_append [OF this assms(1,2)] assms(3)
  show "\<exists>x db' fr' ms'. so_append_turn (sqlite_ops cd) (clk n) i um am db = (Ok x, db') \<and> sees db' fr' ms'
      \<and> Q (Ok x) fr' ms' (Suc n)"
    unfolding sqlite_ops_def by (simp, blast)
qed

lemma gives_update:
  assumes "fr i = Some r" "keeps_row f" "\<And>db. store_inv db \<Longrightarrow> store_inv (snd (update_row i f db))"
    and "Q (Ok ()) (fr(i \<mapsto> f r)) ms (Suc n)" "g (clk n) = update_row i f"
  shows "gives (expect clk l g) Q fr ms n"
proof (rule gives_expect)
  fix db assume db: "sees db fr ms"
  then have "store_inv (snd (update_row i f db))" using assms(3) by (simp add: sees_def)
  from sees_update [of db fr ms i r f, OF db assms(1,2) this] assms(4,5)
  show "\<exists>x db' fr' ms'. g (clk n) db = (Ok x, db') \<and> sees db' fr' ms' \<and> Q (Ok x) fr' ms' (Suc n)"
    by (simp, blast)
qed

lemma gives_advance [wp]:
  "fr i = Some r \<Longrightarrow> Q (Ok ()) (fr(i \<mapsto> r\<lparr>row_watermark := max (row_watermark r) w\<rparr>)) ms (Suc n)
    \<Longrightarrow> gives (expect clk l (\<lambda>_. so_advance_watermark (sqlite_ops cd) i w)) Q fr ms n"
  by (rule gives_update [where f = "\<lambda>r. r\<lparr>row_watermark := max (row_watermark r) w\<rparr>"])
     (use store_inv_updates(2) [of _ i w] in \<open>auto simp: sqlite_ops_def keeps_row_def advance_watermark_def fun_eq_iff\<close>)

lemma gives_set_context [wp]:
  "fr i = Some r \<Longrightarrow> Q (Ok ()) (fr(i \<mapsto> r\<lparr>row_skill_context := c\<rparr>)) ms (Suc n)
    \<Longrightarrow> gives (expect clk l (\<lambda>_. so_set_skill_context (sqlite_ops cd) i c)) Q fr ms n"
  by (rule gives_update [where f = "\<lambda>r. r\<lparr>row_skill_context := c\<rparr>"])
     (use store_inv_updates(3) [of _ i c] in \<open>auto simp: sqlite_ops_def keeps_row_def set_skill_context_def fun_eq_iff\<close>)

lemma gives_set_interrupted [wp]:
  "fr i = Some r \<Longrightarrow> Q (Ok ()) (fr(i \<mapsto> r\<lparr>row_interrupted := c\<rparr>)) ms (Suc n)
    \<Longrightarrow> gives (expect clk l (\<lambda>_. so_set_interrupted (sqlite_ops cd) i c)) Q fr ms n"
  by (rule gives_update [where f = "\<lambda>r. r\<lparr>row_interrupted := c\<rparr>"])
     (use store_inv_updates(6) [of _ i c] in \<open>auto simp: sqlite_ops_def keeps_row_def set_interrupted_state_def fun_eq_iff\<close>)

lemma gives_set_status [wp]:
  "fr i = Some r \<Longrightarrow> Q (Ok ()) (fr(i \<mapsto> r\<lparr>row_status := status_to_str st, row_updated_at := timestamp (clk n)\<rparr>)) ms (Suc n)
    \<Longrightarrow> gives (expect clk l (\<lambda>now. so_update_status (sqlite_ops cd) now i st)) Q fr ms n"
  by (rule gives_update [where f = "\<lambda>r. r\<lparr>row_status := status_to_str st, row_updated_at := timestamp (clk n)\<rparr>"])
     (use store_inv_updates(1) [of _ "clk n" i st] in \<open>auto simp: sqlite_ops_def keeps_row_def update_status_def fun_eq_iff\<close>)

lemma gives_delete [wp]:
  "Q (Ok ()) (fr(i := None)) (ms(i := [])) (Suc n)
    \<Longrightarrow> gives (expect clk l (\<lambda>_. so_delete_session (sqlite_ops cd) i)) Q fr ms n"
  by (rule gives_expect) (use sees_delete in \<open>fastforce simp: sqlite_ops_def\<close>)

lemma sees_rows:
  assumes "sees db fr ms"
  shows "(\<exists>x \<in> set (map row_to_session (sort_key f (filter P (db_sessions db)))). ses_id x = i)
    \<longleftrightarrow> (\<exists>r. fr i = Some r \<and> P r)"
  using find_row_SomeD [of db i] sees_member [OF assms] assms
  by (auto simp: row_to_session_def sees_def)

lemma gives_list [wp]:
  assumes "\<And>xs. (\<And>i. (\<exists>x \<in> set xs. ses_id x = i) \<longleftrightarrow> (\<exists>r. fr i = Some r \<and> row_user_id r = u)) \<Longrightarrow> Q (Ok xs) fr ms (Suc n)"
  shows "gives (expect clk l (asks (so_list_by_user (sqlite_ops cd) u))) Q fr ms n"
proof (rule gives_asks)
  fix db assume db: "sees db fr ms"
  show "\<exists>xs. so_list_by_user (sqlite_ops cd) u db = Ok xs \<and> Q (Ok xs) fr ms (Suc n)"
    using db assms [OF sees_rows [OF db]] by (simp add: sqlite_ops_def list_by_user_def sees_def)
qed

lemma gives_needing [wp]:
  assumes "\<And>xs. (\<And>i. (\<exists>x \<in> set xs. ses_id x = i) \<longleftrightarrow> (\<exists>r. fr i = Some r \<and> (\<exists>m \<in> set (ms i).
      row_watermark r < mrow_seq m \<or> mrow_created_at m < timestamp (clk n)))) \<Longrightarrow> Q (Ok xs) fr ms (Suc n)"
  shows "gives (expect clk l (\<lambda>now. asks (so_needing_maintenance (sqlite_ops cd) now) now)) Q fr ms n"
proof (rule gives_expect)
  fix db assume db: "sees db fr ms"
  have "needs_maintenance (clk n) db r \<longleftrightarrow>
      (\<exists>m \<in> set (ms (row_id r)). row_watermark r < mrow_seq m \<or> mrow_created_at m < timestamp (clk n))" for r
    using db by (auto simp: needs_maintenance_def sees_def set_rows_of not_less)
  then have "(\<exists>r. fr i = Some r \<and> needs_maintenance (clk n) db r) \<longleftrightarrow> (\<exists>r. fr i = Some r \<and> (\<exists>m \<in> set (ms i).
      row_watermark r < mrow_seq m \<or> mrow_created_at m < timestamp (clk n)))" for i
    using db find_row_SomeD [of db i] by (auto simp: sees_def)
  then show "\<exists>xs db' fr' ms'. asks (so_needing_maintenance (sqlite_ops cd) (clk n)) (clk n) db = (Ok xs, db')
      \<and> sees db' fr' ms' \<and> Q (Ok xs) fr' ms' (Suc n)"
    using db assms [of "map row_to_session (sort_key row_updated_at (filter (needs_maintenance (clk n) db) (db_sessions db)))"]
      sees_rows [OF db, where P = "needs_maintenance (clk n) db" and f = row_updated_at]
    by (auto simp: sqlite_ops_def asks_def list_sessions_needing_maintenance_def sees_def)
qed

text \<open>Deleting ended sessions: those that are not active and were last changed before the cutoff.\<close>

definition ended :: "int \<Rightarrow> session_row \<Rightarrow> bool" where
  "ended cutoff r \<longleftrightarrow> row_status r \<noteq> ''active'' \<and> row_updated_at r < cutoff"

lemma sees_delete_rows:
  assumes "sees db fr ms"
  shows "sees (delete_rows P db) (\<lambda>i. case fr i of None \<Rightarrow> None | Some r \<Rightarrow> if P r then None else Some r)
    (\<lambda>i. case fr i of None \<Rightarrow> [] | Some r \<Rightarrow> if P r then [] else ms i)"
proof -
  have db: "store_inv db" "db_fault db = None" "find_row db = fr" "rows_of db = ms" using assms by (auto simp: sees_def)
  have inv: "store_inv (delete_rows P db)" using db(1) by (rule store_inv_delete_rows)
  have mem: "r \<in> set (db_sessions (delete_rows P db)) \<longleftrightarrow> fr (row_id r) = Some r \<and> \<not> P r" for r
    using sees_member [OF assms, of r] by (auto simp: delete_rows_def Let_def)
  have "find_row (delete_rows P db) i = (case fr i of None \<Rightarrow> None | Some r \<Rightarrow> if P r then None else Some r)" for i
  proof (cases "find_row (delete_rows P db) i")
    case None
    then have "\<And>r. r \<in> set (db_sessions (delete_rows P db)) \<Longrightarrow> row_id r \<noteq> i"
      by (auto simp: find_row_def find_None_iff)
    then show ?thesis using None mem db(3) find_row_SomeD [of db i] by (auto split: option.splits)
  next
    case (Some r)
    then show ?thesis using find_row_SomeD [OF Some] mem [of r] by auto
  qed
  moreover have "rows_of (delete_rows P db) i = (case fr i of None \<Rightarrow> [] | Some r \<Rightarrow> if P r then [] else ms i)" for i
  proof (cases "\<exists>r. fr i = Some r \<and> \<not> P r")
    case True
    then obtain r where r: "fr i = Some r" "\<not> P r" by blast
    have "i \<notin> row_id ` set (filter P (db_sessions db))"
      using r sees_member [OF assms] by auto
    then have "filter (\<lambda>m. mrow_session m = i) (db_messages (delete_rows P db)) = filter (\<lambda>m. mrow_session m = i) (db_messages db)"
      by (auto simp: delete_rows_def Let_def intro!: filter_cong)
    then show ?thesis using r db(4) by (auto simp: rows_of_def)
  next
    case False
    have "\<not> has_session (delete_rows P db) i"
      using False calculation [of i] find_row_None_iff [of "delete_rows P db" i] by (auto split: option.splits)
    then have "rows_of (delete_rows P db) i = []"
      using inv by (auto simp: rows_of_empty_iff store_inv_def has_session_def)
    then show ?thesis using False by (auto split: option.splits)
  qed
  ultimately show ?thesis using inv db(2) by (auto simp: sees_def fun_eq_iff delete_rows_def Let_def)
qed

lemma gives_delete_ended:
  assumes "\<And>k. (\<And>i j r r'. i \<noteq> j \<Longrightarrow> fr i = Some r \<Longrightarrow> fr j = Some r' \<Longrightarrow> ended c r \<Longrightarrow> ended c r' \<Longrightarrow> 2 \<le> k) \<Longrightarrow>
      Q (Ok k) (\<lambda>i. case fr i of None \<Rightarrow> None | Some r \<Rightarrow> if ended c r then None else Some r)
        (\<lambda>i. case fr i of None \<Rightarrow> [] | Some r \<Rightarrow> if ended c r then [] else ms i) (Suc n)"
  shows "gives (expect clk l (\<lambda>_. so_delete_ended (sqlite_ops cd) c)) Q fr ms n"
proof (rule gives_expect)
  fix db assume db: "sees db fr ms"
  have two: "2 \<le> length (filter (ended c) (db_sessions db))"
    if "i \<noteq> j" "fr i = Some r" "fr j = Some r'" "ended c r" "ended c r'" for i j r r'
  proof -
    have "{r, r'} \<subseteq> set (filter (ended c) (db_sessions db))"
      using that db find_row_SomeD [of db i r] find_row_SomeD [of db j r'] by (auto simp: sees_def)
    moreover have "r \<noteq> r'" using that db find_row_SomeD [of db i r] find_row_SomeD [of db j r'] by (auto simp: sees_def)
    ultimately show ?thesis using card_mono [of "set (filter (ended c) (db_sessions db))" "{r, r'}"]
        card_length [of "filter (ended c) (db_sessions db)"] by simp
  qed
  have "delete_ended_sessions_before c db = (Ok (length (filter (ended c) (db_sessions db))), delete_rows (ended c) db)"
    using db by (simp add: delete_ended_sessions_before_def sees_def ended_def [abs_def] Let_def)
  moreover have "Q (Ok (length (filter (ended c) (db_sessions db))))
      (\<lambda>i. case fr i of None \<Rightarrow> None | Some r \<Rightarrow> if ended c r then None else Some r)
      (\<lambda>i. case fr i of None \<Rightarrow> [] | Some r \<Rightarrow> if ended c r then [] else ms i) (Suc n)"
    by (rule assms) (rule two)
  ultimately show "\<exists>k db' fr' ms'. so_delete_ended (sqlite_ops cd) c db = (Ok k, db') \<and> sees db' fr' ms'
      \<and> Q (Ok k) fr' ms' (Suc n)"
    using sees_delete_rows [OF db, of "ended c"] unfolding sqlite_ops_def by (simp, blast)
qed

lemma gives_delete_two_ended:
  assumes "fr i = Some r" "fr j = Some r'" "i \<noteq> j" "ended c r" "ended c r'"
    and "\<And>k. 2 \<le> k \<Longrightarrow> Q (Ok k) (\<lambda>i. case fr i of None \<Rightarrow> None | Some r \<Rightarrow> if ended c r then None else Some r)
        (\<lambda>i. case fr i of None \<Rightarrow> [] | Some r \<Rightarrow> if ended c r then [] else ms i) (Suc n)"
  shows "gives (expect clk l (\<lambda>_. so_delete_ended (sqlite_ops cd) c)) Q fr ms n"
  by (rule gives_delete_ended, rule assms(6)) (use assms in blast)

lemma gives_delete_any_ended:
  assumes "\<And>k. Q (Ok k) (\<lambda>i. case fr i of None \<Rightarrow> None | Some r \<Rightarrow> if ended c r then None else Some r)
        (\<lambda>i. case fr i of None \<Rightarrow> [] | Some r \<Rightarrow> if ended c r then [] else ms i) (Suc n)"
  shows "gives (expect clk l (\<lambda>_. so_delete_ended (sqlite_ops cd) c)) Q fr ms n"
  by (rule gives_delete_ended, rule assms)

section \<open>The sections of the suite\<close>

text \<open>What holds between the sections: identifiers not yet drawn are unused and bob has no session.\<close>

definition primed :: "(nat \<Rightarrow> uuid) \<Rightarrow> (uuid \<Rightarrow> session_row option) \<Rightarrow> nat \<Rightarrow> bool" where
  "primed ids fr n \<longleftrightarrow> inj ids \<and> (\<forall>k \<ge> n. fr (ids k) = None) \<and> (\<forall>i r. fr i = Some r \<longrightarrow> row_user_id r \<noteq> ''bob'')"

lemma primed_fresh: "primed ids fr n \<Longrightarrow> n \<le> k \<Longrightarrow> fr (ids k) = None"
  by (simp add: primed_def)

lemma primed_ids: "primed ids fr n \<Longrightarrow> ids j = ids k \<longleftrightarrow> j = k"
  by (auto simp: primed_def inj_eq)

definition suite_codec :: "content_codec \<Rightarrow> bool" where
  "suite_codec cd \<longleftrightarrow> (\<forall>t \<in> {''hi'', ''hello'', ''pending'', ''reply'', ''will be deleted'', ''ok''}.
     content_from_text cd (content_to_text cd [Text t]) = Some [Text t])"

lemma suite_row:
  assumes "suite_codec cd" "t \<in> {''hi'', ''hello'', ''pending'', ''reply'', ''will be deleted'', ''ok''}"
  shows "row_to_message cd (message_to_row cd now i n (text_message rl t)) = Ok (text_message rl t)"
  using assms by (intro row_message_round_trip) (auto simp: suite_codec_def storable_def text_message_def)

lemmas suite_simps = new_session_def create_session_row_def row_to_session_def primed_fresh primed_ids

lemma message_to_row_fields: "mrow_seq (message_to_row cd t i k m) = k" "mrow_created_at (message_to_row cd t i k m) = timestamp t"
  by (simp_all add: message_to_row_def)

lemma check_create_passes:
  assumes "primed ids fr n"
  shows "gives (check_create (sqlite_ops cd) clk ids) (\<lambda>r fr' ms' n'. r = Ok (ids n) \<and> n' = n + 3 \<and> primed ids fr' n'
    \<and> fr' (ids n) = Some (create_session_row (clk n) (ids n) ''alice'' None) \<and> ms' = ms) fr ms n"
  unfolding check_create_def created_def
  by (rule wp | simp add: suite_simps assms primed_fresh [OF assms] primed_ids [OF assms])+
    (use assms in \<open>auto simp: primed_def inj_eq create_session_row_def\<close>)

lemma primed_row:
  assumes "primed ids fr n" "fr (ids k) = Some r" "row_user_id r' = row_user_id r" "n \<le> n'"
  shows "primed ids (fr(ids k \<mapsto> r')) n'"
  using assms by (auto simp: primed_def) (metis option.distinct(1) order_trans linorder_not_le injD assms(2))

lemma check_order_passes:
  assumes "primed ids fr n" "fr i = Some r" "ms i = []" "suite_codec cd"
  shows "gives (check_order (sqlite_ops cd) clk i) (\<lambda>x fr' ms' n'. x = Ok () \<and> n' = n + 2 \<and> fr' = fr
    \<and> ms' = ms(i := numbered_rows cd (clk n) i 1 [text_message RoleUser ''hi'', text_message RoleAssistant ''hello''])) fr ms n"
  unfolding check_order_def exchanged_def
  by (rule wp | simp add: assms suite_row)+

lemma check_watermark_passes:
  assumes "fr i = Some r" "row_watermark r = 0" "suite_codec cd"
    and "ms i = [message_to_row cd t i 1 (text_message RoleUser ''hi''), message_to_row cd t i 2 (text_message RoleAssistant ''hello'')]"
  shows "gives (check_watermark (sqlite_ops cd) clk i) (\<lambda>x fr' ms' n'. x = Ok () \<and> n' = n + 4
    \<and> fr' = fr(i \<mapsto> r\<lparr>row_watermark := 2\<rparr>) \<and> ms' = ms) fr ms n"
  unfolding check_watermark_def
  by (rule wp | simp add: assms suite_row message_to_row_fields)+

lemma check_columns_passes:
  assumes "fr i = Some r"
  shows "gives (check_columns (sqlite_ops cd) clk i) (\<lambda>x fr' ms' n'. x = Ok () \<and> n' = n + 8
    \<and> (\<exists>r'. fr' = fr(i \<mapsto> r') \<and> row_user_id r' = row_user_id r) \<and> ms' = ms) fr ms n"
  unfolding check_columns_def
  by (rule wp | simp add: assms row_to_session_def status_from_str_def)+
    (rule exI, rule conjI, rule refl, simp)

lemma no_member: "(\<And>i. (\<exists>x \<in> set xs. ses_id x = i) = P i) \<Longrightarrow> (\<And>i. \<not> P i) \<Longrightarrow> xs = []"
  by (metis list.set_intros(1) neq_Nil_conv)

lemma clock_within: "mono clk \<Longrightarrow> j \<le> k \<Longrightarrow> timestamp (clk j) < timestamp (clk k) + 86400"
  using timestamp_mono [of "clk j" "clk k"] by (simp add: monoD)

lemma check_listing_passes:
  assumes "primed ids fr n" "fr i = Some r" "row_user_id r = ''alice''"
  shows "gives (check_listing (sqlite_ops cd) clk i) (\<lambda>x fr' ms' n'. x = Ok () \<and> n' = n + 2 \<and> fr' = fr \<and> ms' = ms) fr ms n"
  unfolding check_listing_def
  by (rule wp | simp add: assms)+ (erule no_member, use assms(1) in \<open>auto simp: primed_def\<close>)

lemma check_pending_passes:
  assumes "primed ids fr n" "ms (ids n) = []" "suite_codec cd"
  shows "gives (check_pending (sqlite_ops cd) clk ids) (\<lambda>x fr' ms' n'. x = Ok () \<and> n' = n + 4 \<and> primed ids fr' n') fr ms n"
  unfolding check_pending_def created_def exchanged_def
  by (rule wp | simp add: suite_simps primed_fresh [OF assms(1)] primed_ids [OF assms(1)] assms suite_row message_to_row_fields)+
    (use assms(1) in \<open>auto simp: primed_def inj_eq\<close>)

lemma check_drained_result:
  assumes "primed ids fr n" "ms (ids n) = []" "suite_codec cd" "mono clk"
  shows "gives (check_drained (sqlite_ops cd) clk ids) (\<lambda>x fr' ms' n'. n' = n + 5 \<and> primed ids fr' n'
    \<and> (x = Ok () \<longleftrightarrow> \<not> timestamp (clk (Suc n)) < timestamp (clk (Suc (Suc (Suc (Suc n)))))) \<and> (x \<noteq> Ok () \<longrightarrow> x = Err relisted)) fr ms n"
  unfolding check_drained_def created_def exchanged_def
  apply (rule wp | simp add: suite_simps primed_fresh [OF assms(1)] primed_ids [OF assms(1)] assms suite_row message_to_row_fields)+
  subgoal premises p for xs
    using p(1) [of "ids n"] assms(1) by (auto simp: primed_def inj_eq message_to_row_fields)
  done

lemma check_delete_passes:
  assumes "primed ids fr n" "ms (ids n) = []" "suite_codec cd"
  shows "gives (check_delete (sqlite_ops cd) clk ids) (\<lambda>x fr' ms' n'. x = Ok () \<and> n' = n + 5 \<and> primed ids fr' n') fr ms n"
  unfolding check_delete_def created_def exchanged_def
  by (rule wp | simp add: suite_simps primed_fresh [OF assms(1)] primed_ids [OF assms(1)] assms suite_row)+
    (use assms(1) in \<open>auto simp: primed_def inj_eq\<close>)

lemma check_ended_passes:
  assumes "primed ids fr n" "mono clk"
  shows "gives (check_ended (sqlite_ops cd) clk ids) (\<lambda>x fr' ms' n'. x = Ok () \<and> n' = n + 10 \<and> primed ids fr' n') fr ms n"
  unfolding check_ended_def created_def
  by (rule wp gives_delete_two_ended [where i = "ids n" and j = "ids (Suc (Suc (Suc n)))"]
    | simp add: suite_simps primed_fresh [OF assms(1)] primed_ids [OF assms(1)] ended_def clock_within [OF assms(2)])+
    (use assms(1) in \<open>auto simp: primed_def inj_eq split: option.splits\<close>)

lemma check_recent_passes:
  assumes "primed ids fr n" "\<not> timestamp (clk (Suc n)) < timestamp (clk (Suc (Suc n))) - 86400"
  shows "gives (check_recent (sqlite_ops cd) clk ids) (\<lambda>x fr' ms' n'. x = Ok ()) fr ms n"
  unfolding check_recent_def created_def
  by (rule wp gives_delete_any_ended | simp add: suite_simps primed_fresh [OF assms(1)] primed_ids [OF assms(1)] ended_def assms(2))+

section \<open>The suite's verdict\<close>

lemma gives_then:
  assumes "gives m P fr ms n" and "\<And>x fr ms n. P x fr ms n \<Longrightarrow> (\<And>i. fr i = None \<Longrightarrow> ms i = []) \<Longrightarrow>
      case x of Ok y \<Rightarrow> gives (f y) Q fr ms n | Err e \<Rightarrow> Q (Err e) fr ms n"
  shows "gives (eff_bind m f) Q fr ms n"
proof (rule gives_bind, unfold gives_def, intro allI impI)
  fix db assume "sees db fr ms"
  then obtain r db' fr' ms' n' where r: "m (db, n) = (r, (db', n'))" "sees db' fr' ms'" "P r fr' ms' n'"
    using assms(1) unfolding gives_def by blast
  then show "\<exists>r db' fr' ms' n'. m (db, n) = (r, db', n') \<and> sees db' fr' ms'
      \<and> (case r of Err e \<Rightarrow> Q (Err e) fr' ms' n' | Ok x \<Rightarrow> \<forall>db. sees db fr' ms' \<longrightarrow>
          (\<exists>r db'' fr'' ms'' n''. f x (db, n') = (r, db'', n'') \<and> sees db'' fr'' ms'' \<and> Q r fr'' ms'' n''))"
    using assms(2) [OF r(3)] sees_no_session [OF r(2)] unfolding gives_def by (blast intro: exI)
qed

lemma suite_gives:
  assumes "primed ids fr 0" "\<And>i. fr i = None \<Longrightarrow> ms i = []" "suite_codec cd" "mono clk"
    "\<not> timestamp (clk 44) < timestamp (clk 45) - 86400"
    and v: "v = (if timestamp (clk 24) < timestamp (clk 27) then Err relisted else Ok ())"
  shows "gives (run_conformance_suite (sqlite_ops cd) clk ids) (\<lambda>x _ _ _. x = v) fr ms 0"
  unfolding run_conformance_suite_def
  apply (rule gives_then, rule check_create_passes [OF assms(1)], clarsimp)
  apply (rule gives_then, rule check_order_passes, assumption, assumption, simp add: assms(2) primed_fresh [OF assms(1)],
      rule assms(3), clarsimp)
  apply (rule gives_then, rule check_watermark_passes, assumption, simp add: create_session_row_def, rule assms(3),
      rule fun_upd_same, clarsimp)
  apply (rule gives_then, rule check_columns_passes, rule fun_upd_same, clarsimp)
  apply (rule gives_then, rule check_listing_passes, erule primed_row, assumption, simp, simp, rule fun_upd_same,
      simp add: create_session_row_def, clarsimp)
  apply (rule gives_then, rule check_pending_passes, erule primed_row, assumption, simp, simp,
      simp add: primed_fresh primed_ids assms(2), rule assms(3), clarsimp)
  apply (rule gives_then, rule check_drained_result, assumption, simp add: primed_fresh, rule assms(3), rule assms(4), clarsimp)
  subgoal premises prems for fr r' fra msa x frb msb
  proof -
    have x: "x = Ok () \<longleftrightarrow> \<not> timestamp (clk 24) < timestamp (clk 27)" "x \<noteq> Ok () \<longrightarrow> x = Err relisted"
      and primed: "primed ids frb 28" "\<And>i. frb i = None \<Longrightarrow> msb i = []"
      using prems by auto
    have "gives (eff_seq (check_delete (sqlite_ops cd) clk ids) (eff_seq (check_ended (sqlite_ops cd) clk ids)
        (check_recent (sqlite_ops cd) clk ids))) (\<lambda>x _ _ _. x = Ok ()) frb msb 28"
      apply (rule gives_then, rule check_delete_passes [OF primed(1)], simp add: primed primed_fresh [OF primed(1)], rule assms(3), clarsimp)
      apply (rule gives_then, rule check_ended_passes, assumption, rule assms(4), clarsimp)
      apply (rule check_recent_passes, assumption, simp add: assms(5))
      done
    then show ?thesis using x v by (auto split: sum.split)
  qed
  done

text \<open>
  C21. Both stores pass the suite exactly when the second does not change in between: run on any
  well-formed store without a fault, in which the drawn identifiers are new and bob has no
  session, with a clock that does not go back and no day between two calls, the suite ends
  without a panic unless a second boundary lies between the turn of its drained session (call
  24) and the listing after it (call 27). From then on the session is listed as needing
  maintenance although nothing is left to do for it, and the assertion that it is not fails.
  The PostgreSQL store gives the same verdict in every case.
\<close>

theorem conformance_suite_depends_on_the_second:
  assumes "store_inv db" "db_fault db = None" "list_by_user db ''bob'' = Ok []" "inj ids" "\<forall>k. \<not> has_session db (ids k)"
    and "suite_codec cd" "mono clk" "timestamp (clk 45) \<le> timestamp (clk 44) + 86400"
  shows "fst (run_conformance_suite (sqlite_ops cd) clk ids (db, 0))
      = (if timestamp (clk 24) < timestamp (clk 27) then Err relisted else Ok ())
    \<and> run_conformance_suite (postgres_ops tx cd) clk ids (db', n) = run_conformance_suite (sqlite_ops cd) clk ids (db', n)"
proof -
  let ?v = "if timestamp (clk 24) < timestamp (clk 27) then Err relisted else Ok ()"
  have db: "sees db (find_row db) (rows_of db)" using assms(1,2) by (simp add: sees_def)
  have "set (sort_key (\<lambda>r. - row_created_at r) (filter (\<lambda>r. row_user_id r = ''bob'') (db_sessions db))) = {}"
    using assms(2,3) by (simp add: list_by_user_def)
  then have "primed ids (find_row db) 0"
    using assms(4,5) find_row_SomeD [of db] by (auto simp: primed_def find_row_None_iff)
  then have "gives (run_conformance_suite (sqlite_ops cd) clk ids) (\<lambda>x _ _ _. x = ?v) (find_row db) (rows_of db) 0"
    using sees_no_session [OF db] assms(6-8) by (intro suite_gives) auto
  then have "fst (run_conformance_suite (sqlite_ops cd) clk ids (db, 0)) = ?v"
    using db unfolding gives_def by fastforce
  then show ?thesis using suites_agree by metis
qed

text \<open>Identifiers for a run: one more letter for every call.\<close>

definition sample_ids :: "nat \<Rightarrow> uuid" where "sample_ids n = replicate n CHR ''i''"

lemma conformance_suite_depends_on_the_second_witness:
  "fst (run_conformance_suite (sqlite_ops sample_codec) (\<lambda>_. 0) sample_ids (empty_db, 0)) = Ok ()
    \<and> fst (run_conformance_suite (postgres_ops \<lparr>pg_unique_text = [], pg_key_text = [], pg_reference_text = [], pg_no_row_text = []\<rparr>
        sample_codec) (\<lambda>k. int k * nanos_per_sec) sample_ids (empty_db, 0)) = Err relisted"
proof -
  have ids: "inj sample_ids" by (auto simp: inj_def sample_ids_def dest: arg_cong [of _ _ length])
  have db: "store_inv empty_db" "db_fault empty_db = None" "list_by_user empty_db ''bob'' = Ok []"
      "\<forall>k. \<not> has_session empty_db (sample_ids k)"
    by (simp_all add: store_inv_empty, simp_all add: empty_db_def list_by_user_def has_session_def)
  have cd: "suite_codec sample_codec" by (auto simp: suite_codec_def sample_codec_def)
  note suite = conformance_suite_depends_on_the_second [OF db(1-3) ids db(4) cd]
  have clk: "mono (\<lambda>k. int k * nanos_per_sec)" by (intro monoI) (simp)
  show ?thesis using suite [of "\<lambda>_. 0"] suite [OF clk]
    by (simp add: mono_def timestamp_def)
qed

end
