(* ===== verification/Builtin_Tools.thy ===== *)
theory Builtin_Tools
  imports Tool_Registry
begin

text \<open>
  The tools the framework ships (\<open>avs-tools/src\<close>): \<open>calculator.rs\<close>, \<open>shell.rs\<close>,
  \<open>http_client.rs\<close>, \<open>web_search.rs\<close>, \<open>file_search.rs\<close> and \<open>datetime.rs\<close>. Each \<open>execute\<close> is a
  function of its typed arguments; \<open>erase_tool\<close> of the registry's theory puts the reading of
  JSON arguments in front. What they do to the world is a list of actions next to the result:
  commands started and requests sent. Double arithmetic, word splitting, the shell, URL and
  HTML parsing, the network, globbing and date formats are parameters.
\<close>

type_synonym tool_result = "tool_error + json"

definition execution :: "string \<Rightarrow> tool_result" where "execution e = Err (Execution e)"

section \<open>Calculator\<close>

datatype calc_operation = Add | Subtract | Multiply | Divide

record 'f calculator_args =
  ca_operation :: calc_operation
  ca_a :: 'f
  ca_b :: 'f

record 'f double_ops =
  d_add :: "'f \<Rightarrow> 'f \<Rightarrow> 'f"
  d_sub :: "'f \<Rightarrow> 'f \<Rightarrow> 'f"
  d_mul :: "'f \<Rightarrow> 'f \<Rightarrow> 'f"
  d_div :: "'f \<Rightarrow> 'f \<Rightarrow> 'f"
  d_is_zero :: "'f \<Rightarrow> bool"
  d_json :: "'f \<Rightarrow> json"

text \<open>\<open>json!\<close> turns a number that is not finite into null; that is \<open>d_json\<close>.\<close>

definition calculate :: "'f double_ops \<Rightarrow> 'f calculator_args \<Rightarrow> tool_result" where
  "calculate fo args =
     (let a = ca_a args; b = ca_b args; give = (\<lambda>x. Ok (JObject [(''result'', d_json fo x)])) in
      case ca_operation args of
        Add \<Rightarrow> give (d_add fo a b)
      | Subtract \<Rightarrow> give (d_sub fo a b)
      | Multiply \<Rightarrow> give (d_mul fo a b)
      | Divide \<Rightarrow> if d_is_zero fo b then execution ''Division by zero'' else give (d_div fo a b))"

section \<open>Shell\<close>

record shell_tool =
  sh_workdir :: string
  sh_timeout_secs :: nat
  sh_blocked :: "string list"

datatype shell_end =
    SpawnFailed string
  | TimedOut
  | WaitFailed string
  | Exited (exit_code: "int option") (exit_stdout: string) (exit_stderr: string)

text \<open>What \<open>sh -c command\<close> in the directory does; what is started is recorded.\<close>

definition shell_output :: "int option \<Rightarrow> string \<Rightarrow> string \<Rightarrow> string" where
  "shell_output code stdout stderr =
     (let exit = (case code of Some c \<Rightarrow> c | None \<Rightarrow> -1);
          out = (if trim stderr \<noteq> [] then stdout @ newline @ ''[stderr: '' @ trim stderr @ '']'' else stdout)
      in if exit \<noteq> 0 then out @ newline @ ''[exit code: '' @ show_int exit @ '']'' else out)"

definition shell_execute ::
  "(string \<Rightarrow> string + string list) \<Rightarrow> (string \<Rightarrow> string \<Rightarrow> shell_end) \<Rightarrow> shell_tool \<Rightarrow> string
    \<Rightarrow> tool_result \<times> string list" where
  "shell_execute split sh t command =
     (case split command of
        Err e \<Rightarrow> (execution (''Invalid command syntax: '' @ e), [])
      | Ok [] \<Rightarrow> (execution ''Command is empty'', [])
      | Ok (binary # _) \<Rightarrow>
          if binary \<in> set (sh_blocked t) then (execution (''command '' @ quoted binary @ '' is blocked''), [])
          else (case sh (sh_workdir t) command of
              SpawnFailed e \<Rightarrow> (execution (''Failed to spawn command: '' @ e), [])
            | TimedOut \<Rightarrow> (execution (''command timed out after '' @ show_nat (sh_timeout_secs t) @ ''s''), [command])
            | WaitFailed e \<Rightarrow> (execution (''Command execution failed: '' @ e), [command])
            | Exited code stdout stderr \<Rightarrow> (Ok (JString (shell_output code stdout stderr)), [command])))"

section \<open>HTTP client\<close>

record http_args =
  ha_method :: string
  ha_url :: string
  ha_headers :: "(string \<times> string) list"
  ha_body :: "json option"

datatype verb = GET | POST | PUT | DELETE

record tool_request =
  tr_verb :: verb
  tr_url :: string
  tr_headers :: "(string \<times> string) list"
  tr_body :: "json option"

datatype web_reply = NoReply string | BrokenBody string | Reply nat string

definition to_upper_char :: "char \<Rightarrow> char" where
  "to_upper_char c = (if CHR ''a'' \<le> c \<and> c \<le> CHR ''z'' then char_of (of_char c - 32 :: nat) else c)"

definition verb_of :: "string \<Rightarrow> verb option" where
  "verb_of s = map_of [(''GET'', GET), (''POST'', POST), (''PUT'', PUT), (''DELETE'', DELETE)] s"

definition http_execute ::
  "(string \<Rightarrow> string + string) \<Rightarrow> (tool_request \<Rightarrow> web_reply) \<Rightarrow> http_args \<Rightarrow> tool_result \<times> tool_request list" where
  "http_execute url_scheme send args =
     (case url_scheme (ha_url args) of
        Err e \<Rightarrow> (execution (''Invalid URL: '' @ e), [])
      | Ok scheme \<Rightarrow>
          if to_lowercase scheme \<notin> {''http'', ''https''}
          then (execution ''Only http and https URLs are allowed'', [])
          else let m = map to_upper_char (ha_method args) in
            case verb_of m of
              None \<Rightarrow> (execution (''Unsupported method: '' @ m), [])
            | Some v \<Rightarrow>
                let rq = \<lparr>tr_verb = v, tr_url = ha_url args, tr_headers = ha_headers args, tr_body = ha_body args\<rparr> in
                (case send rq of
                   NoReply e \<Rightarrow> execution e
                 | BrokenBody e \<Rightarrow> execution e
                 | Reply status body \<Rightarrow>
                     Ok (JObject (obj_from [(''status'', JNumber (PosInt status)), (''body'', JString body)])), [rq]))"

section \<open>Web search\<close>

text \<open>
  A result block of the search page: the link's text and \<open>href\<close>, and the snippet's text. A
  parsed URL: its scheme and its query's pairs, decoded.
\<close>

record search_block =
  rb_link :: "(string \<times> string option) option"
  rb_snippet :: "string option"

record web_world =
  ww_blocks :: "string \<Rightarrow> search_block list"
  ww_parse_url :: "string \<Rightarrow> (string \<times> (string \<times> string) list) option"
  ww_paragraphs :: "string \<Rightarrow> string list"
  ww_search :: "string \<Rightarrow> web_reply"
  ww_fetch :: "string \<Rightarrow> web_reply"

definition extract_url :: "web_world \<Rightarrow> string \<Rightarrow> string" where
  "extract_url ww href =
     (let full = (if starts_with ''//'' href then ''https:'' @ href else href) in
      case ww_parse_url ww full of
        None \<Rightarrow> []
      | Some (scheme, pairs) \<Rightarrow>
          (case find (\<lambda>p. fst p = ''uddg'') pairs of
             Some p \<Rightarrow> snd p
           | None \<Rightarrow> if scheme \<in> {''http'', ''https''} then full else []))"

fun parse_blocks :: "web_world \<Rightarrow> search_block list \<Rightarrow> nat \<Rightarrow> (string \<times> string \<times> string) list \<Rightarrow> (string \<times> string \<times> string) list" where
  "parse_blocks ww [] n out = out"
| "parse_blocks ww (b # bs) n out =
     (if n \<le> length out then out
      else case rb_link b of
        None \<Rightarrow> parse_blocks ww bs n out
      | Some (link_text, href) \<Rightarrow>
          let title = trim link_text; url = extract_url ww (case href of Some h \<Rightarrow> h | None \<Rightarrow> []) in
          if title = [] \<or> url = [] then parse_blocks ww bs n out
          else parse_blocks ww bs n (out @ [(title, url, case rb_snippet b of Some s \<Rightarrow> trim s | None \<Rightarrow> [])]))"

definition parse_ddg_html :: "web_world \<Rightarrow> string \<Rightarrow> nat \<Rightarrow> (string \<times> string \<times> string) list" where
  "parse_ddg_html ww html n = parse_blocks ww (ww_blocks ww html) n []"

definition fetch_page_text :: "web_world \<Rightarrow> string \<Rightarrow> string option" where
  "fetch_page_text ww url =
     (case ww_fetch ww url of
        Reply _ html \<Rightarrow>
          let page = join newline (filter (\<lambda>p. trim p \<noteq> []) (ww_paragraphs ww html)) in
          if page = [] then None else Some (take 2000 page)
      | _ \<Rightarrow> None)"

definition search_limit :: "nat \<Rightarrow> nat" where "search_limit n = max 1 (min n 10)"

text \<open>The pages fetched are returned next to the result.\<close>

definition web_search :: "web_world \<Rightarrow> string \<Rightarrow> nat \<Rightarrow> tool_result \<times> string list" where
  "web_search ww q n =
     (case ww_search ww q of
        NoReply e \<Rightarrow> (execution (''DDG search request failed: '' @ e), [])
      | BrokenBody e \<Rightarrow> (execution (''DDG response read failed: '' @ e), [])
      | Reply _ html \<Rightarrow>
          let candidates = parse_ddg_html ww html (search_limit n) in
          (Ok (JArray (map (\<lambda>(title, url, snippet). JObject (obj_from
              [(''title'', JString title), (''url'', JString url), (''snippet'', JString snippet),
               (''content'', case fetch_page_text ww url of Some c \<Rightarrow> JString c | None \<Rightarrow> JNull)])) candidates)),
           map (\<lambda>(_, url, _). url) candidates))"

section \<open>Files and dates\<close>

definition file_search :: "(string \<Rightarrow> string + (string + string option) list) \<Rightarrow> string \<Rightarrow> string \<Rightarrow> tool_result" where
  "file_search glob path pattern =
     (case glob (path @ ''/'' @ pattern) of
        Err e \<Rightarrow> execution e
      | Ok entries \<Rightarrow>
          let matches = concat (map (\<lambda>e. case e of Ok (Some p) \<Rightarrow> [JString p] | _ \<Rightarrow> []) entries) in
          Ok (JObject (obj_from [(''matches'', JArray matches), (''count'', JNumber (PosInt (length matches)))])))"

definition date_time :: "(string \<Rightarrow> instant \<Rightarrow> string) \<Rightarrow> instant \<Rightarrow> tool_result" where
  "date_time render now = Ok (JObject (obj_from
     [(''utc'', JString (render ''rfc3339'' now)),
      (''unix_timestamp'', JNumber (if timestamp now < 0 then NegInt (timestamp now) else PosInt (nat (timestamp now)))),
      (''date'', JString (render ''%Y-%m-%d'' now)), (''time'', JString (render ''%H:%M:%S'' now))]))"

section \<open>What the shell's block list holds back\<close>

text \<open>
  The block list reads one word: a command is started exactly when it splits into words, has
  one, its first word is not on the list and the shell can be spawned. So a blocked command is
  started all the same behind any word that is not on the list and runs it, such as \<open>env\<close>, for
  every list without that word. Words are assumed to be split at blanks.
\<close>

theorem block_list_reads_one_word:
  assumes "\<And>c ws. split c = Ok ws \<Longrightarrow> split (''env '' @ c) = Ok (''env'' # ws)"
    and "split c = Ok ws" "''env'' \<notin> set (sh_blocked t)"
  shows "(c \<in> set (snd (shell_execute split sh t c)) \<longleftrightarrow>
        ws \<noteq> [] \<and> hd ws \<notin> set (sh_blocked t) \<and> (\<nexists>e. sh (sh_workdir t) c = SpawnFailed e))
    \<and> (''env '' @ c \<in> set (snd (shell_execute split sh t (''env '' @ c))) \<longleftrightarrow>
        (\<nexists>e. sh (sh_workdir t) (''env '' @ c) = SpawnFailed e))"
  using assms(2,3) assms(1) [OF assms(2)]
  by (cases "sh (sh_workdir t) c"; cases "sh (sh_workdir t) (''env '' @ c)"; cases ws) (simp_all add: shell_execute_def)

definition sample_words :: "string \<Rightarrow> string + string list" where
  "sample_words s = Ok (split_on (\<lambda>c. c = CHR '' '') s)"

lemma block_list_reads_one_word_witness:
  "let t = \<lparr>sh_workdir = ''/'', sh_timeout_secs = 5, sh_blocked = [''rm'']\<rparr>; sh = (\<lambda>_ _. Exited (Some 0) [] []) in
    ''rm -r x'' \<notin> set (snd (shell_execute sample_words sh t ''rm -r x''))
    \<and> ''env rm -r x'' \<in> set (snd (shell_execute sample_words sh t ''env rm -r x''))"
  using block_list_reads_one_word [of sample_words "''rm -r x''" "[''rm'', ''-r'', ''x'']"
      "\<lparr>sh_workdir = ''/'', sh_timeout_secs = 5, sh_blocked = [''rm'']\<rparr>" "\<lambda>_ _. Exited (Some 0) [] []"]
  by (simp add: sample_words_def)

section \<open>What a web search returns and fetches\<close>

text \<open>The usable results of a page: those with a title and an address.\<close>

definition usable :: "web_world \<Rightarrow> search_block \<Rightarrow> (string \<times> string \<times> string) list" where
  "usable ww b =
     (case rb_link b of None \<Rightarrow> []
      | Some (link_text, href) \<Rightarrow>
          let url = extract_url ww (case href of Some h \<Rightarrow> h | None \<Rightarrow> []) in
          if trim link_text = [] \<or> url = [] then []
          else [(trim link_text, url, case rb_snippet b of Some s \<Rightarrow> trim s | None \<Rightarrow> [])])"

lemma length_usable: "length (usable ww b) \<le> 1"
  by (simp add: usable_def Let_def split: option.split)

lemma parse_blocks_eq:
  "length out \<le> n \<Longrightarrow> parse_blocks ww bs n out = take n (out @ concat (map (usable ww) bs))"
proof (induction bs arbitrary: out)
  case (Cons b bs)
  then show ?case
    by (cases "length out = n") (auto simp: usable_def Let_def split: option.split)
qed simp

text \<open>
  A web search returns the first usable results of the page and fetches only these: it gives
  one result for each, in the page's order, and at least one and at most ten are asked for,
  whatever number the model names. It requests each result's address once, in order, whatever
  scheme or host a redirect link of the page names.
\<close>

theorem web_search_takes_the_first_usable_results:
  "web_search ww q n =
    (case ww_search ww q of
      NoReply e \<Rightarrow> (Err (Execution (''DDG search request failed: '' @ e)), [])
    | BrokenBody e \<Rightarrow> (Err (Execution (''DDG response read failed: '' @ e)), [])
    | Reply _ html \<Rightarrow>
        let found = take (max 1 (min n 10)) (concat (map (usable ww) (ww_blocks ww html))) in
        (Ok (JArray (map (\<lambda>(title, url, snippet). JObject (obj_from
            [(''title'', JString title), (''url'', JString url), (''snippet'', JString snippet),
             (''content'', case fetch_page_text ww url of Some c \<Rightarrow> JString c | None \<Rightarrow> JNull)])) found)),
         map (\<lambda>(_, url, _). url) found))"
  by (simp add: web_search_def execution_def parse_ddg_html_def parse_blocks_eq search_limit_def Let_def split: web_reply.split)

end
