(* ===== verification/Prompts.thy ===== *)
theory Prompts
  imports React_Cycle
begin

text \<open>
  The prompt registry (\<open>avs-core/src/prompt.rs\<close>): named templates with built-in defaults, files
  of a directory and overrides of the configuration, and named sets of examples. The template
  engine (\<open>minijinja\<close>), the TOML reader and the file system are parameters: \<open>engine\<close> says
  whether a template compiles and what it renders to, and a directory is the list of its
  entries in the order \<open>read_dir\<close> gives them.
\<close>

record example =
  ex_input :: string
  ex_output :: "string option"
  ex_strategy :: "string option"

record engine =
  en_compile :: "string \<Rightarrow> string option"
  en_render :: "string \<Rightarrow> (string \<times> json) list \<Rightarrow> string + string"
  en_missing :: "string \<Rightarrow> string"
  en_examples :: "string \<Rightarrow> string + example list"
  en_to_json :: "example list \<Rightarrow> json option"

record dir_entry =
  de_path :: string
  de_stem :: string
  de_extension :: "string option"
  de_read :: "string + string"

datatype prompts_dir =
    NotADirectory
  | Unreadable string
  | Entries "(string + dir_entry) list"

record prompt_config =
  pc_system_prompt :: "string option"
  pc_prompts_dir :: "string option"
  pc_templates :: "(string \<times> string) list"
  pc_examples :: "(string \<times> example list) list"

record prompt_registry =
  pr_templates :: "(string \<times> string) list"
  pr_examples :: "(string \<times> example list) list"
  pr_react_loaded :: bool

definition invalid :: "string \<Rightarrow> agent_error" where "invalid e = ConfigErr (ConfigInvalid e)"

section \<open>The built-in templates\<close>

abbreviation double_quoted :: "string \<Rightarrow> string" where "double_quoted s \<equiv> [CHR 0x22] @ s @ [CHR 0x22]"

definition text_of :: "string list \<Rightarrow> string" where "text_of ls = join newline ls"

definition default_system_template :: string where
  "default_system_template = text_of
     [''You are a helpful AI assistant.'',
      ''You are concise and accurate. Never claim to have done something you haven'' @ [CHR 0x27] @ ''t.'',
      ''If you don'' @ [CHR 0x27] @ ''t know something, say so.'']"

definition default_react_template :: string where
  "default_react_template = text_of
     [''You solve tasks by reasoning step by step. When you need information or need to take an action, call the ''
        @ ''appropriate tool directly '' @ em_dash @ '' tool calls are handled natively, you never need to describe them as text.'',
      [],
      ''{% if examples %}'',
      ''Examples:'',
      ''{% for example in examples %}'',
      ''User: {{ example.input }}'',
      ''Assistant: {{ example.output }}'',
      ''{% endfor %}'',
      ''{% endif %}'',
      [],
      ''When you have a complete answer, respond with it directly.'']"

definition default_plan_and_execute_template :: string where
  "default_plan_and_execute_template = text_of
     [''You are a planning assistant. Generate a step-by-step plan.'',
      [],
      ''Available tools:'',
      ''{{ tools }}'',
      [],
      ''{% if examples %}'',
      ''Examples:'',
      ''{% for example in examples %}'',
      ''User: {{ example.input }}'',
      ''Assistant: {{ example.output }}'',
      ''{% endfor %}'',
      ''{% endif %}'',
      [],
      ''Respond with ONLY a JSON object. Rules:'',
      ''- Each step has exactly one '' @ double_quoted ''args'' @ '' object '' @ em_dash @ '' do not repeat the key'',
      ''- Shell commands must use single quotes for quoting (e.g. grep '' @ quoted ''^pattern'' @ '' not grep ''
        @ double_quoted ''^pattern'' @ '')'',
      ''- '' @ double_quoted ''description'' @ '' values must not contain double-quote characters'',
      ''{'' @ double_quoted ''description'' @ '': '' @ double_quoted ''...'' @ '', '' @ double_quoted ''steps'' @ '': [{''
        @ double_quoted ''id'' @ '': 1, '' @ double_quoted ''description'' @ '': '' @ double_quoted ''...'' @ '', ''
        @ double_quoted ''tool'' @ '': '' @ double_quoted ''...'' @ '', '' @ double_quoted ''args'' @ '': {}, ''
        @ double_quoted ''depends_on'' @ '': []}]}'',
      ''{% if conversation %}'',
      ''Previous results:'',
      ''{{ conversation }}'',
      ''{% endif %}'']"

definition default_hierarchical_decompose_template :: string where
  "default_hierarchical_decompose_template = text_of
     [''Break this request into sub-goals. Each sub-goal should be independently executable.'',
      [],
      ''{% if examples %}'',
      ''Examples:'',
      ''{% for example in examples %}'',
      ''Input: {{ example.input }}'',
      ''Strategy: {{ example.strategy }}'',
      ''{% endfor %}'',
      ''{% endif %}'',
      [],
      ''Respond with ONLY a JSON array of strings.'']"

definition default_router_template :: string where
  "default_router_template = text_of
     [''Choose the best orchestration strategy for this request.'',
      [],
      ''Available strategies:'',
      ''- react: simple Q&A, tool use, step-by-step reasoning'',
      ''- plan_and_execute: tasks with clear upfront steps'',
      ''- hierarchical: complex tasks needing decomposition'',
      [],
      ''{% if examples %}'',
      ''Examples:'',
      ''{% for example in examples %}'',
      ''Input: {{ example.input }}'',
      ''Strategy: {{ example.strategy }}'',
      ''{% endfor %}'',
      ''{% endif %}'',
      [],
      ''Respond with ONLY the strategy name.'']"

definition default_prompts :: prompt_registry where
  "default_prompts = \<lparr>pr_templates =
       [(''react'', default_react_template), (''system'', default_system_template),
        (''strategies.react'', default_react_template),
        (''strategies.plan_and_execute'', default_plan_and_execute_template),
        (''strategies.hierarchical.decompose'', default_hierarchical_decompose_template),
        (''router'', default_router_template)],
     pr_examples = [], pr_react_loaded = False\<rparr>"

section \<open>Operations\<close>

definition add_template :: "engine \<Rightarrow> string \<Rightarrow> string \<Rightarrow> prompt_registry \<Rightarrow> agent_error + prompt_registry" where
  "add_template en name template reg =
     (case en_compile en template of
        Some e \<Rightarrow> Err (invalid (''Invalid template '' @ quoted name @ '': '' @ e))
      | None \<Rightarrow> Ok (reg\<lparr>pr_templates := assoc_put name template (pr_templates reg)\<rparr>))"

definition add_examples :: "string \<Rightarrow> example list \<Rightarrow> prompt_registry \<Rightarrow> prompt_registry" where
  "add_examples name es reg = reg\<lparr>pr_examples := assoc_put name es (pr_examples reg)\<rparr>"

definition render_prompt :: "engine \<Rightarrow> prompt_registry \<Rightarrow> string \<Rightarrow> (string \<times> json) list \<Rightarrow> agent_error + string" where
  "render_prompt en reg name context =
     (case map_of (pr_templates reg) name of
        None \<Rightarrow> Err (invalid (''Template '' @ quoted name @ '' not found: '' @ en_missing en name))
      | Some t \<Rightarrow> map_err (\<lambda>e. invalid (''Template render error: '' @ e)) (en_render en t context))"

definition get_examples :: "prompt_registry \<Rightarrow> string \<Rightarrow> example list option" where
  "get_examples reg name = map_of (pr_examples reg) name"

definition registry_name :: "string \<Rightarrow> string" where
  "registry_name stem =
     (if stem = ''plan_and_execute'' then ''strategies.plan_and_execute''
      else if stem = ''hierarchical'' then ''strategies.hierarchical.decompose''
      else stem)"

definition load_prompt_entry :: "engine \<Rightarrow> dir_entry \<Rightarrow> prompt_registry \<Rightarrow> agent_error + prompt_registry" where
  "load_prompt_entry en d reg =
     (if de_extension d = Some ''j2'' then
        try_bind (map_err (\<lambda>e. invalid (''Cannot read template '' @ de_path d @ '': '' @ e)) (de_read d)) (\<lambda>template.
          add_template en (registry_name (de_stem d)) template
            (if de_stem d = ''react'' then reg\<lparr>pr_react_loaded := True\<rparr> else reg))
      else if de_extension d = Some ''toml'' then
        try_bind (map_err (\<lambda>e. invalid (''Cannot read examples file '' @ de_path d @ '': '' @ e)) (de_read d)) (\<lambda>content.
        try_bind (map_err (\<lambda>e. invalid (''Cannot parse examples file '' @ de_path d @ '': '' @ e)) (en_examples en content)) (\<lambda>es.
          Ok (add_examples (de_stem d) es reg)))
      else Ok reg)"

fun load_entries :: "engine \<Rightarrow> (string + dir_entry) list \<Rightarrow> prompt_registry \<Rightarrow> agent_error + prompt_registry" where
  "load_entries en [] reg = Ok reg"
| "load_entries en (Err e # ds) reg = Err (invalid (''Error reading directory entry: '' @ e))"
| "load_entries en (Ok d # ds) reg = try_bind (load_prompt_entry en d reg) (load_entries en ds)"

definition load_from_directory ::
  "engine \<Rightarrow> (string \<Rightarrow> prompts_dir) \<Rightarrow> string \<Rightarrow> prompt_registry \<Rightarrow> agent_error + prompt_registry" where
  "load_from_directory en disk dir reg =
     (case disk dir of
        NotADirectory \<Rightarrow> Err (invalid (''Prompts directory not found: '' @ dir))
      | Unreadable e \<Rightarrow> Err (invalid (''Cannot read prompts directory: '' @ e))
      | Entries ds \<Rightarrow> load_entries en ds reg)"

fun add_templates :: "engine \<Rightarrow> (string \<times> string) list \<Rightarrow> prompt_registry \<Rightarrow> agent_error + prompt_registry" where
  "add_templates en [] reg = Ok reg"
| "add_templates en ((n, t) # ts) reg = try_bind (add_template en n t reg) (add_templates en ts)"

definition prompts_from_config ::
  "engine \<Rightarrow> (string \<Rightarrow> prompts_dir) \<Rightarrow> prompt_config \<Rightarrow> agent_error + prompt_registry" where
  "prompts_from_config en disk c =
     try_bind (case pc_prompts_dir c of Some dir \<Rightarrow> load_from_directory en disk dir default_prompts | None \<Rightarrow> Ok default_prompts) (\<lambda>reg.
     try_bind (add_templates en (pc_templates c) reg) (\<lambda>reg.
     let reg = fold (\<lambda>(n, es). add_examples n es) (pc_examples c) reg in
     case pc_system_prompt c of
       Some t \<Rightarrow> add_template en ''system'' t reg
     | None \<Rightarrow> Ok reg))"

text \<open>The preamble a ReAct cycle inserts, as \<open>prepare_buffer\<close> of \<open>avs-react/src/cycle.rs\<close> renders it.\<close>

definition react_preamble :: "engine \<Rightarrow> prompt_registry \<Rightarrow> string option" where
  "react_preamble en reg =
     (if \<not> pr_react_loaded reg then None
      else let context = (case get_examples reg ''react_examples'' of
             Some es \<Rightarrow> (case en_to_json en es of Some v \<Rightarrow> [(''examples'', v)] | None \<Rightarrow> []) | None \<Rightarrow> []) in
        case render_prompt en reg ''react'' context of Ok p \<Rightarrow> Some p | Err _ \<Rightarrow> None)"

definition cycle_with_prompts :: "engine \<Rightarrow> prompt_registry \<Rightarrow> cycle \<Rightarrow> cycle" where
  "cycle_with_prompts en reg cy = cy\<lparr>rc_preamble := react_preamble en reg\<rparr>"

section \<open>Which template wins\<close>

text \<open>The templates of a directory's files, under the names they are registered by.\<close>

fun file_templates :: "(string + dir_entry) list \<Rightarrow> (string \<times> string) list" where
  "file_templates (Ok d # ds) =
     (case de_read d of
        Ok t \<Rightarrow> (if de_extension d = Some ''j2'' then [(registry_name (de_stem d), t)] else []) @ file_templates ds
      | Err _ \<Rightarrow> file_templates ds)"
| "file_templates _ = []"

lemma add_template_Ok:
  "add_template en n t reg = Ok reg' \<longleftrightarrow> en_compile en t = None \<and> reg' = reg\<lparr>pr_templates := assoc_put n t (pr_templates reg)\<rparr>"
  by (auto simp: add_template_def split: option.split)

lemma load_entries_Ok:
  "load_entries en ds reg = Ok reg' \<Longrightarrow>
    map_of (pr_templates reg') = map_of (pr_templates reg) ++ map_of (rev (file_templates ds))"
proof (induction en ds reg rule: load_entries.induct)
  case (3 en d ds reg)
  then show ?case
    by (auto simp: load_prompt_entry_def try_bind_Ok_iff map_err_Ok add_template_Ok add_examples_def map_add_def fun_eq_iff
        split: if_splits option.splits sum.splits)
qed simp_all

lemma add_templates_Ok:
  "add_templates en ts reg = Ok reg' \<Longrightarrow> map_of (pr_templates reg') = map_of (pr_templates reg) ++ map_of (rev ts)
    \<and> pr_react_loaded reg' = pr_react_loaded reg"
proof (induction en ts reg rule: add_templates.induct)
  case (2 en n t ts reg)
  let ?reg = "reg\<lparr>pr_templates := assoc_put n t (pr_templates reg)\<rparr>"
  have "add_template en n t reg = Ok ?reg" "add_templates en ts ?reg = Ok reg'"
    using "2.prems" by (auto simp: try_bind_Ok_iff add_template_Ok)
  with "2.IH" [of ?reg] show ?case by (auto simp: map_add_def fun_eq_iff split: option.splits)
qed simp

lemma fold_examples: "pr_templates (fold (\<lambda>(n, es). add_examples n es) xs reg) = pr_templates reg"
  "pr_react_loaded (fold (\<lambda>(n, es). add_examples n es) xs reg) = pr_react_loaded reg"
  by (induction xs arbitrary: reg) (auto simp: add_examples_def)

text \<open>
  Overrides win over files, files over defaults: in a registry built from a configuration the
  template of a name is the configured system prompt (for \<open>system\<close>), else the configured template
  of that name, else that of the last file of the directory registered under the name, else
  the built-in one. Whatever templates and examples are configured, a ReAct cycle of a registry
  without a directory inserts no preamble: an override of \<open>react\<close> and the examples for it
  are used only where a file \<open>react.j2\<close> was loaded.
\<close>

theorem template_sources_have_precedence:
  assumes "prompts_from_config en disk c = Ok reg" "distinct (map fst (pc_templates c))"
    and "files = (case pc_prompts_dir c of None \<Rightarrow> [] | Some dir \<Rightarrow> (case disk dir of Entries ds \<Rightarrow> file_templates ds | _ \<Rightarrow> []))"
  shows "map_of (pr_templates reg) n =
      (if n = ''system'' \<and> pc_system_prompt c \<noteq> None then pc_system_prompt c
       else case map_of (pc_templates c) n of Some t \<Rightarrow> Some t
       | None \<Rightarrow> (case map_of (rev files) n of Some t \<Rightarrow> Some t | None \<Rightarrow> map_of (pr_templates default_prompts) n))
    \<and> (pc_prompts_dir c = None \<longrightarrow> prepare_buffer (cycle_with_prompts en reg cy) ms = ms)"
proof -
  obtain r1 r2 where r: "(case pc_prompts_dir c of Some dir \<Rightarrow> load_from_directory en disk dir default_prompts
        | None \<Rightarrow> Ok default_prompts) = Ok r1" "add_templates en (pc_templates c) r1 = Ok r2"
      "(let r = fold (\<lambda>(n, es). add_examples n es) (pc_examples c) r2 in
        case pc_system_prompt c of Some t \<Rightarrow> add_template en ''system'' t r | None \<Rightarrow> Ok r) = Ok reg"
    using assms(1) by (auto simp: prompts_from_config_def try_bind_Ok_iff)
  have r1: "map_of (pr_templates r1) = map_of (pr_templates default_prompts) ++ map_of (rev files)"
    using r(1) load_entries_Ok assms(3)
    by (auto simp: load_from_directory_def split: option.splits prompts_dir.splits)
  have rev: "map_of (rev (pc_templates c)) = map_of (pc_templates c)"
    using assms(2) by (intro map_of_eqI) (auto simp: rev_map [symmetric] distinct_map)
  have loaded: "pr_react_loaded reg = pr_react_loaded r1"
    using r(3) add_templates_Ok [OF r(2)] by (auto simp: Let_def add_template_Ok fold_examples split: option.splits)
  have "map_of (pr_templates reg) = (case pc_system_prompt c of
      Some t \<Rightarrow> (map_of (pr_templates r2))(''system'' \<mapsto> t) | None \<Rightarrow> map_of (pr_templates r2))"
    using r(3) by (auto simp: Let_def add_template_Ok fold_examples split: option.splits)
  moreover have "pc_prompts_dir c = None \<Longrightarrow> \<not> pr_react_loaded reg"
    using loaded r(1) by (auto simp: default_prompts_def)
  ultimately show ?thesis
    using add_templates_Ok [OF r(2)] r1 rev
    by (auto simp: map_add_def prepare_buffer_def cycle_with_prompts_def react_preamble_def split: option.splits)
qed

definition sample_engine :: engine where
  "sample_engine = \<lparr>en_compile = (\<lambda>_. None), en_render = (\<lambda>t _. Ok t), en_missing = (\<lambda>_. []),
     en_examples = (\<lambda>_. Ok []), en_to_json = (\<lambda>_. None)\<rparr>"

lemma template_sources_have_precedence_witness:
  "\<exists>reg. prompts_from_config sample_engine (\<lambda>_. NotADirectory)
       \<lparr>pc_system_prompt = Some ''be brief'', pc_prompts_dir = None, pc_templates = [(''react'', ''mine'')], pc_examples = []\<rparr> = Ok reg
     \<and> map_of (pr_templates reg) ''system'' = Some ''be brief'' \<and> map_of (pr_templates reg) ''react'' = Some ''mine''
     \<and> (\<forall>cy. prepare_buffer (cycle_with_prompts sample_engine reg cy) [text_message RoleUser ''hi''] = [text_message RoleUser ''hi''])"
proof -
  let ?c = "\<lparr>pc_system_prompt = Some ''be brief'', pc_prompts_dir = None, pc_templates = [(''react'', ''mine'')], pc_examples = []\<rparr>"
  obtain reg where reg: "prompts_from_config sample_engine (\<lambda>_. NotADirectory) ?c = Ok reg"
    by (simp add: prompts_from_config_def sample_engine_def add_template_def)
  have "map_of (pr_templates reg) n = (if n = ''system'' then Some ''be brief''
      else case map_of [(''react'', ''mine'')] n of Some t \<Rightarrow> Some t | None \<Rightarrow> map_of (pr_templates default_prompts) n)
    \<and> prepare_buffer (cycle_with_prompts sample_engine reg cy) ms = ms" for n cy ms
    using template_sources_have_precedence [OF reg, of "[]" n cy ms] by simp
  then show ?thesis using reg by auto
qed

end
