(* ===== verification/Worker_Loops.thy ===== *)
theory Worker_Loops
  imports Workers Hitl_Queue
begin

text \<open>
  The loops around the background workers (\<open>avs-agent/src/workers.rs\<close>) and their supervision
  (\<open>avs-agent/src/agent/workers.rs\<close>): a worker ticks at once and then once per poll interval;
  a failed tick is logged and the loop goes on; a panic ends the worker, and the supervisor
  starts a new one five seconds later. A tick is taken to be instantaneous. The loops run for
  ever; \<open>supervised\<close> is what they do in their first \<open>k\<close> ticks.
\<close>

section \<open>The loop and its supervisor\<close>

text \<open>A tick: whether it panicked, and the state after it.\<close>

type_synonym 's ticker = "instant \<Rightarrow> 's \<Rightarrow> bool \<times> 's"

definition restart_delay :: int where "restart_delay = 5 * nanos_per_sec"

fun supervised :: "'s ticker \<Rightarrow> int \<Rightarrow> nat \<Rightarrow> instant \<Rightarrow> 's \<Rightarrow> instant list \<times> 's" where
  "supervised tick poll 0 now s = ([], s)"
| "supervised tick poll (Suc k) now s =
     (case tick now s of (panicked, s') \<Rightarrow>
        case supervised tick poll k (now + (if panicked then restart_delay else poll)) s' of
          (ts, s'') \<Rightarrow> (now # ts, s''))"

text \<open>The three workers. None of their ticks panics in the code shown; an error is dropped.\<close>

definition logged :: "('s \<Rightarrow> 'r \<times> 's) \<Rightarrow> 's \<Rightarrow> bool \<times> 's" where
  "logged m s = (False, snd (m s))"

definition consolidation_worker :: "content_codec \<Rightarrow> longterm_write \<Rightarrow> consolidation_config \<Rightarrow> worker_state ticker" where
  "consolidation_worker cd write cfg now = logged (consolidation_tick cd write cfg now)"

definition cleanup_worker :: "cleanup_config \<Rightarrow> worker_state ticker" where
  "cleanup_worker cfg now = logged (cleanup_tick cfg now)"

definition hitl_sweep_worker :: "(instant \<Rightarrow> 'q \<Rightarrow> (hitl_error + nat) \<times> 'q) \<Rightarrow> 'q ticker" where
  "hitl_sweep_worker sweep now = logged (sweep now)"

definition hitl_sweep_default :: int where "hitl_sweep_default = 60"

datatype worker = CleanupWorker | HitlSweepWorker | ConsolidationWorker

definition background_workers :: "bool \<Rightarrow> bool \<Rightarrow> worker list" where
  "background_workers has_hitl has_longterm =
     [CleanupWorker] @ (if has_hitl then [HitlSweepWorker] else []) @ (if has_longterm then [ConsolidationWorker] else [])"

lemma supervised_fixed:
  "(\<And>t. t \<in> set (fst (supervised tick poll k now s)) \<Longrightarrow> snd (tick t s) = s) \<Longrightarrow> snd (supervised tick poll k now s) = s"
proof (induction k arbitrary: now)
  case (Suc k)
  obtain p s' where p: "tick now s = (p, s')" by fastforce
  then have "now \<in> set (fst (supervised tick poll (Suc k) now s))" by (simp split: prod.split)
  then have s: "s' = s" using Suc.prems [of now] p by simp
  let ?next = "now + (if p then restart_delay else poll)"
  have "snd (tick t s) = s" if "t \<in> set (fst (supervised tick poll k ?next s))" for t
    using that p s by (intro Suc.prems) (auto split: prod.split)
  then have "snd (supervised tick poll k ?next s) = s" by (rule Suc.IH)
  then show ?case using p s by (auto split: prod.split)
qed simp

section \<open>A session whose messages are refused\<close>

text \<open>
  C27. One session whose memories are refused starves the others: while the session that was
  changed longest ago among those listed has messages due and long-term memory refuses its
  user's records, every tick ends at its first message. However long the worker runs, nothing
  of any session is handed over and no watermark moves.
\<close>

theorem refused_session_starves_the_others:
  assumes "\<And>c lt. \<exists>e. write (ses_user_id ses) c lt = Err e"
    and "load_messages_above_watermark cd (ws_db s) (ses_id ses) = Ok msgs" "msgs \<noteq> []"
    and "\<And>t. t \<in> set (fst (supervised (consolidation_worker cd write cfg) poll k now s)) \<Longrightarrow>
      \<exists>others. list_sessions_needing_maintenance t (ws_db s) = Ok (ses # others)
        \<and> \<not> keeps_waiting cfg t ses msgs"
  shows "snd (supervised (consolidation_worker cd write cfg) poll k now s) = s"
proof (rule supervised_fixed)
  fix t assume t: "t \<in> set (fst (supervised (consolidation_worker cd write cfg) poll k now s))"
  from assms(4) [OF this] obtain others where
    l: "list_sessions_needing_maintenance t (ws_db s) = Ok (ses # others)" "\<not> keeps_waiting cfg t ses msgs" by blast
  obtain n m ms where msgs: "msgs = (n, m) # ms" using assms(3) by (cases msgs) force+
  obtain e where e: "write (ses_user_id ses) (message_as_text m) (ws_longterm s) = Err e" using assms(1) by blast
  have "consolidate_session cd write cfg t ses s = (Err (LongtermFailed e), s)"
    using assms(2) l(2) msgs e
    by (simp add: consolidate_session_def store_op_def eff_bind_def eff_run write_longterm_def)
  then have "consolidation_tick cd write cfg t s = (Err (LongtermFailed e), s)"
    using l(1) by (simp add: consolidation_tick_def store_op_def eff_bind_def eff_run)
  then show "snd (consolidation_worker cd write cfg t s) = s" by (simp add: consolidation_worker_def logged_def)
qed

text \<open>Two sessions with a pending turn each; the records of the older one's user are refused.\<close>

definition two_pending :: worker_state where
  "two_pending = \<lparr>ws_db = \<lparr>db_sessions = [create_session_row 1000000000 ''old'' ''ann'' None,
       create_session_row 2000000000 ''new'' ''bob'' None],
     db_messages = [message_to_row sample_codec 1000000000 ''old'' 1 (text_message RoleUser ''a''),
       message_to_row sample_codec 2000000000 ''new'' 1 (text_message RoleUser ''b'')], db_fault = None\<rparr>, ws_longterm = []\<rparr>"

definition refuses_ann :: longterm_write where
  "refuses_ann u c lt = (if u = ''ann'' then Err ''too long'' else Ok (lt @ [(u, c)]))"

lemma two_pending_listed:
  "list_sessions_needing_maintenance t (ws_db two_pending) =
    Ok (map row_to_session [create_session_row 1000000000 ''old'' ''ann'' None, create_session_row 2000000000 ''new'' ''bob'' None])"
  by (simp add: list_sessions_needing_maintenance_def two_pending_def needs_maintenance_def create_session_row_def
      message_to_row_def timestamp_def)

lemma refused_session_starves_the_others_witness:
  "ws_longterm (snd (supervised (consolidation_worker sample_codec refuses_ann consolidation_default) 60000000000 3
      9000000000000 two_pending)) = []"
proof -
  let ?ses = "row_to_session (create_session_row 1000000000 ''old'' ''ann'' None)"
  have "fst (supervised (consolidation_worker sample_codec refuses_ann consolidation_default) 60000000000 3 9000000000000 two_pending)
      = [9000000000000, 9060000000000, 9120000000000]"
    by (simp add: numeral_eq_Suc consolidation_worker_def logged_def split: prod.split)
  moreover have "load_messages_above_watermark sample_codec (ws_db two_pending) (ses_id ?ses) = Ok [(1, text_message RoleUser ''a'')]"
    by code_simp
  moreover have "refuses_ann (ses_user_id ?ses) c lt = Err ''too long''" for c lt
    by (simp add: refuses_ann_def row_to_session_def create_session_row_def)
  moreover have "\<not> keeps_waiting consolidation_default t ?ses [(1, text_message RoleUser ''a'')]"
    if "t \<in> {9000000000000, 9060000000000, 9120000000000}" for t
    using that by (auto simp: keeps_waiting_def consolidation_default_def row_to_session_def create_session_row_def
        timestamp_def from_timestamp_def)
  ultimately show ?thesis
    using refused_session_starves_the_others [of refuses_ann ?ses sample_codec two_pending "[(1, text_message RoleUser ''a'')]"
        consolidation_default 60000000000 3 9000000000000]
    by (simp add: two_pending_listed) (simp add: two_pending_def)
qed

section \<open>What the sweeps leave\<close>

lemma sweep_rows:
  assumes "sql_inv q"
  shows "sq_rows (snd (sql_sweep_expired now q)) = map (expire_row now) (sq_rows q)"
  using assms by (simp add: sql_inv_def sql_sweep_expired_def Let_def)

lemma expire_row_twice: "a \<le> b \<Longrightarrow> expire_row b (expire_row a r) = expire_row b r"
  using timestamp_mono [of a b] by (auto simp: expire_row_def row_expires_def split: option.splits)

lemma sweeps_run:
  assumes "sql_inv q" "0 \<le> poll"
  shows "sql_inv (snd (supervised (hitl_sweep_worker sql_sweep_expired) poll (Suc k) now q))
    \<and> sq_rows (snd (supervised (hitl_sweep_worker sql_sweep_expired) poll (Suc k) now q))
        = map (expire_row (now + int k * poll)) (sq_rows q)"
  using assms(1)
proof (induction k arbitrary: now q)
  case 0
  then show ?case by (simp add: hitl_sweep_worker_def logged_def sql_inv_sweep sweep_rows)
next
  case (Suc k)
  let ?q = "snd (sql_sweep_expired now q)"
  have "snd (supervised (hitl_sweep_worker sql_sweep_expired) poll (Suc (Suc k)) now q)
      = snd (supervised (hitl_sweep_worker sql_sweep_expired) poll (Suc k) (now + poll) ?q)"
    by (simp add: hitl_sweep_worker_def logged_def split: prod.split)
  moreover have "now \<le> now + int (Suc k) * poll" using assms(2) by simp
  ultimately show ?case
    using Suc.IH [OF sql_inv_sweep [OF Suc.prems], of "now + poll"]
    by (simp add: sweep_rows [OF Suc.prems] expire_row_twice algebra_simps)
qed

text \<open>
  C28. The sweep worker decides what nobody decided in time, and nothing else: after its first
  \<open>k + 1\<close> ticks a request of the SQLite queue that was pending polls as expired where its
  deadline lies before the last tick, and every other request polls as it did; so an undecided
  request is expired at most one interval after its deadline, in whole seconds, and the gauge
  still counts the pending ones.
\<close>

theorem sweeps_expire_the_overdue:
  assumes "sql_inv q" "0 \<le> poll" "q' = snd (supervised (hitl_sweep_worker sql_sweep_expired) poll (Suc k) now q)"
  shows "sql_poll cd q' i =
    (case find (\<lambda>r. ar_id r = i) (sq_rows q) of
       Some r \<Rightarrow> if row_expires (now + int k * poll) r then Ok Expired else sql_poll cd q i
     | None \<Rightarrow> Err (ApprovalNotFound i))
    \<and> sq_pending_gauge q' = int (pending_count q')"
proof -
  have q': "sql_inv q'" "sq_rows q' = map (expire_row (now + int k * poll)) (sq_rows q)"
    using sweeps_run [OF assms(1,2)] assms(3) by simp_all
  then show ?thesis
    using assms(1) by (auto simp: sql_poll_eq find_map_row expire_row_def row_to_status_def sql_inv_def split: option.split)
qed

definition overdue_queue :: sql_queue where
  "overdue_queue = snd (sql_submit sample_hitl_codec 0 (sample_request\<lparr>apr_expires_at := Some 30000000000\<rparr>) sql_new)"

lemma sweeps_expire_the_overdue_witness:
  "sql_poll sample_hitl_codec (snd (supervised (hitl_sweep_worker sql_sweep_expired) 60000000000 (Suc 1) 0 overdue_queue)) ''a1''
    = Ok Expired"
proof -
  have "sql_inv overdue_queue"
    unfolding overdue_queue_def by (rule sql_inv_submit) (simp add: sql_inv_def sql_new_def pending_count_def)
  note swept = sweeps_expire_the_overdue [OF this _ refl, of 60000000000 sample_hitl_codec 1 0 "''a1''", THEN conjunct1]
  obtain r where "find (\<lambda>r. ar_id r = ''a1'') (sq_rows overdue_queue) = Some r"
      "row_expires (0 + int 1 * 60000000000) r"
    by (simp add: overdue_queue_def sql_submit_def sql_new_def sample_request_def new_request_def row_expires_def
        timestamp_def)
  with swept show ?thesis by (simp only: option.case if_True)
qed

end
