(* ===== verification/Evaluation.thy ===== *)
theory Evaluation
  imports Mcp Provider_Registry
begin

text \<open>
  The evaluation harness (\<open>avs-eval/src\<close>): recorded model turns served by a mock of the model
  server (\<open>recording.rs\<close>), the judge that grades an agent's answer (\<open>judge.rs\<close>) and the loader of
  case files (\<open>runner.rs\<close>). The mock server answers a request with the first registered turn
  that matches it; JSON text and the TOML reader are parameters, and a panic of a loader is an
  error with its text. \<open>read_chat_response\<close> reads a body as the derived \<open>Deserialize\<close> of
  \<open>ChatResponse\<close> (\<open>avs-core/src/model/openai_compatible.rs\<close>) does.
\<close>

section \<open>Recordings\<close>

record recorded_tool_call =
  rt_id :: string
  rt_name :: string
  rt_arguments :: string

record recorded_turn =
  tu_body_contains :: string
  tu_content :: string
  tu_tool_calls :: "recorded_tool_call list"

record recording =
  rec_agent_turns :: "recorded_turn list"
  rec_judge_turn :: recorded_turn

definition load_recording ::
  "(string \<Rightarrow> string + string) \<Rightarrow> (string \<Rightarrow> string + recording) \<Rightarrow> string \<Rightarrow> string + recording" where
  "load_recording disk from_toml case_name =
     (let path = ''fixtures/recordings/'' @ case_name @ ''.toml'' in
      try_bind (map_err (\<lambda>e. ''failed to read recording '' @ path @ '': '' @ e) (disk path)) (\<lambda>content.
        map_err (\<lambda>e. ''failed to parse recording '' @ path @ '': '' @ e) (from_toml content)))"

definition recorded_call_value :: "recorded_tool_call \<Rightarrow> json" where
  "recorded_call_value c = JObject (obj_from
     [(''id'', JString (rt_id c)),
      (''function'', JObject (obj_from [(''name'', JString (rt_name c)), (''arguments'', JString (rt_arguments c))]))])"

definition chat_completion_envelope :: "recorded_turn \<Rightarrow> json" where
  "chat_completion_envelope t = JObject (obj_from
     [(''choices'', JArray [JObject (obj_from [(''message'', JObject (obj_from
         [(''role'', JString ''assistant''),
          (''content'', if tu_content t = [] then JNull else JString (tu_content t)),
          (''tool_calls'', JArray (map recorded_call_value (tu_tool_calls t)))]))])]),
      (''usage'', JObject (obj_from [(''prompt_tokens'', JNumber (PosInt 5)), (''completion_tokens'', JNumber (PosInt 3)),
         (''total_tokens'', JNumber (PosInt 8))]))])"

text \<open>
  A mock server: turns in the order they were registered. A request to another path, or one
  that no turn matches, gets none of them.
\<close>

definition mock_answer :: "recorded_turn list \<Rightarrow> string \<Rightarrow> string \<Rightarrow> json option" where
  "mock_answer turns path body =
     (if path = ''/chat/completions''
      then map_option chat_completion_envelope (find (\<lambda>t. contains_str (tu_body_contains t) body) turns) else None)"

definition agent_server :: "recording \<Rightarrow> string \<Rightarrow> string \<Rightarrow> json option" where
  "agent_server r = mock_answer (rec_agent_turns r)"

definition judge_server :: "recording \<Rightarrow> string \<Rightarrow> string \<Rightarrow> json option" where
  "judge_server r path body =
     (if path = ''/chat/completions'' then Some (chat_completion_envelope (rec_judge_turn r)) else None)"

section \<open>The judge\<close>

datatype verdict = Pass | Fail

record judge_verdict =
  jv_verdict :: verdict
  jv_reasoning :: string

definition build_judge_prompt :: "string \<Rightarrow> string \<Rightarrow> string" where
  "build_judge_prompt rubric agent_output =
     (let q = (\<lambda>s. [CHR 0x22] @ s @ [CHR 0x22]) in
      ''You are evaluating an AI agent'' @ [CHR 0x27] @ ''s response against a rubric.'' @ paragraph_break
        @ ''Rubric: '' @ rubric @ paragraph_break
        @ ''Agent'' @ [CHR 0x27] @ ''s response: '' @ agent_output @ paragraph_break
        @ ''Respond with ONLY a JSON object of the exact shape: {'' @ q ''verdict'' @ '': '' @ q ''pass'' @ '' or '' @ q ''fail''
        @ '', '' @ q ''reasoning'' @ '': '' @ q ''<one sentence>'' @ ''}'')"

definition parse_judge_verdict ::
  "(string \<Rightarrow> string) \<Rightarrow> (string \<Rightarrow> string + judge_verdict) \<Rightarrow> string \<Rightarrow> string + judge_verdict" where
  "parse_judge_verdict debug from_json raw =
     map_err (\<lambda>e. ''failed to parse judge verdict from '' @ debug raw @ '': '' @ e) (from_json (trim raw))"

definition judge_request :: "string \<Rightarrow> generate_request" where
  "judge_request prompt = \<lparr>req_system = None, req_messages = [text_message RoleUser prompt], req_tools = None, req_response_format = None\<rparr>"

definition run_judge ::
  "(model_error \<Rightarrow> string) \<Rightarrow> (string \<Rightarrow> string) \<Rightarrow> (string \<Rightarrow> string + judge_verdict)
    \<Rightarrow> (generate_request \<Rightarrow> model_error + generate_response) \<Rightarrow> string \<Rightarrow> string \<Rightarrow> string + judge_verdict" where
  "run_judge show_error debug from_json ask rubric agent_output =
     try_bind (map_err (\<lambda>e. ''judge model call failed: '' @ show_error e)
         (ask (judge_request (build_judge_prompt rubric agent_output)))) (\<lambda>response.
       parse_judge_verdict debug from_json (response_as_text response))"

definition build_judge_connection ::
  "protocols \<Rightarrow> nat \<Rightarrow> breakers \<Rightarrow> string \<Rightarrow> string \<Rightarrow> string \<Rightarrow> model_error + connection list \<times> breakers" where
  "build_judge_connection pt i bs judge_server_base_url model_name api_key =
     connection_from_config i (openai_config model_name api_key (Some judge_server_base_url)) (with_builtins pt) bs"

section \<open>Case files\<close>

record 'f router_case =
  rc_message :: string
  rc_skill_id :: string
  rc_threshold :: 'f
  rc_expected_debug :: string

record 'v template_case =
  te_template :: string
  te_context :: "(string \<times> 'v) list"
  te_expected :: string

record case_file =
  cf_path :: string
  cf_stem :: string
  cf_extension :: "string option"
  cf_read :: "string + string"

fun load_cases :: "(string \<Rightarrow> string + 'a) \<Rightarrow> case_file list \<Rightarrow> string + (string \<times> 'a) list" where
  "load_cases from_toml [] = Ok []"
| "load_cases from_toml (f # fs) =
     (if cf_extension f \<noteq> Some ''toml'' then load_cases from_toml fs
      else try_bind (map_err (\<lambda>e. ''failed to read '' @ cf_path f @ '': '' @ e) (cf_read f)) (\<lambda>content.
        try_bind (map_err (\<lambda>e. ''failed to parse '' @ cf_path f @ '': '' @ e) (from_toml content)) (\<lambda>c.
        map_ok (Cons (cf_stem f, c)) (load_cases from_toml fs))))"

definition load_toml_cases :: "(string \<Rightarrow> string + 'a) \<Rightarrow> string \<Rightarrow> string + case_file list \<Rightarrow> string + (string \<times> 'a) list" where
  "load_toml_cases from_toml dir entries =
     try_bind (map_err (\<lambda>e. ''failed to read fixture dir '' @ dir @ '': '' @ e) entries) (\<lambda>fs.
     try_bind (load_cases from_toml fs) (\<lambda>cs.
       if cs = [] then Err (''no fixture files found in '' @ dir) else Ok cs))"

section \<open>Reading a chat response\<close>

definition field :: "json_object \<Rightarrow> string \<Rightarrow> string + json" where
  "field ob k = (case obj_get k ob of Some v \<Rightarrow> Ok v | None \<Rightarrow> Err (''missing field `'' @ k @ ''`''))"

definition string_of :: "json \<Rightarrow> string + string" where
  "string_of v = (case as_str v of Some s \<Rightarrow> Ok s | None \<Rightarrow> Err ''invalid type: expected a string'')"

definition object_of :: "json \<Rightarrow> string + json_object" where
  "object_of v = (case as_object v of Some ob \<Rightarrow> Ok ob | None \<Rightarrow> Err ''invalid type: expected a struct'')"

definition list_of :: "json \<Rightarrow> string + json list" where
  "list_of v = (case as_array v of Some vs \<Rightarrow> Ok vs | None \<Rightarrow> Err ''invalid type: expected a sequence'')"

definition or_none :: "('a \<Rightarrow> string + 'b) \<Rightarrow> 'b \<Rightarrow> 'a option \<Rightarrow> string + 'b" where
  "or_none read d v = (case v of None \<Rightarrow> Ok d | Some x \<Rightarrow> read x)"

definition u32_of :: "json \<Rightarrow> string + 32 word" where
  "u32_of v = (case as_u64 v of
     Some n \<Rightarrow> if n < 2 ^ 32 then Ok (word_of_nat n) else Err ''invalid value: expected u32''
   | None \<Rightarrow> Err ''invalid type: expected u32'')"

definition option_string_of :: "json \<Rightarrow> string + string option" where
  "option_string_of v = (if v = JNull then Ok None else map_ok Some (string_of v))"

definition read_tool_call_wire :: "json \<Rightarrow> string + tool_call_wire" where
  "read_tool_call_wire v =
     try_bind (object_of v) (\<lambda>ob.
     try_bind (try_bind (field ob ''id'') string_of) (\<lambda>i.
     try_bind (try_bind (field ob ''function'') object_of) (\<lambda>f.
     try_bind (try_bind (field f ''name'') string_of) (\<lambda>n.
     try_bind (try_bind (field f ''arguments'') string_of) (\<lambda>a.
       Ok \<lparr>tw_id = i, tw_name = n, tw_arguments = a\<rparr>)))))"

definition read_response_message :: "json \<Rightarrow> string + response_message" where
  "read_response_message v =
     try_bind (object_of v) (\<lambda>ob.
     try_bind (or_none option_string_of None (obj_get ''content'' ob)) (\<lambda>c.
     try_bind (or_none (\<lambda>x. try_bind (list_of x) (\<lambda>xs. collect_results (map read_tool_call_wire xs))) []
         (obj_get ''tool_calls'' ob)) (\<lambda>calls.
       Ok \<lparr>rm_content = c, rm_tool_calls = calls\<rparr>)))"

definition read_choice :: "json \<Rightarrow> string + response_message" where
  "read_choice v = try_bind (object_of v) (\<lambda>ob. try_bind (field ob ''message'') read_response_message)"

definition read_usage :: "json \<Rightarrow> string + 32 word \<times> 32 word \<times> 32 word" where
  "read_usage v =
     try_bind (object_of v) (\<lambda>ob.
     try_bind (or_none u32_of 0 (obj_get ''prompt_tokens'' ob)) (\<lambda>p.
     try_bind (or_none u32_of 0 (obj_get ''completion_tokens'' ob)) (\<lambda>c.
     try_bind (or_none (\<lambda>d. try_bind (object_of d) (\<lambda>ob. or_none u32_of 0 (obj_get ''cached_tokens'' ob))) 0
         (obj_get ''prompt_tokens_details'' ob)) (\<lambda>k. Ok (p, c, k)))))"

definition read_chat_response :: "json \<Rightarrow> string + chat_response" where
  "read_chat_response v =
     try_bind (object_of v) (\<lambda>ob.
     try_bind (try_bind (try_bind (field ob ''choices'') list_of) (\<lambda>xs. collect_results (map read_choice xs))) (\<lambda>choices.
     try_bind (or_none read_usage (0, 0, 0) (obj_get ''usage'' ob)) (\<lambda>(p, c, k).
       Ok \<lparr>ch_choices = choices, ch_prompt_tokens = p, ch_completion_tokens = c, ch_cached_tokens = k\<rparr>)))"

text \<open>A client of a mock server: the OpenAI-compatible provider over JSON text.\<close>

definition ask_mock ::
  "json_text \<Rightarrow> args_codec \<Rightarrow> (string \<Rightarrow> string \<Rightarrow> json option) \<Rightarrow> string \<Rightarrow> generate_request \<Rightarrow> model_error + generate_response" where
  "ask_mock jt cd server model request =
     try_bind (openai_build cd True model request) (\<lambda>body.
       case server ''/chat/completions'' (jt_print jt body) of
         None \<Rightarrow> Err (ApiError ''404'')
       | Some answer \<Rightarrow> openai_parse cd (\<lambda>body_text. try_bind (jt_parse jt body_text) read_chat_response) (jt_print jt answer))"

section \<open>What is recorded is what the agent and the judge see\<close>

lemma read_recorded_call: "read_tool_call_wire (recorded_call_value c)
    = Ok \<lparr>tw_id = rt_id c, tw_name = rt_name c, tw_arguments = rt_arguments c\<rparr>"
  by (simp add: read_tool_call_wire_def recorded_call_value_def object_of_def field_def string_of_def)

lemma read_envelope:
  "read_chat_response (chat_completion_envelope t) =
    Ok \<lparr>ch_choices = [\<lparr>rm_content = (if tu_content t = [] then None else Some (tu_content t)),
          rm_tool_calls = map (\<lambda>c. \<lparr>tw_id = rt_id c, tw_name = rt_name c, tw_arguments = rt_arguments c\<rparr>) (tu_tool_calls t)\<rparr>],
        ch_prompt_tokens = 5, ch_completion_tokens = 3, ch_cached_tokens = 0\<rparr>"
proof -
  have calls: "collect_results (map read_tool_call_wire (map recorded_call_value cs))
      = Ok (map (\<lambda>c. \<lparr>tw_id = rt_id c, tw_name = rt_name c, tw_arguments = rt_arguments c\<rparr>) cs)" for cs
    by (induction cs) (simp_all add: read_recorded_call)
  show ?thesis
    by (simp add: read_chat_response_def chat_completion_envelope_def object_of_def field_def list_of_def read_choice_def
        read_response_message_def or_none_def option_string_of_def string_of_def read_usage_def u32_of_def calls del: map_map)
qed

text \<open>
  A recorded judge's turn decides the verdict: whatever the rubric and the answer graded, the
  judge asked through the mock server yields the verdict its recorded text parses to.
\<close>

lemma judge_request_builds:
  "\<exists>body. openai_build cd True model (judge_request p) = Ok body"
  by (simp add: openai_build_def openai_wire_def judge_request_def text_message_def build_text_message_def)

lemma recorded_turn_answers:
  assumes "server ''/chat/completions'' = (\<lambda>_. Some (chat_completion_envelope t))"
    and "reads_back jt (chat_completion_envelope t)" and "\<not> is_blank (tu_content t)" and "tu_tool_calls t = []"
  shows "ask_mock jt cd server model (judge_request p) = Ok
    \<lparr>resp_content = [Text (tu_content t)],
     resp_usage = \<lparr>input_tokens = 5, output_tokens = 3, cache_write_tokens = 0, cache_read_tokens = 0\<rparr>\<rparr>"
proof -
  obtain body where "openai_build cd True model (judge_request p) = Ok body" using judge_request_builds by blast
  moreover have "tu_content t \<noteq> []" using assms(3) by (auto simp: is_blank_def trim_def trim_start_def trim_end_def)
  ultimately show ?thesis using assms
    by (simp add: ask_mock_def openai_parse_def reads_back_def read_envelope read_message_def)
qed

lemma judge_reads_its_recorded_turn:
  assumes "reads_back jt (chat_completion_envelope (rec_judge_turn r))"
    and "\<not> is_blank (tu_content (rec_judge_turn r))" and "tu_tool_calls (rec_judge_turn r) = []"
  shows "run_judge show_error debug from_json (ask_mock jt cd (judge_server r) model) rubric answer
    = parse_judge_verdict debug from_json (tu_content (rec_judge_turn r))"
proof -
  have "judge_server r ''/chat/completions'' = (\<lambda>_. Some (chat_completion_envelope (rec_judge_turn r)))"
    by (rule ext) (simp add: judge_server_def)
  from recorded_turn_answers[where server = "judge_server r" and t = "rec_judge_turn r", OF this assms, of cd model] show ?thesis
    by (simp add: run_judge_def response_as_text_def content_as_text_def)
qed

end
