(* ===== verification/Spec2Isabelle.thy ===== *)
theory Spec2Isabelle
  imports Agent_Reach Sub_Agent Strict_Schema Http_Server Pg_Migration Mcp_Stdio Integration Longterm Conformance
    Builtin_Tools Prompts Worker_Loops Evaluation
begin

text \<open>
  A verification library of the agent framework (the Rust crates \<open>avs-*\<close>). It models the
  program's own logic as HOL functions and step relations, translated from the sources, and
  proves what makes each part correct. Paths are relative to the repository.

  \<^bold>\<open>The program.\<close> An agent answers a user's messages in sessions. A request arrives over HTTP,
  through an orchestrator's envelope or from a connector to an outside platform. The agent
  checks that the user owns the session, takes the history from a cache in front of a durable
  session store, routes the message to a skill, chooses a strategy and runs it: the strategy
  asks the language model, executes the tool calls it names and stops with an answer, an error
  or an interrupt. A tool, a phase transition or a checkpoint that needs a human's approval is
  filed in an approval queue, the session is suspended with its pending calls serialised, and
  a later \<open>resume\<close> with the decision goes on from there. A completed turn is appended to the
  transcript; background workers hand old messages to long-term memory and delete what has
  passed its retention. Tools are local, shipped, remote over the Model Context Protocol, or
  whole sub-agents.

  \<^bold>\<open>Shared theories.\<close>
  \<^item> \<open>Prelude\<close>: results (\<open>Ok\<close>, \<open>Err\<close> on a sum), time stamps, ASCII text, association lists,
    and the collections \<open>inv_intros\<close> and \<open>frame_simps\<close> the component proofs use.
  \<^item> \<open>Effects\<close>: operations that may fail and change a state (\<open>eff_bind\<close> is \<open>await\<close> followed by
    \<open>?\<close>, keeping the changes made before an error), and rules for what they preserve
    (\<open>preserves\<close>), leave alone (\<open>keeps\<close>) and how they may change a state (\<open>within\<close>).
  \<^item> \<open>Json\<close>: \<open>serde_json::Value\<close> with its ordered objects. \<open>Core_Types\<close>: messages, errors,
    requests, calls and outcomes of \<open>avs-core/src\<close>, token counts as 32-bit words.

  \<^bold>\<open>Storage.\<close>
  \<^item> \<open>Session_Store\<close>: \<open>avs-memory/src/session/sqlite.rs\<close> and \<open>sqlite_maintenance.rs\<close>. The state is
    a record of the two tables; every query and update is one operation, a failing pool is
    part of the state. The invariant of the tables holds in every reachable database; the
    locale \<open>session_memory\<close> is the contract of the trait, from which interleaved turns of
    several sessions read back, and both stores are interpretations of it.
  \<^item> \<open>Pg_Store\<close>: the methods of \<open>avs-memory-pgvector/src\<close>, equal to those of SQLite when run
    one at a time. \<open>Pg_Concurrency\<close>: appends of any number of clients as interleaved
    statements at READ COMMITTED, an invariant of their reachable states, from which
    transcripts are the committed appends in commit order and some client can always go on.
    \<open>Pg_Migration\<close>: the migration of old tables.
  \<^item> \<open>Conformance\<close>: the conformance suite of \<open>avs-test-utils\<close> as a program over the store's
    operations, run by weakest-precondition rules (\<open>gives\<close>) for every well-formed store and
    clock; its exact verdict.
  \<^item> \<open>Session_Manager\<close>, \<open>Working_Memory\<close>: ownership (\<open>avs-session/src/manager.rs\<close>) and the cache
    with its time to live (\<open>avs-memory/src/working.rs\<close>).
  \<^item> \<open>Longterm\<close>: \<open>avs-memory/src/longterm\<close>, \<open>avs-memory-pgvector/src/backend.rs\<close>,
    \<open>avs-memory-lancedb/src/backend.rs\<close>. Locales \<open>embedder\<close> and \<open>vector_store\<close> are the two
    traits; retrieval is proved once from them and interpreted on the embedders and stores.

  \<^bold>\<open>Approval.\<close>
  \<^item> \<open>Hitl_Queue\<close>: the queues of \<open>avs-hitl/src/memory.rs\<close> and \<open>sqlite.rs\<close>; the locale
    \<open>approval_queue\<close> has the law that a decision is final; both queues are interpretations and
    agree by a simulation. \<open>Hitl_Policy\<close>: \<open>policy.rs\<close>, the hook of \<open>context.rs\<close> and skills that
    may only add to what the system's skills gate.

  \<^bold>\<open>Tools and skills.\<close>
  \<^item> \<open>Skills\<close>: \<open>avs-skill/src\<close> (parser, registry, router). \<open>Strict_Schema\<close>:
    \<open>avs-tools/src/strict_schema.rs\<close>. \<open>Tool_Registry\<close>: registry, keyword index and erased
    tools. \<open>Builtin_Tools\<close>: the tools shipped in \<open>avs-tools/src\<close>. \<open>Prompts\<close>:
    \<open>avs-core/src/prompt.rs\<close>.
  \<^item> \<open>Mcp\<close>, \<open>Mcp_Stdio\<close>: \<open>avs-mcp/src\<close>: client, server, adapter, configuration and loader, and
    the client over a child's pipes as a step relation with calls in flight.
  \<^item> \<open>Sub_Agent\<close>: \<open>avs-subagent/src\<close>.

  \<^bold>\<open>Model and strategies.\<close>
  \<^item> \<open>Providers\<close>, \<open>Provider_Registry\<close>, \<open>Connection\<close>: \<open>avs-core/src/model\<close>: the three wire
    protocols, the provider table with the configuration, and the circuit breaker, retries
    and fallback chain against a network that answers with any results.
  \<^item> \<open>Guardrails\<close>: \<open>avs-guardrails/src\<close>; the rate limiter against its sliding-window reference.
  \<^item> \<open>React_Cycle\<close>, \<open>Strategies\<close>: \<open>avs-react/src\<close>, \<open>avs-plan/src\<close>, \<open>avs-strategy/src\<close>,
    \<open>avs-router/src\<close>. A loop that runs at most \<open>max_iterations\<close> times recurses on the number
    of iterations left, the bound of the code, so no fuel is added.

  \<^bold>\<open>The agent.\<close>
  \<^item> \<open>Agent_Core\<close>: the world (store, cache, queue, drawn identifiers, skills, long-term memory,
    started tools) and the agent's constant parts. \<open>Agent_Invoke\<close>, \<open>Agent_Resume\<close>,
    \<open>Agent_Routing\<close>: the operations of \<open>avs-agent/src/agent\<close>, composed as the code composes them.
  \<^item> \<open>Agent_Turns\<close>: an invocation refines the abstract turn on transcripts, and what it may
    start. \<open>Agent_Cache\<close>: coherence of the cache. \<open>Agent_Isolation\<close>: what a turn leaves alone.
    \<open>Agent_Reach\<close>: the agent as a state machine of client operations, worker ticks and changes
    of the queue, with invariants by rule induction.
  \<^item> \<open>Workers\<close>, \<open>Worker_Loops\<close>: one tick of each worker (\<open>avs-agent/src/workers.rs\<close>), the loops
    around them and their supervision.
  \<^item> \<open>Http_Routes\<close>, \<open>Http_Server\<close>, \<open>Aether\<close>, \<open>Openapi\<close>: \<open>avs-agent/src/http\<close>: handlers, the route
    table with its layers, the start-up check, the orchestrator's routes and the published
    document; a server step relation whose reachable states stay well-formed.
  \<^item> \<open>Integration\<close>: \<open>avs-integration/src\<close>: connectors, webhook handlers and the run loop.
  \<^item> \<open>Evaluation\<close>: \<open>avs-eval/src\<close>: recorded turns and their mock server, the judge and the
    fixture loader; a recorded judge's turn decides the verdict.

  \<^bold>\<open>What is shown.\<close> The properties state, in this order of weight: that invocations refine an
  abstract turn and gated tools never start unapproved; that transcripts survive interleaving
  and concurrent clients; that decisions are final and foreign sessions untouchable; that a
  suspension resumes with exactly what was pending; that remote tools stand for their originals;
  that an exposed server is authenticated and every request keeps its state well-formed; that
  the caches, queues and stores agree with each other; and bounds, termination and error
  behaviour of the parts. Several properties pin down behaviour that a comment or a test of the
  repository describes otherwise: turns that are never consolidated after pruning, one drained
  session failing the suite across a second boundary, one refused record starving the
  consolidation of other sessions, webhooks that never listen, replies of a child process that
  arrive one call late.

  \<^bold>\<open>Modelling decisions.\<close>
  \<^item> Identifiers are texts, instants are nanoseconds as \<open>int\<close>, time stamps their whole seconds;
    text is ASCII. Integers with a width are \<open>word\<close>s or have their range written out where it
    matters (token counts, retry delays, page limits, \<open>top_k * 4\<close>).
  \<^item> Code outside the repository is a parameter of the definitions that use it: the language
    model, the network, template, regular-expression, YAML and TOML engines, JSON text, the
    keyed hash, float arithmetic, databases' own failures and texts. A property that needs such
    code to read back what it wrote says so as a hypothesis, and its witness supplies a concrete
    codec.
  \<^item> A hash map is an association list; its iteration order is the list's. A record's serde form
    is translated where the sources spell it out.
  \<^item> A panic is a result of its own (\<open>Panics\<close>, \<open>None\<close>, \<open>Panicked\<close>) and unwinds. A task of a
    batch completes in an order that is a parameter.
  \<^item> Endless loops are modelled by their first \<open>k\<close> rounds for every \<open>k\<close>, or by the events that
    reach them; waiting for ever is a result (\<open>Waits\<close>).
  \<^item> The steps of the agent's state machine are whole operations; interleavings inside an
    operation are modelled for the PostgreSQL store and the child's pipes.

  \<^bold>\<open>Not modelled.\<close> Opening pools, sockets and files; tracing and metrics
  (\<open>avs-core/src/metrics.rs\<close>, \<open>avs-logging\<close>), which the logic never reads; the test
  helpers but for the conformance suite; the programs under \<open>examples\<close>, which only wire the crates together; \<open>ToolRegistry::spawn_tool\<close> and
  \<open>SubAgentExecutor::spawn\<close>, detached tasks no part of the program waits for; schema derivation
  and deserialisation by derive macros.
\<close>

end
